(* ===== verification/Prelude.thy ===== *)
theory Prelude
  imports Main "HOL-Library.Word" "HOL-Library.Char_ord" "HOL-Library.List_Lexorder"
begin

text \<open>
  Shared vocabulary of the development.

  \<^item> C++ exceptions as values: \<open>exn\<close> and \<open>'a result\<close>; the guards of the code
    (\<open>require\<close>, loops of guards, sequences of guards).
  \<^item> \<open>std::map\<close> as an association list in key order.
  \<^item> SQL statements on a table: a table is the list of its rows, \<open>UPDATE ... WHERE\<close> is
    \<open>upd_where\<close>, a unique constraint is checked by \<open>insert_unique\<close>, \<open>ORDER BY\<close> is
    \<open>sort_by\<close>, a lookup by a key column is \<open>find_by\<close>.
  \<^item> IEEE doubles as their 64 bits.
\<close>

section \<open>Results and guards\<close>

datatype ErrorCode =
  invalid | not_found | conflict | unauthorized | unavailable | stale | exhausted

text \<open>
  \<open>Error\<close> is the exception class of \<^verbatim>\<open>runyard/domain/error.hpp\<close>; \<open>SqlError\<close> is a
  statement refused by the database (a violated constraint), \<open>JsonError\<close> is \<open>Json::exception\<close>,
  \<open>StdError\<close> every other \<^verbatim>\<open>std::exception\<close>.
\<close>

datatype exn = Error ErrorCode string | SqlError string | JsonError string | StdError string

type_synonym 'a result = "exn + 'a"

abbreviation throw :: "ErrorCode \<Rightarrow> string \<Rightarrow> 'a result" where
  "throw c m \<equiv> Inl (Error c m)"

fun exn_code :: "exn \<Rightarrow> ErrorCode option" where
  "exn_code (Error c m) = Some c"
| "exn_code (SqlError m) = None"
| "exn_code (JsonError m) = None"
| "exn_code (StdError m) = None"

text \<open>What follows a statement that may throw.\<close>

definition andthen :: "'a result \<Rightarrow> ('a \<Rightarrow> 'b result) \<Rightarrow> 'b result" where
  "andthen r f = (case r of Inl e \<Rightarrow> Inl e | Inr v \<Rightarrow> f v)"

definition require :: "bool \<Rightarrow> string \<Rightarrow> unit result" where
  "require condition message = (if condition then Inr () else throw invalid message)"

fun all_of :: "unit result list \<Rightarrow> unit result" where
  "all_of [] = Inr ()"
| "all_of (x # xs) = (case x of Inl e \<Rightarrow> Inl e | Inr _ \<Rightarrow> all_of xs)"

fun for_each :: "('a \<Rightarrow> unit result) \<Rightarrow> 'a list \<Rightarrow> unit result" where
  "for_each f [] = Inr ()"
| "for_each f (x # xs) = (case f x of Inl e \<Rightarrow> Inl e | Inr _ \<Rightarrow> for_each f xs)"

fun map_result :: "('a \<Rightarrow> 'b result) \<Rightarrow> 'a list \<Rightarrow> 'b list result" where
  "map_result f [] = Inr []"
| "map_result f (x # xs) =
     (case f x of Inl e \<Rightarrow> Inl e
      | Inr y \<Rightarrow> (case map_result f xs of Inl e \<Rightarrow> Inl e | Inr ys \<Rightarrow> Inr (y # ys)))"

named_theorems ok_simps "when a guarded computation succeeds"

lemma andthen_simps [simp]: "andthen (Inr v) f = f v" "andthen (Inl e) f = Inl e"
  by (simp_all add: andthen_def)

lemma andthen_ok [ok_simps]: "andthen r f = Inr y \<longleftrightarrow> (\<exists>v. r = Inr v \<and> f v = Inr y)"
  by (cases r) simp_all

lemma andthen_err: "andthen r f = Inl e \<longleftrightarrow> r = Inl e \<or> (\<exists>v. r = Inr v \<and> f v = Inl e)"
  by (cases r) simp_all

lemma require_ok [ok_simps]: "require c m = Inr u \<longleftrightarrow> c"
  by (simp add: require_def)

lemma require_err [ok_simps]: "require c m = Inl e \<longleftrightarrow> \<not> c \<and> e = Error invalid m"
  by (auto simp: require_def)

lemma all_of_ok [ok_simps]: "all_of xs = Inr u \<longleftrightarrow> (\<forall>x\<in>set xs. x = Inr ())"
  by (induction xs) (auto split: sum.splits)

lemma for_each_ok [ok_simps]: "for_each f xs = Inr u \<longleftrightarrow> (\<forall>x\<in>set xs. f x = Inr ())"
  by (induction xs) (auto split: sum.splits)

lemma for_each_err: "for_each f xs = Inl e \<Longrightarrow> \<exists>x\<in>set xs. f x = Inl e"
  by (induction xs) (auto split: sum.splits)

lemma map_result_ok [ok_simps]:
  "map_result f xs = Inr ys \<longleftrightarrow>
     length ys = length xs \<and> (\<forall>i<length xs. f (xs ! i) = Inr (ys ! i))"
proof (induction xs arbitrary: ys)
  case Nil
  then show ?case by auto
next
  case (Cons x xs)
  show ?case
  proof (cases ys)
    case Nil
    then show ?thesis by (auto split: sum.splits)
  next
    case ys: (Cons z zs)
    have "(\<forall>i<length (x # xs). f ((x # xs) ! i) = Inr ((z # zs) ! i)) \<longleftrightarrow>
        f x = Inr z \<and> (\<forall>i<length xs. f (xs ! i) = Inr (zs ! i))"
      by (auto simp: less_Suc_eq_0_disj)
    with Cons.IH[of zs] ys show ?thesis by (auto split: sum.splits)
  qed
qed

text \<open>
  Guards are reasoned about through \<open>ok_simps\<close>; the equations of the two loops are unfolded
  only to evaluate them.
\<close>

declare all_of.simps(2) [simp del] for_each.simps(2) [simp del]

lemmas guard_eval = all_of.simps for_each.simps require_def

section \<open>Ordered maps\<close>

text \<open>\<open>std::map\<close>: pairs in strictly increasing key order.\<close>

type_synonym ('k, 'v) stdmap = "('k \<times> 'v) list"

fun map_put :: "'k::linorder \<Rightarrow> 'v \<Rightarrow> ('k, 'v) stdmap \<Rightarrow> ('k, 'v) stdmap" where
  "map_put k v [] = [(k, v)]"
| "map_put k v ((k', v') # m) =
     (if k < k' then (k, v) # (k', v') # m
      else if k = k' then (k, v) # m
      else (k', v') # map_put k v m)"

fun map_erase :: "'k \<Rightarrow> ('k, 'v) stdmap \<Rightarrow> ('k, 'v) stdmap" where
  "map_erase k [] = []"
| "map_erase k ((k', v') # m) = (if k = k' then m else (k', v') # map_erase k m)"

definition map_contains :: "('k, 'v) stdmap \<Rightarrow> 'k \<Rightarrow> bool" where
  "map_contains m k \<longleftrightarrow> k \<in> fst ` set m"

definition map_wf :: "('k::linorder, 'v) stdmap \<Rightarrow> bool" where
  "map_wf m \<longleftrightarrow> sorted (map fst m) \<and> distinct (map fst m)"

lemma map_wf_Nil [simp]: "map_wf []"
  by (simp add: map_wf_def)

lemma map_wf_Cons [simp]:
  "map_wf ((k, v) # m) \<longleftrightarrow> (\<forall>x\<in>fst ` set m. k < x) \<and> map_wf m"
  by (auto simp: map_wf_def less_le)

lemma fst_set_map_put [simp]: "fst ` set (map_put k v m) = insert k (fst ` set m)"
  by (induction k v m rule: map_put.induct) auto

lemma map_wf_put [simp]: "map_wf m \<Longrightarrow> map_wf (map_put k v m)"
  by (induction k v m rule: map_put.induct) auto

lemma map_of_put [simp]: "map_wf m \<Longrightarrow> map_of (map_put k v m) = (map_of m)(k \<mapsto> v)"
proof (induction k v m rule: map_put.induct)
  case (1 k v)
  then show ?case by simp
next
  case (2 k v k' v' m)
  then show ?case by (auto simp: fun_eq_iff)
qed

lemma set_map_put_subset: "set (map_put k v m) \<subseteq> insert (k, v) (set m)"
  by (induction k v m rule: map_put.induct) auto

lemma length_map_put: "length (map_put k v m) \<le> Suc (length m)"
  by (induction k v m rule: map_put.induct) auto

lemma map_of_erase [simp]: "map_wf m \<Longrightarrow> map_of (map_erase k m) = (map_of m)(k := None)"
proof (induction m)
  case Nil
  then show ?case by simp
next
  case (Cons p m)
  obtain k' v' where p: "p = (k', v')" by (cases p)
  from Cons.prems p have "k' \<notin> fst ` set m" by auto
  then have "map_of m k' = None" by (simp add: map_of_eq_None_iff)
  with Cons p show ?case by (auto simp: fun_eq_iff)
qed

lemma set_map_erase: "set (map_erase k m) \<subseteq> set m"
  by (induction k m rule: map_erase.induct) auto

lemma map_wf_erase [simp]: "map_wf m \<Longrightarrow> map_wf (map_erase k m)"
proof (induction m)
  case Nil
  then show ?case by simp
next
  case (Cons p m)
  obtain k' v' where p: "p = (k', v')" by (cases p)
  have "k' < fst x" if "x \<in> set (map_erase k m)" for x
    using that Cons.prems p set_map_erase[of k m] by auto
  with Cons p show ?case by auto
qed

lemma map_contains_iff [simp]: "map_contains m k \<longleftrightarrow> map_of m k \<noteq> None"
  by (simp add: map_contains_def map_of_eq_None_iff)

text \<open>Two ordered maps with the same bindings are the same list.\<close>

lemma map_wf_ext:
  assumes "map_wf m" and "map_wf n" and "map_of m = map_of n"
  shows "m = n"
proof -
  from assms have eq: "set m = set n"
    by (simp add: map_wf_def map_of_inject_set)
  from assms(1) have "inj_on fst (set m \<union> set n)"
    unfolding eq[symmetric] by (simp add: map_wf_def distinct_map)
  then show ?thesis
    using assms(1,2) eq by (auto simp: map_wf_def intro: map_sorted_distinct_set_unique)
qed

section \<open>SQL tables\<close>

definition upd_where :: "('r \<Rightarrow> bool) \<Rightarrow> ('r \<Rightarrow> 'r) \<Rightarrow> 'r list \<Rightarrow> 'r list" where
  "upd_where P f = map (\<lambda>r. if P r then f r else r)"

definition insert_unique :: "('r \<Rightarrow> 'k) \<Rightarrow> string \<Rightarrow> 'r \<Rightarrow> 'r list \<Rightarrow> 'r list result" where
  "insert_unique key constraint row rows =
     (if key row \<in> key ` set rows then Inl (SqlError constraint) else Inr (rows @ [row]))"

text \<open>
  \<open>ORDER BY\<close> with a comparison that says when one row may stand before another; rows that
  compare equal keep the table's order.
\<close>

fun insert_by :: "('r \<Rightarrow> 'r \<Rightarrow> bool) \<Rightarrow> 'r \<Rightarrow> 'r list \<Rightarrow> 'r list" where
  "insert_by le x [] = [x]"
| "insert_by le x (y # ys) = (if le x y then x # y # ys else y # insert_by le x ys)"

fun sort_by :: "('r \<Rightarrow> 'r \<Rightarrow> bool) \<Rightarrow> 'r list \<Rightarrow> 'r list" where
  "sort_by le [] = []"
| "sort_by le (x # xs) = insert_by le x (sort_by le xs)"

lemma set_insert_by [simp]: "set (insert_by le x ys) = insert x (set ys)"
  by (induction ys) auto

lemma set_sort_by [simp]: "set (sort_by le xs) = set xs"
  by (induction xs) auto

lemma length_insert_by [simp]: "length (insert_by le x ys) = Suc (length ys)"
  by (induction ys) auto

lemma length_sort_by [simp]: "length (sort_by le xs) = length xs"
  by (induction xs) auto

lemma distinct_insert_by: "distinct (map f (insert_by le x ys)) \<longleftrightarrow>
    f x \<notin> f ` set ys \<and> distinct (map f ys)"
  by (induction ys) auto

lemma distinct_sort_by [simp]: "distinct (map f (sort_by le xs)) \<longleftrightarrow> distinct (map f xs)"
  by (induction xs) (auto simp: distinct_insert_by)

lemma sorted_wrt_insert_by:
  assumes total: "\<And>a b. le a b \<or> le b a"
    and trans: "\<And>a b c. le a b \<Longrightarrow> le b c \<Longrightarrow> le a c"
  shows "sorted_wrt le ys \<Longrightarrow> sorted_wrt le (insert_by le x ys)"
proof (induction ys)
  case Nil
  then show ?case by simp
next
  case (Cons y ys)
  show ?case
  proof (cases "le x y")
    case True
    moreover have "le x z" if "z \<in> set ys" for z
      using trans[OF True] that Cons.prems by simp
    ultimately show ?thesis using Cons.prems by simp
  next
    case False
    with total have "le y x" by blast
    with False Cons show ?thesis by simp
  qed
qed

lemma sorted_wrt_sort_by:
  assumes "\<And>a b. le a b \<or> le b a" and "\<And>a b c. le a b \<Longrightarrow> le b c \<Longrightarrow> le a c"
  shows "sorted_wrt le (sort_by le xs)"
proof (induction xs)
  case Nil
  then show ?case by simp
next
  case (Cons x xs)
  from sorted_wrt_insert_by[of le, OF assms this] show ?case by simp
qed

lemma sort_by_eq_Nil [simp]: "sort_by le xs = [] \<longleftrightarrow> xs = []"
  by (metis length_0_conv length_sort_by)

lemma sort_by_head:
  assumes "\<And>a b. le a b \<or> le b a" and "\<And>a b c. le a b \<Longrightarrow> le b c \<Longrightarrow> le a c"
    and "sort_by le xs = x # ys" and "y \<in> set xs"
  shows "le x y"
proof -
  have "sorted_wrt le (x # ys)"
    using sorted_wrt_sort_by[of le xs, OF assms(1,2)] assms(3) by simp
  moreover have "y = x \<or> y \<in> set ys"
    using assms(3,4) set_sort_by[of le xs] by auto
  ultimately show ?thesis using assms(1)[of x x] by auto
qed

text \<open>Rows of an updated table.\<close>

lemma upd_where_Nil [simp]: "upd_where P f [] = []"
  by (simp add: upd_where_def)

lemma upd_where_Cons [simp]:
  "upd_where P f (x # xs) = (if P x then f x else x) # upd_where P f xs"
  by (simp add: upd_where_def)

lemma length_upd_where [simp]: "length (upd_where P f xs) = length xs"
  by (simp add: upd_where_def)

lemma set_upd_where: "set (upd_where P f xs) = (\<lambda>r. if P r then f r else r) ` set xs"
  by (simp add: upd_where_def)

lemma map_upd_where_id:
  "(\<And>r. r \<in> set xs \<Longrightarrow> P r \<Longrightarrow> g (f r) = g r) \<Longrightarrow> map g (upd_where P f xs) = map g xs"
  by (induction xs) auto

lemma filter_upd_where:
  "(\<And>r. P r \<Longrightarrow> Q (f r) = Q r) \<Longrightarrow> filter Q (upd_where P f xs) = upd_where P f (filter Q xs)"
  by (induction xs) auto

lemma insert_unique_ok [ok_simps]:
  "insert_unique key c row rows = Inr rows' \<longleftrightarrow>
     key row \<notin> key ` set rows \<and> rows' = rows @ [row]"
  by (auto simp: insert_unique_def)

lemma insert_unique_err [ok_simps]:
  "insert_unique key c row rows = Inl e \<longleftrightarrow> key row \<in> key ` set rows \<and> e = SqlError c"
  by (auto simp: insert_unique_def)

text \<open>
  Lookups by a key column (\<open>SELECT ... WHERE id=$1\<close>, first row): what a lookup returns
  after an update of any rows that leaves their keys alone, and after an insertion.
\<close>

definition find_by :: "('r \<Rightarrow> 'k) \<Rightarrow> 'r list \<Rightarrow> 'k \<Rightarrow> 'r option" where
  "find_by key rows k = List.find (\<lambda>r. key r = k) rows"

lemma find_by_Nil [simp]: "find_by key [] k = None"
  by (simp add: find_by_def)

lemma find_by_Cons: "find_by key (r # rs) k = (if key r = k then Some r else find_by key rs k)"
  by (simp add: find_by_def)

lemma find_by_key: "find_by key rows k = Some r \<Longrightarrow> key r = k"
  by (induction rows) (auto simp: find_by_Cons split: if_splits)

lemma find_by_mem: "find_by key rows k = Some r \<Longrightarrow> r \<in> set rows"
  by (induction rows) (auto simp: find_by_Cons split: if_splits)

lemma find_by_None: "find_by key rows k = None \<longleftrightarrow> k \<notin> key ` set rows"
  by (induction rows) (auto simp: find_by_Cons)

lemma find_by_upd_where:
  assumes "\<And>r. P r \<Longrightarrow> key (f r) = key r"
  shows "find_by key (upd_where P f rows) k =
    map_option (\<lambda>r. if P r then f r else r) (find_by key rows k)"
  by (induction rows) (auto simp: find_by_Cons assms)

lemma find_by_upd_key:
  assumes "\<And>r. key (f r) = key r"
  shows "find_by key (upd_where (\<lambda>r. key r = k) f rows) i =
    (if i = k then map_option f (find_by key rows i) else find_by key rows i)"
  by (induction rows) (auto simp: find_by_Cons assms)

lemma find_by_append:
  "find_by key (rows @ rows') k =
     (case find_by key rows k of None \<Rightarrow> find_by key rows' k | Some r \<Rightarrow> Some r)"
  by (induction rows) (auto simp: find_by_Cons)

lemma find_by_insert_unique:
  assumes "insert_unique key c r rows = Inr rows'"
  shows "find_by key rows' k = (if k = key r then Some r else find_by key rows k)"
proof -
  from assms have new: "find_by key rows (key r) = None" and rows': "rows' = rows @ [r]"
    by (auto simp: ok_simps find_by_None)
  show ?thesis
    using new by (auto simp: rows' find_by_append find_by_Cons split: option.splits)
qed

lemma find_by_of_mem:
  "distinct (map key rows) \<Longrightarrow> r \<in> set rows \<Longrightarrow> find_by key rows (key r) = Some r"
  by (induction rows) (auto simp: find_by_Cons image_iff)

lemma distinct_upd_where:
  assumes "\<And>r. P r \<Longrightarrow> key (f r) = key r"
  shows "distinct (map key (upd_where P f rows)) \<longleftrightarrow> distinct (map key rows)"
  using assms by (subst map_upd_where_id) auto

lemma distinct_insert_unique:
  "insert_unique key c r rows = Inr rows' \<Longrightarrow> distinct (map key rows) \<Longrightarrow> distinct (map key rows')"
  by (auto simp: ok_simps)

section \<open>Machine values\<close>

text \<open>An IEEE double is its 64 bits; it is finite unless its exponent bits are all ones.\<close>

type_synonym double = "64 word"

definition isfinite :: "double \<Rightarrow> bool" where
  "isfinite d \<longleftrightarrow> take_bit 11 (drop_bit 52 d) \<noteq> mask 11"

abbreviation INT_MAX :: int where "INT_MAX \<equiv> 2147483647"
abbreviation INT_MIN :: int where "INT_MIN \<equiv> -2147483648"
abbreviation INT64_MAX :: int where "INT64_MAX \<equiv> 9223372036854775807"

definition clamp :: "int \<Rightarrow> int \<Rightarrow> int \<Rightarrow> int" where
  "clamp v lo hi = (if v < lo then lo else if hi < v then hi else v)"

text \<open>Timestamps are instants in microseconds, the resolution of \<open>timestamptz\<close>.\<close>

definition seconds :: "int \<Rightarrow> int" where
  "seconds n = n * 1000000"

lemma seconds_mono [simp]: "seconds a \<le> seconds b \<longleftrightarrow> a \<le> b"
  by (simp add: seconds_def)

lemma seconds_less [simp]: "seconds a < seconds b \<longleftrightarrow> a < b"
  by (simp add: seconds_def)

text \<open>\<open>std::to_string\<close> on integers.\<close>

fun show_nat :: "nat \<Rightarrow> string" where
  "show_nat n =
     (if n < 10 then [char_of (48 + n)] else show_nat (n div 10) @ [char_of (48 + n mod 10)])"

declare show_nat.simps [simp del]

definition show_int :: "int \<Rightarrow> string" where
  "show_int i = (if i < 0 then ''-'' @ show_nat (nat (- i)) else show_nat (nat i))"

text \<open>Reading an SQL integer into a C++ \<open>int\<close> (\<open>as<int>()\<close>) throws outside its range.\<close>

definition as_int :: "int \<Rightarrow> int result" where
  "as_int x = (if INT_MIN \<le> x \<and> x \<le> INT_MAX then Inr x else Inl (StdError ''conversion to int''))"

end
