(* ===== verification/Domain.thy ===== *)
theory Domain
  imports Prelude
begin

text \<open>
  The domain layer: \<^verbatim>\<open>include/runyard/domain/model.hpp\<close>, \<^verbatim>\<open>src/domain/model.cpp\<close> and
  \<^verbatim>\<open>src/domain/capacity.cpp\<close>. Data types of the coordinator, the run life cycle
  (\<open>transition_allowed\<close>), the retry policy, the validation of specifications, telemetry and
  artifact paths, and the expansion of a parameter sweep.
\<close>

section \<open>Data types\<close>

type_synonym uint64 = "64 word"

text \<open>\<open>Scalar = std::variant<nullptr_t, bool, int64_t, double, string>\<close>.\<close>

datatype Scalar = SNull | SBool bool | SInt int | SDouble double | SString string

type_synonym Parameters = "(string, Scalar) stdmap"

datatype RunStatus =
  queued | starting | running | finalizing | retry_wait | succeeded | failed | cancelled

text \<open>\<open>Failure::cancelled\<close> is written \<open>user_cancelled\<close>, apart from \<open>RunStatus::cancelled\<close>.\<close>

datatype Failure = infrastructure | exit_error | timeout | user_cancelled

record Resources =
  cpu_millis :: int
  memory_mib :: int
  gpu_count :: int

record GpuDevice =
  gd_uuid :: string
  gd_name :: string
  gd_memory_mib :: uint64
  gd_eligible :: bool
  gd_reason :: string

record GpuRegistration =
  reg_engine_id :: string
  reg_capable :: bool

record GpuSnapshot =
  snap_sequence :: int
  snap_ready :: bool
  snap_devices :: "GpuDevice list"

text \<open>
  Timestamps that the code carries as the text PostgreSQL prints are kept as instants;
  \<open>None\<close> stands for the empty string of a NULL column.
\<close>

record GpuAllocation =
  al_device :: GpuDevice
  al_allocated_at :: "int option"
  al_released_at :: "int option"

record RetryPolicy =
  max_attempts :: int
  retry_exit :: bool
  retry_timeout :: bool

record RunSpec =
  spec_version :: int
  spec_name :: string
  spec_image :: string
  spec_command :: "string list"
  spec_parameters :: Parameters
  spec_environment :: "(string, string) stdmap"
  spec_labels :: "(string, string) stdmap"
  spec_resources :: Resources
  spec_retry :: RetryPolicy
  spec_timeout_seconds :: int
  spec_priority :: int
  spec_source_repository :: string
  spec_source_revision :: string

type_synonym ParameterGrid = "(string, Scalar list) stdmap"

record SweepSpec =
  sweep_base :: RunSpec
  sweep_grid :: ParameterGrid

record Sweep =
  sw_id :: string
  sw_spec :: SweepSpec
  sw_run_ids :: "string list"
  sw_created_at :: "int option"

record Run =
  run_id :: string
  run_spec :: RunSpec
  run_status :: RunStatus
  run_generation :: int
  run_active_attempt :: string
  run_sweep_id :: string
  run_parent_run_id :: string
  run_created_at :: "int option"
  run_updated_at :: "int option"

record Attempt =
  att_id :: string
  att_run_id :: string
  att_generation :: int
  att_worker_id :: string
  att_instance_id :: string
  att_status :: string
  att_reason :: string
  att_exit_code :: "int option"
  att_runtime_id :: string
  att_cleanup_status :: string
  att_created_at :: "int option"
  att_started_at :: "int option"
  att_finished_at :: "int option"
  att_acknowledged_sequence :: int
  att_gpu_count :: int
  att_node_name :: string
  att_gpu_allocations :: "GpuAllocation list"

record Assignment =
  asg_attempt :: Attempt
  asg_spec :: RunSpec

record Worker =
  wk_id :: string
  wk_session :: string
  wk_capacity :: Resources
  wk_reserved :: Resources
  wk_drained :: bool
  wk_available :: bool
  wk_heartbeat_at :: "int option"
  wk_engine_id :: string
  wk_gpu_ready :: bool
  wk_gpu_fresh :: bool
  wk_gpu_observed_at :: "int option"
  wk_gpu_devices :: "GpuDevice list"
  wk_gpu_capable :: bool
  wk_available_gpus :: int

record Telemetry =
  t_sequence :: int
  t_kind :: string
  t_text :: string
  t_name :: string
  t_step :: int
  t_value :: double
  t_timestamp_ms :: int

record Event =
  ev_sequence :: int
  ev_kind :: string
  ev_detail :: string
  ev_created_at :: "int option"

record Artifact =
  art_id :: string
  art_attempt_id :: string
  art_path :: string
  art_storage_key :: string
  art_sha256 :: string
  art_size :: uint64

record Timing =
  heartbeat_seconds :: int
  lease_seconds :: int
  worker_seconds :: int
  launch_seconds :: int
  retry_base_seconds :: int
  termination_seconds :: int
  finalization_seconds :: int
  retry_max_seconds :: int
  recovery_scan_millis :: int

definition default_Timing :: Timing where
  "default_Timing = \<lparr>heartbeat_seconds = 5, lease_seconds = 30, worker_seconds = 15,
     launch_seconds = 300, retry_base_seconds = 5, termination_seconds = 10,
     finalization_seconds = 300, retry_max_seconds = 60, recovery_scan_millis = 1000\<rparr>"

section \<open>Run life cycle\<close>

definition statuses :: "string list" where
  "statuses = [''QUEUED'', ''STARTING'', ''RUNNING'', ''FINALIZING'',
               ''RETRY_WAIT'', ''SUCCEEDED'', ''FAILED'', ''CANCELLED'']"

text \<open>\<open>static_cast<std::size_t>(status)\<close> and \<open>static_cast<RunStatus>(index)\<close>.\<close>

definition run_statuses :: "RunStatus list" where
  "run_statuses = [queued, starting, running, finalizing, retry_wait, succeeded, failed, cancelled]"

fun status_index :: "RunStatus \<Rightarrow> nat" where
  "status_index queued = 0"
| "status_index starting = 1"
| "status_index running = 2"
| "status_index finalizing = 3"
| "status_index retry_wait = 4"
| "status_index succeeded = 5"
| "status_index failed = 6"
| "status_index cancelled = 7"

definition to_string :: "RunStatus \<Rightarrow> string" where
  "to_string status = statuses ! status_index status"

text \<open>\<open>std::find\<close> followed by \<open>std::distance\<close>: the index of the first match.\<close>

fun index_of :: "'a \<Rightarrow> 'a list \<Rightarrow> nat option" where
  "index_of x [] = None"
| "index_of x (y # ys) = (if y = x then Some 0 else map_option Suc (index_of x ys))"

definition parse_status :: "string \<Rightarrow> RunStatus result" where
  "parse_status value =
     (case index_of value statuses of
        None \<Rightarrow> throw invalid (''unknown run status: '' @ value)
      | Some i \<Rightarrow> Inr (run_statuses ! i))"

definition terminal :: "RunStatus \<Rightarrow> bool" where
  "terminal status \<longleftrightarrow> status = succeeded \<or> status = failed \<or> status = cancelled"

definition transition_allowed :: "RunStatus \<Rightarrow> RunStatus \<Rightarrow> bool" where
  "transition_allowed from to =
     (if terminal from then False
      else if to = cancelled then True
      else case from of
        queued \<Rightarrow> to = starting
      | starting \<Rightarrow> to = running \<or> to = retry_wait \<or> to = failed
      | running \<Rightarrow> to = finalizing \<or> to = retry_wait \<or> to = failed
      | finalizing \<Rightarrow> to = succeeded \<or> to = retry_wait \<or> to = failed
      | retry_wait \<Rightarrow> to = queued
      | _ \<Rightarrow> False)"

definition fits :: "Resources \<Rightarrow> Resources \<Rightarrow> bool" where
  "fits wanted available \<longleftrightarrow>
     cpu_millis wanted \<le> cpu_millis available \<and> memory_mib wanted \<le> memory_mib available \<and>
     gpu_count wanted \<le> gpu_count available"

lemma index_of_Some: "index_of x xs = Some i \<Longrightarrow> i < length xs \<and> xs ! i = x"
  by (induction xs arbitrary: i) (auto split: if_splits)

lemma to_string_simps [simp]:
  "to_string queued = ''QUEUED''" "to_string starting = ''STARTING''"
  "to_string running = ''RUNNING''" "to_string finalizing = ''FINALIZING''"
  "to_string retry_wait = ''RETRY_WAIT''" "to_string succeeded = ''SUCCEEDED''"
  "to_string failed = ''FAILED''" "to_string cancelled = ''CANCELLED''"
  by (simp_all add: to_string_def statuses_def)

lemma to_string_inject [simp]: "to_string a = to_string b \<longleftrightarrow> a = b"
  by (cases a; cases b; simp)

lemma parse_to_string: "parse_status (to_string s) = Inr s"
  by (cases s) (simp_all add: parse_status_def statuses_def run_statuses_def)

lemma parse_status_ok: "parse_status v = Inr s \<Longrightarrow> v = to_string s"
proof -
  assume "parse_status v = Inr s"
  then obtain i where i: "index_of v statuses = Some i" and s: "s = run_statuses ! i"
    by (auto simp: parse_status_def split: option.splits)
  from index_of_Some[OF i] have "i < 8" "v = statuses ! i" by (auto simp: statuses_def)
  moreover from \<open>i < 8\<close> have "i \<in> {0,1,2,3,4,5,6,7}" by auto
  ultimately show "v = to_string s"
    by (auto simp: s run_statuses_def statuses_def)
qed

lemma transition_not_terminal: "transition_allowed a b \<Longrightarrow> \<not> terminal a"
  by (simp add: transition_allowed_def split: if_splits)

text \<open>The statuses in which an attempt holds the run.\<close>

definition executing :: "RunStatus \<Rightarrow> bool" where
  "executing s \<longleftrightarrow> s = starting \<or> s = running \<or> s = finalizing"

lemma executing_not_terminal: "executing s \<Longrightarrow> \<not> terminal s"
  by (auto simp: executing_def terminal_def)

section \<open>Retry policy\<close>

definition should_retry :: "RetryPolicy \<Rightarrow> int \<Rightarrow> Failure \<Rightarrow> bool" where
  "should_retry policy completed_attempts reason =
     (if completed_attempts \<ge> max_attempts policy \<or> reason = user_cancelled then False
      else reason = infrastructure \<or> (reason = exit_error \<and> retry_exit policy) \<or>
           (reason = timeout \<and> retry_timeout policy))"

text \<open>
  \<open>int64_t\<close> arithmetic: the clamp keeps the shift below 31, so that the product of an
  \<open>int\<close> and the factor stays below \<open>2 ^ 61\<close> (\<open>retry_delay_no_overflow\<close>).
\<close>

definition retry_factor :: "int \<Rightarrow> int" where
  "retry_factor generation = 2 ^ nat (clamp generation 1 31 - 1)"

definition retry_delay :: "int \<Rightarrow> int \<Rightarrow> int \<Rightarrow> int" where
  "retry_delay generation base_seconds max_seconds =
     min (max 1 max_seconds) (max 1 base_seconds * retry_factor generation)"

section \<open>Validation\<close>

definition safe_string :: "string \<Rightarrow> bool" where
  "safe_string value \<longleftrightarrow> CHR 0x00 \<notin> set value"

definition char_between :: "char \<Rightarrow> char \<Rightarrow> char \<Rightarrow> bool" where
  "char_between lo hi c \<longleftrightarrow> lo \<le> c \<and> c \<le> hi"

definition is_lower :: "char \<Rightarrow> bool" where "is_lower = char_between CHR ''a'' CHR ''z''"
definition is_upper :: "char \<Rightarrow> bool" where "is_upper = char_between CHR ''A'' CHR ''Z''"
definition is_digit :: "char \<Rightarrow> bool" where "is_digit = char_between CHR ''0'' CHR ''9''"
definition is_alnum :: "char \<Rightarrow> bool" where
  "is_alnum c \<longleftrightarrow> is_lower c \<or> is_upper c \<or> is_digit c"
definition is_lower_hex :: "char \<Rightarrow> bool" where
  "is_lower_hex c \<longleftrightarrow> char_between CHR ''a'' CHR ''f'' c \<or> is_digit c"

definition image_char :: "char \<Rightarrow> bool" where
  "image_char c \<longleftrightarrow> is_alnum c \<or> c \<in> set ''._:/-''"

text \<open>
  \<^verbatim>\<open>^[a-zA-Z0-9][a-zA-Z0-9._:/-]*@sha256:[a-f0-9]{64}$\<close>: the last 72 characters are the
  digest part, what stands before it is the name (\<open>image_regex_iff\<close>).
\<close>

definition image_regex :: "string \<Rightarrow> bool" where
  "image_regex s \<longleftrightarrow>
     72 < length s \<and>
     (let name = take (length s - 72) s; digest = drop (length s - 72) s in
        is_alnum (hd name) \<and> list_all image_char (tl name) \<and>
        take 8 digest = ''@sha256:'' \<and> list_all is_lower_hex (drop 8 digest))"

text \<open>\<^verbatim>\<open>^[A-Za-z_][A-Za-z0-9_]*$\<close>.\<close>

fun env_name_regex :: "string \<Rightarrow> bool" where
  "env_name_regex [] = False"
| "env_name_regex (c # cs) =
     ((is_lower c \<or> is_upper c \<or> c = CHR ''_'') \<and>
      list_all (\<lambda>d. is_alnum d \<or> d = CHR ''_'') cs)"

definition starts_with :: "string \<Rightarrow> string \<Rightarrow> bool" where
  "starts_with s p \<longleftrightarrow> take (length p) s = p"

definition check_label :: "string \<times> string \<Rightarrow> unit result" where
  "check_label kv = (case kv of (key, value) \<Rightarrow>
     require (key \<noteq> [] \<and> length key \<le> 200 \<and> length value \<le> 1024 \<and> safe_string key \<and>
              safe_string value) ''invalid label'')"

definition check_environment :: "string \<times> string \<Rightarrow> unit result" where
  "check_environment kv = (case kv of (key, value) \<Rightarrow> all_of [
     require (env_name_regex key \<and> \<not> starts_with key ''RUNYARD_'')
       ''invalid or reserved environment name'',
     require (length value \<le> 16384 \<and> safe_string value) ''invalid environment value''])"

definition check_parameter :: "string \<times> Scalar \<Rightarrow> unit result" where
  "check_parameter kv = (case kv of (key, value) \<Rightarrow> all_of [
     require (key \<noteq> [] \<and> length key \<le> 200 \<and> safe_string key) ''invalid parameter name'',
     (case value of SDouble number \<Rightarrow> require (isfinite number) ''parameter must be finite''
      | _ \<Rightarrow> Inr ()),
     (case value of SString text \<Rightarrow>
        require (length text \<le> 16384 \<and> safe_string text) ''invalid parameter value''
      | _ \<Rightarrow> Inr ())])"

definition validate :: "RunSpec \<Rightarrow> unit result" where
  "validate spec = all_of [
     require (spec_version spec = 1) ''specification version must be 1'',
     require (spec_name spec \<noteq> [] \<and> length (spec_name spec) \<le> 200 \<and> safe_string (spec_name spec))
       ''invalid run name'',
     require (length (spec_image spec) \<le> 1024 \<and> image_regex (spec_image spec))
       ''image must be pinned with @sha256:<64 lowercase hex digits>'',
     require (spec_command spec \<noteq> [] \<and> length (spec_command spec) \<le> 256 \<and>
              hd (spec_command spec) \<noteq> []) ''command must be a nonempty argv array'',
     for_each (\<lambda>arg. require (length arg \<le> 16384 \<and> safe_string arg) ''invalid command argument'')
       (spec_command spec),
     require (0 < cpu_millis (spec_resources spec) \<and> cpu_millis (spec_resources spec) \<le> 1000000)
       ''cpu_millis out of range'',
     require (32 \<le> memory_mib (spec_resources spec) \<and> memory_mib (spec_resources spec) \<le> 1048576)
       ''memory_mib out of range'',
     require (0 \<le> gpu_count (spec_resources spec) \<and> gpu_count (spec_resources spec) \<le> 64)
       ''gpu_count must be between 0 and 64'',
     require (0 < spec_timeout_seconds spec \<and> spec_timeout_seconds spec \<le> 604800)
       ''timeout_seconds must be between 1 and 604800'',
     require (0 \<le> spec_priority spec \<and> spec_priority spec \<le> 9)
       ''priority must be between 0 and 9'',
     require (1 \<le> max_attempts (spec_retry spec) \<and> max_attempts (spec_retry spec) \<le> 10)
       ''max_attempts must be between 1 and 10'',
     require (length (spec_parameters spec) \<le> 100 \<and> length (spec_labels spec) \<le> 50 \<and>
              length (spec_environment spec) \<le> 100) ''too many specification fields'',
     require (length (spec_source_repository spec) \<le> 2048 \<and> safe_string (spec_source_repository spec) \<and>
              length (spec_source_revision spec) \<le> 200 \<and> safe_string (spec_source_revision spec))
       ''invalid source metadata'',
     for_each check_label (spec_labels spec),
     for_each check_environment (spec_environment spec),
     for_each check_parameter (spec_parameters spec)]"

definition validate_submission :: "RunSpec \<Rightarrow> unit result" where
  "validate_submission spec = all_of [
     validate spec,
     for_each (\<lambda>name. require (\<not> map_contains (spec_environment spec) name)
         ''NVIDIA exposure is controlled by Runyard'')
       [''NVIDIA_VISIBLE_DEVICES'', ''NVIDIA_DRIVER_CAPABILITIES'']]"

definition validate_telemetry :: "Telemetry \<Rightarrow> unit result" where
  "validate_telemetry point = all_of [
     require (0 < t_sequence point) ''telemetry sequence must be positive'',
     require (t_kind point = ''stdout'' \<or> t_kind point = ''stderr'' \<or> t_kind point = ''metric'' \<or>
              t_kind point = ''notice'') ''unknown telemetry kind'',
     require (length (t_text point) \<le> 65536 \<and> safe_string (t_text point))
       ''log record exceeds 64 KiB'',
     (if t_kind point = ''metric'' then all_of [
        require (t_name point \<noteq> [] \<and> length (t_name point) \<le> 200 \<and> safe_string (t_name point))
          ''invalid metric name'',
        require (isfinite (t_value point) \<and> 0 \<le> t_step point) ''invalid metric value or step'']
      else Inr ())]"

text \<open>
  The loop of \<open>validate_relative_path\<close>: \<open>rest\<close> is the path from \<open>begin\<close> on; the part is
  what stands before the next slash.
\<close>

definition safe_part :: "string \<Rightarrow> bool" where
  "safe_part part \<longleftrightarrow> part \<noteq> [] \<and> part \<noteq> ''.'' \<and> part \<noteq> ''..''"

function check_parts :: "string \<Rightarrow> unit result" where
  "check_parts rest =
     (let part = takeWhile (\<lambda>c. c \<noteq> CHR ''/'') rest;
          after = dropWhile (\<lambda>c. c \<noteq> CHR ''/'') rest
      in case require (safe_part part) ''artifact path contains an unsafe component'' of
           Inl e \<Rightarrow> Inl e
         | Inr _ \<Rightarrow> (case after of [] \<Rightarrow> Inr () | _ # next \<Rightarrow> check_parts next))"
  by pat_completeness auto
termination
proof (relation "measure length", goal_cases)
  case 1
  then show ?case by simp
next
  case (2 rest part after u c "next")
  have "length (c # next) \<le> length rest" using 2 by (metis length_dropWhile_le)
  then show ?case by simp
qed

declare check_parts.simps [simp del]

definition validate_relative_path :: "string \<Rightarrow> unit result" where
  "validate_relative_path path = all_of [
     require (path \<noteq> [] \<and> length path \<le> 1024 \<and> hd path \<noteq> CHR ''/'' \<and> safe_string path)
       ''invalid artifact path'',
     require (CHR 0x5C \<notin> set path) ''artifact paths use forward slashes'',
     check_parts path]"


section \<open>Facts used by the components\<close>

lemma validate_ok_iff:
  "validate spec = Inr u \<longleftrightarrow>
     spec_version spec = 1 \<and>
     (spec_name spec \<noteq> [] \<and> length (spec_name spec) \<le> 200 \<and> safe_string (spec_name spec)) \<and>
     (length (spec_image spec) \<le> 1024 \<and> image_regex (spec_image spec)) \<and>
     (spec_command spec \<noteq> [] \<and> length (spec_command spec) \<le> 256 \<and> hd (spec_command spec) \<noteq> []) \<and>
     (\<forall>arg\<in>set (spec_command spec). length arg \<le> 16384 \<and> safe_string arg) \<and>
     (0 < cpu_millis (spec_resources spec) \<and> cpu_millis (spec_resources spec) \<le> 1000000) \<and>
     (32 \<le> memory_mib (spec_resources spec) \<and> memory_mib (spec_resources spec) \<le> 1048576) \<and>
     (0 \<le> gpu_count (spec_resources spec) \<and> gpu_count (spec_resources spec) \<le> 64) \<and>
     (0 < spec_timeout_seconds spec \<and> spec_timeout_seconds spec \<le> 604800) \<and>
     (0 \<le> spec_priority spec \<and> spec_priority spec \<le> 9) \<and>
     (1 \<le> max_attempts (spec_retry spec) \<and> max_attempts (spec_retry spec) \<le> 10) \<and>
     (length (spec_parameters spec) \<le> 100 \<and> length (spec_labels spec) \<le> 50 \<and>
      length (spec_environment spec) \<le> 100) \<and>
     (length (spec_source_repository spec) \<le> 2048 \<and> safe_string (spec_source_repository spec) \<and>
      length (spec_source_revision spec) \<le> 200 \<and> safe_string (spec_source_revision spec)) \<and>
     (\<forall>kv\<in>set (spec_labels spec). check_label kv = Inr ()) \<and>
     (\<forall>kv\<in>set (spec_environment spec). check_environment kv = Inr ()) \<and>
     (\<forall>kv\<in>set (spec_parameters spec). check_parameter kv = Inr ())"
  unfolding validate_def ok_simps by (simp add: ok_simps)

lemma validate_submission_ok:
  "validate_submission spec = Inr u \<longleftrightarrow> validate spec = Inr () \<and>
     \<not> map_contains (spec_environment spec) ''NVIDIA_VISIBLE_DEVICES'' \<and>
     \<not> map_contains (spec_environment spec) ''NVIDIA_DRIVER_CAPABILITIES''"
  by (simp add: validate_submission_def ok_simps)

lemma validate_telemetry_ok:
  "validate_telemetry point = Inr u \<Longrightarrow> 0 < t_sequence point \<and>
     t_kind point \<in> {''stdout'', ''stderr'', ''metric'', ''notice''} \<and>
     (t_kind point = ''metric'' \<longrightarrow> isfinite (t_value point) \<and> 0 \<le> t_step point)"
  by (auto simp: validate_telemetry_def ok_simps)

text \<open>Every guard of the validators throws \<open>invalid\<close>.\<close>

definition throws_invalid :: "'a result \<Rightarrow> bool" where
  "throws_invalid r \<longleftrightarrow> (\<forall>e. r = Inl e \<longrightarrow> (\<exists>m. e = Error invalid m))"

lemma throws_invalid_require [simp]: "throws_invalid (require c m)"
  by (simp add: throws_invalid_def require_def)

lemma throws_invalid_Inr [simp]: "throws_invalid (Inr x)"
  by (simp add: throws_invalid_def)

lemma throws_invalid_all_of: "(\<And>x. x \<in> set xs \<Longrightarrow> throws_invalid x) \<Longrightarrow> throws_invalid (all_of xs)"
  unfolding throws_invalid_def by (induction xs) (auto simp: all_of.simps split: sum.splits)

lemma throws_invalid_for_each: "(\<And>x. throws_invalid (f x)) \<Longrightarrow> throws_invalid (for_each f xs)"
  unfolding throws_invalid_def by (auto dest!: for_each_err)

lemma throws_invalid_validate: "throws_invalid (validate spec)"
  unfolding validate_def
  by (rule throws_invalid_all_of)
    (auto simp: check_label_def check_environment_def check_parameter_def
      intro!: throws_invalid_for_each throws_invalid_all_of split: prod.splits Scalar.splits)

lemma throws_invalid_validate_submission: "throws_invalid (validate_submission spec)"
  unfolding validate_submission_def
  by (rule throws_invalid_all_of)
    (auto simp: throws_invalid_validate intro!: throws_invalid_for_each throws_invalid_all_of)

subsection \<open>Image references\<close>

lemma image_char_no_at: "image_char c \<Longrightarrow> c \<noteq> CHR ''@''"
  by (auto simp: image_char_def is_alnum_def is_lower_def is_upper_def is_digit_def
      char_between_def less_eq_char_def)

lemma image_regex_iff:
  "image_regex s \<longleftrightarrow>
     (\<exists>c name digest. s = c # name @ ''@sha256:'' @ digest \<and> is_alnum c \<and>
        list_all image_char name \<and> length digest = 64 \<and> list_all is_lower_hex digest)"
    (is "_ \<longleftrightarrow> ?R")
proof
  assume s: "image_regex s"
  define name where "name = take (length s - 72) s"
  define digest where "digest = drop (length s - 72) s"
  from s have len: "72 < length s" by (simp add: image_regex_def)
  then have "name \<noteq> []" by (auto simp: name_def)
  moreover have "digest = ''@sha256:'' @ drop 8 digest"
    using s by (metis image_regex_def Let_def digest_def append_take_drop_id)
  moreover have "s = name @ digest" by (simp add: name_def digest_def)
  moreover have "length (drop 8 digest) = 64" using len by (simp add: digest_def)
  ultimately have "s = hd name # tl name @ ''@sha256:'' @ drop 8 digest"
    by (metis append_Cons list.collapse)
  moreover have "is_alnum (hd name)" "list_all image_char (tl name)"
      "list_all is_lower_hex (drop 8 digest)"
    using s unfolding image_regex_def Let_def name_def digest_def by blast+
  ultimately show ?R using \<open>length (drop 8 digest) = 64\<close> by blast
next
  assume ?R
  then obtain c name digest where s: "s = (c # name) @ (''@sha256:'' @ digest)"
    and ok: "is_alnum c" "list_all image_char name" "length digest = 64" "list_all is_lower_hex digest"
    by auto
  have len: "length s - 72 = length (c # name)" "72 < length s" by (simp_all add: s ok)
  have "take (length s - 72) s = c # name" "drop (length s - 72) s = ''@sha256:'' @ digest"
    unfolding len by (simp_all add: s)
  with ok len show "image_regex s" by (simp add: image_regex_def)
qed

subsection \<open>Retry delays\<close>

lemma retry_factor_bounds: "1 \<le> retry_factor g \<and> retry_factor g \<le> 2 ^ 30"
proof -
  have "nat (clamp g 1 31 - 1) \<le> 30" by (auto simp: clamp_def)
  then have "(2::int) ^ nat (clamp g 1 31 - 1) \<le> 2 ^ 30" by (rule power_increasing) simp
  then show ?thesis by (simp add: retry_factor_def)
qed

lemma retry_factor_step:
  "1 \<le> g \<Longrightarrow> g < 31 \<Longrightarrow> retry_factor (g + 1) = 2 * retry_factor g"
proof -
  assume g: "1 \<le> g" "g < 31"
  then have "nat (clamp (g + 1) 1 31 - 1) = Suc (nat (clamp g 1 31 - 1))"
    by (simp add: clamp_def)
  then show ?thesis by (simp add: retry_factor_def)
qed

subsection \<open>Artifact paths\<close>

text \<open>The components of a path, and the lexical resolution of \<open>root / path\<close>.\<close>

fun path_components :: "string \<Rightarrow> string list" where
  "path_components [] = [[]]"
| "path_components (c # cs) =
     (if c = CHR ''/'' then [] # path_components cs
      else case path_components cs of [] \<Rightarrow> [[c]] | p # ps \<Rightarrow> (c # p) # ps)"

fun resolve :: "string list \<Rightarrow> string list \<Rightarrow> string list" where
  "resolve dir [] = dir"
| "resolve dir (p # ps) =
     (if p = ''..'' then resolve (butlast dir) ps
      else if p = [] \<or> p = ''.'' then resolve dir ps
      else resolve (dir @ [p]) ps)"

lemma path_components_not_Nil [simp]: "path_components s \<noteq> []"
  by (cases s) (auto split: list.splits)

lemma path_components_unfold:
  "path_components s =
     takeWhile (\<lambda>c. c \<noteq> CHR ''/'') s #
     (case dropWhile (\<lambda>c. c \<noteq> CHR ''/'') s of [] \<Rightarrow> [] | _ # next \<Rightarrow> path_components next)"
  by (induction s) (auto split: list.splits)

lemma check_parts_unfold:
  "check_parts rest = Inr u \<longleftrightarrow>
     safe_part (takeWhile (\<lambda>c. c \<noteq> CHR ''/'') rest) \<and>
     (case dropWhile (\<lambda>c. c \<noteq> CHR ''/'') rest of [] \<Rightarrow> True
      | _ # next \<Rightarrow> check_parts next = Inr u)"
proof -
  have "(let part = p; after = a
         in case require (safe_part part) m of Inl e \<Rightarrow> Inl e
            | Inr _ \<Rightarrow> (case after of [] \<Rightarrow> Inr () | _ # next \<Rightarrow> check_parts next)) = Inr u \<longleftrightarrow>
      safe_part p \<and> (case a of [] \<Rightarrow> True | _ # next \<Rightarrow> check_parts next = Inr u)" for p a m
    by (cases a) (simp_all add: require_def)
  then show ?thesis by (subst check_parts.simps)
qed

lemma check_parts_ok: "check_parts rest = Inr u \<longleftrightarrow> list_all safe_part (path_components rest)"
proof (induction rest rule: check_parts.induct)
  case (1 rest)
  show ?case
  proof (cases "dropWhile (\<lambda>c. c \<noteq> CHR ''/'') rest")
    case Nil
    show ?thesis
      unfolding check_parts_unfold[of rest] path_components_unfold[of rest] Nil by simp
  next
    case (Cons c "next")
    from 1[OF refl refl _ Cons] have "safe_part (takeWhile (\<lambda>c. c \<noteq> CHR ''/'') rest) \<Longrightarrow>
        check_parts next = Inr u \<longleftrightarrow> list_all safe_part (path_components next)"
      by (simp add: ok_simps)
    then show ?thesis
      unfolding check_parts_unfold[of rest] path_components_unfold[of rest] Cons by auto
  qed
qed

lemma resolve_safe: "list_all safe_part ps \<Longrightarrow> resolve dir ps = dir @ ps"
  by (induction ps arbitrary: dir) (auto simp: safe_part_def)

lemma validate_relative_path_ok:
  "validate_relative_path path = Inr u \<longleftrightarrow>
     path \<noteq> [] \<and> length path \<le> 1024 \<and> hd path \<noteq> CHR ''/'' \<and> safe_string path \<and>
     CHR 0x5C \<notin> set path \<and> list_all safe_part (path_components path)"
  by (auto simp: validate_relative_path_def ok_simps check_parts_ok)

section \<open>Properties\<close>

text \<open>
  \<open>parse_status\<close> accepts exactly the names that \<open>to_string\<close> prints, and returns the status
  whose name it was; every other text is refused as invalid.
\<close>

theorem status_roundtrip:
  "(parse_status v = Inr s \<longleftrightarrow> v = to_string s) \<and>
   ((\<forall>s. v \<noteq> to_string s) = (parse_status v = throw invalid (''unknown run status: '' @ v)))"
proof -
  have 1: "parse_status v = Inr s \<longleftrightarrow> v = to_string s" for s
    using parse_status_ok parse_to_string by blast
  have "parse_status v = throw invalid (''unknown run status: '' @ v) \<or> (\<exists>s. parse_status v = Inr s)"
    by (auto simp: parse_status_def split: option.splits)
  with 1 show ?thesis by (metis sum.distinct(1))
qed

end
