(* ===== verification/Machines.thy ===== *)
theory Machines
  imports Prelude
begin

text \<open>
  Transition systems: reachable states, invariants, and simulation of one system by another.
  The stateful components of the development interpret these locales.
\<close>

inductive reach :: "'s \<Rightarrow> ('s \<Rightarrow> 's \<Rightarrow> bool) \<Rightarrow> 's \<Rightarrow> bool" for init and step where
  reach_init: "reach init step init"
| reach_step: "reach init step s \<Longrightarrow> step s t \<Longrightarrow> reach init step t"

text \<open>A state predicate that the initial state has and every step keeps.\<close>

locale invariant_machine =
  fixes init :: 's and step :: "'s \<Rightarrow> 's \<Rightarrow> bool" and inv :: "'s \<Rightarrow> bool"
  assumes init_inv: "inv init"
    and step_inv: "inv s \<Longrightarrow> step s t \<Longrightarrow> inv t"
begin

lemma reachable_inv: "reach init step s \<Longrightarrow> inv s"
  by (induction rule: reach.induct) (auto intro: init_inv step_inv)

lemma steps_inv: "step\<^sup>*\<^sup>* s t \<Longrightarrow> inv s \<Longrightarrow> inv t"
  by (induction rule: rtranclp_induct) (auto intro: step_inv)

end

text \<open>
  A system whose steps, from states that satisfy its invariant, are steps of an abstract
  system under the abstraction \<open>abs\<close>.
\<close>

locale simulation = invariant_machine init step inv
  for init :: 's and step :: "'s \<Rightarrow> 's \<Rightarrow> bool" and inv :: "'s \<Rightarrow> bool" +
  fixes ainit :: 'a and astep :: "'a \<Rightarrow> 'a \<Rightarrow> bool" and abs :: "'s \<Rightarrow> 'a"
  assumes abs_init: "abs init = ainit"
    and abs_step: "inv s \<Longrightarrow> step s t \<Longrightarrow> astep (abs s) (abs t)"
begin

lemma reachable_abs: "reach init step s \<Longrightarrow> reach ainit astep (abs s)"
proof (induction rule: reach.induct)
  case reach_init
  show ?case by (simp add: abs_init reach.reach_init)
next
  case (reach_step s t)
  from abs_step[OF reachable_inv[OF reach_step.hyps(1)] reach_step.hyps(2)] reach_step.IH
  show ?case by (blast intro: reach.reach_step)
qed

lemma steps_abs: "step\<^sup>*\<^sup>* s t \<Longrightarrow> inv s \<Longrightarrow> astep\<^sup>*\<^sup>* (abs s) (abs t)"
proof (induction rule: rtranclp_induct)
  case base
  show ?case by simp
next
  case (step t u)
  from steps_inv[OF step.hyps(1)] step.prems have "inv t" .
  from abs_step[OF this step.hyps(2)] step.IH[OF step.prems] show ?case by simp
qed

end

end
