(* ===== verification/Life_Cycle.thy ===== *)
theory Life_Cycle
  imports Domain Machines
begin

text \<open>
  The abstract specification of the coordinator: runs and attempts by id, each with the few
  columns that decide its life, and the steps a run may take. The database transactions are
  shown to implement it in \<open>Store_Steps\<close>.
\<close>

record life_run =
  lr_spec :: RunSpec
  lr_status :: RunStatus
  lr_generation :: int
  lr_active :: "string option"

record life_attempt =
  lt_run :: string
  lt_generation :: int
  lt_status :: RunStatus
  lt_instance :: "string option"
  lt_cleaned :: bool

record life =
  l_runs :: "string \<rightharpoonup> life_run"
  l_attempts :: "string \<rightharpoonup> life_attempt"

definition life_init :: life where
  "life_init = \<lparr>l_runs = Map.empty, l_attempts = Map.empty\<rparr>"

abbreviation lr_limit :: "life_run \<Rightarrow> int" where
  "lr_limit r \<equiv> max_attempts (spec_retry (lr_spec r))"

definition accepted_run :: "life_run \<Rightarrow> bool" where
  "accepted_run r \<longleftrightarrow> validate_submission (lr_spec r) = Inr () \<and> lr_status r = queued \<and>
     lr_generation r = 0 \<and> lr_active r = None"

definition move :: "string \<Rightarrow> life_run \<Rightarrow> string \<Rightarrow> life_attempt \<Rightarrow> RunStatus \<Rightarrow> RunStatus \<Rightarrow> life \<Rightarrow> life" where
  "move i r a t rs ts s = s\<lparr>l_runs := (l_runs s)(i \<mapsto> r\<lparr>lr_status := rs\<rparr>),
                            l_attempts := (l_attempts s)(a \<mapsto> t\<lparr>lt_status := ts\<rparr>)\<rparr>"

text \<open>The current attempt of an executing run, both in status \<open>from\<close>.\<close>

definition current :: "life \<Rightarrow> string \<Rightarrow> life_run \<Rightarrow> string \<Rightarrow> life_attempt \<Rightarrow> bool" where
  "current s i r a t \<longleftrightarrow> l_runs s i = Some r \<and> l_attempts s a = Some t \<and>
     lr_active r = Some a \<and> lt_run t = i \<and> lt_generation t = lr_generation r"

definition fence_attempt :: "string \<Rightarrow> life_attempt \<Rightarrow> life_attempt" where
  "fence_attempt i t =
     (if lt_run t = i \<and> executing (lt_status t) then t\<lparr>lt_status := cancelled\<rparr> else t)"

inductive life_step :: "life \<Rightarrow> life \<Rightarrow> bool" where
  stutter: "life_step s s"
| create: "life_step s (s\<lparr>l_runs := l_runs s ++ new\<rparr>)"
    if "dom new \<inter> dom (l_runs s) = {}" and "\<forall>r\<in>ran new. accepted_run r"
| requeue: "life_step s (s\<lparr>l_runs := (\<lambda>i. if i \<in> R then map_option (lr_status_update (\<lambda>_. queued)) (l_runs s i)
                                       else l_runs s i)\<rparr>)"
    if "\<forall>i\<in>R. \<exists>r. l_runs s i = Some r \<and> lr_status r = retry_wait"
| claim: "life_step s (s\<lparr>l_runs := (l_runs s)(i \<mapsto> r\<lparr>lr_status := starting, lr_generation := lr_generation r + 1,
                                                  lr_active := Some a\<rparr>),
                        l_attempts := (l_attempts s)(a \<mapsto> \<lparr>lt_run = i, lt_generation = lr_generation r + 1,
                          lt_status = starting, lt_instance = None, lt_cleaned = False\<rparr>)\<rparr>)"
    if "l_runs s i = Some r" and "lr_status r = queued" and "l_attempts s a = None"
| begin_running: "life_step s (move i r a (t\<lparr>lt_instance := Some inst\<rparr>) running running s)"
    if "current s i r a t" and "lr_status r = starting" and "lt_status t = starting" and "inst \<noteq> []"
| collect: "life_step s (move i r a t finalizing finalizing s)"
    if "current s i r a t" and "lr_status r = running" and "lt_status t = running"
| succeed: "life_step s (move i r a t succeeded succeeded s)"
    if "current s i r a t" and "lr_status r = finalizing" and "lt_status t = finalizing"
| give_up: "life_step s (move i r a t (if retry then retry_wait else failed) failed s)"
    if "current s i r a t" and "executing (lr_status r)" and "lt_status t = lr_status r"
      and "retry \<longrightarrow> lr_generation r < lr_limit r"
| fence: "life_step s (s\<lparr>l_runs := (l_runs s)(i \<mapsto> r\<lparr>lr_status := cancelled\<rparr>),
                        l_attempts := (\<lambda>a. map_option (fence_attempt i) (l_attempts s a))\<rparr>)"
    if "l_runs s i = Some r" and "\<not> terminal (lr_status r)"
| clean: "life_step s (s\<lparr>l_attempts := (l_attempts s)(a \<mapsto> t\<lparr>lt_cleaned := True\<rparr>)\<rparr>)"
    if "l_attempts s a = Some t" and "\<not> executing (lt_status t)"

section \<open>The invariant\<close>

text \<open>Which status the current attempt of a run has.\<close>

definition agrees :: "RunStatus \<Rightarrow> RunStatus \<Rightarrow> bool" where
  "agrees rs ts =
     (if executing rs then ts = rs
      else if rs = succeeded then ts = succeeded
      else if rs = cancelled then ts = cancelled \<or> ts = failed
      else ts = failed)"

definition run_ok :: "life \<Rightarrow> string \<Rightarrow> life_run \<Rightarrow> bool" where
  "run_ok s i r \<longleftrightarrow>
     validate_submission (lr_spec r) = Inr () \<and>
     0 \<le> lr_generation r \<and> lr_generation r \<le> lr_limit r \<and>
     (lr_status r = queued \<or> lr_status r = retry_wait \<longrightarrow> lr_generation r < lr_limit r) \<and>
     (lr_generation r = 0 \<longleftrightarrow> lr_active r = None) \<and>
     (lr_active r = None \<longrightarrow> lr_status r = queued \<or> lr_status r = cancelled) \<and>
     (\<forall>a. lr_active r = Some a \<longrightarrow>
        (\<exists>t. l_attempts s a = Some t \<and> lt_run t = i \<and> lt_generation t = lr_generation r \<and>
             agrees (lr_status r) (lt_status t)))"

definition attempt_ok :: "life \<Rightarrow> string \<Rightarrow> life_attempt \<Rightarrow> bool" where
  "attempt_ok s a t \<longleftrightarrow>
     (\<exists>r. l_runs s (lt_run t) = Some r \<and> 1 \<le> lt_generation t \<and> lt_generation t \<le> lr_generation r \<and>
          (lt_generation t = lr_generation r \<longrightarrow> lr_active r = Some a) \<and>
          (lt_generation t \<noteq> lr_generation r \<longrightarrow> lt_status t = failed)) \<and>
     (\<forall>b u. l_attempts s b = Some u \<and> lt_run u = lt_run t \<and> lt_generation u = lt_generation t \<longrightarrow> b = a) \<and>
     (lt_status t = starting \<longrightarrow> lt_instance t = None) \<and>
     (lt_status t \<in> {running, finalizing, succeeded} \<longrightarrow> lt_instance t \<noteq> None) \<and>
     lt_instance t \<noteq> Some [] \<and>
     (lt_cleaned t \<longrightarrow> \<not> executing (lt_status t))"

definition life_inv :: "life \<Rightarrow> bool" where
  "life_inv s \<longleftrightarrow> (\<forall>i r. l_runs s i = Some r \<longrightarrow> run_ok s i r) \<and>
     (\<forall>a t. l_attempts s a = Some t \<longrightarrow> attempt_ok s a t)"

lemma life_inv_runD: "life_inv s \<Longrightarrow> l_runs s i = Some r \<Longrightarrow> run_ok s i r"
  by (simp add: life_inv_def)

lemma life_inv_attemptD: "life_inv s \<Longrightarrow> l_attempts s a = Some t \<Longrightarrow> attempt_ok s a t"
  by (simp add: life_inv_def)

lemma currentI:
  "life_inv s \<Longrightarrow> l_runs s i = Some r \<Longrightarrow> lr_active r = Some a \<Longrightarrow>
     \<exists>t. current s i r a t \<and> agrees (lr_status r) (lt_status t)"
  by (fastforce dest: life_inv_runD simp: run_ok_def current_def)


text \<open>
  The columns of an attempt that concern only itself; and the steps that change the status of
  a run together with its current attempt.
\<close>

definition attempt_local :: "life_attempt \<Rightarrow> bool" where
  "attempt_local t \<longleftrightarrow>
     (lt_status t = starting \<longrightarrow> lt_instance t = None) \<and>
     (lt_status t \<in> {running, finalizing, succeeded} \<longrightarrow> lt_instance t \<noteq> None) \<and>
     lt_instance t \<noteq> Some [] \<and> (lt_cleaned t \<longrightarrow> \<not> executing (lt_status t))"

lemma attempt_ok_local: "attempt_ok s a t \<Longrightarrow> attempt_local t"
  by (simp add: attempt_ok_def attempt_local_def)

lemma pair_inv:
  assumes inv: "life_inv s" and cur: "current s i r a t"
    and t': "lt_run t' = lt_run t" "lt_generation t' = lt_generation t" "attempt_local t'"
    and rs: "agrees rs (lt_status t')" "rs = queued \<or> rs = retry_wait \<Longrightarrow> lr_generation r < lr_limit r"
  shows "life_inv (s\<lparr>l_runs := (l_runs s)(i \<mapsto> r\<lparr>lr_status := rs\<rparr>), l_attempts := (l_attempts s)(a \<mapsto> t')\<rparr>)"
    (is "life_inv ?s")
proof -
  have i: "l_runs s i = Some r" and a: "l_attempts s a = Some t" and act: "lr_active r = Some a"
    and run: "lt_run t = i" and gen: "lt_generation t = lr_generation r"
    using cur by (auto simp: current_def)
  have "run_ok ?s i (r\<lparr>lr_status := rs\<rparr>)"
    using life_inv_runD[OF inv i] act t' rs run gen by (auto simp: run_ok_def)
  moreover have "run_ok ?s j q" if j: "l_runs s j = Some q" and "j \<noteq> i" for j q
    using life_inv_runD[OF inv j] \<open>j \<noteq> i\<close> run a unfolding run_ok_def by fastforce
  moreover have "attempt_ok ?s a t'"
    using life_inv_attemptD[OF inv a] t' i run gen act
    by (auto simp: attempt_ok_def attempt_local_def)
  moreover have "attempt_ok ?s b u" if b: "l_attempts s b = Some u" and "b \<noteq> a" for b u
    using life_inv_attemptD[OF inv b] \<open>b \<noteq> a\<close> t' i a act gen run
    unfolding attempt_ok_def by (auto split: if_splits)
  ultimately show ?thesis
    by (auto simp: life_inv_def split: if_splits)
qed

lemma move_inv:
  assumes "life_inv s" and "current s i r a t" and "attempt_local (t'\<lparr>lt_status := ts\<rparr>)"
    and "lt_run t' = lt_run t" "lt_generation t' = lt_generation t"
    and "agrees rs ts" and "rs = queued \<or> rs = retry_wait \<Longrightarrow> lr_generation r < lr_limit r"
  shows "life_inv (move i r a t' rs ts s)"
  unfolding move_def using assms by (intro pair_inv[of s i r a t]) auto

lemma current_local: "life_inv s \<Longrightarrow> current s i r a t \<Longrightarrow> attempt_local t"
  by (auto simp: current_def dest!: life_inv_attemptD attempt_ok_local)

lemmas status_cases = agrees_def executing_def attempt_local_def terminal_def

lemma create_inv:
  assumes inv: "life_inv s" and dis: "dom new \<inter> dom (l_runs s) = {}"
    and new: "\<forall>r\<in>ran new. accepted_run r"
  shows "life_inv (s\<lparr>l_runs := l_runs s ++ new\<rparr>)" (is "life_inv ?s")
proof -
  have old: "(l_runs s ++ new) j = Some q" if "l_runs s j = Some q" for j q
    using that dis by (auto simp: map_add_def dom_def split: option.splits)
  have "run_ok ?s i r" if "new i = Some r" for i r
    using new ranI[of new i r] that
    by (auto simp: run_ok_def accepted_run_def validate_submission_ok validate_ok_iff)
  moreover have "run_ok ?s i r" if "l_runs s i = Some r" for i r
    using life_inv_runD[OF inv that] by (simp add: run_ok_def)
  moreover have "attempt_ok ?s a t" if "l_attempts s a = Some t" for a t
    using life_inv_attemptD[OF inv that] old unfolding attempt_ok_def by fastforce
  ultimately show ?thesis
    by (auto simp: life_inv_def map_add_Some_iff)
qed

lemma requeue_inv:
  assumes inv: "life_inv s" and R: "\<forall>i\<in>R. \<exists>r. l_runs s i = Some r \<and> lr_status r = retry_wait"
  shows "life_inv (s\<lparr>l_runs := (\<lambda>i. if i \<in> R then map_option (lr_status_update (\<lambda>_. queued)) (l_runs s i)
                                       else l_runs s i)\<rparr>)" (is "life_inv ?s")
proof -
  have "run_ok ?s i r" if "l_runs ?s i = Some r" for i r
  proof (cases "i \<in> R")
    case True
    with R obtain q where q: "l_runs s i = Some q" "lr_status q = retry_wait" by blast
    with that True have "r = q\<lparr>lr_status := queued\<rparr>" by simp
    with life_inv_runD[OF inv q(1)] q(2) show ?thesis
      by (auto simp: run_ok_def status_cases)
  next
    case False
    with that life_inv_runD[OF inv, of i r] show ?thesis by (simp add: run_ok_def)
  qed
  moreover have "attempt_ok ?s a t" if "l_attempts s a = Some t" for a t
    using life_inv_attemptD[OF inv that] unfolding attempt_ok_def by auto
  ultimately show ?thesis by (auto simp: life_inv_def)
qed

lemma claim_inv:
  assumes inv: "life_inv s" and i: "l_runs s i = Some r" and st: "lr_status r = queued"
    and a: "l_attempts s a = None"
  shows "life_inv (s\<lparr>l_runs := (l_runs s)(i \<mapsto> r\<lparr>lr_status := starting,
                          lr_generation := lr_generation r + 1, lr_active := Some a\<rparr>),
                     l_attempts := (l_attempts s)(a \<mapsto> \<lparr>lt_run = i, lt_generation = lr_generation r + 1,
                          lt_status = starting, lt_instance = None, lt_cleaned = False\<rparr>)\<rparr>)"
    (is "life_inv ?s")
proof -
  let ?r = "r\<lparr>lr_status := starting, lr_generation := lr_generation r + 1, lr_active := Some a\<rparr>"
  let ?t = "\<lparr>lt_run = i, lt_generation = lr_generation r + 1, lt_status = starting,
              lt_instance = None, lt_cleaned = False\<rparr>"
  note ok = life_inv_runD[OF inv i]
  have old: "lt_generation u \<le> lr_generation r"
    "lt_generation u = lr_generation r \<Longrightarrow> lr_active r = Some b"
    "lt_generation u \<noteq> lr_generation r \<Longrightarrow> lt_status u = failed"
    if "l_attempts s b = Some u" "lt_run u = i" for b u
    using life_inv_attemptD[OF inv that(1)] that(2) i by (auto simp: attempt_ok_def)
  have superseded: "lt_status u = failed" if "l_attempts s b = Some u" "lt_run u = i" for b u
  proof (cases "lt_generation u = lr_generation r")
    case True
    from old(2)[OF that True] ok that(1) st show ?thesis by (auto simp: run_ok_def status_cases)
  qed (rule old(3)[OF that])
  have "run_ok ?s i ?r"
    using ok st by (auto simp: run_ok_def status_cases)
  moreover have "run_ok ?s j q" if j: "l_runs s j = Some q" and "j \<noteq> i" for j q
    using life_inv_runD[OF inv j] a unfolding run_ok_def by auto
  moreover have "attempt_ok ?s a ?t"
  proof -
    have "0 \<le> lr_generation r" using ok by (simp add: run_ok_def)
    moreover have False if "l_attempts s b = Some u" "lt_run u = i" "lt_generation u = lr_generation r + 1" for b u
      using old(1)[OF that(1,2)] that(3) by simp
    ultimately show ?thesis by (auto simp: attempt_ok_def executing_def)
  qed
  moreover have "attempt_ok ?s b u" if b: "l_attempts s b = Some u" for b u
  proof (cases "lt_run u = i")
    case True
    then show ?thesis
      using life_inv_attemptD[OF inv b] old[OF b True] superseded[OF b True]
      by (auto simp: attempt_ok_def status_cases)
  next
    case False
    then show ?thesis
      using life_inv_attemptD[OF inv b] by (auto simp: attempt_ok_def)
  qed
  ultimately show ?thesis by (auto simp: life_inv_def split: if_splits)
qed

lemma fence_attempt_simps [simp]:
  "lt_run (fence_attempt i t) = lt_run t" "lt_generation (fence_attempt i t) = lt_generation t"
  "lt_instance (fence_attempt i t) = lt_instance t" "lt_cleaned (fence_attempt i t) = lt_cleaned t"
  "lt_run t \<noteq> i \<Longrightarrow> fence_attempt i t = t"
  "lt_status (fence_attempt i t) =
     (if lt_run t = i \<and> executing (lt_status t) then cancelled else lt_status t)"
  by (auto simp: fence_attempt_def)

lemma fence_inv:
  assumes inv: "life_inv s" and i: "l_runs s i = Some r" and "\<not> terminal (lr_status r)"
  shows "life_inv (s\<lparr>l_runs := (l_runs s)(i \<mapsto> r\<lparr>lr_status := cancelled\<rparr>),
                     l_attempts := (\<lambda>a. map_option (fence_attempt i) (l_attempts s a))\<rparr>)"
    (is "life_inv ?s")
proof -
  note ok = life_inv_runD[OF inv i]
  have act: "\<exists>t. l_attempts ?s a = Some t \<and> lt_run t = i \<and> lt_generation t = lr_generation r \<and>
      agrees cancelled (lt_status t)" if "lr_active r = Some a" for a
  proof -
    from ok that obtain t where "l_attempts s a = Some t" "lt_run t = i"
      "lt_generation t = lr_generation r" "agrees (lr_status r) (lt_status t)"
      by (auto simp: run_ok_def)
    with assms(3) show ?thesis
      by (intro exI[of _ "fence_attempt i t"]) (auto simp: status_cases split: if_splits)
  qed
  have "run_ok ?s i (r\<lparr>lr_status := cancelled\<rparr>)"
    unfolding run_ok_def using act ok by (intro conjI allI impI) (simp_all add: run_ok_def)
  moreover have "run_ok ?s j q" if j: "l_runs s j = Some q" and "j \<noteq> i" for j q
    using life_inv_runD[OF inv j] \<open>j \<noteq> i\<close> unfolding run_ok_def by fastforce
  moreover have "attempt_ok ?s b (fence_attempt i u)" if b: "l_attempts s b = Some u" for b u
  proof -
    note ok = life_inv_attemptD[OF inv b]
    have "\<exists>q. l_runs ?s (lt_run u) = Some q \<and> 1 \<le> lt_generation u \<and>
        lt_generation u \<le> lr_generation q \<and>
        (lt_generation u = lr_generation q \<longrightarrow> lr_active q = Some b) \<and>
        (lt_generation u \<noteq> lr_generation q \<longrightarrow> lt_status (fence_attempt i u) = failed)"
      using ok i by (auto simp: attempt_ok_def executing_def)
    moreover have "c = b" if "l_attempts ?s c = Some v \<and> lt_run v = lt_run u \<and> lt_generation v = lt_generation u"
      for c v
      using ok that unfolding attempt_ok_def by auto
    ultimately show ?thesis
      using attempt_ok_local[OF ok] unfolding attempt_ok_def
      by (intro conjI allI impI) (auto simp: attempt_local_def split: if_splits)
  qed
  ultimately show ?thesis by (auto simp: life_inv_def split: if_splits)
qed

lemma clean_inv:
  assumes inv: "life_inv s" and a: "l_attempts s a = Some t" and "\<not> executing (lt_status t)"
  shows "life_inv (s\<lparr>l_attempts := (l_attempts s)(a \<mapsto> t\<lparr>lt_cleaned := True\<rparr>)\<rparr>)" (is "life_inv ?s")
proof -
  have "run_ok ?s j q" if j: "l_runs s j = Some q" for j q
    using life_inv_runD[OF inv j] a by (auto simp: run_ok_def)
  moreover have "attempt_ok ?s a (t\<lparr>lt_cleaned := True\<rparr>)"
    using life_inv_attemptD[OF inv a] assms(3) by (auto simp: attempt_ok_def)
  moreover have "attempt_ok ?s b u" if b: "l_attempts s b = Some u" and "b \<noteq> a" for b u
    using life_inv_attemptD[OF inv b] a by (auto simp: attempt_ok_def)
  ultimately show ?thesis by (auto simp: life_inv_def split: if_splits)
qed

lemma life_step_inv: "life_step s s' \<Longrightarrow> life_inv s \<Longrightarrow> life_inv s'"
proof (induction rule: life_step.induct)
  case (begin_running s i r a t inst)
  then show ?case
    by (auto intro!: move_inv[where t = t] dest: current_local simp: status_cases)
next
  case (collect s i r a t)
  then show ?case
    by (auto intro!: move_inv[where t = t] dest: current_local simp: status_cases)
next
  case (succeed s i r a t)
  then show ?case
    by (auto intro!: move_inv[where t = t] dest: current_local simp: status_cases)
next
  case (give_up s i r a t retry)
  then show ?case
    by (intro move_inv[where t = t]) (auto dest: current_local simp: status_cases)
qed (simp_all add: create_inv requeue_inv claim_inv fence_inv clean_inv)

interpretation life: invariant_machine life_init life_step life_inv
proof
  show "life_inv life_init" by (simp add: life_inv_def life_init_def)
qed (rule life_step_inv)

section \<open>What the specification promises\<close>

lemma life_step_status:
  assumes "life_step s s'" and "l_runs s i = Some r"
  shows "\<exists>r'. l_runs s' i = Some r' \<and> lr_spec r' = lr_spec r \<and>
    (lr_status r' = lr_status r \<or> transition_allowed (lr_status r) (lr_status r'))"
  using assms
proof (induction rule: life_step.induct)
  case (create new s)
  then show ?case by (auto simp: map_add_def dom_def split: option.splits)
next
  case (requeue R s)
  then show ?case by (fastforce simp: transition_allowed_def terminal_def)
qed (auto simp: transition_allowed_def status_cases move_def current_def split: RunStatus.splits)

lemma life_step_terminal:
  assumes "life_step s s'" and "l_runs s i = Some r" and "terminal (lr_status r)"
  shows "l_runs s' i = Some r"
  using assms
proof (induction rule: life_step.induct)
  case (create new s)
  then show ?case by (auto simp: map_add_def dom_def split: option.splits)
next
  case (requeue R s)
  then show ?case by (fastforce simp: terminal_def)
qed (auto simp: terminal_def executing_def move_def current_def)

lemma life_steps_terminal:
  assumes "life_step\<^sup>*\<^sup>* s s'" and "l_runs s i = Some r" and "terminal (lr_status r)"
  shows "l_runs s' i = Some r"
  using assms by (induction rule: rtranclp_induct) (auto dest: life_step_terminal)

text \<open>An attempt keeps its run and generation.\<close>

lemma life_step_attempt:
  assumes "life_step s s'" and "l_attempts s a = Some t"
  shows "\<exists>t'. l_attempts s' a = Some t' \<and> lt_run t' = lt_run t \<and> lt_generation t' = lt_generation t"
  using assms by (induction rule: life_step.induct) (auto simp: move_def current_def)

lemma life_steps_attempt:
  assumes "life_step\<^sup>*\<^sup>* s s'" and "l_attempts s a = Some t"
  shows "\<exists>t'. l_attempts s' a = Some t' \<and> lt_run t' = lt_run t \<and> lt_generation t' = lt_generation t"
  using assms by (induction rule: rtranclp_induct) (auto dest: life_step_attempt)

text \<open>The generation of a run only grows.\<close>

lemma life_step_generation:
  assumes "life_step s s'" and "l_runs s i = Some r"
  shows "\<exists>r'. l_runs s' i = Some r' \<and> lr_generation r \<le> lr_generation r'"
  using assms
proof (induction rule: life_step.induct)
  case (create new s)
  then show ?case by (auto simp: map_add_def dom_def split: option.splits)
qed (auto simp: move_def current_def)

lemma life_steps_generation:
  assumes "life_step\<^sup>*\<^sup>* s s'" and "l_runs s i = Some r"
  shows "\<exists>r'. l_runs s' i = Some r' \<and> lr_generation r \<le> lr_generation r'"
  using assms
proof (induction rule: rtranclp_induct)
  case (step s' s'')
  then show ?case by (fastforce dest: life_step_generation)
qed simp

text \<open>A live attempt is the current attempt of its run and has its status.\<close>

lemma live_is_current:
  assumes inv: "life_inv s" and a: "l_attempts s a = Some t" and live: "executing (lt_status t)"
  shows "\<exists>r. l_runs s (lt_run t) = Some r \<and> lr_active r = Some a \<and>
    lr_generation r = lt_generation t \<and> lr_status r = lt_status t"
proof -
  from life_inv_attemptD[OF inv a] obtain r where r: "l_runs s (lt_run t) = Some r"
    and act: "lt_generation t = lr_generation r \<longrightarrow> lr_active r = Some a"
    and old: "lt_generation t \<noteq> lr_generation r \<longrightarrow> lt_status t = failed"
    by (auto simp: attempt_ok_def)
  from old live have gen: "lt_generation t = lr_generation r" by (auto simp: executing_def)
  with life_inv_runD[OF inv r] act a have "agrees (lr_status r) (lt_status t)" by (auto simp: run_ok_def)
  with live have "lr_status r = lt_status t" by (auto simp: agrees_def executing_def split: if_splits)
  with r gen act show ?thesis by auto
qed

text \<open>A run is never deleted and its specification never changes.\<close>

lemma life_steps_spec:
  assumes "life_step\<^sup>*\<^sup>* s s'" and "l_runs s i = Some r"
  shows "\<exists>r'. l_runs s' i = Some r' \<and> lr_spec r' = lr_spec r"
  using assms
proof (induction rule: rtranclp_induct)
  case (step s' s'')
  then show ?case by (fastforce dest: life_step_status)
qed simp

end
