(* ===== verification/Store_Schema.thy ===== *)
theory Store_Schema
  imports Domain
begin

text \<open>
  The database of the coordinator: the tables of \<^verbatim>\<open>migrations/001\<close> to \<open>006\<close>, one record per
  row, and the helpers of \<^verbatim>\<open>src/postgres/runs.cpp\<close> that turn rows into domain values and append
  events.

  A table is the list of its rows in insertion order. NULL is \<open>None\<close>. The \<open>spec\<close> columns hold
  the specification whose JSON text the code stores; the \<open>status\<close> column of \<open>runs\<close>, whose
  CHECK admits exactly the eight names of \<open>to_string\<close>, holds a \<open>RunStatus\<close>. Primary keys and
  unique indexes are checked on insertion and refuse the statement with \<open>SqlError\<close>.

  A store operation is one transaction, a function from the database to a result: an error
  (the transaction rolls back, the database is unchanged) or a value and the new database.
  What PostgreSQL and the random generator contribute is an argument of type \<open>env\<close>.
\<close>

record runs_row =
  r_id :: string
  r_spec :: RunSpec
  r_status :: RunStatus
  r_generation :: int
  r_active_attempt :: "string option"
  r_priority :: int
  r_cpu_millis :: int
  r_memory_mib :: int
  r_gpu_count :: int
  r_sweep_id :: "string option"
  r_parent_run_id :: "string option"
  r_event_sequence :: int
  r_available_at :: int
  r_created_at :: int
  r_updated_at :: int

record submissions_row =
  sub_key :: string
  sub_fingerprint :: string
  sub_run_id :: string

record attempts_row =
  a_id :: string
  a_run_id :: string
  a_generation :: int
  a_worker_id :: string
  a_instance_id :: "string option"
  a_status :: string
  a_reason :: "string option"
  a_exit_code :: "int option"
  a_runtime_id :: "string option"
  a_cleanup_status :: string
  a_ack_sequence :: int
  a_launch_deadline :: int
  a_lease_until :: "int option"
  a_execution_deadline :: "int option"
  a_finalization_deadline :: "int option"
  a_created_at :: int
  a_started_at :: "int option"
  a_finished_at :: "int option"
  a_gpu_count :: int
  a_node_name :: string

record events_row =
  e_run_id :: string
  e_sequence :: int
  e_kind :: string
  e_detail :: string
  e_created_at :: int

record workers_row =
  w_id :: string
  w_session :: string
  w_cpu_millis :: int
  w_memory_mib :: int
  w_drained :: bool
  w_heartbeat_at :: int
  w_engine_id :: string
  w_gpu_capable :: bool
  w_gpu_ready :: bool
  w_gpu_sequence :: int
  w_gpu_observed_at :: "int option"

record telemetry_row =
  tm_attempt_id :: string
  tm_record :: Telemetry

record artifacts_row =
  f_id :: string
  f_attempt_id :: string
  f_path :: string
  f_storage_key :: string
  f_sha256 :: string
  f_size :: nat

record sweeps_row =
  s_id :: string
  s_spec :: SweepSpec
  s_key :: string
  s_fingerprint :: string
  s_created_at :: int

record gpu_devices_row =
  d_uuid :: string
  d_worker_id :: string
  d_name :: string
  d_memory_mib :: uint64
  d_eligible :: bool
  d_present :: bool
  d_reason :: string
  d_observed_at :: int

record attempt_gpus_row =
  g_attempt_id :: string
  g_uuid :: string
  g_name :: string
  g_memory_mib :: uint64
  g_allocated_at :: int
  g_released_at :: "int option"

record db =
  runs :: "runs_row list"
  submissions :: "submissions_row list"
  attempts :: "attempts_row list"
  events :: "events_row list"
  workers :: "workers_row list"
  telemetry :: "telemetry_row list"
  artifacts :: "artifacts_row list"
  sweeps :: "sweeps_row list"
  gpu_devices :: "gpu_devices_row list"
  attempt_gpus :: "attempt_gpus_row list"

definition empty_db :: db where
  "empty_db = \<lparr>runs = [], submissions = [], attempts = [], events = [], workers = [],
     telemetry = [], artifacts = [], sweeps = [], gpu_devices = [], attempt_gpus = []\<rparr>"

text \<open>
  What the code gets from outside: \<open>clk k\<close> is the clock reading (\<open>clock_timestamp()\<close>) of the
  k-th statement of a transaction that reads the clock, \<open>fresh k\<close> the k-th \<open>random_id()\<close>,
  \<open>text_le\<close> the order of text columns under the database's collation, and \<open>skip_locked\<close> the
  runs another transaction holds when a statement says \<open>SKIP LOCKED\<close>.
\<close>

record env =
  clk :: "nat \<Rightarrow> int"
  fresh :: "nat \<Rightarrow> string"
  text_le :: "string \<Rightarrow> string \<Rightarrow> bool"
  skip_locked :: "string \<Rightarrow> bool"

section \<open>Rows as domain values\<close>

definition text_of :: "string option \<Rightarrow> string" where
  "text_of field = (case field of None \<Rightarrow> [] | Some s \<Rightarrow> s)"

definition run_of :: "runs_row \<Rightarrow> Run" where
  "run_of r = \<lparr>run_id = r_id r, run_spec = r_spec r, run_status = r_status r,
     run_generation = r_generation r, run_active_attempt = text_of (r_active_attempt r),
     run_sweep_id = text_of (r_sweep_id r), run_parent_run_id = text_of (r_parent_run_id r),
     run_created_at = Some (r_created_at r), run_updated_at = Some (r_updated_at r)\<rparr>"

definition attempt_of :: "attempts_row \<Rightarrow> Attempt" where
  "attempt_of r = \<lparr>att_id = a_id r, att_run_id = a_run_id r, att_generation = a_generation r,
     att_worker_id = a_worker_id r, att_instance_id = text_of (a_instance_id r),
     att_status = a_status r, att_reason = text_of (a_reason r), att_exit_code = a_exit_code r,
     att_runtime_id = text_of (a_runtime_id r), att_cleanup_status = a_cleanup_status r,
     att_created_at = Some (a_created_at r), att_started_at = a_started_at r,
     att_finished_at = a_finished_at r, att_acknowledged_sequence = a_ack_sequence r,
     att_gpu_count = a_gpu_count r, att_node_name = a_node_name r, att_gpu_allocations = []\<rparr>"

definition run_row :: "db \<Rightarrow> string \<Rightarrow> runs_row option" where
  "run_row db = find_by r_id (runs db)"

definition attempt_row :: "db \<Rightarrow> string \<Rightarrow> attempts_row option" where
  "attempt_row db = find_by a_id (attempts db)"

definition upd_run :: "string \<Rightarrow> (runs_row \<Rightarrow> runs_row) \<Rightarrow> db \<Rightarrow> db" where
  "upd_run rid f db = db\<lparr>runs := upd_where (\<lambda>r. r_id r = rid) f (runs db)\<rparr>"

definition upd_attempt :: "string \<Rightarrow> (attempts_row \<Rightarrow> attempts_row) \<Rightarrow> db \<Rightarrow> db" where
  "upd_attempt aid f db = db\<lparr>attempts := upd_where (\<lambda>r. a_id r = aid) f (attempts db)\<rparr>"

text \<open>
  \<open>pg::event\<close>: take the next sequence number from the run's row (reading the clock at \<open>t1\<close>),
  then insert the event (at \<open>t2\<close>).
\<close>

definition event :: "int \<Rightarrow> int \<Rightarrow> string \<Rightarrow> string \<Rightarrow> string \<Rightarrow> db \<Rightarrow> db result" where
  "event t1 t2 rid kind detail db =
     (case run_row db rid of
        None \<Rightarrow> Inl (StdError ''result row out of range'')
      | Some r \<Rightarrow>
        (let sequence = r_event_sequence r + 1;
             db' = upd_run rid (\<lambda>r. r\<lparr>r_event_sequence := r_event_sequence r + 1, r_updated_at := t1\<rparr>) db
         in case insert_unique (\<lambda>e. (e_run_id e, e_sequence e)) ''events_pkey''
                   \<lparr>e_run_id = rid, e_sequence = sequence, e_kind = kind, e_detail = detail,
                    e_created_at = t2\<rparr> (events db') of
              Inl e \<Rightarrow> Inl e
            | Inr events' \<Rightarrow> Inr (db'\<lparr>events := events'\<rparr>)))"

text \<open>\<open>attempts.status\<close> values of an attempt that may still run.\<close>

definition live :: "string \<Rightarrow> bool" where
  "live status \<longleftrightarrow> status = ''STARTING'' \<or> status = ''RUNNING'' \<or> status = ''FINALIZING''"

text \<open>
  \<open>INSERT INTO attempts(id,run_id,generation,worker_id,launch_deadline,gpu_count)\<close>: the other
  columns take their defaults; the primary key and \<open>UNIQUE(run_id,generation)\<close> are checked.
\<close>

definition new_attempt :: "string \<Rightarrow> string \<Rightarrow> int \<Rightarrow> string \<Rightarrow> int \<Rightarrow> int \<Rightarrow> int \<Rightarrow> attempts_row" where
  "new_attempt aid run generation worker deadline gpus now =
     \<lparr>a_id = aid, a_run_id = run, a_generation = generation, a_worker_id = worker,
      a_instance_id = None, a_status = ''STARTING'', a_reason = None, a_exit_code = None,
      a_runtime_id = None, a_cleanup_status = ''PENDING'', a_ack_sequence = 0,
      a_launch_deadline = deadline, a_lease_until = None, a_execution_deadline = None,
      a_finalization_deadline = None, a_created_at = now, a_started_at = None,
      a_finished_at = None, a_gpu_count = gpus, a_node_name = []\<rparr>"

definition insert_attempt :: "attempts_row \<Rightarrow> db \<Rightarrow> db result" where
  "insert_attempt row db =
     (case insert_unique a_id ''attempts_pkey'' row (attempts db) of
        Inl e \<Rightarrow> Inl e
      | Inr attempts' \<Rightarrow>
        (case insert_unique (\<lambda>a. (a_run_id a, a_generation a)) ''attempts_run_id_generation_key'' row
                (attempts db) of
           Inl e \<Rightarrow> Inl e
         | Inr _ \<Rightarrow> Inr (db\<lparr>attempts := attempts'\<rparr>)))"

text \<open>
  \<open>INSERT INTO runs(...)\<close>: status, generation, event sequence and the three time columns take
  their defaults.
\<close>

definition new_run :: "string \<Rightarrow> RunSpec \<Rightarrow> string option \<Rightarrow> string option \<Rightarrow> int \<Rightarrow> runs_row" where
  "new_run rid spec sweep parent now =
     \<lparr>r_id = rid, r_spec = spec, r_status = queued, r_generation = 0, r_active_attempt = None,
      r_priority = spec_priority spec, r_cpu_millis = cpu_millis (spec_resources spec),
      r_memory_mib = memory_mib (spec_resources spec), r_gpu_count = gpu_count (spec_resources spec),
      r_sweep_id = sweep, r_parent_run_id = parent, r_event_sequence = 0,
      r_available_at = now, r_created_at = now, r_updated_at = now\<rparr>"

definition insert_run :: "runs_row \<Rightarrow> db \<Rightarrow> db result" where
  "insert_run row db =
     (case insert_unique r_id ''runs_pkey'' row (runs db) of
        Inl e \<Rightarrow> Inl e | Inr runs' \<Rightarrow> Inr (db\<lparr>runs := runs'\<rparr>))"

section \<open>Lookups after updates\<close>

named_theorems row_simps "what a lookup by id returns after a statement"

lemma run_row_upd_run [row_simps]:
  assumes "\<And>r. r_id (f r) = r_id r"
  shows "run_row (upd_run rid f db) i = (if i = rid then map_option f (run_row db i) else run_row db i)"
  by (simp add: run_row_def upd_run_def find_by_upd_key assms)

lemma attempt_row_upd_attempt [row_simps]:
  assumes "\<And>r. a_id (f r) = a_id r"
  shows "attempt_row (upd_attempt aid f db) i =
    (if i = aid then map_option f (attempt_row db i) else attempt_row db i)"
  by (simp add: attempt_row_def upd_attempt_def find_by_upd_key assms)

lemma run_row_key: "run_row db i = Some r \<Longrightarrow> r_id r = i"
  by (auto simp: run_row_def dest: find_by_key)

lemma attempt_row_key: "attempt_row db i = Some r \<Longrightarrow> a_id r = i"
  by (auto simp: attempt_row_def dest: find_by_key)

lemma upd_run_frame [simp]:
  "submissions (upd_run i f db) = submissions db" "attempts (upd_run i f db) = attempts db"
  "events (upd_run i f db) = events db" "workers (upd_run i f db) = workers db"
  "telemetry (upd_run i f db) = telemetry db" "artifacts (upd_run i f db) = artifacts db"
  "sweeps (upd_run i f db) = sweeps db" "gpu_devices (upd_run i f db) = gpu_devices db"
  "attempt_gpus (upd_run i f db) = attempt_gpus db"
  by (simp_all add: upd_run_def)

lemma upd_attempt_frame [simp]:
  "submissions (upd_attempt i f db) = submissions db" "runs (upd_attempt i f db) = runs db"
  "events (upd_attempt i f db) = events db" "workers (upd_attempt i f db) = workers db"
  "telemetry (upd_attempt i f db) = telemetry db" "artifacts (upd_attempt i f db) = artifacts db"
  "sweeps (upd_attempt i f db) = sweeps db" "gpu_devices (upd_attempt i f db) = gpu_devices db"
  "attempt_gpus (upd_attempt i f db) = attempt_gpus db"
  by (simp_all add: upd_attempt_def)

lemma run_of_simps [simp]:
  "run_id (run_of r) = r_id r" "run_spec (run_of r) = r_spec r" "run_status (run_of r) = r_status r"
  "run_generation (run_of r) = r_generation r"
  "run_active_attempt (run_of r) = text_of (r_active_attempt r)"
  by (simp_all add: run_of_def)

lemma attempt_of_simps [simp]:
  "att_id (attempt_of a) = a_id a" "att_run_id (attempt_of a) = a_run_id a"
  "att_generation (attempt_of a) = a_generation a" "att_worker_id (attempt_of a) = a_worker_id a"
  "att_instance_id (attempt_of a) = text_of (a_instance_id a)" "att_status (attempt_of a) = a_status a"
  "att_exit_code (attempt_of a) = a_exit_code a" "att_node_name (attempt_of a) = a_node_name a"
  "att_acknowledged_sequence (attempt_of a) = a_ack_sequence a"
  by (simp_all add: attempt_of_def)

definition new_event :: "int \<Rightarrow> string \<Rightarrow> string \<Rightarrow> runs_row \<Rightarrow> events_row" where
  "new_event now kind detail r =
     \<lparr>e_run_id = r_id r, e_sequence = r_event_sequence r + 1, e_kind = kind, e_detail = detail,
      e_created_at = now\<rparr>"

definition bump :: "int \<Rightarrow> runs_row \<Rightarrow> runs_row" where
  "bump now r = r\<lparr>r_event_sequence := r_event_sequence r + 1, r_updated_at := now\<rparr>"

lemma event_ok [ok_simps]:
  "event t1 t2 rid kind detail db = Inr db' \<longleftrightarrow>
     (\<exists>r. run_row db rid = Some r \<and>
        (rid, r_event_sequence r + 1) \<notin> (\<lambda>e. (e_run_id e, e_sequence e)) ` set (events db) \<and>
        db' = (upd_run rid (bump t1) db)\<lparr>events := events db @ [new_event t2 kind detail r]\<rparr>)"
  by (auto simp: event_def bump_def[abs_def] new_event_def insert_unique_def Let_def
      dest: run_row_key split: option.splits)

lemma bump_simps [simp]:
  "r_id (bump t r) = r_id r" "r_spec (bump t r) = r_spec r" "r_status (bump t r) = r_status r"
  "r_generation (bump t r) = r_generation r" "r_active_attempt (bump t r) = r_active_attempt r"
  "r_sweep_id (bump t r) = r_sweep_id r" "r_priority (bump t r) = r_priority r"
  "r_cpu_millis (bump t r) = r_cpu_millis r" "r_memory_mib (bump t r) = r_memory_mib r"
  "r_gpu_count (bump t r) = r_gpu_count r" "r_available_at (bump t r) = r_available_at r"
  "r_created_at (bump t r) = r_created_at r"
  "r_event_sequence (bump t r) = r_event_sequence r + 1"
  by (simp_all add: bump_def)

text \<open>A lookup depends only on its table.\<close>

lemma row_cong [simp]:
  "run_row (db\<lparr>submissions := x1\<rparr>) = run_row db" "run_row (db\<lparr>attempts := x2\<rparr>) = run_row db"
  "run_row (db\<lparr>events := x3\<rparr>) = run_row db" "run_row (db\<lparr>workers := x4\<rparr>) = run_row db"
  "run_row (db\<lparr>telemetry := x5\<rparr>) = run_row db" "run_row (db\<lparr>artifacts := x6\<rparr>) = run_row db"
  "run_row (db\<lparr>sweeps := x7\<rparr>) = run_row db" "run_row (db\<lparr>gpu_devices := x8\<rparr>) = run_row db"
  "run_row (db\<lparr>attempt_gpus := x9\<rparr>) = run_row db" "run_row (upd_attempt i f db) = run_row db"
  "attempt_row (db\<lparr>submissions := x1\<rparr>) = attempt_row db" "attempt_row (db\<lparr>runs := y\<rparr>) = attempt_row db"
  "attempt_row (db\<lparr>events := x3\<rparr>) = attempt_row db" "attempt_row (db\<lparr>workers := x4\<rparr>) = attempt_row db"
  "attempt_row (db\<lparr>telemetry := x5\<rparr>) = attempt_row db" "attempt_row (db\<lparr>artifacts := x6\<rparr>) = attempt_row db"
  "attempt_row (db\<lparr>sweeps := x7\<rparr>) = attempt_row db" "attempt_row (db\<lparr>gpu_devices := x8\<rparr>) = attempt_row db"
  "attempt_row (db\<lparr>attempt_gpus := x9\<rparr>) = attempt_row db" "attempt_row (upd_run i f' db) = attempt_row db"
  by (simp_all add: run_row_def attempt_row_def upd_run_def upd_attempt_def fun_eq_iff)

end
