(* ===== verification/Store_Gpus.thy ===== *)
theory Store_Gpus
  imports Store_Schema
begin

text \<open>
  \<^verbatim>\<open>src/postgres/gpus.cpp\<close> and \<open>require_worker\<close> of \<^verbatim>\<open>workers.cpp\<close>: worker registration, GPU
  inventory, and the reservation of whole devices for an attempt.
\<close>

definition worker_row :: "db \<Rightarrow> string \<Rightarrow> workers_row option" where
  "worker_row db = find_by w_id (workers db)"

definition upd_worker :: "string \<Rightarrow> (workers_row \<Rightarrow> workers_row) \<Rightarrow> db \<Rightarrow> db" where
  "upd_worker wid f db = db\<lparr>workers := upd_where (\<lambda>w. w_id w = wid) f (workers db)\<rparr>"

definition require_worker :: "string \<Rightarrow> string \<Rightarrow> db \<Rightarrow> workers_row result" where
  "require_worker wid session db =
     (case worker_row db wid of
        None \<Rightarrow> throw stale ''worker session is no longer current''
      | Some w \<Rightarrow> (if w_session w \<noteq> session then throw stale ''worker session is no longer current''
                   else Inr w))"

definition register_worker ::
    "env \<Rightarrow> string \<Rightarrow> string \<Rightarrow> Resources \<Rightarrow> GpuRegistration \<Rightarrow> db \<Rightarrow> (unit \<times> db) result" where
  "register_worker e wid session capacity gpu db =
     (if wid = [] \<or> starts_with wid ''@'' \<or> 100 < length wid \<or> session = [] \<or>
         200 < length session \<or> cpu_millis capacity \<le> 0 \<or> memory_mib capacity \<le> 0 \<or>
         200 < length (reg_engine_id gpu) \<or> (reg_capable gpu \<and> reg_engine_id gpu = [])
      then throw invalid ''invalid worker registration''
      else case worker_row db wid of
        Some old \<Rightarrow>
          (if w_engine_id old \<noteq> [] \<and> w_engine_id old \<noteq> reg_engine_id gpu \<and>
              (\<exists>a\<in>set (attempts db). a_worker_id a = wid \<and> a_cleanup_status a = ''PENDING'')
           then throw conflict ''worker engine changed with unresolved attempts''
           else Inr ((), upd_worker wid (\<lambda>w. w\<lparr>w_session := session,
             w_cpu_millis := cpu_millis capacity, w_memory_mib := memory_mib capacity,
             w_engine_id := reg_engine_id gpu, w_gpu_capable := reg_capable gpu,
             w_gpu_ready := False, w_gpu_sequence := 0, w_gpu_observed_at := None,
             w_heartbeat_at := clk e 0\<rparr>) db))
      | None \<Rightarrow> Inr ((), db\<lparr>workers := workers db @ [\<lparr>w_id = wid, w_session = session,
          w_cpu_millis = cpu_millis capacity, w_memory_mib = memory_mib capacity, w_drained = False,
          w_heartbeat_at = clk e 0, w_engine_id = reg_engine_id gpu, w_gpu_capable = reg_capable gpu,
          w_gpu_ready = False, w_gpu_sequence = 0, w_gpu_observed_at = None\<rparr>]\<rparr>))"

definition device_ok :: "GpuDevice \<Rightarrow> bool" where
  "device_ok device \<longleftrightarrow>
     \<not> (\<not> starts_with (gd_uuid device) ''GPU-'' \<or> 100 < length (gd_uuid device) \<or>
        CHR 0x00 \<in> set (gd_uuid device) \<or> 200 < length (gd_name device) \<or>
        500 < length (gd_reason device) \<or> 1048576 < gd_memory_mib device)"

text \<open>The first loop: every descriptor is checked and its UUID inserted into the set \<open>unique\<close>.\<close>

fun collect_uuids :: "string set \<Rightarrow> GpuDevice list \<Rightarrow> string set result" where
  "collect_uuids unique [] = Inr unique"
| "collect_uuids unique (device # devices) =
     (if \<not> device_ok device \<or> gd_uuid device \<in> unique
      then throw invalid ''invalid or duplicate GPU descriptor''
      else collect_uuids (insert (gd_uuid device) unique) devices)"

text \<open>\<open>INSERT ... ON CONFLICT(uuid) DO UPDATE ... WHERE worker_id=$2 RETURNING uuid\<close>.\<close>

definition upsert_device :: "int \<Rightarrow> string \<Rightarrow> GpuDevice \<Rightarrow> db \<Rightarrow> db result" where
  "upsert_device now worker device db =
     (case find_by d_uuid (gpu_devices db) (gd_uuid device) of
        None \<Rightarrow> Inr (db\<lparr>gpu_devices := gpu_devices db @ [\<lparr>d_uuid = gd_uuid device,
          d_worker_id = worker, d_name = gd_name device, d_memory_mib = gd_memory_mib device,
          d_eligible = gd_eligible device, d_present = True, d_reason = gd_reason device,
          d_observed_at = now\<rparr>]\<rparr>)
      | Some old \<Rightarrow>
        (if d_worker_id old = worker
         then Inr (db\<lparr>gpu_devices := upd_where (\<lambda>d. d_uuid d = gd_uuid device)
                (\<lambda>d. d\<lparr>d_name := gd_name device, d_memory_mib := gd_memory_mib device,
                       d_eligible := gd_eligible device, d_reason := gd_reason device,
                       d_present := True, d_observed_at := now\<rparr>) (gpu_devices db)\<rparr>)
         else throw conflict ''GPU UUID belongs to another worker''))"

fun upsert_devices :: "(nat \<Rightarrow> int) \<Rightarrow> string \<Rightarrow> GpuDevice list \<Rightarrow> string list \<Rightarrow> db \<Rightarrow> db result" where
  "upsert_devices t worker devices [] db = Inr db"
| "upsert_devices t worker devices (uuid # uuids) db =
     (case find_by gd_uuid devices uuid of
        None \<Rightarrow> Inl (StdError ''device out of range'')
      | Some device \<Rightarrow>
        (case upsert_device (t 0) worker device db of
           Inl ex \<Rightarrow> Inl ex
         | Inr db' \<Rightarrow> upsert_devices (\<lambda>k. t (Suc k)) worker devices uuids db'))"

definition report_gpu_inventory ::
    "env \<Rightarrow> string \<Rightarrow> string \<Rightarrow> GpuSnapshot \<Rightarrow> db \<Rightarrow> (unit \<times> db) result" where
  "report_gpu_inventory e worker session snapshot db =
     (if snap_sequence snapshot \<le> 0 \<or> 64 < length (snap_devices snapshot)
      then throw invalid ''invalid GPU inventory size or sequence''
      else case collect_uuids {} (snap_devices snapshot) of
        Inl ex \<Rightarrow> Inl ex
      | Inr unique \<Rightarrow>
        (case require_worker worker session db of
           Inl ex \<Rightarrow> Inl ex
         | Inr row \<Rightarrow>
           (if \<not> w_gpu_capable row then throw conflict ''worker has not enabled GPU execution''
            else if snap_sequence snapshot \<le> w_gpu_sequence row then Inr ((), db)
            else
              let db1 = db\<lparr>gpu_devices := upd_where (\<lambda>d. d_worker_id d = worker)
                          (\<lambda>d. d\<lparr>d_present := False\<rparr>) (gpu_devices db)\<rparr>
              in case (if snap_ready snapshot
                       then upsert_devices (clk e) worker (snap_devices snapshot)
                              (sort (remdups (map gd_uuid (snap_devices snapshot)))) db1
                       else Inr db) of
                   Inl ex \<Rightarrow> Inl ex
                 | Inr db2 \<Rightarrow> Inr ((), upd_worker worker (\<lambda>w. w\<lparr>w_gpu_sequence := snap_sequence snapshot,
                     w_gpu_ready := snap_ready snapshot,
                     w_gpu_observed_at := (if snap_ready snapshot then Some (clk e 64)
                                           else w_gpu_observed_at w)\<rparr>) db2))))"

text \<open>\<open>load_gpu_allocations\<close>.\<close>

definition load_gpu_allocations :: "env \<Rightarrow> db \<Rightarrow> Attempt \<Rightarrow> Attempt" where
  "load_gpu_allocations e db attempt =
     attempt\<lparr>att_gpu_allocations := att_gpu_allocations attempt @
       map (\<lambda>g. \<lparr>al_device = \<lparr>gd_uuid = g_uuid g, gd_name = g_name g, gd_memory_mib = g_memory_mib g,
                   gd_eligible = True, gd_reason = []\<rparr>,
                 al_allocated_at = Some (g_allocated_at g), al_released_at = g_released_at g\<rparr>)
         (sort_by (\<lambda>a b. text_le e (g_uuid a) (g_uuid b))
           (filter (\<lambda>g. g_attempt_id g = att_id attempt) (attempt_gpus db)))\<rparr>"

definition device_free :: "db \<Rightarrow> gpu_devices_row \<Rightarrow> bool" where
  "device_free db d \<longleftrightarrow>
     d_present d \<and> d_eligible d \<and>
     \<not> (\<exists>g\<in>set (attempt_gpus db). g_uuid g = d_uuid d \<and> g_released_at g = None)"

definition load_worker_gpus :: "env \<Rightarrow> db \<Rightarrow> Worker \<Rightarrow> Worker" where
  "load_worker_gpus e db worker =
     (let present = sort_by (\<lambda>a b. text_le e (d_uuid a) (d_uuid b))
            (filter (\<lambda>d. d_worker_id d = wk_id worker \<and> d_present d) (gpu_devices db));
          devices = map (\<lambda>d. \<lparr>gd_uuid = d_uuid d, gd_name = d_name d, gd_memory_mib = d_memory_mib d,
                              gd_eligible = d_eligible d, gd_reason = d_reason d\<rparr>) present;
          eligible = int (length (filter gd_eligible devices));
          free = int (length (filter (\<lambda>d. d_worker_id d = wk_id worker \<and> device_free db d) (gpu_devices db)));
          reserved = int (length (filter (\<lambda>g. g_released_at g = None \<and>
            (case attempt_row db (g_attempt_id g) of None \<Rightarrow> False
             | Some a \<Rightarrow> a_worker_id a = wk_id worker)) (attempt_gpus db)))
      in worker\<lparr>wk_gpu_devices := wk_gpu_devices worker @ devices,
                wk_capacity := (wk_capacity worker)\<lparr>gpu_count := gpu_count (wk_capacity worker) + eligible\<rparr>,
                wk_available_gpus := (if wk_gpu_ready worker \<and> wk_gpu_fresh worker \<and>
                    wk_available worker \<and> \<not> wk_drained worker then free else wk_available_gpus worker),
                wk_reserved := (wk_reserved worker)\<lparr>gpu_count := reserved\<rparr>\<rparr>)"

definition free_gpus :: "env \<Rightarrow> db \<Rightarrow> string \<Rightarrow> GpuDevice list" where
  "free_gpus e db worker =
     map (\<lambda>d. \<lparr>gd_uuid = d_uuid d, gd_name = d_name d, gd_memory_mib = d_memory_mib d,
                gd_eligible = True, gd_reason = []\<rparr>)
       (sort_by (\<lambda>a b. text_le e (d_uuid a) (d_uuid b))
         (filter (\<lambda>d. d_worker_id d = worker \<and> device_free db d) (gpu_devices db)))"

text \<open>
  \<open>INSERT INTO attempt_gpus\<close>: the primary key, and the partial unique index that admits one
  unreleased row per UUID.
\<close>

definition unreleased :: "attempt_gpus_row list \<Rightarrow> attempt_gpus_row list" where
  "unreleased gs = filter (\<lambda>g. g_released_at g = None) gs"

definition insert_allocation :: "attempt_gpus_row \<Rightarrow> db \<Rightarrow> db result" where
  "insert_allocation row db =
     (if (g_attempt_id row, g_uuid row) \<in> (\<lambda>g. (g_attempt_id g, g_uuid g)) ` set (attempt_gpus db)
      then Inl (SqlError ''attempt_gpus_pkey'')
      else if g_released_at row = None \<and> g_uuid row \<in> g_uuid ` set (unreleased (attempt_gpus db))
      then Inl (SqlError ''gpu_exclusive_allocation'')
      else Inr (db\<lparr>attempt_gpus := attempt_gpus db @ [row]\<rparr>))"

text \<open>
  \<open>reserve_gpus\<close>: \<open>devices.at(i)\<close> for \<open>i = 0, ..., count - 1\<close>, which throws past the end.
\<close>

fun reserve_devices :: "(nat \<Rightarrow> int) \<Rightarrow> string \<Rightarrow> nat \<Rightarrow> GpuDevice list \<Rightarrow> db \<Rightarrow> db result" where
  "reserve_devices t attempt 0 devices db = Inr db"
| "reserve_devices t attempt (Suc n) [] db = Inl (StdError ''vector::at'')"
| "reserve_devices t attempt (Suc n) (device # devices) db =
     (case insert_allocation \<lparr>g_attempt_id = attempt, g_uuid = gd_uuid device, g_name = gd_name device,
             g_memory_mib = gd_memory_mib device, g_allocated_at = t 0, g_released_at = None\<rparr> db of
        Inl ex \<Rightarrow> Inl ex
      | Inr db' \<Rightarrow> reserve_devices (\<lambda>k. t (Suc k)) attempt n devices db')"

definition reserve_gpus :: "(nat \<Rightarrow> int) \<Rightarrow> string \<Rightarrow> int \<Rightarrow> GpuDevice list \<Rightarrow> db \<Rightarrow> db result" where
  "reserve_gpus t attempt count devices db = reserve_devices t attempt (nat count) devices db"

definition release_gpus :: "int \<Rightarrow> string \<Rightarrow> db \<Rightarrow> db" where
  "release_gpus now attempt db =
     db\<lparr>attempt_gpus := upd_where (\<lambda>g. g_attempt_id g = attempt \<and> g_released_at g = None)
          (\<lambda>g. g\<lparr>g_released_at := Some now\<rparr>) (attempt_gpus db)\<rparr>"

lemma worker_row_mem: "worker_row db wid = Some w \<Longrightarrow> w \<in> set (workers db) \<and> w_id w = wid"
  by (auto simp: worker_row_def dest: find_by_mem find_by_key)

end
