(* ===== verification/Sweep_Expansion.thy ===== *)
theory Sweep_Expansion
  imports Domain
begin

text \<open>
  \<open>expand_sweep\<close> of \<^verbatim>\<open>src/domain/model.cpp\<close>: the grid is checked (size, then an upper bound of
  the bytes of the expanded specifications) before the first specification is built; the
  nested loops then build one specification per combination. The lemmas relate them to the
  Cartesian product \<open>product_lists\<close>.
\<close>

text \<open>\<open>values.size() <= 1000 / count\<close> and \<open>count *= values.size()\<close>, dimension by dimension.\<close>

fun sweep_count :: "nat \<Rightarrow> ParameterGrid \<Rightarrow> nat result" where
  "sweep_count count [] = Inr count"
| "sweep_count count ((key, values) # grid) =
     (if \<not> (key \<noteq> [] \<and> values \<noteq> []) then throw invalid ''sweep dimensions cannot be empty''
      else if \<not> length values \<le> 1000 div count then throw invalid ''sweep exceeds 1000 runs''
      else sweep_count (count * length values) grid)"

definition scalar_bytes :: "Scalar \<Rightarrow> nat" where
  "scalar_bytes value = (case value of SString text \<Rightarrow> length text | _ \<Rightarrow> 0)"

definition sweep_bytes :: "RunSpec \<Rightarrow> ParameterGrid \<Rightarrow> nat" where
  "sweep_bytes base grid =
     4096 + length (spec_name base) + length (spec_image base)
     + sum_list (map length (spec_command base))
     + sum_list (map (\<lambda>(key, value). length key + length value) (spec_environment base))
     + sum_list (map (\<lambda>(key, value). length key + 32 + scalar_bytes value) (spec_parameters base))
     + sum_list (map (\<lambda>(key, values). length key + foldl max 0 (map scalar_bytes values) + 32) grid)"

text \<open>The two inner loops for one dimension, then the loop over the dimensions.\<close>

definition set_parameter :: "string \<Rightarrow> Scalar \<Rightarrow> RunSpec \<Rightarrow> RunSpec" where
  "set_parameter key value spec = spec\<lparr>spec_parameters := map_put key value (spec_parameters spec)\<rparr>"

definition expand_item :: "string \<Rightarrow> RunSpec \<Rightarrow> Scalar \<Rightarrow> RunSpec result" where
  "expand_item key spec value =
     (let item = set_parameter key value spec in
      case validate item of Inl e \<Rightarrow> Inl e | Inr _ \<Rightarrow> Inr item)"

definition expand_dimension :: "string \<Rightarrow> Scalar list \<Rightarrow> RunSpec list \<Rightarrow> RunSpec list result" where
  "expand_dimension key values result =
     map_result (\<lambda>(spec, value). expand_item key spec value) (List.product result values)"

fun expand_grid :: "RunSpec list \<Rightarrow> ParameterGrid \<Rightarrow> RunSpec list result" where
  "expand_grid result [] = Inr result"
| "expand_grid result ((key, values) # grid) =
     (case expand_dimension key values result of Inl e \<Rightarrow> Inl e
      | Inr expanded \<Rightarrow> expand_grid expanded grid)"

definition expand_sweep :: "RunSpec \<Rightarrow> ParameterGrid \<Rightarrow> RunSpec list result" where
  "expand_sweep base grid =
     (case validate base of Inl e \<Rightarrow> Inl e
      | Inr _ \<Rightarrow>
        (case sweep_count 1 grid of Inl e \<Rightarrow> Inl e
         | Inr count \<Rightarrow>
           (if \<not> sweep_bytes base grid \<le> 16 * 1024 * 1024 div count
            then throw invalid ''expanded sweep exceeds 16 MiB''
            else expand_grid [base] grid)))"

section \<open>Size of the grid\<close>

lemma sweep_count_bound:
  "sweep_count count grid = Inr n \<Longrightarrow> 0 < count \<Longrightarrow> count \<le> 1000 \<Longrightarrow>
     n = count * prod_list (map (length \<circ> snd) grid) \<and> 0 < n \<and> n \<le> 1000"
proof (induction count grid rule: sweep_count.induct)
  case (1 count)
  then show ?case by simp
next
  case (2 count key "values" grid)
  from "2.prems" have ne: "values \<noteq> []" and le: "length values \<le> 1000 div count"
    and rest: "sweep_count (count * length values) grid = Inr n"
    by (auto split: if_splits)
  have "count * length values \<le> count * (1000 div count)" using le by simp
  also have "\<dots> \<le> 1000" by simp
  finally have "count * length values \<le> 1000" .
  with "2.IH"[OF _ _ rest] "2.prems" ne le show ?case
    by (auto split: if_splits)
qed

section \<open>The expansion is the Cartesian product\<close>

definition grid_choices :: "ParameterGrid \<Rightarrow> (string \<times> Scalar) list list" where
  "grid_choices grid = product_lists (map (\<lambda>(key, values). map (Pair key) values) grid)"

definition apply_choice :: "RunSpec \<Rightarrow> (string \<times> Scalar) list \<Rightarrow> RunSpec" where
  "apply_choice = foldl (\<lambda>spec (key, value). set_parameter key value spec)"

lemma expand_item_ok:
  "expand_item key spec value = Inr item \<longleftrightarrow>
     item = set_parameter key value spec \<and> validate item = Inr ()"
  by (auto simp: expand_item_def Let_def split: sum.splits)

lemma expand_dimension_ok:
  assumes "expand_dimension key values result = Inr expanded"
  shows "expanded = concat (map (\<lambda>spec. map (\<lambda>v. set_parameter key v spec) values) result)"
    and "list_all (\<lambda>s. validate s = Inr ()) expanded"
proof -
  let ?ps = "List.product result values"
  from assms have len: "length expanded = length ?ps"
    and item: "\<And>i. i < length ?ps \<Longrightarrow>
      (case ?ps ! i of (spec, v) \<Rightarrow> expanded ! i = set_parameter key v spec \<and> validate (expanded ! i) = Inr ())"
    by (auto simp: expand_dimension_def map_result_ok expand_item_ok split: prod.splits)
  have "expanded = map (\<lambda>(spec, v). set_parameter key v spec) ?ps"
    using len item by (intro nth_equalityI) (fastforce split: prod.splits)+
  also have "\<dots> = concat (map (\<lambda>spec. map (\<lambda>v. set_parameter key v spec) values) result)"
    by (simp add: product_concat_map map_concat comp_def)
  finally show "expanded = \<dots>" .
  show "list_all (\<lambda>s. validate s = Inr ()) expanded"
    using len item by (auto simp: list_all_length split: prod.splits)
qed

lemma concat_concat_map: "concat (concat (map g xs)) = concat (map (\<lambda>x. concat (g x)) xs)"
  by (induction xs) auto

lemma expand_grid_ok:
  assumes "expand_grid result grid = Inr specs"
  shows "specs = concat (map (\<lambda>spec. map (apply_choice spec) (grid_choices grid)) result)"
  using assms
proof (induction result grid rule: expand_grid.induct)
  case (1 result)
  then show ?case by (simp add: grid_choices_def apply_choice_def)
next
  case (2 result key "values" grid)
  from "2.prems" obtain expanded where dim: "expand_dimension key values result = Inr expanded"
    and rest: "expand_grid expanded grid = Inr specs" by (auto split: sum.splits)
  have "map (apply_choice spec) (grid_choices ((key, values) # grid)) =
      concat (map (\<lambda>v. map (apply_choice (set_parameter key v spec)) (grid_choices grid)) values)" for spec
    by (simp add: grid_choices_def apply_choice_def map_concat comp_def)
  then show ?case
    unfolding "2.IH"[OF dim rest] expand_dimension_ok(1)[OF dim]
    by (simp add: map_concat comp_def concat_concat_map)
qed


lemma expand_grid_valid:
  "expand_grid result grid = Inr specs \<Longrightarrow> list_all (\<lambda>s. validate s = Inr ()) result \<Longrightarrow>
     list_all (\<lambda>s. validate s = Inr ()) specs"
proof (induction result grid rule: expand_grid.induct)
  case (1 result)
  then show ?case by simp
next
  case (2 result key "values" grid)
  then show ?case by (auto split: sum.splits dest: expand_dimension_ok(2))
qed

lemma length_grid_choices: "length (grid_choices grid) = prod_list (map (length \<circ> snd) grid)"
  by (simp add: grid_choices_def length_product_lists comp_def case_prod_unfold
      foldr_map prod_list.eq_foldr)

lemma expand_sweep_ok:
  assumes "expand_sweep base grid = Inr specs"
  shows "validate base = Inr ()"
    and "sweep_count 1 grid = Inr (length specs)"
    and "specs = map (apply_choice base) (grid_choices grid)"
    and "sweep_bytes base grid \<le> 16 * 1024 * 1024 div length specs"
    and "list_all (\<lambda>s. validate s = Inr ()) specs"
proof -
  from assms obtain count where valid: "validate base = Inr ()"
    and count: "sweep_count 1 grid = Inr count"
    and bytes: "sweep_bytes base grid \<le> 16 * 1024 * 1024 div count"
    and grid: "expand_grid [base] grid = Inr specs"
    by (auto simp: expand_sweep_def split: sum.splits if_splits)
  from expand_grid_ok[OF grid] show specs: "specs = map (apply_choice base) (grid_choices grid)"
    by simp
  then have "length specs = prod_list (map (length \<circ> snd) grid)"
    by (simp add: length_grid_choices)
  with sweep_count_bound[OF count] have "count = length specs" by simp
  with count bytes show "sweep_count 1 grid = Inr (length specs)"
      "sweep_bytes base grid \<le> 16 * 1024 * 1024 div length specs" by simp_all
  show "validate base = Inr ()" by (fact valid)
  from expand_grid_valid[OF grid] valid show "list_all (\<lambda>s. validate s = Inr ()) specs" by simp
qed

section \<open>What a choice changes\<close>

lemma set_parameter_frame [simp]:
  "spec_parameters (set_parameter k v s) = map_put k v (spec_parameters s)"
  "(set_parameter k v s)\<lparr>spec_parameters := p\<rparr> = s\<lparr>spec_parameters := p\<rparr>"
  by (simp_all add: set_parameter_def)

lemma apply_choice_parameters:
  "map_wf (spec_parameters base) \<Longrightarrow>
     map_wf (spec_parameters (apply_choice base choice)) \<and>
     map_of (spec_parameters (apply_choice base choice)) =
       map_of (spec_parameters base) ++ map_of (rev choice) \<and>
     (apply_choice base choice)\<lparr>spec_parameters := p\<rparr> = base\<lparr>spec_parameters := p\<rparr>"
proof (induction choice arbitrary: base)
  case Nil
  then show ?case by (simp add: apply_choice_def)
next
  case (Cons kv choice)
  obtain k v where kv: "kv = (k, v)" by (cases kv)
  have "apply_choice base (kv # choice) = apply_choice (set_parameter k v base) choice"
    by (simp add: apply_choice_def kv)
  with Cons.IH[of "set_parameter k v base"] Cons.prems show ?case
    by (simp add: kv map_add_upd_left fun_eq_iff map_add_def split: option.splits)
qed

lemma grid_choice_keys:
  "choice \<in> set (grid_choices grid) \<Longrightarrow> map fst choice = map fst grid"
proof (induction grid arbitrary: choice)
  case Nil
  then show ?case by (simp add: grid_choices_def)
next
  case (Cons kvs grid)
  then show ?case
    by (cases kvs) (auto simp: grid_choices_def)
qed

end
