(* ===== verification/Store_Runs.thy ===== *)
theory Store_Runs
  imports Store_Gpus Sweep_Expansion
begin

text \<open>
  \<^verbatim>\<open>src/postgres/runs.cpp\<close> and \<^verbatim>\<open>src/postgres/sweeps.cpp\<close>: idempotent submission of runs and
  sweeps, reruns, and the read-only listings.
\<close>

definition insert_submission :: "submissions_row \<Rightarrow> db \<Rightarrow> db result" where
  "insert_submission row db =
     (case insert_unique sub_key ''submissions_pkey'' row (submissions db) of
        Inl e \<Rightarrow> Inl e | Inr submissions' \<Rightarrow> Inr (db\<lparr>submissions := submissions'\<rparr>))"

text \<open>
  What \<open>submit\<close> and \<open>rerun\<close> do for a new key: insert the run and the submission, then
  record the event.
\<close>

definition create_run ::
    "(nat \<Rightarrow> int) \<Rightarrow> runs_row \<Rightarrow> submissions_row \<Rightarrow> string \<Rightarrow> db \<Rightarrow> db result" where
  "create_run t row submission detail db =
     (case insert_run row db of
        Inl e \<Rightarrow> Inl e
      | Inr db1 \<Rightarrow>
        (case insert_submission submission db1 of
           Inl e \<Rightarrow> Inl e
         | Inr db2 \<Rightarrow> event (t 0) (t 1) (r_id row) ''submitted'' detail db2))"

definition submit :: "env \<Rightarrow> RunSpec \<Rightarrow> string \<Rightarrow> string \<Rightarrow> db \<Rightarrow> (Run \<times> db) result" where
  "submit e spec key fingerprint db =
     (case validate_submission spec of
        Inl ex \<Rightarrow> Inl ex
      | Inr _ \<Rightarrow>
        (case find_by sub_key (submissions db) key of
           Some old \<Rightarrow>
             (if sub_fingerprint old \<noteq> fingerprint
              then throw conflict ''idempotency key already identifies another request''
              else case run_row db (sub_run_id old) of
                None \<Rightarrow> Inl (StdError ''result row out of range'')
              | Some r \<Rightarrow> Inr (run_of r, db))
         | None \<Rightarrow>
           (let row = new_run (fresh e 0) spec None None (clk e 0) in
            case create_run (\<lambda>k. clk e (1 + k)) row
                \<lparr>sub_key = key, sub_fingerprint = fingerprint, sub_run_id = fresh e 0\<rparr>
                ''run accepted'' db of
              Inl ex \<Rightarrow> Inl ex
            | Inr db' \<Rightarrow> Inr (run_of row, db'))))"

definition get_run :: "string \<Rightarrow> db \<Rightarrow> Run result" where
  "get_run rid db =
     (case run_row db rid of None \<Rightarrow> throw not_found ''run not found'' | Some r \<Rightarrow> Inr (run_of r))"

definition list_runs :: "env \<Rightarrow> int \<Rightarrow> string \<Rightarrow> string \<Rightarrow> db \<Rightarrow> Run list" where
  "list_runs e limit after status db =
     map run_of (take (nat (clamp limit 1 200))
       (sort_by (\<lambda>a b. text_le e (r_id a) (r_id b))
         (filter (\<lambda>r. (after = [] \<or> \<not> text_le e (r_id r) after) \<and>
                       (status = [] \<or> to_string (r_status r) = status)) (runs db))))"

definition list_attempts :: "env \<Rightarrow> string \<Rightarrow> db \<Rightarrow> Attempt list" where
  "list_attempts e rid db =
     map (\<lambda>a. load_gpu_allocations e db (attempt_of a))
       (sort_by (\<lambda>a b. a_generation a \<le> a_generation b)
         (filter (\<lambda>a. a_run_id a = rid) (attempts db)))"

definition list_events :: "string \<Rightarrow> int \<Rightarrow> int \<Rightarrow> db \<Rightarrow> Event list" where
  "list_events rid after limit db =
     map (\<lambda>e. \<lparr>ev_sequence = e_sequence e, ev_kind = e_kind e, ev_detail = e_detail e,
                ev_created_at = Some (e_created_at e)\<rparr>)
       (take (nat (clamp limit 1 1000))
         (sort_by (\<lambda>a b. e_sequence a \<le> e_sequence b)
           (filter (\<lambda>e. e_run_id e = rid \<and> e_sequence e > after) (events db))))"

section \<open>Sweeps and reruns\<close>

text \<open>\<open>ORDER BY created_at,id\<close>.\<close>

definition created_before :: "env \<Rightarrow> runs_row \<Rightarrow> runs_row \<Rightarrow> bool" where
  "created_before e a b \<longleftrightarrow>
     r_created_at a < r_created_at b \<or> (r_created_at a = r_created_at b \<and> text_le e (r_id a) (r_id b))"

definition load_sweep :: "env \<Rightarrow> string \<Rightarrow> db \<Rightarrow> Sweep result" where
  "load_sweep e sid db =
     (case find_by s_id (sweeps db) sid of
        None \<Rightarrow> throw not_found ''sweep not found''
      | Some s \<Rightarrow> Inr \<lparr>sw_id = s_id s, sw_spec = s_spec s,
          sw_run_ids = map r_id (sort_by (created_before e)
            (filter (\<lambda>r. r_sweep_id r = Some sid) (runs db))),
          sw_created_at = Some (s_created_at s)\<rparr>)"

text \<open>\<open>INSERT INTO sweeps\<close>: the primary key and \<open>UNIQUE\<close> on the key.\<close>

definition insert_sweep :: "sweeps_row \<Rightarrow> db \<Rightarrow> db result" where
  "insert_sweep row db =
     (case insert_unique s_id ''sweeps_pkey'' row (sweeps db) of
        Inl e \<Rightarrow> Inl e
      | Inr sweeps' \<Rightarrow>
        (case insert_unique s_key ''sweeps_key_key'' row (sweeps db) of
           Inl e \<Rightarrow> Inl e | Inr _ \<Rightarrow> Inr (db\<lparr>sweeps := sweeps'\<rparr>)))"

fun insert_sweep_runs :: "(nat \<Rightarrow> int) \<Rightarrow> (nat \<Rightarrow> string) \<Rightarrow> string \<Rightarrow> RunSpec list \<Rightarrow> db \<Rightarrow> db result" where
  "insert_sweep_runs t ids sid [] db = Inr db"
| "insert_sweep_runs t ids sid (spec # specs) db =
     (case validate_submission spec of
        Inl e \<Rightarrow> Inl e
      | Inr _ \<Rightarrow>
        (case insert_run (new_run (ids 0) spec (Some sid) None (t 0)) db of
           Inl e \<Rightarrow> Inl e
         | Inr db1 \<Rightarrow>
           (case event (t 1) (t 2) (ids 0) ''submitted'' (''sweep '' @ sid) db1 of
              Inl e \<Rightarrow> Inl e
            | Inr db2 \<Rightarrow>
              insert_sweep_runs (\<lambda>k. t (3 + k)) (\<lambda>k. ids (Suc k)) sid specs db2)))"

definition submit_sweep ::
    "env \<Rightarrow> SweepSpec \<Rightarrow> RunSpec list \<Rightarrow> string \<Rightarrow> string \<Rightarrow> db \<Rightarrow> (Sweep \<times> db) result" where
  "submit_sweep e spec specs key fingerprint db =
     (case find_by s_key (sweeps db) key of
        Some old \<Rightarrow>
          (if s_fingerprint old \<noteq> fingerprint
           then throw conflict ''sweep key already identifies another request''
           else case load_sweep e (s_id old) db of Inl ex \<Rightarrow> Inl ex | Inr s \<Rightarrow> Inr (s, db))
      | None \<Rightarrow>
        (case insert_sweep \<lparr>s_id = fresh e 0, s_spec = spec, s_key = key,
                s_fingerprint = fingerprint, s_created_at = clk e 0\<rparr> db of
           Inl ex \<Rightarrow> Inl ex
         | Inr db1 \<Rightarrow>
           (case insert_sweep_runs (\<lambda>k. clk e (1 + k)) (\<lambda>k. fresh e (1 + k)) (fresh e 0) specs db1 of
              Inl ex \<Rightarrow> Inl ex
            | Inr db2 \<Rightarrow>
              (case load_sweep e (fresh e 0) db2 of Inl ex \<Rightarrow> Inl ex | Inr s \<Rightarrow> Inr (s, db2)))))"

definition get_sweep :: "env \<Rightarrow> string \<Rightarrow> db \<Rightarrow> Sweep result" where
  "get_sweep e sid db = load_sweep e sid db"

text \<open>\<open>sha256\<close> is OpenSSL's digest, a parameter.\<close>

definition rerun :: "(string \<Rightarrow> string) \<Rightarrow> env \<Rightarrow> string \<Rightarrow> string \<Rightarrow> db \<Rightarrow> (Run \<times> db) result" where
  "rerun sha256 e rid key db =
     (let fingerprint = sha256 (''rerun:'' @ rid) in
      case find_by sub_key (submissions db) key of
        Some old \<Rightarrow>
          (if sub_fingerprint old \<noteq> fingerprint
           then throw conflict ''key already identifies another request''
           else case run_row db (sub_run_id old) of
             None \<Rightarrow> Inl (StdError ''result row out of range'')
           | Some r \<Rightarrow> Inr (run_of r, db))
      | None \<Rightarrow>
        (case run_row db rid of
           None \<Rightarrow> throw not_found ''run not found''
         | Some old \<Rightarrow>
           (if \<not> terminal (r_status old) then throw conflict ''only terminal runs can be rerun''
            else case validate_submission (r_spec old) of
              Inl ex \<Rightarrow> Inl ex
            | Inr _ \<Rightarrow>
              (let row = new_run (fresh e 0) (r_spec old) None (Some rid) (clk e 0) in
               case create_run (\<lambda>k. clk e (1 + k)) row
                   \<lparr>sub_key = key, sub_fingerprint = fingerprint, sub_run_id = fresh e 0\<rparr>
                   (''rerun of '' @ rid) db of
                 Inl ex \<Rightarrow> Inl ex
               | Inr db' \<Rightarrow> Inr (run_of row, db')))))"

end
