(* ===== verification/Store_Ownership.thy ===== *)
theory Store_Ownership
  imports Store_Schema
begin

text \<open>
  \<^verbatim>\<open>src/postgres/ownership.cpp\<close>, \<open>pg::fail\<close> of \<^verbatim>\<open>recovery.cpp\<close> and \<open>cancel\<close> of \<^verbatim>\<open>control.cpp\<close>:
  the runner's claim of an attempt, lease renewal, finalization, completion, failure and
  cancellation.
\<close>

record LockedAttempt =
  la_run :: Run
  la_attempt :: Attempt
  la_lease_valid :: bool
  la_launch_valid :: bool
  la_deadline_valid :: bool

text \<open>
  \<open>COALESCE(lease_until>now,false)\<close>, \<open>launch_deadline>now\<close>, and the deadline of the attempt's
  phase, where NULL counts as valid.
\<close>

definition lease_valid :: "int \<Rightarrow> attempts_row \<Rightarrow> bool" where
  "lease_valid now a = (case a_lease_until a of None \<Rightarrow> False | Some t \<Rightarrow> t > now)"

definition launch_valid :: "int \<Rightarrow> attempts_row \<Rightarrow> bool" where
  "launch_valid now a \<longleftrightarrow> a_launch_deadline a > now"

definition deadline_valid :: "int \<Rightarrow> attempts_row \<Rightarrow> bool" where
  "deadline_valid now a =
     (case (if a_status a = ''FINALIZING'' then a_finalization_deadline a else a_execution_deadline a) of
        None \<Rightarrow> True | Some t \<Rightarrow> t > now)"

definition locked :: "int \<Rightarrow> attempts_row \<Rightarrow> runs_row \<Rightarrow> LockedAttempt" where
  "locked now a r = \<lparr>la_run = run_of r, la_attempt = attempt_of a,
     la_lease_valid = lease_valid now a, la_launch_valid = launch_valid now a,
     la_deadline_valid = deadline_valid now a\<rparr>"

definition lock_attempt :: "int \<Rightarrow> string \<Rightarrow> db \<Rightarrow> LockedAttempt result" where
  "lock_attempt now aid db =
     (case attempt_row db aid of
        None \<Rightarrow> throw not_found ''attempt not found''
      | Some a \<Rightarrow>
        (case run_row db (a_run_id a) of
           None \<Rightarrow> Inl (StdError ''result row out of range'')
         | Some r \<Rightarrow> Inr (locked now a r)))"

definition owned :: "int \<Rightarrow> string \<Rightarrow> int \<Rightarrow> string \<Rightarrow> db \<Rightarrow> LockedAttempt result" where
  "owned now aid generation inst db =
     (case lock_attempt now aid db of
        Inl e \<Rightarrow> Inl e
      | Inr a \<Rightarrow>
        (if run_active_attempt (la_run a) \<noteq> aid \<or> run_generation (la_run a) \<noteq> generation \<or>
            att_instance_id (la_attempt a) \<noteq> inst \<or> inst = [] \<or> \<not> la_lease_valid a \<or>
            \<not> la_deadline_valid a \<or>
            (run_status (la_run a) \<noteq> running \<and> run_status (la_run a) \<noteq> finalizing)
         then throw stale ''attempt ownership expired or was replaced''
         else Inr a))"

definition node_name_chars :: string where
  "node_name_chars = ''abcdefghijklmnopqrstuvwxyz0123456789.-''"

definition start :: "Timing \<Rightarrow> env \<Rightarrow> string \<Rightarrow> int \<Rightarrow> string \<Rightarrow> string \<Rightarrow> db \<Rightarrow> (Assignment \<times> db) result" where
  "start timing e aid generation inst node_name db =
     (if 253 < length node_name \<or> \<not> set node_name \<subseteq> set node_name_chars
      then throw invalid ''invalid node name''
      else if inst = [] \<or> 200 < length inst
      then throw invalid ''invalid runner instance identity''
      else case lock_attempt (clk e 0) aid db of
        Inl ex \<Rightarrow> Inl ex
      | Inr a \<Rightarrow>
        (if run_active_attempt (la_run a) \<noteq> aid \<or> run_generation (la_run a) \<noteq> generation \<or>
            terminal (run_status (la_run a))
         then throw stale ''attempt is no longer current''
         else if run_status (la_run a) \<noteq> starting \<and> run_status (la_run a) \<noteq> running \<and>
            run_status (la_run a) \<noteq> finalizing
         then throw stale ''attempt is no longer executing''
         else if node_name \<noteq> [] \<and> att_worker_id (la_attempt a) \<noteq> ''@kubernetes''
         then throw invalid ''node placement only applies to Kubernetes''
         else if att_instance_id (la_attempt a) \<noteq> []
         then (if att_instance_id (la_attempt a) \<noteq> inst \<or> att_node_name (la_attempt a) \<noteq> node_name \<or>
                  \<not> la_lease_valid a \<or> \<not> la_deadline_valid a
               then throw stale ''attempt already claimed or expired''
               else Inr (\<lparr>asg_attempt = la_attempt a, asg_spec = run_spec (la_run a)\<rparr>, db))
         else if run_status (la_run a) \<noteq> starting \<or> \<not> la_launch_valid a
         then throw stale ''launch deadline expired''
         else
           let db1 = upd_attempt aid (\<lambda>x. x\<lparr>a_node_name := node_name, a_instance_id := Some inst,
                       a_status := ''RUNNING'', a_started_at := Some (clk e 1),
                       a_lease_until := Some (clk e 1 + seconds (lease_seconds timing)),
                       a_execution_deadline :=
                         Some (clk e 1 + seconds (spec_timeout_seconds (run_spec (la_run a))))\<rparr>) db;
               db2 = upd_run (run_id (la_run a)) (\<lambda>r. r\<lparr>r_status := running\<rparr>) db1
           in case event (clk e 2) (clk e 3) (run_id (la_run a)) ''started'' ''runner claimed execution'' db2 of
                Inl ex \<Rightarrow> Inl ex
              | Inr db3 \<Rightarrow>
                (case attempt_row db1 aid of
                   None \<Rightarrow> Inl (StdError ''result row out of range'')
                 | Some row \<Rightarrow> Inr (\<lparr>asg_attempt = attempt_of row, asg_spec = run_spec (la_run a)\<rparr>, db3))))"

definition heartbeat :: "Timing \<Rightarrow> env \<Rightarrow> string \<Rightarrow> int \<Rightarrow> string \<Rightarrow> db \<Rightarrow> (unit \<times> db) result" where
  "heartbeat timing e aid generation inst db =
     (case owned (clk e 0) aid generation inst db of
        Inl ex \<Rightarrow> Inl ex
      | Inr _ \<Rightarrow> Inr ((), upd_attempt aid
          (\<lambda>x. x\<lparr>a_lease_until := Some (clk e 1 + seconds (lease_seconds timing))\<rparr>) db))"

definition begin_finalization ::
    "Timing \<Rightarrow> env \<Rightarrow> string \<Rightarrow> int \<Rightarrow> string \<Rightarrow> db \<Rightarrow> (unit \<times> db) result" where
  "begin_finalization timing e aid generation inst db =
     (case owned (clk e 0) aid generation inst db of
        Inl ex \<Rightarrow> Inl ex
      | Inr a \<Rightarrow>
        (if run_status (la_run a) = running then
           let db1 = upd_attempt aid (\<lambda>x. x\<lparr>a_status := ''FINALIZING'',
                       a_finalization_deadline := Some (clk e 1 + seconds (finalization_seconds timing))\<rparr>) db;
               db2 = upd_run (run_id (la_run a)) (\<lambda>r. r\<lparr>r_status := finalizing\<rparr>) db1
           in case event (clk e 2) (clk e 3) (run_id (la_run a)) ''finalizing''
                     ''collecting execution outputs'' db2 of
                Inl ex \<Rightarrow> Inl ex
              | Inr db3 \<Rightarrow> Inr ((), db3)
         else Inr ((), db)))"

text \<open>
  \<open>pg::fail\<close>: the attempt fails; its run waits for a retry or fails. \<open>t k\<close> is the clock of the
  k-th of its statements.
\<close>

definition fail ::
    "Timing \<Rightarrow> (nat \<Rightarrow> int) \<Rightarrow> LockedAttempt \<Rightarrow> Failure \<Rightarrow> string \<Rightarrow> int option \<Rightarrow> db \<Rightarrow> db result" where
  "fail timing t a failure reason exit_code db =
     (let retry = should_retry (spec_retry (run_spec (la_run a))) (att_generation (la_attempt a)) failure;
          db1 = upd_attempt (att_id (la_attempt a)) (\<lambda>x. x\<lparr>a_status := ''FAILED'', a_reason := Some reason,
                  a_exit_code := exit_code, a_finished_at := Some (t 0)\<rparr>) db;
          db2 = upd_run (run_id (la_run a)) (\<lambda>r. r\<lparr>r_status := (if retry then retry_wait else failed),
                  r_available_at := t 1 + seconds (retry_delay (att_generation (la_attempt a))
                    (retry_base_seconds timing) (retry_max_seconds timing))\<rparr>) db1
      in event (t 2) (t 3) (run_id (la_run a)) (if retry then ''retry_scheduled'' else ''failed'') reason db2)"

definition finish ::
    "Timing \<Rightarrow> env \<Rightarrow> string \<Rightarrow> int \<Rightarrow> string \<Rightarrow> int \<Rightarrow> string \<Rightarrow> int \<Rightarrow> db \<Rightarrow> (unit \<times> db) result" where
  "finish timing e aid generation inst exit_code reason final_sequence db =
     (case lock_attempt (clk e 0) aid db of
        Inl ex \<Rightarrow> Inl ex
      | Inr a0 \<Rightarrow>
        (if run_active_attempt (la_run a0) = aid \<and> att_instance_id (la_attempt a0) = inst \<and>
            att_generation (la_attempt a0) = generation \<and> att_exit_code (la_attempt a0) = Some exit_code \<and>
            (att_status (la_attempt a0) = ''SUCCEEDED'' \<or> att_status (la_attempt a0) = ''FAILED'')
         then Inr ((), db)
         else case owned (clk e 1) aid generation inst db of
           Inl ex \<Rightarrow> Inl ex
         | Inr a \<Rightarrow>
           (if att_acknowledged_sequence (la_attempt a) \<noteq> final_sequence
            then throw conflict ''telemetry must be acknowledged before completion''
            else if exit_code = 0 \<and> run_status (la_run a) \<noteq> finalizing
            then throw conflict ''successful completion requires finalization''
            else if exit_code = 0 then
              let db1 = upd_attempt aid (\<lambda>x. x\<lparr>a_status := ''SUCCEEDED'', a_exit_code := Some 0,
                          a_reason := Some reason, a_finished_at := Some (clk e 2)\<rparr>) db;
                  db2 = upd_run (run_id (la_run a)) (\<lambda>r. r\<lparr>r_status := succeeded\<rparr>) db1
              in case event (clk e 3) (clk e 4) (run_id (la_run a)) ''completed'' ''SUCCEEDED'' db2 of
                   Inl ex \<Rightarrow> Inl ex | Inr db3 \<Rightarrow> Inr ((), db3)
            else
              let failure = (if reason = ''TIMEOUT'' then timeout
                             else if reason = ''STOP_REQUESTED'' \<or> reason = ''LEASE_LOST'' then infrastructure
                             else exit_error)
              in case fail timing (\<lambda>k. clk e (2 + k)) a failure
                        (if reason = [] then ''EXIT_ERROR'' else reason) (Some exit_code) db of
                   Inl ex \<Rightarrow> Inl ex | Inr db3 \<Rightarrow> Inr ((), db3))))"

text \<open>\<^verbatim>\<open>control.cpp\<close>.\<close>

definition cancel :: "env \<Rightarrow> string \<Rightarrow> db \<Rightarrow> (Run \<times> db) result" where
  "cancel e rid db =
     (case run_row db rid of
        None \<Rightarrow> throw not_found ''run not found''
      | Some r \<Rightarrow>
        (if terminal (r_status r) then Inr (run_of r, db)
         else
           let db1 = db\<lparr>attempts := upd_where (\<lambda>a. a_run_id a = rid \<and> live (a_status a))
                       (\<lambda>a. a\<lparr>a_status := ''CANCELLED'', a_reason := Some ''USER_CANCELLED'',
                              a_lease_until := Some (clk e 0), a_finished_at := Some (clk e 0)\<rparr>)
                       (attempts db)\<rparr>;
               db2 = upd_run rid (\<lambda>r. r\<lparr>r_status := cancelled\<rparr>) db1
           in case event (clk e 1) (clk e 2) rid ''cancelled''
                     ''results fenced; remote cleanup may still be pending'' db2 of
                Inl ex \<Rightarrow> Inl ex
              | Inr db3 \<Rightarrow> Inr (run_of (r\<lparr>r_status := cancelled\<rparr>), db3)))"

section \<open>When the operations succeed\<close>

lemma locked_simps [simp]:
  "la_run (locked now a r) = run_of r" "la_attempt (locked now a r) = attempt_of a"
  "la_lease_valid (locked now a r) = lease_valid now a"
  "la_launch_valid (locked now a r) = launch_valid now a"
  "la_deadline_valid (locked now a r) = deadline_valid now a"
  by (simp_all add: locked_def)

lemma lock_attempt_ok [ok_simps]:
  "lock_attempt now aid db = Inr la \<longleftrightarrow>
     (\<exists>a r. attempt_row db aid = Some a \<and> run_row db (a_run_id a) = Some r \<and> la = locked now a r)"
  by (auto simp: lock_attempt_def split: option.splits)

definition owns :: "int \<Rightarrow> string \<Rightarrow> int \<Rightarrow> string \<Rightarrow> attempts_row \<Rightarrow> runs_row \<Rightarrow> bool" where
  "owns now aid generation inst a r \<longleftrightarrow>
     text_of (r_active_attempt r) = aid \<and> r_generation r = generation \<and>
     text_of (a_instance_id a) = inst \<and> inst \<noteq> [] \<and> lease_valid now a \<and> deadline_valid now a \<and>
     (r_status r = running \<or> r_status r = finalizing)"

lemma owned_ok [ok_simps]:
  "owned now aid generation inst db = Inr la \<longleftrightarrow>
     (\<exists>a r. attempt_row db aid = Some a \<and> run_row db (a_run_id a) = Some r \<and>
            owns now aid generation inst a r \<and> la = locked now a r)"
  by (auto simp: owned_def owns_def lock_attempt_def split: option.splits)

text \<open>
  The three ways in which \<open>finish\<close> succeeds: the completion was recorded before, the attempt
  succeeds, the attempt fails.
\<close>

lemma finish_cases:
  assumes "finish timing e aid generation inst code reason fin db = Inr (u, db')"
  obtains (duplicate) "db' = db"
  | (success) a r where "attempt_row db aid = Some a" "run_row db (a_run_id a) = Some r"
      "owns (clk e 1) aid generation inst a r" "a_ack_sequence a = fin" "r_status r = finalizing" "code = 0"
      "event (clk e 3) (clk e 4) (r_id r) ''completed'' ''SUCCEEDED''
        (upd_run (r_id r) (\<lambda>r. r\<lparr>r_status := succeeded\<rparr>)
         (upd_attempt aid (\<lambda>x. x\<lparr>a_status := ''SUCCEEDED'', a_exit_code := Some 0,
                          a_reason := Some reason, a_finished_at := Some (clk e 2)\<rparr>) db)) = Inr db'"
  | (failure) a r failure reason' where "attempt_row db aid = Some a" "run_row db (a_run_id a) = Some r"
      "owns (clk e 1) aid generation inst a r" "a_ack_sequence a = fin" "code \<noteq> 0"
      "fail timing (\<lambda>k. clk e (2 + k)) (locked (clk e 1) a r) failure reason' (Some code) db = Inr db'"
proof (cases "db' = db")
  case True
  then show ?thesis by (rule duplicate)
next
  case False
  with assms obtain la where "owned (clk e 1) aid generation inst db = Inr la"
    by (auto simp: finish_def split: if_splits sum.splits)
  then obtain a r where a: "attempt_row db aid = Some a" and r: "run_row db (a_run_id a) = Some r"
    and own: "owned (clk e 1) aid generation inst db = Inr (locked (clk e 1) a r)"
    and owns: "owns (clk e 1) aid generation inst a r" by (auto simp: ok_simps)
  show ?thesis
  proof (cases "code = 0")
    case True
    show ?thesis
      using assms False own True by (intro success[OF a r owns])
        (auto simp: finish_def Let_def split: if_splits sum.splits)
  next
    case code: False
    from assms False own code have "a_ack_sequence a = fin"
      by (auto simp: finish_def Let_def split: if_splits sum.splits)
    moreover from assms False own code obtain f reason' where
      "fail timing (\<lambda>k. clk e (2 + k)) (locked (clk e 1) a r) f reason' (Some code) db = Inr db'"
      by (auto simp: finish_def Let_def split: if_splits sum.splits)
    ultimately show ?thesis using failure[OF a r owns _ code] by blast
  qed
qed

end
