(* ===== verification/Store_Recovery.thy ===== *)
theory Store_Recovery
  imports Store_Ownership
begin

text \<open>
  \<open>PostgresStore::recover\<close> (\<^verbatim>\<open>src/postgres/recovery.cpp\<close>): one transaction requeues the runs whose
  retry delay has elapsed, one reads the attempts past a deadline, then one transaction per
  such attempt decides its failure. Other transactions can run in between, so each of the
  three is an operation of its own; \<open>recover\<close> composes them.
\<close>

fun requeue_events :: "env \<Rightarrow> nat \<Rightarrow> string list \<Rightarrow> db \<Rightarrow> db result" where
  "requeue_events e k [] db = Inr db"
| "requeue_events e k (rid # rids) db =
     (case event (clk e k) (clk e (k + 1)) rid ''requeued'' ''retry delay elapsed'' db of
        Inl ex \<Rightarrow> Inl ex | Inr db' \<Rightarrow> requeue_events e (k + 2) rids db')"

definition due :: "int \<Rightarrow> runs_row \<Rightarrow> bool" where
  "due now r \<longleftrightarrow> r_status r = retry_wait \<and> r_available_at r \<le> now"

definition recover_requeue :: "env \<Rightarrow> db \<Rightarrow> (unit \<times> db) result" where
  "recover_requeue e db =
     (let ids = map r_id (filter (due (clk e 0)) (runs db));
          db1 = db\<lparr>runs := upd_where (due (clk e 0)) (\<lambda>r. r\<lparr>r_status := queued\<rparr>) (runs db)\<rparr>
      in case requeue_events e 1 ids db1 of Inl ex \<Rightarrow> Inl ex | Inr db2 \<Rightarrow> Inr ((), db2))"

definition passed :: "int \<Rightarrow> int option \<Rightarrow> bool" where
  "passed now deadline = (case deadline of None \<Rightarrow> False | Some t \<Rightarrow> t \<le> now)"

definition expired :: "int \<Rightarrow> attempts_row \<Rightarrow> bool" where
  "expired now a \<longleftrightarrow>
     (a_status a = ''STARTING'' \<and> a_launch_deadline a \<le> now) \<or>
     ((a_status a = ''RUNNING'' \<or> a_status a = ''FINALIZING'') \<and> passed now (a_lease_until a)) \<or>
     (a_status a = ''RUNNING'' \<and> passed now (a_execution_deadline a)) \<or>
     (a_status a = ''FINALIZING'' \<and> passed now (a_finalization_deadline a))"

definition recover_candidates :: "env \<Rightarrow> db \<Rightarrow> string list" where
  "recover_candidates e db =
     map a_id (take 100 (sort_by (\<lambda>a b. a_created_at a \<le> a_created_at b)
       (filter (expired (clk e 0)) (attempts db))))"

definition recover_attempt :: "Timing \<Rightarrow> env \<Rightarrow> string \<Rightarrow> db \<Rightarrow> (unit \<times> db) result" where
  "recover_attempt timing e aid db =
     (case lock_attempt (clk e 0) aid db of
        Inl ex \<Rightarrow> Inl ex
      | Inr a \<Rightarrow>
        (if run_active_attempt (la_run a) \<noteq> aid \<or> terminal (run_status (la_run a)) \<or>
            att_status (la_attempt a) = ''FAILED''
         then Inr ((), db)
         else
           let failing = (\<lambda>failure reason.
                 case fail timing (\<lambda>k. clk e (1 + k)) a failure reason None db of
                   Inl ex \<Rightarrow> Inl ex | Inr db' \<Rightarrow> Inr ((), db'))
           in if run_status (la_run a) = starting \<and> \<not> la_launch_valid a
              then failing infrastructure ''LAUNCH_TIMEOUT''
              else if run_status (la_run a) = running \<and> \<not> la_deadline_valid a
              then failing timeout ''TIMEOUT''
              else if run_status (la_run a) = finalizing \<and> \<not> la_deadline_valid a
              then failing infrastructure ''FINALIZATION_TIMEOUT''
              else if (run_status (la_run a) = running \<or> run_status (la_run a) = finalizing) \<and>
                 \<not> la_lease_valid a
              then failing infrastructure ''LEASE_EXPIRED''
              else Inr ((), db)))"

text \<open>
  The loop over the candidates; an error leaves the transactions already committed in place.
  \<open>es\<close> gives each transaction its own environment.
\<close>

fun recover_loop :: "Timing \<Rightarrow> (nat \<Rightarrow> env) \<Rightarrow> nat \<Rightarrow> string list \<Rightarrow> db \<Rightarrow> exn option \<times> db" where
  "recover_loop timing es k [] db = (None, db)"
| "recover_loop timing es k (aid # aids) db =
     (case recover_attempt timing (es k) aid db of
        Inl ex \<Rightarrow> (Some ex, db)
      | Inr (_, db') \<Rightarrow> recover_loop timing es (Suc k) aids db')"

definition recover :: "Timing \<Rightarrow> (nat \<Rightarrow> env) \<Rightarrow> db \<Rightarrow> exn option \<times> db" where
  "recover timing es db =
     (case recover_requeue (es 0) db of
        Inl ex \<Rightarrow> (Some ex, db)
      | Inr (_, db1) \<Rightarrow> recover_loop timing es 2 (recover_candidates (es 1) db1) db1)"

end
