(* ===== verification/Store_Workers.thy ===== *)
theory Store_Workers
  imports Store_Ownership Store_Gpus
begin

text \<open>
  \<^verbatim>\<open>src/postgres/workers.cpp\<close> and \<^verbatim>\<open>src/postgres/kubernetes.cpp\<close>: heartbeats and listing of
  workers, the scheduler (\<open>assign\<close> for Docker agents, \<open>admit_kubernetes\<close> for Jobs), runtime
  reports, cleanup and reconciliation.
\<close>

definition worker_heartbeat :: "env \<Rightarrow> string \<Rightarrow> string \<Rightarrow> db \<Rightarrow> (unit \<times> db) result" where
  "worker_heartbeat e wid session db =
     (case require_worker wid session db of
        Inl ex \<Rightarrow> Inl ex
      | Inr _ \<Rightarrow> Inr ((), upd_worker wid (\<lambda>w. w\<lparr>w_heartbeat_at := clk e 0\<rparr>) db))"

text \<open>
  \<open>SELECT sum(...) FROM attempts a JOIN runs r ON r.id=a.run_id WHERE a.worker_id=$1 AND
  a.cleanup_status='PENDING'\<close>.
\<close>

definition pending_attempts :: "db \<Rightarrow> string \<Rightarrow> attempts_row list" where
  "pending_attempts db wid =
     filter (\<lambda>a. a_worker_id a = wid \<and> a_cleanup_status a = ''PENDING'') (attempts db)"

definition reserved_sum :: "(runs_row \<Rightarrow> int) \<Rightarrow> db \<Rightarrow> string \<Rightarrow> int" where
  "reserved_sum column db wid =
     sum_list (map (\<lambda>a. case run_row db (a_run_id a) of None \<Rightarrow> 0 | Some r \<Rightarrow> column r)
       (pending_attempts db wid))"

definition gpu_observed_fresh :: "int \<Rightarrow> workers_row \<Rightarrow> bool" where
  "gpu_observed_fresh now w =
     (case w_gpu_observed_at w of None \<Rightarrow> False | Some t \<Rightarrow> t > now - seconds 30)"

definition worker_available :: "Timing \<Rightarrow> int \<Rightarrow> workers_row \<Rightarrow> bool" where
  "worker_available timing now w \<longleftrightarrow> w_heartbeat_at w > now - seconds (worker_seconds timing)"

definition list_worker :: "Timing \<Rightarrow> env \<Rightarrow> db \<Rightarrow> workers_row \<Rightarrow> Worker result" where
  "list_worker timing e db w =
     (case as_int (reserved_sum r_cpu_millis db (w_id w)) of Inl ex \<Rightarrow> Inl ex
      | Inr reserved_cpu \<Rightarrow>
        (case as_int (reserved_sum r_memory_mib db (w_id w)) of Inl ex \<Rightarrow> Inl ex
         | Inr reserved_memory \<Rightarrow> Inr (load_worker_gpus e db
             \<lparr>wk_id = w_id w, wk_session = w_session w,
              wk_capacity = \<lparr>cpu_millis = w_cpu_millis w, memory_mib = w_memory_mib w, gpu_count = 0\<rparr>,
              wk_reserved = \<lparr>cpu_millis = reserved_cpu, memory_mib = reserved_memory, gpu_count = 0\<rparr>,
              wk_drained = w_drained w, wk_available = worker_available timing (clk e 0) w,
              wk_heartbeat_at = Some (w_heartbeat_at w), wk_engine_id = w_engine_id w,
              wk_gpu_ready = (w_gpu_ready w \<and> w_gpu_capable w),
              wk_gpu_fresh = gpu_observed_fresh (clk e 0) w,
              wk_gpu_observed_at = w_gpu_observed_at w, wk_gpu_devices = [],
              wk_gpu_capable = w_gpu_capable w, wk_available_gpus = 0\<rparr>)))"

definition list_workers :: "Timing \<Rightarrow> env \<Rightarrow> int \<Rightarrow> string \<Rightarrow> db \<Rightarrow> Worker list result" where
  "list_workers timing e limit after db =
     map_result (list_worker timing e db)
       (take (nat (clamp limit 1 200))
         (sort_by (\<lambda>a b. text_le e (w_id a) (w_id b))
           (filter (\<lambda>w. \<not> text_le e (w_id w) after) (workers db))))"

text \<open>
  \<open>ORDER BY priority DESC,created_at,id\<close>: \<open>r\<close> may stand before \<open>s\<close>.
\<close>

definition queue_before :: "env \<Rightarrow> runs_row \<Rightarrow> runs_row \<Rightarrow> bool" where
  "queue_before e r s \<longleftrightarrow>
     r_priority r > r_priority s \<or>
     (r_priority r = r_priority s \<and>
      (r_created_at r < r_created_at s \<or>
       (r_created_at r = r_created_at s \<and> text_le e (r_id r) (r_id s))))"

definition next_run :: "env \<Rightarrow> (runs_row \<Rightarrow> bool) \<Rightarrow> db \<Rightarrow> runs_row option" where
  "next_run e wanted db =
     (case sort_by (queue_before e)
         (filter (\<lambda>r. r_status r = queued \<and> wanted r \<and> \<not> skip_locked e (r_id r)) (runs db)) of
        [] \<Rightarrow> None | r # _ \<Rightarrow> Some r)"

text \<open>An attempt handed out but not yet acknowledged: \<open>JOIN runs r ON r.active_attempt=a.id\<close>.\<close>

definition pending_launch :: "int \<Rightarrow> bool \<Rightarrow> string \<Rightarrow> db \<Rightarrow> attempts_row option" where
  "pending_launch now gpu_available wid db =
     (case sort_by (\<lambda>a b. a_created_at a \<le> a_created_at b)
         (filter (\<lambda>a. a_worker_id a = wid \<and> a_status a = ''STARTING'' \<and> a_runtime_id a = None \<and>
                    a_launch_deadline a > now \<and> (a_gpu_count a = 0 \<or> gpu_available) \<and>
                    (\<exists>r\<in>set (runs db). r_active_attempt r = Some (a_id a))) (attempts db)) of
        [] \<Rightarrow> None | a # _ \<Rightarrow> Some a)"

text \<open>
  The insertion of the new attempt, the run's update and the event, shared by the two
  schedulers. \<open>t k\<close> are the clocks of the statements.
\<close>

definition claim_run ::
    "Timing \<Rightarrow> (nat \<Rightarrow> int) \<Rightarrow> string \<Rightarrow> string \<Rightarrow> string \<Rightarrow> runs_row \<Rightarrow> db \<Rightarrow> (attempts_row \<times> db) result" where
  "claim_run timing t aid wid detail r db =
     (let generation = r_generation r + 1;
          row = new_attempt aid (r_id r) generation wid (t 0 + seconds (launch_seconds timing))
                  (gpu_count (spec_resources (r_spec r))) (t 0)
      in case insert_attempt row db of
           Inl ex \<Rightarrow> Inl ex
         | Inr db1 \<Rightarrow>
           (case event (t 1) (t 2) (r_id r) ''assigned'' (''attempt '' @ show_int generation @ detail)
               (upd_run (r_id r) (\<lambda>r. r\<lparr>r_status := starting, r_active_attempt := Some aid,
                                       r_generation := generation\<rparr>) db1) of
              Inl ex \<Rightarrow> Inl ex
            | Inr db2 \<Rightarrow> Inr (row, db2)))"

text \<open>
  \<open>assign\<close>. A return without \<open>commit\<close> rolls back, which leaves the database as it was.
\<close>

definition assign ::
    "Timing \<Rightarrow> env \<Rightarrow> string \<Rightarrow> string \<Rightarrow> db \<Rightarrow> (Assignment option \<times> db) result" where
  "assign timing e wid session db =
     (case require_worker wid session db of
        Inl ex \<Rightarrow> Inl ex
      | Inr worker \<Rightarrow>
        (if \<not> worker_available timing (clk e 0) worker then Inr (None, db)
         else let gpu_available = (w_gpu_capable worker \<and> w_gpu_ready worker \<and>
                                   gpu_observed_fresh (clk e 0) worker) in
         case pending_launch (clk e 1) gpu_available wid db of
           Some a \<Rightarrow>
             (case run_row db (a_run_id a) of
                None \<Rightarrow> Inl (StdError ''result row out of range'')
              | Some r \<Rightarrow> Inr (Some \<lparr>asg_attempt = load_gpu_allocations e db (attempt_of a),
                                     asg_spec = r_spec r\<rparr>, db))
         | None \<Rightarrow>
           (if w_drained worker then Inr (None, db)
            else case as_int (reserved_sum r_cpu_millis db wid) of Inl ex \<Rightarrow> Inl ex
            | Inr reserved_cpu \<Rightarrow>
            (case as_int (reserved_sum r_memory_mib db wid) of Inl ex \<Rightarrow> Inl ex
             | Inr reserved_memory \<Rightarrow>
             (let cpu = w_cpu_millis worker - reserved_cpu;
                  memory = w_memory_mib worker - reserved_memory;
                  devices = (if gpu_available then free_gpus e db wid else [])
              in case next_run e (\<lambda>r. r_gpu_count r \<le> int (length devices) \<and> r_available_at r \<le> clk e 2 \<and>
                                    r_cpu_millis r \<le> cpu \<and> r_memory_mib r \<le> memory) db of
                   None \<Rightarrow> Inr (None, db)
                 | Some r \<Rightarrow>
                   (case claim_run timing (\<lambda>k. clk e (3 + k)) (fresh e 0) wid
                       ('' assigned to '' @ wid) r db of
                      Inl ex \<Rightarrow> Inl ex
                    | Inr (row, db2) \<Rightarrow>
                      (case reserve_gpus (\<lambda>k. clk e (6 + k)) (fresh e 0)
                          (gpu_count (spec_resources (r_spec r))) devices db2 of
                         Inl ex \<Rightarrow> Inl ex
                       | Inr db3 \<Rightarrow> Inr (Some \<lparr>asg_attempt = load_gpu_allocations e db3 (attempt_of row),
                                               asg_spec = r_spec r\<rparr>, db3))))))))"

definition runtime_report ::
    "env \<Rightarrow> string \<Rightarrow> string \<Rightarrow> string \<Rightarrow> string \<Rightarrow> bool \<Rightarrow> db \<Rightarrow> (unit \<times> db) result" where
  "runtime_report e worker session aid runtime stopped db =
     (case require_worker worker session db of
        Inl ex \<Rightarrow> Inl ex
      | Inr _ \<Rightarrow>
        (case lock_attempt (clk e 0) aid db of
           Inl ex \<Rightarrow> Inl ex
         | Inr a \<Rightarrow>
           (if att_worker_id (la_attempt a) \<noteq> worker
            then throw unauthorized ''attempt belongs to another worker''
            else if stopped
            then (if live (att_status (la_attempt a)) then throw conflict ''attempt is still active''
                  else Inr ((), release_gpus (clk e 1) aid
                         (upd_attempt aid (\<lambda>x. x\<lparr>a_cleanup_status := ''DONE''\<rparr>) db)))
            else Inr ((), upd_attempt aid (\<lambda>x. x\<lparr>a_runtime_id := Some runtime\<rparr>) db))))"

definition cleanup :: "string \<Rightarrow> string \<Rightarrow> db \<Rightarrow> Attempt list result" where
  "cleanup worker session db =
     (case require_worker worker session db of
        Inl ex \<Rightarrow> Inl ex
      | Inr _ \<Rightarrow> Inr (map attempt_of (filter (\<lambda>a. \<not> live (a_status a)) (pending_attempts db worker))))"

definition drain_worker :: "string \<Rightarrow> bool \<Rightarrow> db \<Rightarrow> (unit \<times> db) result" where
  "drain_worker wid drained db =
     (case worker_row db wid of
        None \<Rightarrow> throw not_found ''worker not found''
      | Some _ \<Rightarrow> Inr ((), upd_worker wid (\<lambda>w. w\<lparr>w_drained := drained\<rparr>) db))"

text \<open>\<open>SELECT ... FROM attempts a JOIN runs r ON r.id=a.run_id WHERE a.id=$1\<close>.\<close>

definition attempt_with_run :: "db \<Rightarrow> string \<Rightarrow> (attempts_row \<times> runs_row) option" where
  "attempt_with_run db aid =
     (case attempt_row db aid of None \<Rightarrow> None
      | Some a \<Rightarrow> map_option (Pair a) (run_row db (a_run_id a)))"

fun reconcile_loop :: "string \<Rightarrow> db \<Rightarrow> string list \<Rightarrow> string list \<Rightarrow> string list result" where
  "reconcile_loop worker db stop [] = Inr stop"
| "reconcile_loop worker db stop (aid # aids) =
     (case attempt_with_run db aid of
        None \<Rightarrow> reconcile_loop worker db (stop @ [aid]) aids
      | Some (a, r) \<Rightarrow>
        (if a_worker_id a \<noteq> worker
         then throw unauthorized ''inventory contains another worker's attempt''
         else reconcile_loop worker db
           (if text_of (r_active_attempt r) \<noteq> aid \<or> \<not> live (a_status a) then stop @ [aid] else stop)
           aids))"

definition reconcile :: "string \<Rightarrow> string \<Rightarrow> string list \<Rightarrow> db \<Rightarrow> string list result" where
  "reconcile worker session observed db =
     (if 1000 < length observed then throw invalid ''inventory exceeds 1000 containers''
      else case require_worker worker session db of
        Inl ex \<Rightarrow> Inl ex
      | Inr _ \<Rightarrow> reconcile_loop worker db [] observed)"

section \<open>Kubernetes\<close>

definition admit_kubernetes ::
    "Timing \<Rightarrow> env \<Rightarrow> int \<Rightarrow> db \<Rightarrow> (Assignment option \<times> db) result" where
  "admit_kubernetes timing e max_active db =
     (if max_active < 1 \<or> 100 < max_active
      then throw invalid ''Kubernetes admission limit must be 1..100''
      else case as_int (int (length (pending_attempts db ''@kubernetes''))) of
        Inl ex \<Rightarrow> Inl ex
      | Inr active \<Rightarrow>
        (if active \<ge> max_active then Inr (None, db)
         else case next_run e (\<lambda>r. r_available_at r \<le> clk e 0) db of
           None \<Rightarrow> Inr (None, db)
         | Some r \<Rightarrow>
           (case claim_run timing (\<lambda>k. clk e (1 + k)) (fresh e 0) ''@kubernetes''
               '' admitted to Kubernetes'' r db of
              Inl ex \<Rightarrow> Inl ex
            | Inr (row, db2) \<Rightarrow>
              Inr (Some \<lparr>asg_attempt = attempt_of row, asg_spec = r_spec r\<rparr>, db2))))"

definition kubernetes_attempts :: "db \<Rightarrow> Assignment list" where
  "kubernetes_attempts db =
     List.map_filter (\<lambda>a. map_option (\<lambda>r. \<lparr>asg_attempt = attempt_of a, asg_spec = r_spec r\<rparr>)
                        (run_row db (a_run_id a)))
       (sort_by (\<lambda>a b. a_created_at a \<le> a_created_at b) (pending_attempts db ''@kubernetes''))"

definition kubernetes_stopped :: "Timing \<Rightarrow> env \<Rightarrow> string \<Rightarrow> db \<Rightarrow> (unit \<times> db) result" where
  "kubernetes_stopped timing e aid db =
     (case lock_attempt (clk e 0) aid db of
        Inl ex \<Rightarrow> Inl ex
      | Inr a \<Rightarrow>
        (if att_worker_id (la_attempt a) \<noteq> ''@kubernetes''
         then throw invalid ''attempt does not belong to Kubernetes''
         else if run_active_attempt (la_run a) = aid \<and> live (att_status (la_attempt a))
         then (case (if run_status (la_run a) = running \<and> \<not> la_deadline_valid a
                     then fail timing (\<lambda>k. clk e (1 + k)) a timeout ''TIMEOUT'' None db
                     else fail timing (\<lambda>k. clk e (1 + k)) a infrastructure ''RUNTIME_STOPPED'' None db) of
                 Inl ex \<Rightarrow> Inl ex | Inr db' \<Rightarrow> Inr ((), db'))
         else Inr ((), db)))"

definition kubernetes_runtime :: "env \<Rightarrow> string \<Rightarrow> string \<Rightarrow> bool \<Rightarrow> db \<Rightarrow> (unit \<times> db) result" where
  "kubernetes_runtime e aid runtime removed db =
     (case lock_attempt (clk e 0) aid db of
        Inl ex \<Rightarrow> Inl ex
      | Inr a \<Rightarrow>
        (if att_worker_id (la_attempt a) \<noteq> ''@kubernetes''
         then throw invalid ''attempt does not belong to Kubernetes''
         else if removed
         then (if live (att_status (la_attempt a)) then throw conflict ''attempt remains active''
               else Inr ((), upd_attempt aid (\<lambda>x. x\<lparr>a_cleanup_status := ''DONE''\<rparr>) db))
         else Inr ((), upd_attempt aid (\<lambda>x. x\<lparr>a_runtime_id := Some runtime\<rparr>) db)))"

end
