(* ===== verification/Store_Data.thy ===== *)
theory Store_Data
  imports Store_Ownership Store_Workers
begin

text \<open>
  \<^verbatim>\<open>src/postgres/telemetry.cpp\<close>, \<^verbatim>\<open>src/postgres/artifacts.cpp\<close> and \<^verbatim>\<open>src/postgres/capacity.cpp\<close>:
  acknowledged telemetry, published artifacts, and the GPU capacity summary.
\<close>

definition insert_telemetry :: "string \<Rightarrow> Telemetry \<Rightarrow> db \<Rightarrow> db result" where
  "insert_telemetry aid r db =
     (case insert_unique (\<lambda>t. (tm_attempt_id t, t_sequence (tm_record t))) ''telemetry_pkey''
         \<lparr>tm_attempt_id = aid, tm_record = r\<rparr> (telemetry db) of
        Inl e \<Rightarrow> Inl e | Inr telemetry' \<Rightarrow> Inr (db\<lparr>telemetry := telemetry'\<rparr>))"

text \<open>
  The loop of \<open>report\<close>: records already acknowledged are skipped, the first gap ends the batch.
\<close>

fun report_loop :: "string \<Rightarrow> int \<Rightarrow> Telemetry list \<Rightarrow> db \<Rightarrow> (int \<times> db) result" where
  "report_loop aid sequence [] db = Inr (sequence, db)"
| "report_loop aid sequence (r # records) db =
     (if t_sequence r \<le> sequence then report_loop aid sequence records db
      else if t_sequence r \<noteq> sequence + 1 then Inr (sequence, db)
      else case insert_telemetry aid r db of
        Inl e \<Rightarrow> Inl e
      | Inr db' \<Rightarrow> report_loop aid (t_sequence r) records db')"

definition report ::
    "env \<Rightarrow> string \<Rightarrow> int \<Rightarrow> string \<Rightarrow> Telemetry list \<Rightarrow> db \<Rightarrow> (int \<times> db) result" where
  "report e aid generation inst records db =
     (if 256 < length records then throw invalid ''telemetry batch exceeds 256 records''
      else case for_each validate_telemetry records of
        Inl ex \<Rightarrow> Inl ex
      | Inr _ \<Rightarrow>
        (case owned (clk e 0) aid generation inst db of
           Inl ex \<Rightarrow> Inl ex
         | Inr a \<Rightarrow>
           (case report_loop aid (att_acknowledged_sequence (la_attempt a)) records db of
              Inl ex \<Rightarrow> Inl ex
            | Inr (sequence, db1) \<Rightarrow>
              Inr (sequence, upd_attempt aid (\<lambda>x. x\<lparr>a_ack_sequence := sequence\<rparr>) db1))))"

text \<open>\<open>COALESCE(NULLIF($2,''),r.active_attempt)\<close>: the attempt asked for, or the run's current one.\<close>

definition selected_attempt :: "string \<Rightarrow> runs_row \<Rightarrow> string option" where
  "selected_attempt attempt r = (if attempt = [] then r_active_attempt r else Some attempt)"

definition belongs :: "db \<Rightarrow> string \<Rightarrow> string \<Rightarrow> string \<Rightarrow> bool" where
  "belongs db rid attempt aid =
     (case attempt_row db aid of
        None \<Rightarrow> False
      | Some a \<Rightarrow> a_run_id a = rid \<and>
          (case run_row db rid of None \<Rightarrow> False | Some r \<Rightarrow> selected_attempt attempt r = Some aid))"

definition list_telemetry ::
    "string \<Rightarrow> string \<Rightarrow> int \<Rightarrow> int \<Rightarrow> string \<Rightarrow> string \<Rightarrow> db \<Rightarrow> Telemetry list" where
  "list_telemetry rid attempt after limit kind name db =
     take (nat (clamp limit 1 1000))
       (sort_by (\<lambda>a b. t_sequence a \<le> t_sequence b)
         (map tm_record (filter (\<lambda>t. belongs db rid attempt (tm_attempt_id t) \<and>
             t_sequence (tm_record t) > after \<and>
             ((kind = ''logs'' \<and> t_kind (tm_record t) \<noteq> ''metric'') \<or>
              (kind = ''metric'' \<and> t_kind (tm_record t) = ''metric'')) \<and>
             (name = [] \<or> t_name (tm_record t) = name)) (telemetry db))))"

section \<open>Artifacts\<close>

definition artifact_of :: "artifacts_row \<Rightarrow> Artifact" where
  "artifact_of r = \<lparr>art_id = f_id r, art_attempt_id = f_attempt_id r, art_path = f_path r,
     art_storage_key = f_storage_key r, art_sha256 = f_sha256 r, art_size = of_nat (f_size r)\<rparr>"

definition verify_owner :: "env \<Rightarrow> string \<Rightarrow> int \<Rightarrow> string \<Rightarrow> db \<Rightarrow> (unit \<times> db) result" where
  "verify_owner e aid generation inst db =
     (case owned (clk e 0) aid generation inst db of Inl ex \<Rightarrow> Inl ex | Inr _ \<Rightarrow> Inr ((), db))"

text \<open>
  \<open>INSERT INTO artifacts\<close>: the size must fit \<open>bigint\<close>; the primary key and
  \<open>UNIQUE(attempt_id,path)\<close> are checked.
\<close>

definition insert_artifact :: "Artifact \<Rightarrow> db \<Rightarrow> db result" where
  "insert_artifact value db =
     (let row = \<lparr>f_id = art_id value, f_attempt_id = art_attempt_id value, f_path = art_path value,
                 f_storage_key = art_storage_key value, f_sha256 = art_sha256 value,
                 f_size = unat (art_size value)\<rparr>
      in if INT64_MAX < int (f_size row) then Inl (SqlError ''bigint out of range'')
         else case insert_unique f_id ''artifacts_pkey'' row (artifacts db) of
           Inl e \<Rightarrow> Inl e
         | Inr artifacts' \<Rightarrow>
           (case insert_unique (\<lambda>f. (f_attempt_id f, f_path f)) ''artifacts_attempt_id_path_key'' row
                   (artifacts db) of
              Inl e \<Rightarrow> Inl e | Inr _ \<Rightarrow> Inr (db\<lparr>artifacts := artifacts'\<rparr>)))"

definition attempt_artifacts :: "db \<Rightarrow> string \<Rightarrow> artifacts_row list" where
  "attempt_artifacts db aid = filter (\<lambda>f. f_attempt_id f = aid) (artifacts db)"

definition artifact_total :: "db \<Rightarrow> string \<Rightarrow> nat" where
  "artifact_total db aid = sum_list (map f_size (attempt_artifacts db aid))"

text \<open>\<open>as<std::uint64_t>()\<close> of the \<open>numeric\<close> sum throws when it does not fit.\<close>

definition as_uint64 :: "nat \<Rightarrow> uint64 result" where
  "as_uint64 n = (if n < 2 ^ 64 then Inr (of_nat n) else Inl (StdError ''conversion to uint64''))"

definition publish_artifact :: "env \<Rightarrow> Artifact \<Rightarrow> int \<Rightarrow> string \<Rightarrow> db \<Rightarrow> (Artifact \<times> db) result" where
  "publish_artifact e value generation inst db =
     (case owned (clk e 0) (art_attempt_id value) generation inst db of
        Inl ex \<Rightarrow> Inl ex
      | Inr a \<Rightarrow>
        (if run_status (la_run a) \<noteq> finalizing then throw conflict ''artifacts require finalization''
         else case find_by f_path (attempt_artifacts db (art_attempt_id value)) (art_path value) of
           Some existing \<Rightarrow>
             (let old = artifact_of existing in
              if art_sha256 old \<noteq> art_sha256 value \<or> art_size old \<noteq> art_size value
              then throw conflict ''artifact path already contains different data''
              else Inr (old, db))
         | None \<Rightarrow>
           (case as_uint64 (artifact_total db (art_attempt_id value)) of
              Inl ex \<Rightarrow> Inl ex
            | Inr used \<Rightarrow>
              (case as_int (int (length (attempt_artifacts db (art_attempt_id value)))) of
                 Inl ex \<Rightarrow> Inl ex
               | Inr count \<Rightarrow>
                 (if used + art_size value > 1024 * 1024 * 1024 \<or> count \<ge> 1000
                  then throw exhausted ''attempt artifact quota exceeded''
                  else case insert_artifact value db of
                    Inl ex \<Rightarrow> Inl ex | Inr db' \<Rightarrow> Inr (value, db'))))))"

definition list_artifacts :: "env \<Rightarrow> string \<Rightarrow> string \<Rightarrow> db \<Rightarrow> Artifact list" where
  "list_artifacts e rid attempt db =
     map artifact_of (sort_by (\<lambda>a b. text_le e (f_path a) (f_path b))
       (filter (\<lambda>f. belongs db rid attempt (f_attempt_id f)) (artifacts db)))"

definition get_artifact :: "string \<Rightarrow> db \<Rightarrow> Artifact result" where
  "get_artifact fid db =
     (case find_by f_id (artifacts db) fid of
        None \<Rightarrow> throw not_found ''artifact not found'' | Some f \<Rightarrow> Inr (artifact_of f))"

section \<open>Capacity\<close>

record GpuCapacityTotals =
  gc_capacity :: int
  gc_allocatable :: int
  gc_reserved :: int
  gc_available :: int
  gc_pending :: int
  gc_fresh :: bool
  gc_observed_at :: "int option"
  gc_age_seconds :: "int option"

definition min_option :: "int list \<Rightarrow> int option" where
  "min_option xs = (case xs of [] \<Rightarrow> None | x # ys \<Rightarrow> Some (foldl min x ys))"

definition gpu_capacity :: "Timing \<Rightarrow> env \<Rightarrow> db \<Rightarrow> GpuCapacityTotals" where
  "gpu_capacity timing e db =
     (let now = clk e 0;
          capable = filter w_gpu_capable (workers db);
          capacity = int (length (filter (\<lambda>d. d_present d \<and> d_eligible d) (gpu_devices db)));
          observed = min_option (List.map_filter w_gpu_observed_at capable)
      in \<lparr>gc_capacity = capacity, gc_allocatable = capacity,
          gc_reserved = int (length (unreleased (attempt_gpus db))),
          gc_available = int (length (filter (\<lambda>d. device_free db d \<and>
            (case worker_row db (d_worker_id d) of None \<Rightarrow> False
             | Some w \<Rightarrow> w_gpu_capable w \<and> w_gpu_ready w \<and> \<not> w_drained w \<and>
                 worker_available timing now w \<and> gpu_observed_fresh now w)) (gpu_devices db))),
          gc_pending = sum_list (map r_gpu_count
            (filter (\<lambda>r. r_status r = queued \<or> r_status r = retry_wait) (runs db))),
          gc_fresh = list_all (\<lambda>w. w_gpu_ready w \<and> gpu_observed_fresh now w) capable,
          gc_observed_at = observed,
          gc_age_seconds = map_option (\<lambda>t. (now - t) div 1000000) observed\<rparr>)"

section \<open>When the operations succeed\<close>

definition new_artifact :: "Artifact \<Rightarrow> artifacts_row" where
  "new_artifact value = \<lparr>f_id = art_id value, f_attempt_id = art_attempt_id value, f_path = art_path value,
     f_storage_key = art_storage_key value, f_sha256 = art_sha256 value, f_size = unat (art_size value)\<rparr>"

lemma insert_artifact_ok [ok_simps]:
  "insert_artifact value db = Inr db' \<longleftrightarrow>
     unat (art_size value) \<le> 9223372036854775807 \<and> art_id value \<notin> f_id ` set (artifacts db) \<and>
     (art_attempt_id value, art_path value) \<notin> (\<lambda>f. (f_attempt_id f, f_path f)) ` set (artifacts db) \<and>
     db' = db\<lparr>artifacts := artifacts db @ [new_artifact value]\<rparr>"
  by (auto simp: insert_artifact_def new_artifact_def insert_unique_def Let_def)

lemma publish_cases:
  assumes "publish_artifact e value generation inst db = Inr (v, db')"
  obtains (existing) f where "db' = db" "f \<in> set (attempt_artifacts db (art_attempt_id value))"
      "f_path f = art_path value" "v = artifact_of f" "art_sha256 v = art_sha256 value" "art_size v = art_size value"
  | (published) a r where "attempt_row db (art_attempt_id value) = Some a" "run_row db (a_run_id a) = Some r"
      "owns (clk e 0) (art_attempt_id value) generation inst a r" "r_status r = finalizing" "v = value"
      "artifact_total db (art_attempt_id value) < 2 ^ 64"
      "of_nat (artifact_total db (art_attempt_id value)) + art_size value \<le> (1024 * 1024 * 1024 :: uint64)"
      "length (attempt_artifacts db (art_attempt_id value)) < 1000"
      "insert_artifact value db = Inr db'"
proof -
  let ?aid = "art_attempt_id value"
  from assms obtain la where own: "owned (clk e 0) ?aid generation inst db = Inr la"
    by (auto simp: publish_artifact_def split: sum.splits)
  then obtain a r where a: "attempt_row db ?aid = Some a" and r: "run_row db (a_run_id a) = Some r"
    and owns: "owns (clk e 0) ?aid generation inst a r" and la: "la = locked (clk e 0) a r"
    by (auto simp: ok_simps)
  from assms own la have fin: "r_status r = finalizing"
    by (auto simp: publish_artifact_def split: if_splits)
  show ?thesis
  proof (cases "find_by f_path (attempt_artifacts db ?aid) (art_path value)")
    case (Some f)
    with assms own la fin show ?thesis
      using find_by_mem[OF Some] find_by_key[OF Some]
      by (intro existing) (auto simp: publish_artifact_def Let_def split: if_splits)
  next
    case None
    with assms own la fin have "v = value" "artifact_total db ?aid < 2 ^ 64"
      "of_nat (artifact_total db ?aid) + art_size value \<le> (1024 * 1024 * 1024 :: uint64)"
      "length (attempt_artifacts db ?aid) < 1000" "insert_artifact value db = Inr db'"
      by (auto simp: publish_artifact_def as_uint64_def as_int_def split: if_splits sum.splits)
    then show ?thesis by (rule published[OF a r owns fin])
  qed
qed

end
