(* ===== verification/Store_Steps.thy ===== *)
theory Store_Steps
  imports Life_Cycle Store_Runs Store_Recovery Store_Data
begin

text \<open>
  The coordinator's database as a transition system: a step is one committed transaction of
  any operation, with any arguments, clock readings and random ids. Every step is a step of
  the abstract life cycle.
\<close>

inductive store_step :: "Timing \<Rightarrow> db \<Rightarrow> db \<Rightarrow> bool" for timing where
  "submit e spec key fp db = Inr (v, db') \<Longrightarrow> store_step timing db db'"
| "submit_sweep e sweep specs key fp db = Inr (sw, db') \<Longrightarrow> store_step timing db db'"
| "rerun sha e rid key db = Inr (v, db') \<Longrightarrow> store_step timing db db'"
| "cancel e rid db = Inr (v, db') \<Longrightarrow> store_step timing db db'"
| "start timing e aid g inst node db = Inr (asg, db') \<Longrightarrow> store_step timing db db'"
| "heartbeat timing e aid g inst db = Inr (u, db') \<Longrightarrow> store_step timing db db'"
| "begin_finalization timing e aid g inst db = Inr (u, db') \<Longrightarrow> store_step timing db db'"
| "finish timing e aid g inst code reason fin db = Inr (u, db') \<Longrightarrow> store_step timing db db'"
| "report e aid g inst records db = Inr (n, db') \<Longrightarrow> store_step timing db db'"
| "publish_artifact e artifact g inst db = Inr (f, db') \<Longrightarrow> store_step timing db db'"
| "recover_requeue e db = Inr (u, db') \<Longrightarrow> store_step timing db db'"
| "recover_attempt timing e aid db = Inr (u, db') \<Longrightarrow> store_step timing db db'"
| "register_worker e wid session cap gpu db = Inr (u, db') \<Longrightarrow> store_step timing db db'"
| "worker_heartbeat e wid session db = Inr (u, db') \<Longrightarrow> store_step timing db db'"
| "report_gpu_inventory e wid session snap db = Inr (u, db') \<Longrightarrow> store_step timing db db'"
| "assign timing e wid session db = Inr (oasg, db') \<Longrightarrow> store_step timing db db'"
| "runtime_report e wid session aid runtime stopped db = Inr (u, db') \<Longrightarrow> store_step timing db db'"
| "drain_worker wid drained db = Inr (u, db') \<Longrightarrow> store_step timing db db'"
| "admit_kubernetes timing e n db = Inr (oasg, db') \<Longrightarrow> store_step timing db db'"
| "kubernetes_stopped timing e aid db = Inr (u, db') \<Longrightarrow> store_step timing db db'"
| "kubernetes_runtime e aid runtime removed db = Inr (u, db') \<Longrightarrow> store_step timing db db'"

section \<open>Abstraction\<close>

definition status_of :: "string \<Rightarrow> RunStatus" where
  "status_of s = (case parse_status s of Inl _ \<Rightarrow> queued | Inr st \<Rightarrow> st)"

definition life_run_of :: "runs_row \<Rightarrow> life_run" where
  "life_run_of r = \<lparr>lr_spec = r_spec r, lr_status = r_status r, lr_generation = r_generation r,
     lr_active = r_active_attempt r\<rparr>"

definition life_attempt_of :: "attempts_row \<Rightarrow> life_attempt" where
  "life_attempt_of a = \<lparr>lt_run = a_run_id a, lt_generation = a_generation a,
     lt_status = status_of (a_status a), lt_instance = a_instance_id a,
     lt_cleaned = (a_cleanup_status a = ''DONE'')\<rparr>"

definition life_of :: "db \<Rightarrow> life" where
  "life_of db = \<lparr>l_runs = (\<lambda>i. map_option life_run_of (run_row db i)),
     l_attempts = (\<lambda>a. map_option life_attempt_of (attempt_row db a))\<rparr>"

lemma status_of_to_string: "status_of (to_string s) = s"
  by (simp add: status_of_def parse_to_string)

lemma status_of_simps [simp]:
  "status_of ''STARTING'' = starting" "status_of ''RUNNING'' = running"
  "status_of ''FINALIZING'' = finalizing" "status_of ''SUCCEEDED'' = succeeded"
  "status_of ''FAILED'' = failed" "status_of ''CANCELLED'' = cancelled"
  using status_of_to_string[of starting] status_of_to_string[of running]
    status_of_to_string[of finalizing] status_of_to_string[of succeeded]
    status_of_to_string[of failed] status_of_to_string[of cancelled] by simp_all

lemma status_ofD: "status_of s = st \<Longrightarrow> st \<noteq> queued \<Longrightarrow> s = to_string st"
  by (auto simp: status_of_def split: sum.splits dest: parse_status_ok)

lemma executing_status_of [simp]: "executing (status_of s) \<longleftrightarrow> live s"
  by (auto simp: executing_def live_def dest: status_ofD)

lemma life_run_of_simps [simp]:
  "lr_spec (life_run_of r) = r_spec r" "lr_status (life_run_of r) = r_status r"
  "lr_generation (life_run_of r) = r_generation r" "lr_active (life_run_of r) = r_active_attempt r"
  by (simp_all add: life_run_of_def)

lemma life_attempt_of_simps [simp]:
  "lt_run (life_attempt_of a) = a_run_id a" "lt_generation (life_attempt_of a) = a_generation a"
  "lt_status (life_attempt_of a) = status_of (a_status a)"
  "lt_instance (life_attempt_of a) = a_instance_id a"
  "lt_cleaned (life_attempt_of a) \<longleftrightarrow> a_cleanup_status a = ''DONE''"
  by (simp_all add: life_attempt_of_def)

lemma life_of_simps [simp]:
  "l_runs (life_of db) i = map_option life_run_of (run_row db i)"
  "l_attempts (life_of db) a = map_option life_attempt_of (attempt_row db a)"
  by (simp_all add: life_of_def)

text \<open>Statements that leave the life cycle alone.\<close>

lemma life_of_cong:
  "(\<And>i. map_option life_run_of (run_row db' i) = map_option life_run_of (run_row db i)) \<Longrightarrow>
   (\<And>a. map_option life_attempt_of (attempt_row db' a) = map_option life_attempt_of (attempt_row db a)) \<Longrightarrow>
   life_of db' = life_of db"
  by (simp add: life_of_def)

lemma life_of_tables [simp]:
  "life_of (db\<lparr>submissions := x1\<rparr>) = life_of db" "life_of (db\<lparr>events := x3\<rparr>) = life_of db"
  "life_of (db\<lparr>workers := x4\<rparr>) = life_of db" "life_of (db\<lparr>telemetry := x5\<rparr>) = life_of db"
  "life_of (db\<lparr>artifacts := x6\<rparr>) = life_of db" "life_of (db\<lparr>sweeps := x7\<rparr>) = life_of db"
  "life_of (db\<lparr>gpu_devices := x8\<rparr>) = life_of db" "life_of (db\<lparr>attempt_gpus := x9\<rparr>) = life_of db"
  by (simp_all add: life_of_def)

lemma life_run_of_bump [simp]: "life_run_of (bump t r) = life_run_of r"
  by (simp add: life_run_of_def)

lemma life_of_bump [simp]: "life_of (upd_run rid (bump t) db) = life_of db"
  by (rule life_of_cong) (auto simp: row_simps option.map_comp comp_def)

lemma life_of_attempt_frame:
  assumes "\<And>a. a_id (f a) = a_id a" and "\<And>a. life_attempt_of (f a) = life_attempt_of a"
  shows "life_of (upd_attempt aid f db) = life_of db"
  using assms by (intro life_of_cong) (auto simp: row_simps option.map_comp comp_def)

lemma life_of_event: "event t1 t2 rid kind detail db = Inr db' \<Longrightarrow> life_of db' = life_of db"
  by (auto simp: ok_simps)

lemma life_of_pair:
  assumes "run_row db rid = Some r" "attempt_row db aid = Some a"
    and "\<And>r. r_id (f r) = r_id r" "\<And>a. a_id (g a) = a_id a"
  shows "life_of (upd_run rid f (upd_attempt aid g db)) =
    (life_of db)\<lparr>l_runs := (l_runs (life_of db))(rid \<mapsto> life_run_of (f r)),
                 l_attempts := (l_attempts (life_of db))(aid \<mapsto> life_attempt_of (g a))\<rparr>"
  using assms by (auto simp: life_of_def row_simps fun_eq_iff)

lemma life_of_move:
  assumes "run_row db rid = Some r" "attempt_row db aid = Some a"
    and "\<And>r. r_id (f r) = r_id r" "\<And>a. a_id (g a) = a_id a"
    and "life_run_of (f r) = (life_run_of r)\<lparr>lr_status := rs\<rparr>"
    and "life_attempt_of (g a) = t\<lparr>lt_status := ts\<rparr>"
  shows "life_of (upd_run rid f (upd_attempt aid g db)) = move rid (life_run_of r) aid t rs ts (life_of db)"
  using life_of_pair[of db rid r aid a f g, OF assms(1-4)] assms(5,6) by (simp add: move_def)

text \<open>A locked attempt that its run names as active is the current one.\<close>

lemma current_of:
  assumes inv: "life_inv (life_of db)" and a: "attempt_row db aid = Some a"
    and r: "run_row db (a_run_id a) = Some r" and act: "text_of (r_active_attempt r) = aid"
  shows "current (life_of db) (a_run_id a) (life_run_of r) aid (life_attempt_of a)"
    and "agrees (r_status r) (status_of (a_status a))"
    and "r_active_attempt r = Some aid" and "a_generation a = r_generation r"
proof -
  have t: "attempt_ok (life_of db) aid (life_attempt_of a)"
    using life_inv_attemptD[OF inv, of aid] a by simp
  have q: "run_ok (life_of db) (a_run_id a) (life_run_of r)"
    using life_inv_runD[OF inv, of "a_run_id a"] r by simp
  from t r have "1 \<le> r_generation r" by (auto simp: attempt_ok_def)
  with q have "r_active_attempt r \<noteq> None" by (auto simp: run_ok_def)
  with act show active: "r_active_attempt r = Some aid" by (auto simp: text_of_def)
  with q a r show "current (life_of db) (a_run_id a) (life_run_of r) aid (life_attempt_of a)"
    "agrees (r_status r) (status_of (a_status a))" "a_generation a = r_generation r"
    by (auto simp: run_ok_def current_def)
qed

section \<open>Runner operations\<close>

lemma start_sim:
  assumes inv: "life_inv (life_of db)"
    and ok: "start timing e aid generation inst node db = Inr (v, db')"
  shows "life_step (life_of db) (life_of db')"
proof -
  from ok have "inst \<noteq> []" by (auto simp: start_def split: if_splits)
  from ok obtain la where "lock_attempt (clk e 0) aid db = Inr la"
    by (auto simp: start_def split: if_splits sum.splits)
  then obtain a r where a: "attempt_row db aid = Some a" and r: "run_row db (a_run_id a) = Some r"
    and la: "lock_attempt (clk e 0) aid db = Inr (locked (clk e 0) a r)" by (auto simp: ok_simps)
  show ?thesis
  proof (cases "db' = db")
    case True
    then show ?thesis by (simp add: life_step.stutter)
  next
    case False
    with ok la obtain ev where st: "r_status r = starting"
      and act: "text_of (r_active_attempt r) = aid"
      and ev: "event (clk e 2) (clk e 3) (r_id r) ''started'' ''runner claimed execution'' ev = Inr db'"
      and db2: "ev = upd_run (r_id r) (\<lambda>r. r\<lparr>r_status := running\<rparr>)
         (upd_attempt aid (\<lambda>x. x\<lparr>a_node_name := node, a_instance_id := Some inst,
                       a_status := ''RUNNING'', a_started_at := Some (clk e 1),
                       a_lease_until := Some (clk e 1 + seconds (lease_seconds timing)),
                       a_execution_deadline :=
                         Some (clk e 1 + seconds (spec_timeout_seconds (r_spec r)))\<rparr>) db)"
      by (auto simp: start_def Let_def split: if_splits sum.splits option.splits)
    note cur = current_of[OF inv a r act]
    have rid: "r_id r = a_run_id a" using run_row_key[OF r] .
    have "life_of ev = move (a_run_id a) (life_run_of r) aid
        ((life_attempt_of a)\<lparr>lt_instance := Some inst\<rparr>) running running (life_of db)"
      unfolding db2 rid by (rule life_of_move[OF r a]) (simp_all add: life_run_of_def life_attempt_of_def)
    with life_of_event[OF ev] show ?thesis
      using cur st \<open>inst \<noteq> []\<close> by (auto intro!: life_step.begin_running simp: agrees_def executing_def)
  qed
qed

lemma heartbeat_sim:
  "heartbeat timing e aid generation inst db = Inr (v, db') \<Longrightarrow> life_of db' = life_of db"
  by (auto simp: heartbeat_def life_of_attempt_frame life_attempt_of_def split: sum.splits)

lemma begin_finalization_sim:
  assumes inv: "life_inv (life_of db)"
    and ok: "begin_finalization timing e aid generation inst db = Inr (v, db')"
  shows "life_step (life_of db) (life_of db')"
proof (cases "db' = db")
  case True
  then show ?thesis by (simp add: life_step.stutter)
next
  case False
  with ok obtain a r ev where a: "attempt_row db aid = Some a"
    and r: "run_row db (a_run_id a) = Some r" and st: "r_status r = running"
    and act: "text_of (r_active_attempt r) = aid"
    and ev: "event (clk e 2) (clk e 3) (r_id r) ''finalizing'' ''collecting execution outputs'' ev = Inr db'"
    and db2: "ev = upd_run (r_id r) (\<lambda>r. r\<lparr>r_status := finalizing\<rparr>)
         (upd_attempt aid (\<lambda>x. x\<lparr>a_status := ''FINALIZING'',
            a_finalization_deadline := Some (clk e 1 + seconds (finalization_seconds timing))\<rparr>) db)"
    by (auto simp: begin_finalization_def Let_def owned_ok owns_def split: if_splits sum.splits)
  note cur = current_of[OF inv a r act]
  have rid: "r_id r = a_run_id a" using run_row_key[OF r] .
  have "life_of ev = move (a_run_id a) (life_run_of r) aid (life_attempt_of a) finalizing finalizing (life_of db)"
    unfolding db2 rid by (rule life_of_move[OF r a]) (simp_all add: life_run_of_def life_attempt_of_def)
  with life_of_event[OF ev] show ?thesis
    using cur st by (auto intro!: life_step.collect simp: agrees_def executing_def)
qed

lemma fail_sim:
  assumes inv: "life_inv (life_of db)" and a: "attempt_row db aid = Some a"
    and r: "run_row db (a_run_id a) = Some r" and act: "text_of (r_active_attempt r) = aid"
    and ex: "executing (r_status r)"
    and ok: "fail timing t (locked now a r) failure reason code db = Inr db'"
  shows "life_step (life_of db) (life_of db')"
proof -
  let ?retry = "should_retry (spec_retry (r_spec r)) (a_generation a) failure"
  note cur = current_of[OF inv a r act]
  have rid: "r_id r = a_run_id a" and aid: "a_id a = aid"
    using run_row_key[OF r] attempt_row_key[OF a] by auto
  from ok obtain ev where ev: "life_of db' = life_of ev"
    and db2: "ev = upd_run (r_id r) (\<lambda>r'. r'\<lparr>r_status := (if ?retry then retry_wait else failed),
                  r_available_at := t 1 + seconds (retry_delay (a_generation a)
                    (retry_base_seconds timing) (retry_max_seconds timing))\<rparr>)
         (upd_attempt aid (\<lambda>x. x\<lparr>a_status := ''FAILED'', a_reason := Some reason,
                  a_exit_code := code, a_finished_at := Some (t 0)\<rparr>) db)"
    unfolding fail_def Let_def locked_simps run_of_simps attempt_of_simps aid by (metis life_of_event)
  have "life_of ev = move (a_run_id a) (life_run_of r) aid (life_attempt_of a)
      (if ?retry then retry_wait else failed) failed (life_of db)"
    unfolding db2 rid by (rule life_of_move[OF r a]) (simp_all add: life_run_of_def life_attempt_of_def)
  moreover have "?retry \<longrightarrow> r_generation r < max_attempts (spec_retry (r_spec r))"
    using cur(4) by (simp add: should_retry_def)
  ultimately show ?thesis
    using ev cur(2) ex life_step.give_up[OF cur(1), of ?retry] by (simp add: agrees_def)
qed

lemma finish_sim:
  assumes inv: "life_inv (life_of db)"
    and ok: "finish timing e aid generation inst code reason fin db = Inr (v, db')"
  shows "life_step (life_of db) (life_of db')"
  using ok
proof (cases rule: finish_cases)
  case duplicate
  then show ?thesis by (simp add: life_step.stutter)
next
  case (success a r)
  from success(3) have act: "text_of (r_active_attempt r) = aid" by (simp add: owns_def)
  note cur = current_of[OF inv success(1,2) act]
  have "life_of (upd_run (r_id r) (\<lambda>r. r\<lparr>r_status := succeeded\<rparr>)
         (upd_attempt aid (\<lambda>x. x\<lparr>a_status := ''SUCCEEDED'', a_exit_code := Some 0,
                          a_reason := Some reason, a_finished_at := Some (clk e 2)\<rparr>) db)) =
      move (a_run_id a) (life_run_of r) aid (life_attempt_of a) succeeded succeeded (life_of db)"
    unfolding run_row_key[OF success(2)]
    by (rule life_of_move[OF success(2,1)]) (simp_all add: life_run_of_def life_attempt_of_def)
  with life_of_event[OF success(7)] show ?thesis
    using cur success(5) by (auto intro!: life_step.succeed simp: agrees_def executing_def)
next
  case (failure a r f reason')
  from failure(3) have "text_of (r_active_attempt r) = aid" "executing (r_status r)"
    by (auto simp: owns_def executing_def)
  from fail_sim[OF inv failure(1,2) this failure(6)] show ?thesis .
qed

text \<open>A run whose current attempt is live is executing.\<close>

lemma current_live:
  assumes "agrees rs (status_of as)" and "live as"
  shows "executing rs"
  using assms by (auto simp: agrees_def live_def executing_def split: if_splits)

lemma recover_attempt_sim:
  assumes inv: "life_inv (life_of db)" and ok: "recover_attempt timing e aid db = Inr (v, db')"
  shows "life_step (life_of db) (life_of db')"
proof (cases "db' = db")
  case True
  then show ?thesis by (simp add: life_step.stutter)
next
  case False
  from ok obtain la where "lock_attempt (clk e 0) aid db = Inr la"
    by (auto simp: recover_attempt_def split: sum.splits)
  then obtain a r where a: "attempt_row db aid = Some a" and r: "run_row db (a_run_id a) = Some r"
    and la: "lock_attempt (clk e 0) aid db = Inr (locked (clk e 0) a r)" by (auto simp: ok_simps)
  from ok False la have act: "text_of (r_active_attempt r) = aid" and ex: "executing (r_status r)"
    by (auto simp: recover_attempt_def executing_def split: if_splits)
  from ok False la obtain failure reason where
    "fail timing (\<lambda>k. clk e (1 + k)) (locked (clk e 0) a r) failure reason None db = Inr db'"
    by (auto simp: recover_attempt_def Let_def split: if_splits sum.splits)
  from fail_sim[OF inv a r act ex this] show ?thesis .
qed

lemma kubernetes_stopped_sim:
  assumes inv: "life_inv (life_of db)" and ok: "kubernetes_stopped timing e aid db = Inr (v, db')"
  shows "life_step (life_of db) (life_of db')"
proof (cases "db' = db")
  case True
  then show ?thesis by (simp add: life_step.stutter)
next
  case False
  from ok obtain la where "lock_attempt (clk e 0) aid db = Inr la"
    by (auto simp: kubernetes_stopped_def split: sum.splits)
  then obtain a r where a: "attempt_row db aid = Some a" and r: "run_row db (a_run_id a) = Some r"
    and la: "lock_attempt (clk e 0) aid db = Inr (locked (clk e 0) a r)" by (auto simp: ok_simps)
  from ok False la have act: "text_of (r_active_attempt r) = aid" and live: "live (a_status a)"
    by (auto simp: kubernetes_stopped_def split: if_splits)
  from ok False la obtain failure reason where
    "fail timing (\<lambda>k. clk e (1 + k)) (locked (clk e 0) a r) failure reason None db = Inr db'"
    by (auto simp: kubernetes_stopped_def split: if_splits sum.splits)
  from fail_sim[OF inv a r act current_live[OF current_of(2)[OF inv a r act] live] this] show ?thesis .
qed

section \<open>Control and scheduling\<close>

lemma cancel_sim:
  assumes ok: "cancel e rid db = Inr (v, db')"
  shows "life_step (life_of db) (life_of db')"
proof (cases "db' = db")
  case True
  then show ?thesis by (simp add: life_step.stutter)
next
  case False
  let ?f = "\<lambda>a. a\<lparr>a_status := ''CANCELLED'', a_reason := Some ''USER_CANCELLED'',
                    a_lease_until := Some (clk e 0), a_finished_at := Some (clk e 0)\<rparr>"
  let ?db = "db\<lparr>attempts := upd_where (\<lambda>a. a_run_id a = rid \<and> live (a_status a)) ?f (attempts db)\<rparr>"
  from ok False obtain r where r: "run_row db rid = Some r" and nt: "\<not> terminal (r_status r)"
    and ev: "event (clk e 1) (clk e 2) rid ''cancelled''
        ''results fenced; remote cleanup may still be pending''
        (upd_run rid (\<lambda>r. r\<lparr>r_status := cancelled\<rparr>) ?db) = Inr db'"
    by (auto simp: cancel_def Let_def split: option.splits if_splits sum.splits)
  have attempt: "life_attempt_of (if a_run_id a = rid \<and> live (a_status a) then ?f a else a) =
      fence_attempt rid (life_attempt_of a)" for a
    by (auto simp: life_attempt_of_def fence_attempt_def)
  have "attempt_row ?db = (\<lambda>i. map_option (\<lambda>a. if a_run_id a = rid \<and> live (a_status a) then ?f a else a)
      (attempt_row db i))"
    by (simp add: attempt_row_def find_by_upd_where fun_eq_iff)
  then have "life_of (upd_run rid (\<lambda>r. r\<lparr>r_status := cancelled\<rparr>) ?db) =
    (life_of db)\<lparr>l_runs := (l_runs (life_of db))(rid \<mapsto> (life_run_of r)\<lparr>lr_status := cancelled\<rparr>),
                 l_attempts := (\<lambda>a. map_option (fence_attempt rid) (l_attempts (life_of db) a))\<rparr>"
    using r by (auto simp: life_of_def row_simps fun_eq_iff life_run_of_def option.map_comp comp_def attempt)
  with life_of_event[OF ev] show ?thesis
    using r nt life_step.fence[of "life_of db" rid "life_run_of r"] by simp
qed

definition store_keys :: "db \<Rightarrow> bool" where
  "store_keys db \<longleftrightarrow> distinct (map r_id (runs db)) \<and> distinct (map a_id (attempts db))"

lemma run_row_of_mem: "store_keys db \<Longrightarrow> r \<in> set (runs db) \<Longrightarrow> run_row db (r_id r) = Some r"
  by (simp add: store_keys_def run_row_def find_by_of_mem)

lemma attempt_row_of_mem: "store_keys db \<Longrightarrow> a \<in> set (attempts db) \<Longrightarrow> attempt_row db (a_id a) = Some a"
  by (simp add: store_keys_def attempt_row_def find_by_of_mem)

lemma next_run_Some:
  assumes "next_run e wanted db = Some r"
  shows "r \<in> set (runs db)" and "r_status r = queued" and "wanted r" and "\<not> skip_locked e (r_id r)"
proof -
  let ?rs = "filter (\<lambda>r. r_status r = queued \<and> wanted r \<and> \<not> skip_locked e (r_id r)) (runs db)"
  from assms obtain rs where "sort_by (queue_before e) ?rs = r # rs"
    by (auto simp: next_run_def split: list.splits)
  then have "r \<in> set ?rs" by (metis list.set_intros(1) set_sort_by)
  then show "r \<in> set (runs db)" "r_status r = queued" "wanted r" "\<not> skip_locked e (r_id r)" by auto
qed

lemma insert_attempt_ok [ok_simps]:
  "insert_attempt row db = Inr db' \<longleftrightarrow>
     a_id row \<notin> a_id ` set (attempts db) \<and>
     (a_run_id row, a_generation row) \<notin> (\<lambda>a. (a_run_id a, a_generation a)) ` set (attempts db) \<and>
     db' = db\<lparr>attempts := attempts db @ [row]\<rparr>"
  by (auto simp: insert_attempt_def insert_unique_def)

lemma attempt_row_append:
  assumes "a_id row \<notin> a_id ` set (attempts db)"
  shows "attempt_row (db\<lparr>attempts := attempts db @ [row]\<rparr>) = (attempt_row db)(a_id row \<mapsto> row)"
proof -
  have "find_by a_id (attempts db) (a_id row) = None" using assms by (simp add: find_by_None)
  then show ?thesis
    by (auto simp: attempt_row_def find_by_append find_by_Cons fun_eq_iff split: option.splits)
qed

lemma claim_run_sim:
  assumes r: "run_row db (r_id r) = Some r" and st: "r_status r = queued"
    and ok: "claim_run timing t aid wid detail r db = Inr (row, db')"
  shows "life_step (life_of db) (life_of db')"
proof -
  let ?g = "r_generation r + 1"
  let ?row = "new_attempt aid (r_id r) ?g wid (t 0 + seconds (launch_seconds timing))
                  (gpu_count (spec_resources (r_spec r))) (t 0)"
  let ?f = "\<lambda>x. x\<lparr>r_status := starting, r_active_attempt := Some aid, r_generation := ?g\<rparr>"
  have id: "a_id ?row = aid" by (simp add: new_attempt_def)
  from ok obtain ev where new: "aid \<notin> a_id ` set (attempts db)" and ev: "life_of db' = life_of ev"
    and db1: "ev = upd_run (r_id r) ?f (db\<lparr>attempts := attempts db @ [?row]\<rparr>)"
    unfolding claim_run_def Let_def by (auto simp: insert_attempt_ok id life_of_event split: sum.splits)
  have "attempt_row db aid = None" using new by (simp add: attempt_row_def find_by_None)
  moreover have "life_of ev =
     (life_of db)\<lparr>l_runs := (l_runs (life_of db))(r_id r \<mapsto> (life_run_of r)\<lparr>lr_status := starting,
         lr_generation := lr_generation (life_run_of r) + 1, lr_active := Some aid\<rparr>),
       l_attempts := (l_attempts (life_of db))(aid \<mapsto> \<lparr>lt_run = r_id r,
         lt_generation = lr_generation (life_run_of r) + 1, lt_status = starting, lt_instance = None,
         lt_cleaned = False\<rparr>)\<rparr>"
    using attempt_row_append[of ?row db] new r unfolding db1 id
    by (auto simp: life_of_def row_simps fun_eq_iff life_run_of_def life_attempt_of_def new_attempt_def)
  ultimately show ?thesis
    using ev r st life_step.claim[of "life_of db" "r_id r" "life_run_of r" aid] by simp
qed

lemma reserve_devices_frame:
  "reserve_devices t aid n devices db = Inr db' \<Longrightarrow> \<exists>x. db' = db\<lparr>attempt_gpus := x\<rparr>"
proof (induction t aid n devices db arbitrary: db' rule: reserve_devices.induct)
  case (1 t attempt devices db)
  then show ?case by (auto intro: exI[of _ "attempt_gpus db"])
next
  case (3 t attempt n device devices db)
  then show ?case
    by (fastforce simp: insert_allocation_def split: sum.splits if_splits)
qed simp

lemma assign_sim:
  assumes keys: "store_keys db" and ok: "assign timing e wid session db = Inr (v, db')"
  shows "life_step (life_of db) (life_of db')"
proof (cases "db' = db")
  case True
  then show ?thesis by (simp add: life_step.stutter)
next
  case False
  with ok obtain r row db2 devices wanted where nx: "next_run e wanted db = Some r"
    and claim: "claim_run timing (\<lambda>k. clk e (3 + k)) (fresh e 0) wid ('' assigned to '' @ wid) r db = Inr (row, db2)"
    and gpus: "reserve_gpus (\<lambda>k. clk e (6 + k)) (fresh e 0) (gpu_count (spec_resources (r_spec r))) devices db2 = Inr db'"
    unfolding assign_def Let_def by (auto split: sum.splits if_splits option.splits)
  from reserve_devices_frame gpus have "life_of db' = life_of db2"
    unfolding reserve_gpus_def by fastforce
  with claim_run_sim[OF run_row_of_mem[OF keys next_run_Some(1)[OF nx]] next_run_Some(2)[OF nx] claim]
  show ?thesis by simp
qed

lemma admit_kubernetes_sim:
  assumes keys: "store_keys db" and ok: "admit_kubernetes timing e n db = Inr (v, db')"
  shows "life_step (life_of db) (life_of db')"
proof (cases "db' = db")
  case True
  then show ?thesis by (simp add: life_step.stutter)
next
  case False
  with ok obtain r row wanted where nx: "next_run e wanted db = Some r"
    and claim: "claim_run timing (\<lambda>k. clk e (1 + k)) (fresh e 0) ''@kubernetes''
      '' admitted to Kubernetes'' r db = Inr (row, db')"
    unfolding admit_kubernetes_def by (auto split: sum.splits if_splits option.splits)
  from claim_run_sim[OF run_row_of_mem[OF keys next_run_Some(1)[OF nx]] next_run_Some(2)[OF nx] claim]
  show ?thesis .
qed

section \<open>Recovery, creation and cleanup\<close>

lemma requeue_events_life: "requeue_events e k rids db = Inr db' \<Longrightarrow> life_of db' = life_of db"
proof (induction e k rids db arbitrary: db' rule: requeue_events.induct)
  case (2 e k rid rids db)
  then show ?case by (auto split: sum.splits dest: life_of_event)
qed simp

lemma recover_requeue_sim:
  assumes ok: "recover_requeue e db = Inr (v, db')"
  shows "life_step (life_of db) (life_of db')"
proof -
  let ?db = "db\<lparr>runs := upd_where (due (clk e 0)) (\<lambda>r. r\<lparr>r_status := queued\<rparr>) (runs db)\<rparr>"
  define R where "R = {i. \<exists>r. run_row db i = Some r \<and> due (clk e 0) r}"
  from ok have "life_of db' = life_of ?db"
    by (auto simp: recover_requeue_def Let_def dest: requeue_events_life split: sum.splits)
  also have "run_row ?db = (\<lambda>i. map_option (\<lambda>r. if due (clk e 0) r then r\<lparr>r_status := queued\<rparr> else r) (run_row db i))"
    by (simp add: run_row_def find_by_upd_where fun_eq_iff)
  then have "life_of ?db = (life_of db)\<lparr>l_runs := (\<lambda>i. if i \<in> R
      then map_option (lr_status_update (\<lambda>_. queued)) (l_runs (life_of db) i) else l_runs (life_of db) i)\<rparr>"
    by (auto simp: life_of_def fun_eq_iff R_def life_run_of_def option.map_comp comp_def intro: option.map_cong)
  finally have eq: "life_of db' = \<dots>" .
  have "\<forall>i\<in>R. \<exists>r. l_runs (life_of db) i = Some r \<and> lr_status r = retry_wait"
    by (auto simp: R_def due_def)
  then show ?thesis unfolding eq by (rule life_step.requeue)
qed

text \<open>Statements that create accepted runs compose.\<close>

definition creates :: "life \<Rightarrow> life \<Rightarrow> bool" where
  "creates s s' \<longleftrightarrow> (\<exists>new. dom new \<inter> dom (l_runs s) = {} \<and> (\<forall>r\<in>ran new. accepted_run r) \<and>
     s' = s\<lparr>l_runs := l_runs s ++ new\<rparr>)"

lemma creates_step: "creates s s' \<Longrightarrow> life_step s s'"
  by (auto simp: creates_def intro: life_step.create)

lemma creates_refl: "creates s s"
  by (auto simp: creates_def intro!: exI[of _ Map.empty])

lemma creates_trans:
  assumes "creates s s'" and "creates s' s''"
  shows "creates s s''"
proof -
  from assms obtain n m where n: "dom n \<inter> dom (l_runs s) = {}" "\<forall>r\<in>ran n. accepted_run r"
      "s' = s\<lparr>l_runs := l_runs s ++ n\<rparr>"
    and m: "dom m \<inter> dom (l_runs s') = {}" "\<forall>r\<in>ran m. accepted_run r"
      "s'' = s'\<lparr>l_runs := l_runs s' ++ m\<rparr>"
    by (auto simp: creates_def)
  have "\<forall>r\<in>ran (n ++ m). accepted_run r"
    using n(2) m(2) by (auto simp: ran_def map_add_Some_iff)
  with n m show ?thesis
    unfolding creates_def by (intro exI[of _ "n ++ m"]) auto
qed

lemma insert_run_ok [ok_simps]:
  "insert_run row db = Inr db' \<longleftrightarrow>
     r_id row \<notin> r_id ` set (runs db) \<and> db' = db\<lparr>runs := runs db @ [row]\<rparr>"
  by (auto simp: insert_run_def insert_unique_def)

lemma insert_run_creates:
  assumes "insert_run (new_run rid spec sweep parent now) db = Inr db'"
    and "validate_submission spec = Inr ()"
  shows "creates (life_of db) (life_of db')"
proof -
  let ?row = "new_run rid spec sweep parent now"
  have id: "r_id ?row = rid" by (simp add: new_run_def)
  from assms(1) have new: "find_by r_id (runs db) rid = None" and db': "db' = db\<lparr>runs := runs db @ [?row]\<rparr>"
    by (auto simp: ok_simps id find_by_None)
  have "run_row db' = (run_row db)(rid \<mapsto> ?row)"
    using new by (auto simp: db' run_row_def find_by_append find_by_Cons id fun_eq_iff split: option.splits)
  then have "life_of db' = (life_of db)\<lparr>l_runs := l_runs (life_of db) ++ [rid \<mapsto> life_run_of ?row]\<rparr>"
    using db' by (auto simp: life_of_def fun_eq_iff)
  moreover have "accepted_run (life_run_of ?row)"
    using assms(2) by (simp add: accepted_run_def life_run_of_def new_run_def)
  ultimately show ?thesis
    using new unfolding creates_def
    by (intro exI[of _ "[rid \<mapsto> life_run_of ?row]"]) (simp add: run_row_def dom_def)
qed

lemma create_run_creates:
  assumes "create_run t (new_run rid spec sweep parent now) sub detail db = Inr db'"
    and "validate_submission spec = Inr ()"
  shows "creates (life_of db) (life_of db')"
proof -
  from assms(1) obtain db1 where "insert_run (new_run rid spec sweep parent now) db = Inr db1"
    and "life_of db' = life_of db1"
    by (auto simp: create_run_def insert_submission_def dest: life_of_event split: sum.splits)
  with insert_run_creates[OF _ assms(2)] show ?thesis by metis
qed

lemma submit_sim:
  "submit e spec key fp db = Inr (v, db') \<Longrightarrow> life_step (life_of db) (life_of db')"
  by (auto simp: submit_def Let_def intro: creates_step create_run_creates life_step.stutter
      split: sum.splits option.splits if_splits)

lemma rerun_sim:
  "rerun sha e rid key db = Inr (v, db') \<Longrightarrow> life_step (life_of db) (life_of db')"
  by (auto simp: rerun_def Let_def intro: creates_step create_run_creates life_step.stutter
      split: sum.splits option.splits if_splits)

lemma insert_sweep_runs_creates:
  "insert_sweep_runs t ids sid specs db = Inr db' \<Longrightarrow> creates (life_of db) (life_of db')"
proof (induction t ids sid specs db arbitrary: db' rule: insert_sweep_runs.induct)
  case (1 t ids sid db)
  then show ?case by (simp add: creates_refl)
next
  case (2 t ids sid spec specs db)
  from "2.prems" obtain db1 db2 where valid: "validate_submission spec = Inr ()"
    and ins: "insert_run (new_run (ids 0) spec (Some sid) None (t 0)) db = Inr db1"
    and ev: "event (t 1) (t 2) (ids 0) ''submitted'' (''sweep '' @ sid) db1 = Inr db2"
    and rest: "insert_sweep_runs (\<lambda>k. t (3 + k)) (\<lambda>k. ids (Suc k)) sid specs db2 = Inr db'"
    by (auto split: sum.splits)
  from insert_run_creates[OF ins valid] "2.IH"[OF valid ins ev rest] life_of_event[OF ev]
  show ?case by (metis creates_trans)
qed

lemma submit_sweep_sim:
  assumes "submit_sweep e sweep specs key fp db = Inr (v, db')"
  shows "life_step (life_of db) (life_of db')"
proof (cases "db' = db")
  case True
  then show ?thesis by (simp add: life_step.stutter)
next
  case False
  with assms obtain sw where
    "insert_sweep_runs (\<lambda>k. clk e (1 + k)) (\<lambda>k. fresh e (1 + k)) (fresh e 0) specs (db\<lparr>sweeps := sw\<rparr>) = Inr db'"
    by (auto simp: submit_sweep_def insert_sweep_def split: sum.splits option.splits if_splits)
  from creates_step[OF insert_sweep_runs_creates[OF this]] show ?thesis by simp
qed

lemma clean_sim:
  assumes a: "attempt_row db aid = Some a" and "\<not> live (a_status a)"
  shows "life_step (life_of db) (life_of (upd_attempt aid (\<lambda>x. x\<lparr>a_cleanup_status := ''DONE''\<rparr>) db))"
proof -
  have "life_of (upd_attempt aid (\<lambda>x. x\<lparr>a_cleanup_status := ''DONE''\<rparr>) db) =
    (life_of db)\<lparr>l_attempts := (l_attempts (life_of db))(aid \<mapsto> (life_attempt_of a)\<lparr>lt_cleaned := True\<rparr>)\<rparr>"
    using a by (auto simp: life_of_def row_simps fun_eq_iff life_attempt_of_def)
  with assms life_step.clean[of "life_of db" aid "life_attempt_of a"] show ?thesis by simp
qed

lemma life_of_release [simp]: "life_of (release_gpus now aid db) = life_of db"
  by (simp add: release_gpus_def)

lemma runtime_id_life: "life_of (upd_attempt aid (\<lambda>x. x\<lparr>a_runtime_id := Some v\<rparr>) db) = life_of db"
  by (simp add: life_of_attempt_frame life_attempt_of_def)

lemma runtime_report_sim:
  "runtime_report e wid session aid runtime stopped db = Inr (v, db') \<Longrightarrow> life_step (life_of db) (life_of db')"
  by (auto simp: runtime_report_def lock_attempt_ok runtime_id_life intro: clean_sim life_step.stutter
      split: sum.splits if_splits)

lemma kubernetes_runtime_sim:
  "kubernetes_runtime e aid runtime removed db = Inr (v, db') \<Longrightarrow> life_step (life_of db) (life_of db')"
  by (auto simp: kubernetes_runtime_def lock_attempt_ok runtime_id_life intro: clean_sim life_step.stutter
      split: sum.splits if_splits)

text \<open>Operations on workers, devices, telemetry and artifacts.\<close>

lemma report_loop_frame:
  "report_loop aid n records db = Inr (m, db') \<Longrightarrow> \<exists>x. db' = db\<lparr>telemetry := x\<rparr>"
proof (induction aid n records db arbitrary: db' rule: report_loop.induct)
  case (1 aid n db)
  then show ?case by (auto intro: exI[of _ "telemetry db"])
next
  case (2 aid n r records db)
  show ?case
  proof (cases "t_sequence r = n + 1")
    case False
    with 2 show ?thesis by (auto split: if_splits intro: exI[of _ "telemetry db"])
  next
    case True
    with 2 show ?thesis by (fastforce simp: insert_telemetry_def split: sum.splits)
  qed
qed

lemma upsert_devices_frame:
  "upsert_devices t wid devices uuids db = Inr db' \<Longrightarrow> \<exists>x. db' = db\<lparr>gpu_devices := x\<rparr>"
proof (induction t wid devices uuids db arbitrary: db' rule: upsert_devices.induct)
  case (1 t worker devices db)
  then show ?case by (auto intro: exI[of _ "gpu_devices db"])
next
  case (2 t worker devices uuid uuids db)
  from "2.prems" obtain d db1 where d: "find_by gd_uuid devices uuid = Some d"
    and up: "upsert_device (t 0) worker d db = Inr db1"
    and rest: "upsert_devices (\<lambda>k. t (Suc k)) worker devices uuids db1 = Inr db'"
    by (auto split: option.splits sum.splits)
  from up obtain x where "db1 = db\<lparr>gpu_devices := x\<rparr>"
    by (auto simp: upsert_device_def split: option.splits if_splits)
  with "2.IH"[OF d up rest] show ?case by auto
qed

lemma inventory_cases:
  assumes "report_gpu_inventory e wid session snap db = Inr (v, db')"
  obtains (unchanged) "db' = db"
  | (unready) f where "\<And>w. w_id (f w) = w_id w \<and> w_cpu_millis (f w) = w_cpu_millis w \<and> w_memory_mib (f w) = w_memory_mib w"
      "db' = upd_worker wid f db"
  | (ready) f db2 where "\<And>w. w_id (f w) = w_id w \<and> w_cpu_millis (f w) = w_cpu_millis w \<and> w_memory_mib (f w) = w_memory_mib w"
      "db' = upd_worker wid f db2"
      "upsert_devices (clk e) wid (snap_devices snap) (sort (remdups (map gd_uuid (snap_devices snap))))
        (db\<lparr>gpu_devices := upd_where (\<lambda>d. d_worker_id d = wid) (\<lambda>d. d\<lparr>d_present := False\<rparr>) (gpu_devices db)\<rparr>)
       = Inr db2"
proof (cases "db' = db")
  case True
  then show ?thesis by (rule unchanged)
next
  case False
  let ?f = "\<lambda>w. w\<lparr>w_gpu_sequence := snap_sequence snap, w_gpu_ready := snap_ready snap,
      w_gpu_observed_at := (if snap_ready snap then Some (clk e 64) else w_gpu_observed_at w)\<rparr>"
  from False assms have "(\<not> snap_ready snap \<and> db' = upd_worker wid ?f db) \<or>
    (\<exists>db2. db' = upd_worker wid ?f db2 \<and>
      upsert_devices (clk e) wid (snap_devices snap) (sort (remdups (map gd_uuid (snap_devices snap))))
        (db\<lparr>gpu_devices := upd_where (\<lambda>d. d_worker_id d = wid) (\<lambda>d. d\<lparr>d_present := False\<rparr>) (gpu_devices db)\<rparr>)
       = Inr db2)"
    unfolding report_gpu_inventory_def Let_def by (auto split: sum.splits if_splits)
  then show ?thesis using unready[of ?f] ready[of ?f] by auto
qed

lemma inventory_frame:
  assumes "report_gpu_inventory e wid session snap db = Inr (v, db')"
  shows "\<exists>x y. db' = db\<lparr>gpu_devices := x, workers := y\<rparr>"
  using assms
proof (cases rule: inventory_cases)
  case unchanged
  then show ?thesis by (intro exI[of _ "gpu_devices db"] exI[of _ "workers db"]) simp
next
  case (unready f)
  then show ?thesis by (intro exI[of _ "gpu_devices db"]) (auto simp: upd_worker_def)
next
  case (ready f db2)
  from upsert_devices_frame[OF ready(3)] obtain x where "db2 = db\<lparr>gpu_devices := x\<rparr>" by auto
  with ready(2) show ?thesis by (simp add: upd_worker_def) blast
qed

lemma data_sim:
  "report e aid g inst records db = Inr (n, db') \<Longrightarrow> life_of db' = life_of db"
  "publish_artifact e artifact g inst db = Inr (f, db') \<Longrightarrow> life_of db' = life_of db"
  "register_worker e wid session cap gpu db = Inr (u, db') \<Longrightarrow> life_of db' = life_of db"
  "worker_heartbeat e wid session db = Inr (u, db') \<Longrightarrow> life_of db' = life_of db"
  "report_gpu_inventory e wid session snap db = Inr (u, db') \<Longrightarrow> life_of db' = life_of db"
  "drain_worker wid drained db = Inr (u, db') \<Longrightarrow> life_of db' = life_of db"
  subgoal
    by (auto simp: report_def life_of_attempt_frame life_attempt_of_def dest!: report_loop_frame
        split: if_splits sum.splits)
  subgoal
    by (auto simp: publish_artifact_def insert_artifact_def Let_def split: if_splits sum.splits option.splits)
  subgoal
    by (auto simp: register_worker_def upd_worker_def split: if_splits option.splits)
  subgoal
    by (auto simp: worker_heartbeat_def upd_worker_def split: sum.splits)
  subgoal
    by (auto dest!: inventory_frame)
  subgoal
    by (auto simp: drain_worker_def upd_worker_def split: option.splits)
  done

lemma store_step_sim:
  assumes "store_step timing db db'" and "life_inv (life_of db)" and "store_keys db"
  shows "life_step (life_of db) (life_of db')"
  using assms
  by (induction rule: store_step.induct)
    (auto simp: data_sim heartbeat_sim life_step.stutter
      intro: submit_sim submit_sweep_sim rerun_sim cancel_sim start_sim begin_finalization_sim finish_sim
        recover_requeue_sim recover_attempt_sim assign_sim runtime_report_sim admit_kubernetes_sim
        kubernetes_stopped_sim kubernetes_runtime_sim)

end
