(* ===== verification/Store_Invariants.thy ===== *)
theory Store_Invariants
  imports Store_Steps
begin

text \<open>
  How an invariant of the database is proved once for every operation. \<open>op_invariant\<close> asks for
  laws about the statements that most operations are made of and about the few operations that
  touch what the invariant is about; \<open>statement_invariant\<close> asks for statements only and gives
  the former.
\<close>

definition keeps_run :: "(runs_row \<Rightarrow> runs_row) \<Rightarrow> bool" where
  "keeps_run f \<longleftrightarrow> (\<forall>r. r_id (f r) = r_id r \<and> r_spec (f r) = r_spec r \<and>
     r_event_sequence (f r) = r_event_sequence r \<and> r_sweep_id (f r) = r_sweep_id r \<and>
     r_parent_run_id (f r) = r_parent_run_id r \<and> r_priority (f r) = r_priority r \<and>
     r_cpu_millis (f r) = r_cpu_millis r \<and> r_memory_mib (f r) = r_memory_mib r \<and>
     r_gpu_count (f r) = r_gpu_count r \<and> r_created_at (f r) = r_created_at r)"

definition keeps_attempt :: "(attempts_row \<Rightarrow> attempts_row) \<Rightarrow> bool" where
  "keeps_attempt f \<longleftrightarrow> (\<forall>a. a_id (f a) = a_id a \<and> a_run_id (f a) = a_run_id a \<and>
     a_generation (f a) = a_generation a \<and> a_worker_id (f a) = a_worker_id a \<and>
     a_ack_sequence (f a) = a_ack_sequence a \<and> a_gpu_count (f a) = a_gpu_count a \<and>
     a_cleanup_status (f a) = a_cleanup_status a \<and> a_created_at (f a) = a_created_at a)"

definition keeps_worker :: "(workers_row \<Rightarrow> workers_row) \<Rightarrow> bool" where
  "keeps_worker f \<longleftrightarrow> (\<forall>w. w_id (f w) = w_id w \<and>
     (0 < w_cpu_millis w \<and> 0 < w_memory_mib w \<longrightarrow> 0 < w_cpu_millis (f w) \<and> 0 < w_memory_mib (f w)))"

locale op_invariant =
  fixes I :: "db \<Rightarrow> bool" and ctx :: "db \<Rightarrow> bool"
  assumes event_I: "I db \<Longrightarrow> event t1 t2 rid kind detail db = Inr db' \<Longrightarrow> I db'"
    and runs_I: "I db \<Longrightarrow> keeps_run f \<Longrightarrow> I (db\<lparr>runs := upd_where P f (runs db)\<rparr>)"
    and attempts_I: "I db \<Longrightarrow> keeps_attempt g \<Longrightarrow> I (db\<lparr>attempts := upd_where Q g (attempts db)\<rparr>)"
    and insert_run_I: "I db \<Longrightarrow> validate_submission spec = Inr () \<Longrightarrow>
      (\<And>p. parent = Some p \<Longrightarrow> run_row db p \<noteq> None) \<Longrightarrow>
      (\<And>s. sweep = Some s \<Longrightarrow> s \<in> s_id ` set (sweeps db)) \<Longrightarrow>
      insert_run (new_run rid spec sweep parent now) db = Inr db' \<Longrightarrow> I db'"
    and submission_I: "I db \<Longrightarrow> run_row db (sub_run_id s) \<noteq> None \<Longrightarrow>
      insert_submission s db = Inr db' \<Longrightarrow> I db'"
    and sweep_I: "I db \<Longrightarrow> insert_sweep sw db = Inr db' \<Longrightarrow> I db'"
    and worker_I: "I db \<Longrightarrow> keeps_worker h \<Longrightarrow> I (upd_worker wid h db)"
    and new_worker_I: "I db \<Longrightarrow> worker_row db (w_id w) = None \<Longrightarrow>
      0 < w_cpu_millis w \<Longrightarrow> 0 < w_memory_mib w \<Longrightarrow> w_id w \<noteq> ''@kubernetes'' \<Longrightarrow> I (db\<lparr>workers := workers db @ [w]\<rparr>)"
    and inventory_I: "I db \<Longrightarrow> report_gpu_inventory e wid session snap db = Inr (u, db') \<Longrightarrow> I db'"
    and report_I: "I db \<Longrightarrow> report e aid g' inst records db = Inr (n, db') \<Longrightarrow> I db'"
    and publish_I: "I db \<Longrightarrow> publish_artifact e art g' inst db = Inr (v, db') \<Longrightarrow> I db'"
    and assign_I: "I db \<Longrightarrow> ctx db \<Longrightarrow> assign timing e wid session db = Inr (oa, db') \<Longrightarrow> I db'"
    and admit_I: "I db \<Longrightarrow> ctx db \<Longrightarrow> admit_kubernetes timing e k db = Inr (oa, db') \<Longrightarrow> I db'"
    and runtime_I: "I db \<Longrightarrow> ctx db \<Longrightarrow> runtime_report e wid session aid rt stopped db = Inr (u, db') \<Longrightarrow> I db'"
    and kubernetes_runtime_I: "I db \<Longrightarrow> ctx db \<Longrightarrow> kubernetes_runtime e aid rt stopped db = Inr (u, db') \<Longrightarrow> I db'"
begin

lemma upd_run_I: "I db \<Longrightarrow> keeps_run f \<Longrightarrow> I (upd_run rid f db)"
  by (simp add: upd_run_def runs_I)

lemma upd_attempt_I: "I db \<Longrightarrow> keeps_attempt f \<Longrightarrow> I (upd_attempt aid f db)"
  by (simp add: upd_attempt_def attempts_I)

text \<open>The pattern of the runner's operations: the attempt, the run, an event.\<close>

lemma transition_I:
  assumes "I db" and "keeps_attempt g" and "keeps_run f"
    and "event t1 t2 rid' kind detail (upd_run rid f (upd_attempt aid g db)) = Inr db'"
  shows "I db'"
  using assms by (blast intro: event_I upd_run_I upd_attempt_I)

lemma fail_I:
  assumes "I db" and "fail timing t la failure reason code db = Inr db'"
  shows "I db'"
  using assms unfolding fail_def Let_def
  by (elim transition_I[rotated 3]) (simp_all add: keeps_run_def keeps_attempt_def)

lemma start_I: "I db \<Longrightarrow> start timing e aid g inst node db = Inr (asg, db') \<Longrightarrow> I db'"
  unfolding start_def Let_def
  by (auto elim!: transition_I[rotated 3] simp: keeps_run_def keeps_attempt_def
      split: if_splits sum.splits option.splits)

lemma heartbeat_I: "I db \<Longrightarrow> heartbeat timing e aid g inst db = Inr (u, db') \<Longrightarrow> I db'"
  by (auto simp: heartbeat_def keeps_attempt_def intro: upd_attempt_I split: sum.splits)

lemma begin_finalization_I:
  "I db \<Longrightarrow> begin_finalization timing e aid g inst db = Inr (u, db') \<Longrightarrow> I db'"
  unfolding begin_finalization_def Let_def
  by (auto elim!: transition_I[rotated 3] simp: keeps_run_def keeps_attempt_def split: if_splits sum.splits)

lemma finish_I: "I db \<Longrightarrow> finish timing e aid g inst code reason fin db = Inr (u, db') \<Longrightarrow> I db'"
  by (erule finish_cases)
    (auto elim!: transition_I[rotated 3] dest: fail_I simp: keeps_run_def keeps_attempt_def)

lemma recover_attempt_I: "I db \<Longrightarrow> recover_attempt timing e aid db = Inr (u, db') \<Longrightarrow> I db'"
  unfolding recover_attempt_def Let_def by (auto dest: fail_I split: if_splits sum.splits)

lemma kubernetes_stopped_I: "I db \<Longrightarrow> kubernetes_stopped timing e aid db = Inr (u, db') \<Longrightarrow> I db'"
  unfolding kubernetes_stopped_def by (auto dest: fail_I split: if_splits sum.splits)

lemma cancel_I:
  assumes "I db" and "cancel e rid db = Inr (v, db')"
  shows "I db'"
  using assms unfolding cancel_def Let_def
  by (auto elim!: event_I[rotated] intro!: upd_run_I attempts_I simp: keeps_run_def keeps_attempt_def
      split: if_splits sum.splits option.splits)

lemma requeue_events_I: "requeue_events e k rids db = Inr db' \<Longrightarrow> I db \<Longrightarrow> I db'"
proof (induction e k rids db arbitrary: db' rule: requeue_events.induct)
  case (2 e k rid rids db)
  then show ?case by (auto split: sum.splits dest: event_I)
qed simp

lemma recover_requeue_I: "I db \<Longrightarrow> recover_requeue e db = Inr (u, db') \<Longrightarrow> I db'"
  by (auto simp: recover_requeue_def Let_def keeps_run_def intro: runs_I dest!: requeue_events_I
      split: sum.splits)

lemma create_run_I:
  assumes "I db" and "validate_submission spec = Inr ()"
    and "\<And>p. parent = Some p \<Longrightarrow> run_row db p \<noteq> None"
    and "create_run t (new_run rid spec None parent now) sub detail db = Inr db'"
    and "sub_run_id sub = rid"
  shows "I db'"
proof -
  from assms(4) obtain db1 db2 where ins: "insert_run (new_run rid spec None parent now) db = Inr db1"
    and sub: "insert_submission sub db1 = Inr db2"
    and ev: "event (t 0) (t 1) (r_id (new_run rid spec None parent now)) ''submitted'' detail db2 = Inr db'"
    by (auto simp: create_run_def split: sum.splits)
  from insert_run_I[OF assms(1,2) assms(3) _ ins] have "I db1" by simp
  moreover from ins assms(5) have "run_row db1 (sub_run_id sub) \<noteq> None"
    by (auto simp: insert_run_ok run_row_def find_by_None new_run_def)
  ultimately show ?thesis using submission_I[OF _ _ sub] event_I[OF _ ev] by simp
qed

lemma submit_I: "I db \<Longrightarrow> submit e spec key fp db = Inr (v, db') \<Longrightarrow> I db'"
  by (auto simp: submit_def Let_def elim!: create_run_I[rotated 3] split: sum.splits option.splits if_splits)

lemma rerun_I: "I db \<Longrightarrow> rerun sha e rid key db = Inr (v, db') \<Longrightarrow> I db'"
  by (auto simp: rerun_def Let_def elim!: create_run_I[rotated 3] split: sum.splits option.splits if_splits)

lemma insert_sweep_runs_I:
  "insert_sweep_runs t ids sid specs db = Inr db' \<Longrightarrow> I db \<Longrightarrow> sid \<in> s_id ` set (sweeps db) \<Longrightarrow> I db'"
proof (induction t ids sid specs db arbitrary: db' rule: insert_sweep_runs.induct)
  case (2 t ids sid spec specs db)
  from "2.prems"(1) obtain db1 db2 where valid: "validate_submission spec = Inr ()"
    and ins: "insert_run (new_run (ids 0) spec (Some sid) None (t 0)) db = Inr db1"
    and ev: "event (t 1) (t 2) (ids 0) ''submitted'' (''sweep '' @ sid) db1 = Inr db2"
    and rest: "insert_sweep_runs (\<lambda>k. t (3 + k)) (\<lambda>k. ids (Suc k)) sid specs db2 = Inr db'"
    by (auto split: sum.splits)
  from insert_run_I[OF "2.prems"(2) valid _ _ ins] "2.prems"(3) have "I db1" by simp
  with event_I ev have "I db2" by blast
  moreover from ins ev have "sweeps db2 = sweeps db" by (auto simp: insert_run_ok event_ok)
  ultimately show ?case using "2.IH"[OF valid ins ev rest] "2.prems"(3) by simp
qed simp

lemma submit_sweep_I:
  assumes "I db" and "submit_sweep e sweep specs key fp db = Inr (sw, db')"
  shows "I db'"
proof (cases "db' = db")
  case False
  let ?row = "\<lparr>s_id = fresh e 0, s_spec = sweep, s_key = key, s_fingerprint = fp, s_created_at = clk e 0\<rparr>"
  from assms(2) False obtain db1 where ins: "insert_sweep ?row db = Inr db1" and
    runs: "insert_sweep_runs (\<lambda>k. clk e (1 + k)) (\<lambda>k. fresh e (1 + k)) (fresh e 0) specs db1 = Inr db'"
    unfolding submit_sweep_def by (auto split: sum.splits option.splits if_splits)
  from ins have "fresh e 0 \<in> s_id ` set (sweeps db1)"
    by (auto simp: insert_sweep_def insert_unique_def split: if_splits)
  with insert_sweep_runs_I[OF runs sweep_I[OF assms(1) ins]] show ?thesis .
qed (use assms in simp)

lemma register_worker_I: "I db \<Longrightarrow> register_worker e wid session cap gpu db = Inr (u, db') \<Longrightarrow> I db'"
  by (auto simp: register_worker_def keeps_worker_def starts_with_def intro!: worker_I new_worker_I
      split: if_splits option.splits)

lemma worker_heartbeat_I: "I db \<Longrightarrow> worker_heartbeat e wid session db = Inr (u, db') \<Longrightarrow> I db'"
  by (auto simp: worker_heartbeat_def keeps_worker_def intro!: worker_I split: sum.splits)

lemma drain_worker_I: "I db \<Longrightarrow> drain_worker wid drained db = Inr (u, db') \<Longrightarrow> I db'"
  by (auto simp: drain_worker_def keeps_worker_def intro!: worker_I split: option.splits)

lemma store_step_I: "store_step timing db db' \<Longrightarrow> I db \<Longrightarrow> ctx db \<Longrightarrow> I db'"
  by (induction rule: store_step.induct)
    (blast intro: submit_I submit_sweep_I rerun_I cancel_I start_I heartbeat_I begin_finalization_I
      finish_I report_I publish_I recover_requeue_I recover_attempt_I register_worker_I
      worker_heartbeat_I inventory_I assign_I runtime_I drain_worker_I admit_I kubernetes_stopped_I
      kubernetes_runtime_I)+

end

section \<open>Invariants of single statements\<close>

text \<open>What an assignment that commits consists of.\<close>

lemma claim_run_cases:
  assumes "claim_run timing t aid wid detail r db = Inr (row, db')"
  obtains db1 where
    "row = new_attempt aid (r_id r) (r_generation r + 1) wid (t 0 + seconds (launch_seconds timing))
       (gpu_count (spec_resources (r_spec r))) (t 0)"
    "insert_attempt row db = Inr db1"
    "event (t 1) (t 2) (r_id r) ''assigned'' (''attempt '' @ show_int (r_generation r + 1) @ detail)
       (upd_run (r_id r) (\<lambda>x. x\<lparr>r_status := starting, r_active_attempt := Some aid,
          r_generation := r_generation r + 1\<rparr>) db1) = Inr db'"
  using assms unfolding claim_run_def Let_def by (auto split: sum.splits)

lemma assign_cases:
  assumes "assign timing e wid session db = Inr (v, db')"
  obtains (unchanged) "db' = db"
  | (assigned) w r row db2 reserved_cpu reserved_memory devices where
      "worker_row db wid = Some w" "w_session w = session" "\<not> w_drained w"
      "worker_available timing (clk e 0) w"
      "as_int (reserved_sum r_cpu_millis db wid) = Inr reserved_cpu"
      "as_int (reserved_sum r_memory_mib db wid) = Inr reserved_memory"
      "devices = (if w_gpu_capable w \<and> w_gpu_ready w \<and> gpu_observed_fresh (clk e 0) w
                  then free_gpus e db wid else [])"
      "next_run e (\<lambda>r. r_gpu_count r \<le> int (length devices) \<and> r_available_at r \<le> clk e 2 \<and>
          r_cpu_millis r \<le> w_cpu_millis w - reserved_cpu \<and>
          r_memory_mib r \<le> w_memory_mib w - reserved_memory) db = Some r"
      "claim_run timing (\<lambda>k. clk e (3 + k)) (fresh e 0) wid ('' assigned to '' @ wid) r db = Inr (row, db2)"
      "reserve_gpus (\<lambda>k. clk e (6 + k)) (fresh e 0) (gpu_count (spec_resources (r_spec r))) devices db2 = Inr db'"
      "v = Some \<lparr>asg_attempt = load_gpu_allocations e db' (attempt_of row), asg_spec = r_spec r\<rparr>"
proof (cases "db' = db")
  case True
  then show ?thesis by (rule unchanged)
next
  case False
  with assms show ?thesis
    unfolding assign_def require_worker_def Let_def
    by (auto split: sum.splits if_splits option.splits intro!: assigned)
qed

lemma admit_cases:
  assumes "admit_kubernetes timing e n db = Inr (v, db')"
  obtains (unchanged) "db' = db"
  | (admitted) r row active where "1 \<le> n" "n \<le> 100"
      "as_int (int (length (pending_attempts db ''@kubernetes''))) = Inr active" "active < n"
      "next_run e (\<lambda>r. r_available_at r \<le> clk e 0) db = Some r"
      "claim_run timing (\<lambda>k. clk e (1 + k)) (fresh e 0) ''@kubernetes'' '' admitted to Kubernetes'' r db
         = Inr (row, db')"
      "v = Some \<lparr>asg_attempt = attempt_of row, asg_spec = r_spec r\<rparr>"
proof (cases "db' = db")
  case True
  then show ?thesis by (rule unchanged)
next
  case False
  with assms show ?thesis
    unfolding admit_kubernetes_def by (auto split: sum.splits if_splits option.splits intro!: admitted)
qed

lemma free_gpus_devices:
  "d \<in> set (free_gpus e db wid) \<Longrightarrow>
     \<exists>row\<in>set (gpu_devices db). d_uuid row = gd_uuid d \<and> d_worker_id row = wid \<and> device_free db row"
  by (auto simp: free_gpus_def)

locale statement_invariant =
  fixes I :: "db \<Rightarrow> bool"
  assumes event_S: "I db \<Longrightarrow> event t1 t2 rid kind detail db = Inr db' \<Longrightarrow> I db'"
    and runs_S: "I db \<Longrightarrow> keeps_run f \<Longrightarrow> I (db\<lparr>runs := upd_where P f (runs db)\<rparr>)"
    and attempts_S: "I db \<Longrightarrow> keeps_attempt g \<Longrightarrow> I (db\<lparr>attempts := upd_where Q g (attempts db)\<rparr>)"
    and insert_run_S: "I db \<Longrightarrow> validate_submission spec = Inr () \<Longrightarrow>
      (\<And>p. parent = Some p \<Longrightarrow> run_row db p \<noteq> None) \<Longrightarrow>
      (\<And>s. sweep = Some s \<Longrightarrow> s \<in> s_id ` set (sweeps db)) \<Longrightarrow>
      insert_run (new_run rid spec sweep parent now) db = Inr db' \<Longrightarrow> I db'"
    and submission_S: "I db \<Longrightarrow> run_row db (sub_run_id s) \<noteq> None \<Longrightarrow>
      insert_submission s db = Inr db' \<Longrightarrow> I db'"
    and sweep_S: "I db \<Longrightarrow> insert_sweep sw db = Inr db' \<Longrightarrow> I db'"
    and worker_S: "I db \<Longrightarrow> keeps_worker h \<Longrightarrow> I (upd_worker wid h db)"
    and new_worker_S: "I db \<Longrightarrow> worker_row db (w_id w) = None \<Longrightarrow>
      0 < w_cpu_millis w \<Longrightarrow> 0 < w_memory_mib w \<Longrightarrow> w_id w \<noteq> ''@kubernetes'' \<Longrightarrow> I (db\<lparr>workers := workers db @ [w]\<rparr>)"
    and inventory_S: "I db \<Longrightarrow> report_gpu_inventory e wid session snap db = Inr (u, db') \<Longrightarrow> I db'"
    and report_S: "I db \<Longrightarrow> report e aid g' inst records db = Inr (n, db') \<Longrightarrow> I db'"
    and publish_S: "I db \<Longrightarrow> publish_artifact e art g' inst db = Inr (v, db') \<Longrightarrow> I db'"
    and insert_attempt_S: "I db \<Longrightarrow> r \<in> set (runs db) \<Longrightarrow>
      insert_attempt (new_attempt aid (r_id r) gen wid deadline (gpu_count (spec_resources (r_spec r))) now) db
        = Inr db' \<Longrightarrow> I db'"
    and allocation_S: "I db \<Longrightarrow> attempt_row db (g_attempt_id row) \<noteq> None \<Longrightarrow>
      g_uuid row \<in> d_uuid ` set (gpu_devices db) \<Longrightarrow> insert_allocation row db = Inr db' \<Longrightarrow> I db'"
    and release_S: "I db \<Longrightarrow> I (release_gpus now aid db)"
    and cleanup_S: "I db \<Longrightarrow> I (upd_attempt aid (\<lambda>x. x\<lparr>a_cleanup_status := ''DONE''\<rparr>) db)"
begin

lemma upd_attempt_S: "I db \<Longrightarrow> keeps_attempt f \<Longrightarrow> I (upd_attempt aid f db)"
  by (simp add: upd_attempt_def attempts_S)

lemma claim_run_S:
  assumes "I db" and "r \<in> set (runs db)"
    and "claim_run timing t aid wid detail r db = Inr (row, db')"
  shows "I db'"
  using assms(3)
proof (cases rule: claim_run_cases)
  case (1 db1)
  with assms(1,2) have "I db1" by (blast intro: insert_attempt_S)
  with 1(3) show ?thesis
    unfolding upd_run_def by (elim event_S[rotated] runs_S) (simp add: keeps_run_def)
qed

lemma reserve_devices_S:
  "reserve_devices t aid n devices db = Inr db' \<Longrightarrow> I db \<Longrightarrow> attempt_row db aid \<noteq> None \<Longrightarrow>
     gd_uuid ` set devices \<subseteq> d_uuid ` set (gpu_devices db) \<Longrightarrow> I db'"
proof (induction t aid n devices db arbitrary: db' rule: reserve_devices.induct)
  case (3 t attempt n device devices db)
  from "3.prems"(1) obtain db1 where ins: "insert_allocation \<lparr>g_attempt_id = attempt, g_uuid = gd_uuid device,
      g_name = gd_name device, g_memory_mib = gd_memory_mib device, g_allocated_at = t 0,
      g_released_at = None\<rparr> db = Inr db1"
    and rest: "reserve_devices (\<lambda>k. t (Suc k)) attempt n devices db1 = Inr db'"
    by (auto split: sum.splits)
  from allocation_S[OF "3.prems"(2) _ _ ins] "3.prems"(3,4) have "I db1" by auto
  moreover from ins obtain x where "db1 = db\<lparr>attempt_gpus := x\<rparr>"
    by (auto simp: insert_allocation_def split: if_splits)
  ultimately show ?case using "3.IH"[OF ins rest] "3.prems"(3,4) by simp
qed simp_all

lemma assign_S: "I db \<Longrightarrow> assign timing e wid session db = Inr (oa, db') \<Longrightarrow> I db'"
proof (erule assign_cases)
  fix w r row db2 reserved_cpu reserved_memory devices
  assume I: "I db" and devices: "devices = (if w_gpu_capable w \<and> w_gpu_ready w \<and>
      gpu_observed_fresh (clk e 0) w then free_gpus e db wid else [])"
    and nx: "next_run e (\<lambda>r. r_gpu_count r \<le> int (length devices) \<and> r_available_at r \<le> clk e 2 \<and>
          r_cpu_millis r \<le> w_cpu_millis w - reserved_cpu \<and>
          r_memory_mib r \<le> w_memory_mib w - reserved_memory) db = Some r"
    and claim: "claim_run timing (\<lambda>k. clk e (3 + k)) (fresh e 0) wid ('' assigned to '' @ wid) r db = Inr (row, db2)"
    and gpus: "reserve_gpus (\<lambda>k. clk e (6 + k)) (fresh e 0) (gpu_count (spec_resources (r_spec r))) devices db2 = Inr db'"
  have I2: "I db2" using claim_run_S[OF I next_run_Some(1)[OF nx] claim] .
  have "attempt_row db2 (fresh e 0) \<noteq> None \<and> gpu_devices db2 = gpu_devices db"
    using claim by (elim claim_run_cases)
      (auto simp: insert_attempt_ok event_ok attempt_row_def find_by_None new_attempt_def)
  moreover have "gd_uuid ` set devices \<subseteq> d_uuid ` set (gpu_devices db)"
    by (auto simp: devices free_gpus_def)
  ultimately show "I db'"
    using reserve_devices_S[OF gpus[unfolded reserve_gpus_def] I2] by simp
qed simp

lemma admit_S: "I db \<Longrightarrow> admit_kubernetes timing e k db = Inr (oa, db') \<Longrightarrow> I db'"
  by (erule admit_cases) (auto dest: next_run_Some(1) claim_run_S)

lemma runtime_S: "I db \<Longrightarrow> runtime_report e wid session aid rt stopped db = Inr (u, db') \<Longrightarrow> I db'"
  by (auto simp: runtime_report_def keeps_attempt_def intro: release_S cleanup_S upd_attempt_S
      split: sum.splits if_splits)

lemma kubernetes_runtime_S: "I db \<Longrightarrow> kubernetes_runtime e aid rt stopped db = Inr (u, db') \<Longrightarrow> I db'"
  by (auto simp: kubernetes_runtime_def keeps_attempt_def intro: cleanup_S upd_attempt_S
      split: sum.splits if_splits)

end

sublocale statement_invariant \<subseteq> op_invariant I "\<lambda>_. True"
proof unfold_locales
  show "I db \<Longrightarrow> validate_submission spec = Inr () \<Longrightarrow>
      (\<And>p. parent = Some p \<Longrightarrow> run_row db p \<noteq> None) \<Longrightarrow>
      (\<And>s. sweep = Some s \<Longrightarrow> s \<in> s_id ` set (sweeps db)) \<Longrightarrow>
      insert_run (new_run rid spec sweep parent now) db = Inr db' \<Longrightarrow> I db'"
    for db spec parent sweep rid now db'
    by (rule insert_run_S)
qed (blast intro: event_S runs_S attempts_S submission_S sweep_S worker_S new_worker_S inventory_S
      report_S publish_S assign_S admit_S runtime_S kubernetes_runtime_S)+

end
