(* ===== verification/Store_Integrity.thy ===== *)
theory Store_Integrity
  imports Store_Invariants
begin

text \<open>
  Invariants of the tables: primary keys, the foreign keys of the migrations, gap-free event
  and telemetry sequences, artifact quotas. Each is an interpretation of
  \<open>statement_invariant\<close>.
\<close>

section \<open>Primary keys\<close>

definition keys_ok :: "db \<Rightarrow> bool" where
  "keys_ok db \<longleftrightarrow> store_keys db \<and> distinct (map w_id (workers db)) \<and> distinct (map s_id (sweeps db)) \<and>
     distinct (map s_key (sweeps db)) \<and> distinct (map sub_key (submissions db)) \<and>
     distinct (map d_uuid (gpu_devices db))"

lemma keys_upd_where [simp]:
  "(\<And>r. k (f r) = k r) \<Longrightarrow> distinct (map k (upd_where P f rows)) \<longleftrightarrow> distinct (map k rows)"
  by (simp add: distinct_upd_where)

lemma upsert_device_keys:
  "upsert_device t wid d db = Inr db' \<Longrightarrow> distinct (map d_uuid (gpu_devices db)) \<Longrightarrow>
     distinct (map d_uuid (gpu_devices db'))"
  by (auto simp: upsert_device_def find_by_None split: option.splits if_splits)

lemma upsert_devices_keys:
  "upsert_devices t wid devices uuids db = Inr db' \<Longrightarrow> distinct (map d_uuid (gpu_devices db)) \<Longrightarrow>
     distinct (map d_uuid (gpu_devices db'))"
proof (induction t wid devices uuids db arbitrary: db' rule: upsert_devices.induct)
  case (2 t worker devices uuid uuids db)
  then show ?case by (auto split: option.splits sum.splits dest: upsert_device_keys)
qed simp

lemma inventory_keys:
  assumes "report_gpu_inventory e wid session snap db = Inr (u, db')" and "keys_ok db"
  shows "keys_ok db'"
  using assms(1)
proof (cases rule: inventory_cases)
  case (ready f db2)
  have "keys_ok db2"
    using ready(3) assms(2)
    by (auto simp: keys_ok_def store_keys_def dest: upsert_devices_keys upsert_devices_frame)
  with ready(1,2) show ?thesis by (simp add: keys_ok_def store_keys_def upd_worker_def)
qed (use assms(2) in \<open>simp_all add: keys_ok_def store_keys_def upd_worker_def\<close>)

lemma keeps_simps:
  "keeps_run f \<Longrightarrow> r_id (f r) = r_id r" "keeps_run f \<Longrightarrow> r_event_sequence (f r) = r_event_sequence r"
  "keeps_run f \<Longrightarrow> r_sweep_id (f r) = r_sweep_id r"
  "keeps_run f \<Longrightarrow> r_parent_run_id (f r) = r_parent_run_id r" "keeps_run f \<Longrightarrow> r_spec (f r) = r_spec r"
  "keeps_run f \<Longrightarrow> r_cpu_millis (f r) = r_cpu_millis r" "keeps_run f \<Longrightarrow> r_memory_mib (f r) = r_memory_mib r"
  "keeps_run f \<Longrightarrow> r_gpu_count (f r) = r_gpu_count r"
  "keeps_attempt g \<Longrightarrow> a_id (g a) = a_id a" "keeps_attempt g \<Longrightarrow> a_run_id (g a) = a_run_id a"
  "keeps_attempt g \<Longrightarrow> a_ack_sequence (g a) = a_ack_sequence a"
  "keeps_attempt g \<Longrightarrow> a_worker_id (g a) = a_worker_id a"
  "keeps_attempt g \<Longrightarrow> a_gpu_count (g a) = a_gpu_count a"
  "keeps_attempt g \<Longrightarrow> a_cleanup_status (g a) = a_cleanup_status a"
  "keeps_worker h \<Longrightarrow> w_id (h w) = w_id w"
  by (simp_all add: keeps_run_def keeps_attempt_def keeps_worker_def)

interpretation keys: statement_invariant keys_ok
proof unfold_locales
  fix db db' e wid session snap u
  assume "keys_ok db" "report_gpu_inventory e wid session snap db = Inr (u, db')"
  then show "keys_ok db'" by (rule inventory_keys[rotated])
next
  fix db db' e aid g inst records n
  assume "keys_ok db" "report e aid g inst records db = Inr (n, db')"
  then show "keys_ok db'"
    by (auto simp: report_def keys_ok_def store_keys_def upd_attempt_def dest!: report_loop_frame
        split: if_splits sum.splits)
next
  fix db db' e art g inst v
  assume "keys_ok db" "publish_artifact e art g inst db = Inr (v, db')"
  then show "keys_ok db'"
    by (elim publish_cases) (auto simp: insert_artifact_ok keys_ok_def store_keys_def)
qed (auto simp: keys_ok_def store_keys_def ok_simps keeps_simps upd_run_def upd_attempt_def upd_worker_def
      release_gpus_def insert_submission_def insert_sweep_def insert_unique_def insert_allocation_def
      worker_row_def find_by_None new_run_def new_attempt_def split: if_splits)

section \<open>Foreign keys and checks\<close>

text \<open>
  The \<open>REFERENCES\<close> and \<open>CHECK\<close> constraints of the migrations. The operations of the model do not
  test them; that they hold in every reachable database means that PostgreSQL never refuses a
  statement because of them. (Those between \<open>runs\<close> and \<open>attempts\<close> are part of \<open>life_inv\<close>.)
\<close>

definition run_check :: "db \<Rightarrow> runs_row \<Rightarrow> bool" where
  "run_check db r \<longleftrightarrow>
     validate_submission (r_spec r) = Inr () \<and>
     r_cpu_millis r = cpu_millis (spec_resources (r_spec r)) \<and>
     r_memory_mib r = memory_mib (spec_resources (r_spec r)) \<and>
     r_gpu_count r = gpu_count (spec_resources (r_spec r)) \<and>
     set_option (r_parent_run_id r) \<subseteq> r_id ` set (runs db) \<and>
     set_option (r_sweep_id r) \<subseteq> s_id ` set (sweeps db)"

definition references_ok :: "db \<Rightarrow> bool" where
  "references_ok db \<longleftrightarrow>
     (\<forall>r\<in>set (runs db). run_check db r) \<and>
     sub_run_id ` set (submissions db) \<subseteq> r_id ` set (runs db) \<and>
     a_run_id ` set (attempts db) \<subseteq> r_id ` set (runs db) \<and>
     a_gpu_count ` set (attempts db) \<subseteq> {0..64} \<and>
     e_run_id ` set (events db) \<subseteq> r_id ` set (runs db) \<and>
     tm_attempt_id ` set (telemetry db) \<subseteq> a_id ` set (attempts db) \<and>
     (\<forall>t\<in>set (telemetry db). validate_telemetry (tm_record t) = Inr ()) \<and>
     f_attempt_id ` set (artifacts db) \<subseteq> a_id ` set (attempts db) \<and>
     (\<forall>w\<in>set (workers db). 0 < w_cpu_millis w \<and> 0 < w_memory_mib w) \<and>
     d_worker_id ` set (gpu_devices db) \<subseteq> w_id ` set (workers db) \<and>
     g_attempt_id ` set (attempt_gpus db) \<subseteq> a_id ` set (attempts db) \<and>
     g_uuid ` set (attempt_gpus db) \<subseteq> d_uuid ` set (gpu_devices db)"

lemma run_check_frame [simp]:
  "run_check (db\<lparr>submissions := x1\<rparr>) = run_check db" "run_check (db\<lparr>attempts := x2\<rparr>) = run_check db"
  "run_check (db\<lparr>events := x3\<rparr>) = run_check db" "run_check (db\<lparr>workers := x4\<rparr>) = run_check db"
  "run_check (db\<lparr>telemetry := x5\<rparr>) = run_check db" "run_check (db\<lparr>artifacts := x6\<rparr>) = run_check db"
  "run_check (db\<lparr>gpu_devices := x8\<rparr>) = run_check db" "run_check (db\<lparr>attempt_gpus := x9\<rparr>) = run_check db"
  by (simp_all add: run_check_def fun_eq_iff)

lemma image_upd_where:
  "(\<And>r. k (f r) = k r) \<Longrightarrow> k ` set (upd_where P f rows) = k ` set rows"
  by (induction rows) auto

lemma ball_upd_where:
  "(\<forall>r\<in>set (upd_where P f rows). Q r) \<longleftrightarrow> (\<forall>r\<in>set rows. Q (if P r then f r else r))"
  by (induction rows) auto

lemmas table_simps = image_upd_where ball_upd_where keeps_simps

lemma run_row_mem: "run_row db i \<noteq> None \<longleftrightarrow> i \<in> r_id ` set (runs db)"
  by (simp add: run_row_def find_by_None)

lemma attempt_row_mem: "attempt_row db i \<noteq> None \<longleftrightarrow> i \<in> a_id ` set (attempts db)"
  by (simp add: attempt_row_def find_by_None)

lemma run_check_gpus: "run_check db r \<Longrightarrow> gpu_count (spec_resources (r_spec r)) \<in> {0..64}"
  by (auto simp: run_check_def validate_submission_ok validate_ok_iff)

lemma report_loop_telemetry:
  "report_loop aid n records db = Inr (m, db') \<Longrightarrow>
     set (telemetry db') \<subseteq> set (telemetry db) \<union> (\<lambda>r. \<lparr>tm_attempt_id = aid, tm_record = r\<rparr>) ` set records"
proof (induction aid n records db arbitrary: db' rule: report_loop.induct)
  case (2 aid n r records db)
  then show ?case
    by (fastforce simp: insert_telemetry_def insert_unique_def split: if_splits sum.splits)
qed simp

lemma report_references:
  assumes "references_ok db" and "report e aid g inst records db = Inr (n, db')"
  shows "references_ok db'"
proof -
  from assms(2) obtain m db1 where "attempt_row db aid \<noteq> None"
    and valid: "\<forall>r\<in>set records. validate_telemetry r = Inr ()"
    and loop: "report_loop aid m records db = Inr (n, db1)"
    and db': "db' = upd_attempt aid (\<lambda>x. x\<lparr>a_ack_sequence := n\<rparr>) db1"
    by (auto simp: report_def ok_simps split: if_splits sum.splits)
  then have "aid \<in> a_id ` set (attempts db)" using attempt_row_mem by blast
  moreover obtain x where db1: "db1 = db\<lparr>telemetry := x\<rparr>" using report_loop_frame[OF loop] by blast
  moreover have x: "set x \<subseteq> set (telemetry db) \<union> (\<lambda>r. \<lparr>tm_attempt_id = aid, tm_record = r\<rparr>) ` set records"
    using report_loop_telemetry[OF loop] by (simp add: db1)
  moreover have old: "\<forall>t\<in>set (telemetry db). validate_telemetry (tm_record t) = Inr ()"
    "tm_attempt_id ` set (telemetry db) \<subseteq> a_id ` set (attempts db)"
    using assms(1) by (simp_all add: references_ok_def)
  moreover have "\<forall>t\<in>set x. validate_telemetry (tm_record t) = Inr ()"
    using x valid old(1) by force
  moreover have "tm_attempt_id ` set x \<subseteq> a_id ` set (attempts db)"
    using x old(2) \<open>aid \<in> _\<close> by force
  ultimately show ?thesis
    using assms(1) unfolding db' upd_attempt_def references_ok_def by (simp add: image_upd_where)
qed

lemma upsert_devices_references:
  "upsert_devices t wid devices uuids db = Inr db' \<Longrightarrow>
     d_uuid ` set (gpu_devices db) \<subseteq> d_uuid ` set (gpu_devices db') \<and>
     d_worker_id ` set (gpu_devices db') \<subseteq> insert wid (d_worker_id ` set (gpu_devices db))"
proof (induction t wid devices uuids db arbitrary: db' rule: upsert_devices.induct)
  case (2 t worker devices uuid uuids db)
  from "2.prems" obtain d db1 where d: "find_by gd_uuid devices uuid = Some d"
    and up: "upsert_device (t 0) worker d db = Inr db1"
    and rest: "upsert_devices (\<lambda>k. t (Suc k)) worker devices uuids db1 = Inr db'"
    by (auto split: option.splits sum.splits)
  from up have "d_uuid ` set (gpu_devices db) \<subseteq> d_uuid ` set (gpu_devices db1)"
    by (auto simp: upsert_device_def image_upd_where split: option.splits if_splits)
  moreover from up have "d_worker_id ` set (gpu_devices db1) \<subseteq> insert worker (d_worker_id ` set (gpu_devices db))"
    by (auto simp: upsert_device_def set_upd_where split: option.splits if_splits)
  moreover note "2.IH"[OF d up rest]
  ultimately show ?case by (meson insert_mono insert_subset order_trans subset_insertI subset_insert_iff)
qed auto

lemma inventory_references:
  assumes "references_ok db" and "report_gpu_inventory e wid session snap db = Inr (u, db')"
  shows "references_ok db'"
proof -
  from assms(2) obtain w where "require_worker wid session db = Inr w"
    by (auto simp: report_gpu_inventory_def split: if_splits sum.splits)
  then have w: "wid \<in> w_id ` set (workers db)"
    by (auto simp: require_worker_def worker_row_def split: option.splits if_splits
        intro: rev_image_eqI dest: find_by_mem find_by_key)
  have worker: "references_ok (upd_worker wid f db)"
    if "references_ok db" "\<And>w. w_id (f w) = w_id w \<and> w_cpu_millis (f w) = w_cpu_millis w \<and> w_memory_mib (f w) = w_memory_mib w"
    for f db
    using that unfolding references_ok_def upd_worker_def by (simp add: table_simps)
  show ?thesis
    using assms(2)
  proof (cases rule: inventory_cases)
    case (ready f db2)
    from upsert_devices_frame[OF ready(3)] obtain x where db2: "db2 = db\<lparr>gpu_devices := x\<rparr>" by auto
    have "references_ok db2"
    proof -
      have "d_uuid ` set (gpu_devices db) \<subseteq> d_uuid ` set x"
        "d_worker_id ` set x \<subseteq> insert wid (d_worker_id ` set (gpu_devices db))"
        using upsert_devices_references[OF ready(3)] by (simp_all add: db2 image_upd_where)
      moreover have "g_uuid ` set (attempt_gpus db) \<subseteq> d_uuid ` set (gpu_devices db)"
        "insert wid (d_worker_id ` set (gpu_devices db)) \<subseteq> w_id ` set (workers db)"
        using assms(1) w by (simp_all add: references_ok_def)
      ultimately have "g_uuid ` set (attempt_gpus db) \<subseteq> d_uuid ` set x"
        "d_worker_id ` set x \<subseteq> w_id ` set (workers db)"
        by (meson order_trans)+
      then show ?thesis
        using assms(1) unfolding db2 references_ok_def by simp
    qed
    with ready(1,2) worker show ?thesis by simp
  qed (use assms(1) worker in simp_all)
qed

lemma references_runs:
  assumes "references_ok db"
    and "\<And>r. r_id (f r) = r_id r \<and> r_spec (f r) = r_spec r \<and> r_sweep_id (f r) = r_sweep_id r \<and>
      r_parent_run_id (f r) = r_parent_run_id r \<and> r_cpu_millis (f r) = r_cpu_millis r \<and>
      r_memory_mib (f r) = r_memory_mib r \<and> r_gpu_count (f r) = r_gpu_count r"
  shows "references_ok (db\<lparr>runs := upd_where P f (runs db)\<rparr>)"
proof -
  have "run_check (db\<lparr>runs := upd_where P f (runs db)\<rparr>) (if P r then f r else r)" if "run_check db r" for r
    using that assms(2) by (simp add: run_check_def image_upd_where)
  with assms show ?thesis unfolding references_ok_def by (simp add: image_upd_where ball_upd_where)
qed

lemma references_event:
  assumes "references_ok db" and "event t1 t2 rid kind detail db = Inr db'"
  shows "references_ok db'"
proof -
  from assms(2) obtain r where r: "run_row db rid = Some r"
    and db': "db' = (upd_run rid (bump t1) db)\<lparr>events := events db @ [new_event t2 kind detail r]\<rparr>"
    by (auto simp: ok_simps)
  have "references_ok (upd_run rid (bump t1) db)"
    unfolding upd_run_def using assms(1) by (rule references_runs) (simp add: bump_def)
  moreover have "rid \<in> r_id ` set (runs (upd_run rid (bump t1) db))"
    using run_row_mem[of db rid] r by (simp add: upd_run_def image_upd_where)
  ultimately show ?thesis
    using run_row_key[OF r] unfolding db' references_ok_def by (simp add: new_event_def)
qed

interpretation references: statement_invariant references_ok
proof unfold_locales
  fix db db' e wid session snap u
  assume "references_ok db" "report_gpu_inventory e wid session snap db = Inr (u, db')"
  then show "references_ok db'" by (rule inventory_references)
next
  fix db db' e aid g inst records n
  assume "references_ok db" "report e aid g inst records db = Inr (n, db')"
  then show "references_ok db'" by (rule report_references)
next
  fix db db' e art g inst v
  assume "references_ok db" "publish_artifact e art g inst db = Inr (v, db')"
  then show "references_ok db'"
    using attempt_row_mem[of db "art_attempt_id art"]
    by (elim publish_cases) (auto simp: references_ok_def insert_artifact_ok new_artifact_def)
next
  fix db db' r aid gen wid deadline now
  assume "references_ok db" "r \<in> set (runs db)" "insert_attempt (new_attempt aid (r_id r) gen wid deadline
    (gpu_count (spec_resources (r_spec r))) now) db = Inr db'"
  then show "references_ok db'"
    using run_check_gpus[of db r] by (auto simp: references_ok_def insert_attempt_ok new_attempt_def)
next
  fix db db' spec parent sweep rid now
  assume "references_ok db" "insert_run (new_run rid spec sweep parent now) db = Inr db'"
    "validate_submission spec = Inr ()" "\<And>p. parent = Some p \<Longrightarrow> run_row db p \<noteq> None"
    "\<And>s. sweep = Some s \<Longrightarrow> s \<in> s_id ` set (sweeps db)"
  moreover from this(4) have "set_option parent \<subseteq> r_id ` set (runs db)"
    using run_row_mem[of db] by (cases parent) blast+
  ultimately show "references_ok db'"
    by (auto simp: references_ok_def run_check_def insert_run_ok new_run_def)
next
  fix db db' t1 t2 rid kind detail
  assume "references_ok db" "event t1 t2 rid kind detail db = Inr db'"
  then show "references_ok db'" by (rule references_event)
next
  fix db f P
  assume "references_ok db" "keeps_run f"
  then show "references_ok (db\<lparr>runs := upd_where P f (runs db)\<rparr>)"
    by (intro references_runs) (simp_all add: keeps_simps)
next
  fix db sub db'
  assume "references_ok db" "run_row db (sub_run_id sub) \<noteq> None" "insert_submission sub db = Inr db'"
  moreover from this(3) have "db' = db\<lparr>submissions := submissions db @ [sub]\<rparr>"
    by (simp add: insert_submission_def insert_unique_def split: if_splits)
  ultimately show "references_ok db'"
    using run_row_mem[of db "sub_run_id sub"] by (simp add: references_ok_def)
next
  fix db sw db'
  assume "references_ok db" "insert_sweep sw db = Inr db'"
  moreover from this(2) have db': "db' = db\<lparr>sweeps := sweeps db @ [sw]\<rparr>"
    by (simp add: insert_sweep_def insert_unique_def split: if_splits)
  moreover have "run_check db' r" if "run_check db r" for r
    using that by (auto simp: run_check_def db')
  ultimately show "references_ok db'" by (simp add: references_ok_def)
next
  fix db row db'
  assume "references_ok db" "attempt_row db (g_attempt_id row) \<noteq> None"
    "g_uuid row \<in> d_uuid ` set (gpu_devices db)" "insert_allocation row db = Inr db'"
  moreover from this(4) have "db' = db\<lparr>attempt_gpus := attempt_gpus db @ [row]\<rparr>"
    by (simp add: insert_allocation_def split: if_splits)
  ultimately show "references_ok db'"
    using attempt_row_mem[of db "g_attempt_id row"] by (simp add: references_ok_def)
qed (simp_all add: references_ok_def upd_attempt_def upd_worker_def release_gpus_def table_simps keeps_worker_def
      subset_insertI2)

end
