(* ===== verification/Store_Sequences.thy ===== *)
theory Store_Sequences
  imports Store_Integrity
begin

text \<open>
  The numbered histories: events of a run, telemetry of an attempt, and the artifact quota of
  an attempt.
\<close>

section \<open>Events\<close>

definition run_events :: "db \<Rightarrow> string \<Rightarrow> events_row list" where
  "run_events db rid = filter (\<lambda>e. e_run_id e = rid) (events db)"

definition last_event :: "db \<Rightarrow> string \<Rightarrow> int" where
  "last_event db rid = (case run_row db rid of None \<Rightarrow> 0 | Some r \<Rightarrow> r_event_sequence r)"

definition events_ok :: "db \<Rightarrow> bool" where
  "events_ok db \<longleftrightarrow>
     (\<forall>rid. 0 \<le> last_event db rid \<and> map e_sequence (run_events db rid) = [1..last_event db rid])"

lemma last_event_runs:
  "keeps_run f \<Longrightarrow> last_event (db\<lparr>runs := upd_where P f (runs db)\<rparr>) rid = last_event db rid"
  by (auto simp: last_event_def run_row_def find_by_upd_where keeps_simps split: option.splits)

lemma last_event_upd_run:
  assumes "\<And>r. r_id (f r) = r_id r"
  shows "last_event (upd_run rid f db) i =
    (case run_row db i of None \<Rightarrow> 0 | Some r \<Rightarrow> r_event_sequence (if i = rid then f r else r))"
  using assms by (auto simp: last_event_def row_simps split: option.splits)

lemma events_ok_frame [simp]:
  "events_ok (db\<lparr>submissions := x1\<rparr>) = events_ok db" "events_ok (db\<lparr>attempts := x2\<rparr>) = events_ok db"
  "events_ok (db\<lparr>workers := x4\<rparr>) = events_ok db" "events_ok (db\<lparr>telemetry := x5\<rparr>) = events_ok db"
  "events_ok (db\<lparr>artifacts := x6\<rparr>) = events_ok db" "events_ok (db\<lparr>sweeps := x7\<rparr>) = events_ok db"
  "events_ok (db\<lparr>gpu_devices := x8\<rparr>) = events_ok db" "events_ok (db\<lparr>attempt_gpus := x9\<rparr>) = events_ok db"
  by (simp_all add: events_ok_def last_event_def run_events_def)

lemma event_events_ok:
  assumes "events_ok db" and "event t1 t2 rid kind detail db = Inr db'"
  shows "events_ok db'"
proof -
  from assms(2) obtain r where r: "run_row db rid = Some r"
    and db': "db' = (upd_run rid (bump t1) db)\<lparr>events := events db @ [new_event t2 kind detail r]\<rparr>"
    by (auto simp: ok_simps)
  have last: "last_event db' i = (if i = rid then last_event db i + 1 else last_event db i)" for i
    using r by (simp add: db' last_event_def row_simps split: option.splits)
  have "run_events db' i = run_events db i @ (if i = rid then [new_event t2 kind detail r] else [])" for i
    using run_row_key[OF r] by (auto simp: db' run_events_def new_event_def)
  moreover have "0 \<le> n \<Longrightarrow> [1..n + 1] = [1..n] @ [n + 1]" for n :: int
    by (simp add: upto_rec2)
  moreover have "e_sequence (new_event t2 kind detail r) = last_event db rid + 1"
    using r by (simp add: new_event_def last_event_def)
  ultimately show ?thesis
    using assms(1) by (simp add: events_ok_def last)
qed

lemma insert_run_events_ok:
  assumes "events_ok db" and "insert_run (new_run rid spec sweep parent now) db = Inr db'"
  shows "events_ok db'"
proof -
  let ?row = "new_run rid spec sweep parent now"
  from assms(2) have new: "find_by r_id (runs db) rid = None" and db': "db' = db\<lparr>runs := runs db @ [?row]\<rparr>"
    by (auto simp: ok_simps find_by_None new_run_def)
  have "last_event db' i = last_event db i" for i
    using new by (auto simp: db' last_event_def run_row_def find_by_append find_by_Cons new_run_def
        split: option.splits)
  with assms(1) show ?thesis by (simp add: events_ok_def run_events_def db')
qed

interpretation events: statement_invariant events_ok
proof unfold_locales
  fix db f P
  assume "events_ok db" "keeps_run f"
  then show "events_ok (db\<lparr>runs := upd_where P f (runs db)\<rparr>)"
    by (simp add: events_ok_def last_event_runs run_events_def)
next
  fix db db' e aid g inst records n
  assume "events_ok db" "report e aid g inst records db = Inr (n, db')"
  then show "events_ok db'"
    by (auto simp: report_def upd_attempt_def dest!: report_loop_frame split: if_splits sum.splits)
next
  fix db db' e art g inst v
  assume "events_ok db" "publish_artifact e art g inst db = Inr (v, db')"
  then show "events_ok db'"
    by (elim publish_cases) (auto simp: insert_artifact_ok)
next
  fix db db' e wid session snap u
  assume "events_ok db" "report_gpu_inventory e wid session snap db = Inr (u, db')"
  then show "events_ok db'" by (auto dest!: inventory_frame)
qed (auto simp: insert_attempt_ok upd_attempt_def insert_submission_def insert_sweep_def insert_unique_def
      insert_allocation_def release_gpus_def upd_worker_def split: if_splits
      intro: event_events_ok insert_run_events_ok)

section \<open>Telemetry\<close>

definition attempt_telemetry :: "db \<Rightarrow> string \<Rightarrow> Telemetry list" where
  "attempt_telemetry db aid = map tm_record (filter (\<lambda>t. tm_attempt_id t = aid) (telemetry db))"

definition acknowledged :: "db \<Rightarrow> string \<Rightarrow> int" where
  "acknowledged db aid = (case attempt_row db aid of None \<Rightarrow> 0 | Some a \<Rightarrow> a_ack_sequence a)"

definition telemetry_ok :: "db \<Rightarrow> bool" where
  "telemetry_ok db \<longleftrightarrow>
     (\<forall>aid. 0 \<le> acknowledged db aid \<and>
        map t_sequence (attempt_telemetry db aid) = [1..acknowledged db aid])"

lemma upto_prefix: "0 \<le> k \<Longrightarrow> k \<le> n \<Longrightarrow> [1..n] = [1..k] @ [k + 1..n]" for k n :: int
  by (cases "k = 0") (simp_all add: upto_split2)

text \<open>The records a batch adds after sequence number \<open>n\<close>.\<close>

fun accepted :: "int \<Rightarrow> Telemetry list \<Rightarrow> Telemetry list" where
  "accepted n [] = []"
| "accepted n (r # rs) =
     (if t_sequence r \<le> n then accepted n rs
      else if t_sequence r \<noteq> n + 1 then []
      else r # accepted (n + 1) rs)"

lemma accepted_sequences: "map t_sequence (accepted n rs) = [n + 1..n + int (length (accepted n rs))]"
proof (induction n rs rule: accepted.induct)
  case (2 n r rs)
  show ?case
  proof (cases "t_sequence r = n + 1")
    case True
    with "2.IH"(2) have "map t_sequence (accepted n (r # rs)) =
        (n + 1) # [n + 1 + 1..n + 1 + int (length (accepted (n + 1) rs))]" by simp
    also have "\<dots> = [n + 1..n + int (length (accepted n (r # rs)))]"
      using True by (subst (2) upto_rec1) (simp_all add: algebra_simps)
    finally show ?thesis .
  qed (use "2.IH"(1) in auto)
qed simp

lemma report_loop_accepted:
  "report_loop aid n records db = Inr (m, db') \<Longrightarrow>
     m = n + int (length (accepted n records)) \<and>
     telemetry db' = telemetry db @ map (\<lambda>r. \<lparr>tm_attempt_id = aid, tm_record = r\<rparr>) (accepted n records)"
proof (induction aid n records db arbitrary: m db' rule: report_loop.induct)
  case (2 aid n r records db)
  show ?case
  proof (cases "t_sequence r = n + 1")
    case True
    with "2.prems" obtain db1 where ins: "insert_telemetry aid r db = Inr db1"
      and rest: "report_loop aid (t_sequence r) records db1 = Inr (m, db')"
      by (auto split: sum.splits)
    from ins have "telemetry db1 = telemetry db @ [\<lparr>tm_attempt_id = aid, tm_record = r\<rparr>]"
      by (auto simp: insert_telemetry_def insert_unique_def split: if_splits)
    with "2.IH"(2)[OF _ _ ins rest] True show ?thesis by simp
  next
    case False
    with 2 show ?thesis by (simp split: if_splits)
  qed
qed simp

lemma report_cases:
  assumes "report e aid g inst records db = Inr (n, db')"
  obtains a r where "attempt_row db aid = Some a" "run_row db (a_run_id a) = Some r"
    "owns (clk e 0) aid g inst a r" "length records \<le> 256"
    "n = a_ack_sequence a + int (length (accepted (a_ack_sequence a) records))"
    "db' = upd_attempt aid (\<lambda>x. x\<lparr>a_ack_sequence := n\<rparr>) (db\<lparr>telemetry := telemetry db @
       map (\<lambda>r. \<lparr>tm_attempt_id = aid, tm_record = r\<rparr>) (accepted (a_ack_sequence a) records)\<rparr>)"
proof -
  from assms obtain la db1 where len: "length records \<le> 256"
    and own: "owned (clk e 0) aid g inst db = Inr la"
    and loop: "report_loop aid (att_acknowledged_sequence (la_attempt la)) records db = Inr (n, db1)"
    and db': "db' = upd_attempt aid (\<lambda>x. x\<lparr>a_ack_sequence := n\<rparr>) db1"
    by (auto simp: report_def split: if_splits sum.splits)
  from own obtain a r where a: "attempt_row db aid = Some a" "run_row db (a_run_id a) = Some r"
    "owns (clk e 0) aid g inst a r" and la: "la = locked (clk e 0) a r" by (auto simp: ok_simps)
  note acc = report_loop_accepted[OF loop] and fr = report_loop_frame[OF loop]
  have "n = a_ack_sequence a + int (length (accepted (a_ack_sequence a) records))"
    using acc by (simp add: la)
  moreover from fr obtain x where x: "db1 = db\<lparr>telemetry := x\<rparr>" by blast
  from acc have "x = telemetry db @
       map (\<lambda>r. \<lparr>tm_attempt_id = aid, tm_record = r\<rparr>) (accepted (a_ack_sequence a) records)"
    by (simp add: x la)
  ultimately show ?thesis using that[OF a len] db' x by simp
qed

lemma report_telemetry_ok:
  assumes "telemetry_ok db" and "report e aid g inst records db = Inr (n, db')"
  shows "telemetry_ok db'"
  using assms(2)
proof (cases rule: report_cases)
  case (1 a r)
  let ?acc = "accepted (a_ack_sequence a) records"
  have ack: "acknowledged db' i = (if i = aid then n else acknowledged db i)" for i
    using 1(1) by (simp add: 1(6) acknowledged_def row_simps)
  have tel: "attempt_telemetry db' i = attempt_telemetry db i @ (if i = aid then ?acc else [])" for i
    by (auto simp: 1(6) attempt_telemetry_def filter_map comp_def)
  have ok: "0 \<le> a_ack_sequence a" "map t_sequence (attempt_telemetry db aid) = [1..a_ack_sequence a]"
    using assms(1) 1(1) by (auto simp: telemetry_ok_def acknowledged_def split: option.splits dest!: spec[of _ aid])
  have "map t_sequence (attempt_telemetry db' aid) = [1..a_ack_sequence a] @ [a_ack_sequence a + 1..n]"
    unfolding tel using ok(2) accepted_sequences[of "a_ack_sequence a" records] 1(5) by simp
  also have "\<dots> = [1..n]"
    using upto_prefix[of "a_ack_sequence a" n] ok(1) 1(5) by simp
  finally have "map t_sequence (attempt_telemetry db' aid) = [1..n]" .
  moreover have "0 \<le> n" using ok(1) 1(5) by simp
  ultimately show ?thesis
    using assms(1) by (simp add: telemetry_ok_def ack tel)
qed

lemma telemetry_ok_frame [simp]:
  "telemetry_ok (db\<lparr>submissions := x1\<rparr>) = telemetry_ok db" "telemetry_ok (db\<lparr>runs := x2\<rparr>) = telemetry_ok db"
  "telemetry_ok (db\<lparr>workers := x4\<rparr>) = telemetry_ok db" "telemetry_ok (db\<lparr>events := x5\<rparr>) = telemetry_ok db"
  "telemetry_ok (db\<lparr>artifacts := x6\<rparr>) = telemetry_ok db" "telemetry_ok (db\<lparr>sweeps := x7\<rparr>) = telemetry_ok db"
  "telemetry_ok (db\<lparr>gpu_devices := x8\<rparr>) = telemetry_ok db" "telemetry_ok (db\<lparr>attempt_gpus := x9\<rparr>) = telemetry_ok db"
  by (simp_all add: telemetry_ok_def acknowledged_def attempt_telemetry_def)

lemma acknowledged_upd_where:
  "(\<And>a. a_id (f a) = a_id a \<and> a_ack_sequence (f a) = a_ack_sequence a) \<Longrightarrow>
     acknowledged (db\<lparr>attempts := upd_where P f (attempts db)\<rparr>) aid = acknowledged db aid"
  by (auto simp: acknowledged_def attempt_row_def find_by_upd_where split: option.splits)

lemma telemetry_ok_attempts:
  "(\<And>a. a_id (f a) = a_id a \<and> a_ack_sequence (f a) = a_ack_sequence a) \<Longrightarrow>
     telemetry_ok (db\<lparr>attempts := upd_where P f (attempts db)\<rparr>) = telemetry_ok db"
  by (simp add: telemetry_ok_def acknowledged_upd_where attempt_telemetry_def)

interpretation telemetry: statement_invariant telemetry_ok
proof unfold_locales
  fix db db' e aid g inst records n
  assume "telemetry_ok db" "report e aid g inst records db = Inr (n, db')"
  then show "telemetry_ok db'" by (rule report_telemetry_ok)
next
  fix db db' e art g inst v
  assume "telemetry_ok db" "publish_artifact e art g inst db = Inr (v, db')"
  then show "telemetry_ok db'" by (elim publish_cases) (auto simp: insert_artifact_ok)
next
  fix db db' e wid session snap u
  assume "telemetry_ok db" "report_gpu_inventory e wid session snap db = Inr (u, db')"
  then show "telemetry_ok db'" by (auto dest!: inventory_frame)
next
  fix db db' r aid gen wid deadline now
  assume ok: "telemetry_ok db" and ins: "insert_attempt (new_attempt aid (r_id r) gen wid deadline
    (gpu_count (spec_resources (r_spec r))) now) db = Inr db'"
  let ?row = "new_attempt aid (r_id r) gen wid deadline (gpu_count (spec_resources (r_spec r))) now"
  from ins have new: "a_id ?row \<notin> a_id ` set (attempts db)" and db': "db' = db\<lparr>attempts := attempts db @ [?row]\<rparr>"
    by (auto simp: insert_attempt_ok)
  have "attempt_row db aid = None" using new by (simp add: attempt_row_def find_by_None new_attempt_def)
  then have "acknowledged db' i = acknowledged db i" for i
    unfolding db' using attempt_row_append[OF new]
    by (simp add: acknowledged_def new_attempt_def split: option.splits)
  with ok show "telemetry_ok db'" by (simp add: telemetry_ok_def attempt_telemetry_def db')
qed (auto simp: telemetry_ok_attempts event_ok insert_run_ok insert_submission_def insert_sweep_def
      insert_unique_def insert_allocation_def release_gpus_def upd_worker_def upd_run_def upd_attempt_def
      keeps_simps split: if_splits)

section \<open>Artifacts\<close>

definition artifacts_ok :: "db \<Rightarrow> bool" where
  "artifacts_ok db \<longleftrightarrow>
     distinct (map f_id (artifacts db)) \<and>
     (\<forall>aid. distinct (map f_path (attempt_artifacts db aid)) \<and>
        length (attempt_artifacts db aid) \<le> 1000 \<and> artifact_total db aid \<le> 1024 * 1024 * 1024)"

text \<open>
  The quota test adds two \<open>uint64\<close> values. Below the quota and with a size that fits \<open>bigint\<close>
  the sum does not wrap, so the test compares the true total.
\<close>

lemma quota_sum:
  fixes size :: uint64
  assumes "used \<le> 1024 * 1024 * 1024" and "unat size \<le> 9223372036854775807"
    and "of_nat used + size \<le> (1024 * 1024 * 1024 :: uint64)"
  shows "used + unat size \<le> 1024 * 1024 * 1024"
proof -
  have "unat (of_nat used :: uint64) = used"
    using assms(1) by (simp add: unat_of_nat take_bit_nat_eq_self)
  moreover have "unat (of_nat used + size) = unat (of_nat used :: uint64) + unat size"
    using assms(1,2) calculation by (subst unat_add_lem[THEN iffD1]) simp_all
  ultimately show ?thesis
    using assms(3) by (simp add: word_le_nat_alt)
qed

lemma artifacts_ok_frame [simp]:
  "artifacts_ok (db\<lparr>submissions := x1\<rparr>) = artifacts_ok db" "artifacts_ok (db\<lparr>runs := x2\<rparr>) = artifacts_ok db"
  "artifacts_ok (db\<lparr>workers := x4\<rparr>) = artifacts_ok db" "artifacts_ok (db\<lparr>events := x5\<rparr>) = artifacts_ok db"
  "artifacts_ok (db\<lparr>telemetry := x6\<rparr>) = artifacts_ok db" "artifacts_ok (db\<lparr>sweeps := x7\<rparr>) = artifacts_ok db"
  "artifacts_ok (db\<lparr>gpu_devices := x8\<rparr>) = artifacts_ok db" "artifacts_ok (db\<lparr>attempt_gpus := x9\<rparr>) = artifacts_ok db"
  "artifacts_ok (db\<lparr>attempts := x3\<rparr>) = artifacts_ok db"
  by (simp_all add: artifacts_ok_def artifact_total_def attempt_artifacts_def)

lemma publish_artifacts_ok:
  assumes ok: "artifacts_ok db" and pub: "publish_artifact e art g inst db = Inr (v, db')"
  shows "artifacts_ok db'"
  using pub
proof (cases rule: publish_cases)
  case (existing f)
  with ok show ?thesis by simp
next
  case (published a r)
  let ?aid = "art_attempt_id art"
  from published(9) have size: "unat (art_size art) \<le> 9223372036854775807"
    and id: "art_id art \<notin> f_id ` set (artifacts db)"
    and path: "art_path art \<notin> f_path ` set (attempt_artifacts db ?aid)"
    and db': "db' = db\<lparr>artifacts := artifacts db @ [new_artifact art]\<rparr>"
    by (auto simp: insert_artifact_ok attempt_artifacts_def image_iff)
  have files: "attempt_artifacts db' i =
      (if i = ?aid then attempt_artifacts db i @ [new_artifact art] else attempt_artifacts db i)" for i
    by (simp add: attempt_artifacts_def db' new_artifact_def)
  from ok have used: "artifact_total db ?aid \<le> 1024 * 1024 * 1024"
    and dis: "distinct (map f_path (attempt_artifacts db ?aid))" by (auto simp: artifacts_ok_def)
  from quota_sum[OF used size published(7)]
  have "artifact_total db' ?aid \<le> 1024 * 1024 * 1024"
    by (simp add: artifact_total_def files new_artifact_def)
  moreover have "artifact_total db' i = artifact_total db i" if "i \<noteq> ?aid" for i
    using that by (simp add: artifact_total_def files)
  ultimately have total: "artifact_total db' i \<le> 1024 * 1024 * 1024" for i
    using ok by (cases "i = ?aid") (auto simp: artifacts_ok_def)
  have "distinct (map f_path (attempt_artifacts db' i)) \<and> length (attempt_artifacts db' i) \<le> 1000" for i
    using ok published(8) path dis by (auto simp: artifacts_ok_def files new_artifact_def)
  moreover have "distinct (map f_id (artifacts db'))"
    using ok id by (simp add: artifacts_ok_def db' new_artifact_def)
  ultimately show ?thesis using total by (simp add: artifacts_ok_def)
qed

interpretation artifacts: statement_invariant artifacts_ok
proof unfold_locales
  fix db db' e art g inst v
  assume "artifacts_ok db" "publish_artifact e art g inst db = Inr (v, db')"
  then show "artifacts_ok db'" by (rule publish_artifacts_ok)
next
  fix db db' e wid session snap u
  assume "artifacts_ok db" "report_gpu_inventory e wid session snap db = Inr (u, db')"
  then show "artifacts_ok db'" by (auto dest!: inventory_frame)
next
  fix db db' e aid g inst records n
  assume "artifacts_ok db" "report e aid g inst records db = Inr (n, db')"
  then show "artifacts_ok db'" by (elim report_cases) (simp add: upd_attempt_def)
qed (auto simp: event_ok insert_run_ok insert_attempt_ok insert_submission_def insert_sweep_def
      insert_unique_def insert_allocation_def release_gpus_def upd_worker_def upd_run_def upd_attempt_def
      split: if_splits)

end
