(* ===== verification/Store_Accounting.thy ===== *)
theory Store_Accounting
  imports Store_Sequences
begin

text \<open>
  Who holds which GPU: no device is held twice, an attempt that may still have a runtime holds
  exactly the devices it asked for, and one whose runtime is gone holds none.
\<close>

section \<open>Exclusive devices\<close>

definition exclusive_ok :: "db \<Rightarrow> bool" where
  "exclusive_ok db \<longleftrightarrow> distinct (map g_uuid (unreleased (attempt_gpus db))) \<and>
     distinct (map (\<lambda>g. (g_attempt_id g, g_uuid g)) (attempt_gpus db))"

lemma exclusive_ok_frame [simp]:
  "exclusive_ok (db\<lparr>submissions := x1\<rparr>) = exclusive_ok db" "exclusive_ok (db\<lparr>runs := x2\<rparr>) = exclusive_ok db"
  "exclusive_ok (db\<lparr>workers := x4\<rparr>) = exclusive_ok db" "exclusive_ok (db\<lparr>events := x5\<rparr>) = exclusive_ok db"
  "exclusive_ok (db\<lparr>telemetry := x6\<rparr>) = exclusive_ok db" "exclusive_ok (db\<lparr>sweeps := x7\<rparr>) = exclusive_ok db"
  "exclusive_ok (db\<lparr>gpu_devices := x8\<rparr>) = exclusive_ok db" "exclusive_ok (db\<lparr>artifacts := x9\<rparr>) = exclusive_ok db"
  "exclusive_ok (db\<lparr>attempts := x3\<rparr>) = exclusive_ok db"
  by (simp_all add: exclusive_ok_def)

lemma unreleased_release:
  "unreleased (attempt_gpus (release_gpus now aid db)) =
     filter (\<lambda>g. g_attempt_id g \<noteq> aid) (unreleased (attempt_gpus db))"
proof -
  have "unreleased (upd_where (\<lambda>g. g_attempt_id g = aid \<and> g_released_at g = None)
      (\<lambda>g. g\<lparr>g_released_at := Some now\<rparr>) gs) = filter (\<lambda>g. g_attempt_id g \<noteq> aid) (unreleased gs)" for gs
    by (induction gs) (auto simp: unreleased_def)
  then show ?thesis by (simp add: release_gpus_def)
qed

lemma distinct_map_filter_sub: "distinct (map f xs) \<Longrightarrow> distinct (map f (filter P xs))"
  by (simp add: distinct_map_filter)

interpretation exclusive: statement_invariant exclusive_ok
proof unfold_locales
  fix db row db'
  assume "exclusive_ok db" "insert_allocation row db = Inr db'"
  then show "exclusive_ok db'"
    by (auto simp: exclusive_ok_def insert_allocation_def unreleased_def image_iff split: if_splits)
next
  fix db now aid
  assume "exclusive_ok db"
  moreover have "map (\<lambda>g. (g_attempt_id g, g_uuid g)) (attempt_gpus (release_gpus now aid db)) =
      map (\<lambda>g. (g_attempt_id g, g_uuid g)) (attempt_gpus db)"
    by (simp add: release_gpus_def map_upd_where_id)
  ultimately show "exclusive_ok (release_gpus now aid db)"
    unfolding exclusive_ok_def unreleased_release by (simp add: distinct_map_filter_sub)
next
  fix db db' e wid session snap u
  assume "exclusive_ok db" "report_gpu_inventory e wid session snap db = Inr (u, db')"
  then show "exclusive_ok db'" by (auto dest!: inventory_frame)
next
  fix db db' e aid g inst records n
  assume "exclusive_ok db" "report e aid g inst records db = Inr (n, db')"
  then show "exclusive_ok db'" by (elim report_cases) (simp add: upd_attempt_def)
next
  fix db db' e art g inst v
  assume "exclusive_ok db" "publish_artifact e art g inst db = Inr (v, db')"
  then show "exclusive_ok db'" by (elim publish_cases) (auto simp: insert_artifact_ok)
qed (auto simp: event_ok insert_run_ok insert_attempt_ok insert_submission_def insert_sweep_def
      insert_unique_def upd_worker_def upd_run_def upd_attempt_def split: if_splits)

section \<open>Accounts\<close>

definition held :: "db \<Rightarrow> string \<Rightarrow> attempt_gpus_row list" where
  "held db aid = filter (\<lambda>g. g_attempt_id g = aid) (unreleased (attempt_gpus db))"

definition device_worker :: "db \<Rightarrow> string \<Rightarrow> string option" where
  "device_worker db uuid = map_option d_worker_id (find_by d_uuid (gpu_devices db) uuid)"

definition account_ok :: "db \<Rightarrow> string \<Rightarrow> attempts_row \<Rightarrow> bool" where
  "account_ok db aid a \<longleftrightarrow>
     (a_cleanup_status a = ''PENDING'' \<or> a_cleanup_status a = ''DONE'') \<and>
     int (length (held db aid)) =
       (if a_cleanup_status a = ''PENDING'' \<and> a_worker_id a \<noteq> ''@kubernetes'' then a_gpu_count a else 0) \<and>
     (\<forall>g\<in>set (held db aid). device_worker db (g_uuid g) = Some (a_worker_id a))"

definition accounts_ok :: "db \<Rightarrow> bool" where
  "accounts_ok db \<longleftrightarrow> (\<forall>aid a. attempt_row db aid = Some a \<longrightarrow> account_ok db aid a) \<and>
     (\<forall>w\<in>set (workers db). w_id w \<noteq> ''@kubernetes'')"

text \<open>What an account depends on.\<close>

lemma account_frame:
  "attempt_gpus db' = attempt_gpus db \<Longrightarrow> gpu_devices db' = gpu_devices db \<Longrightarrow> account_ok db' = account_ok db"
  by (simp add: account_ok_def held_def device_worker_def fun_eq_iff)

lemma accounts_ok_frame [simp]:
  "accounts_ok (db\<lparr>submissions := x1\<rparr>) = accounts_ok db" "accounts_ok (db\<lparr>runs := x2\<rparr>) = accounts_ok db"
  "accounts_ok (db\<lparr>events := x5\<rparr>) = accounts_ok db" "accounts_ok (db\<lparr>artifacts := x9\<rparr>) = accounts_ok db"
  "accounts_ok (db\<lparr>telemetry := x6\<rparr>) = accounts_ok db" "accounts_ok (db\<lparr>sweeps := x7\<rparr>) = accounts_ok db"
  by (simp_all add: accounts_ok_def account_ok_def held_def device_worker_def)

lemma accounts_attempts:
  assumes "\<And>a. a_id (f a) = a_id a \<and> a_worker_id (f a) = a_worker_id a \<and>
      a_gpu_count (f a) = a_gpu_count a \<and> a_cleanup_status (f a) = a_cleanup_status a"
  shows "accounts_ok (db\<lparr>attempts := upd_where P f (attempts db)\<rparr>) = accounts_ok db"
proof -
  let ?db = "db\<lparr>attempts := upd_where P f (attempts db)\<rparr>"
  define h where "h a = (if P a then f a else a)" for a
  have "account_ok ?db aid (h a) = account_ok db aid a" for aid a
    using assms account_frame[of ?db db] by (auto simp: account_ok_def h_def)
  moreover have "attempt_row ?db aid = map_option h (attempt_row db aid)" for aid
    using assms by (simp add: attempt_row_def find_by_upd_where h_def[abs_def])
  ultimately have "(\<forall>a. attempt_row ?db aid = Some a \<longrightarrow> account_ok ?db aid a) \<longleftrightarrow>
      (\<forall>a. attempt_row db aid = Some a \<longrightarrow> account_ok db aid a)" for aid
    by (cases "attempt_row db aid") simp_all
  then show ?thesis by (simp add: accounts_ok_def)
qed

lemma accounts_upd_attempt:
  "(\<And>a. a_id (f a) = a_id a \<and> a_worker_id (f a) = a_worker_id a \<and>
      a_gpu_count (f a) = a_gpu_count a \<and> a_cleanup_status (f a) = a_cleanup_status a) \<Longrightarrow>
     accounts_ok (upd_attempt aid f db) = accounts_ok db"
  by (simp add: upd_attempt_def accounts_attempts)

lemma upsert_devices_worker:
  "upsert_devices t wid devices uuids db = Inr db' \<Longrightarrow> device_worker db uuid = Some w \<Longrightarrow>
     device_worker db' uuid = Some w"
proof (induction t wid devices uuids db arbitrary: db' rule: upsert_devices.induct)
  case (2 t worker devices u us db)
  from "2.prems"(1) obtain d db1 where d: "find_by gd_uuid devices u = Some d"
    and up: "upsert_device (t 0) worker d db = Inr db1"
    and rest: "upsert_devices (\<lambda>k. t (Suc k)) worker devices us db1 = Inr db'"
    by (auto split: option.splits sum.splits)
  from up "2.prems"(2) have "device_worker db1 uuid = Some w"
    by (auto simp: upsert_device_def device_worker_def find_by_append find_by_upd_where
        split: option.splits if_splits)
  with "2.IH"[OF d up rest] show ?case by simp
qed simp

lemma inventory_accounts:
  assumes "accounts_ok db" and "report_gpu_inventory e wid session snap db = Inr (u, db')"
  shows "accounts_ok db'"
  using assms(2)
proof (cases rule: inventory_cases)
  case (ready f db2)
  let ?db = "db\<lparr>gpu_devices := upd_where (\<lambda>d. d_worker_id d = wid) (\<lambda>d. d\<lparr>d_present := False\<rparr>) (gpu_devices db)\<rparr>"
  obtain x where db2: "db2 = db\<lparr>gpu_devices := x\<rparr>" using upsert_devices_frame[OF ready(3)] by auto
  have "device_worker ?db = device_worker db"
    by (auto simp: device_worker_def find_by_upd_where option.map_comp comp_def fun_eq_iff intro: option.map_cong)
  then have dw: "device_worker db' uuid = Some w" if "device_worker db uuid = Some w" for uuid w
    using upsert_devices_worker[OF ready(3), of uuid w] that
    by (simp add: ready(2) device_worker_def upd_worker_def)
  have "held db' = held db" "attempt_row db' = attempt_row db"
    by (simp_all add: ready(2) db2 held_def upd_worker_def fun_eq_iff)
  moreover have "\<forall>w\<in>set (workers db'). w_id w \<noteq> ''@kubernetes''"
    using assms(1) ready(1) by (auto simp: ready(2) db2 upd_worker_def accounts_ok_def ball_upd_where)
  ultimately show ?thesis
    using assms(1) dw by (auto simp: accounts_ok_def account_ok_def)
qed (use assms(1) in \<open>auto simp: accounts_ok_def account_ok_def held_def device_worker_def upd_worker_def
       ball_upd_where attempt_row_def\<close>)

text \<open>A reservation adds the first \<open>n\<close> devices to the attempt's account.\<close>

lemma reserve_devices_ok:
  "reserve_devices t aid n devices db = Inr db' \<Longrightarrow>
     \<exists>gs. map g_uuid gs = map gd_uuid (take n devices) \<and> length gs = n \<and>
       (\<forall>g\<in>set gs. g_attempt_id g = aid \<and> g_released_at g = None) \<and>
       db' = db\<lparr>attempt_gpus := attempt_gpus db @ gs\<rparr>"
proof (induction t aid n devices db arbitrary: db' rule: reserve_devices.induct)
  case (3 t aid n device devices db)
  let ?g = "\<lparr>g_attempt_id = aid, g_uuid = gd_uuid device, g_name = gd_name device,
      g_memory_mib = gd_memory_mib device, g_allocated_at = t 0, g_released_at = None\<rparr>"
  from "3.prems" obtain db1 where ins: "insert_allocation ?g db = Inr db1"
    and rest: "reserve_devices (\<lambda>k. t (Suc k)) aid n devices db1 = Inr db'"
    by (auto split: sum.splits)
  from ins have db1: "db1 = db\<lparr>attempt_gpus := attempt_gpus db @ [?g]\<rparr>"
    by (auto simp: insert_allocation_def split: if_splits)
  from "3.IH"[OF ins rest] obtain gs where "map g_uuid gs = map gd_uuid (take n devices)" "length gs = n"
    "\<forall>g\<in>set gs. g_attempt_id g = aid \<and> g_released_at g = None"
    "db' = db1\<lparr>attempt_gpus := attempt_gpus db1 @ gs\<rparr>" by auto
  then show ?case by (intro exI[of _ "?g # gs"]) (simp add: db1)
qed auto

lemma claim_run_effect:
  assumes "claim_run timing t aid wid detail r db = Inr (row, db')"
  shows "a_id row = aid \<and> a_run_id row = r_id r \<and> a_worker_id row = wid \<and>
    a_cleanup_status row = ''PENDING'' \<and> a_gpu_count row = gpu_count (spec_resources (r_spec r)) \<and>
    a_status row = ''STARTING'' \<and> a_generation row = r_generation r + 1 \<and>
    attempt_row db aid = None \<and> attempts db' = attempts db @ [row] \<and>
    attempt_row db' = (attempt_row db)(aid \<mapsto> row) \<and> attempt_gpus db' = attempt_gpus db \<and>
    gpu_devices db' = gpu_devices db \<and> workers db' = workers db"
  using assms
proof (cases rule: claim_run_cases)
  case (1 db1)
  from 1(1) have row: "a_id row = aid" "a_run_id row = r_id r" "a_worker_id row = wid"
    "a_cleanup_status row = ''PENDING''" "a_gpu_count row = gpu_count (spec_resources (r_spec r))"
    "a_status row = ''STARTING''" "a_generation row = r_generation r + 1"
    by (simp_all add: new_attempt_def)
  from 1(2) row have new: "aid \<notin> a_id ` set (attempts db)" and db1: "db1 = db\<lparr>attempts := attempts db @ [row]\<rparr>"
    by (auto simp: insert_attempt_ok)
  from 1(3) have "attempts db' = attempts db1" "attempt_gpus db' = attempt_gpus db"
      "gpu_devices db' = gpu_devices db" "workers db' = workers db"
    by (auto simp: event_ok db1)
  moreover from this(1) have "attempt_row db' = attempt_row db1" by (simp add: attempt_row_def fun_eq_iff)
  moreover have "attempt_row db aid = None" using new by (simp add: attempt_row_def find_by_None)
  ultimately show ?thesis
    using attempt_row_append[of row db] new row by (simp add: db1)
qed

text \<open>The database facts an assignment relies on.\<close>

definition accounts_ctx :: "db \<Rightarrow> bool" where
  "accounts_ctx db \<longleftrightarrow> keys_ok db \<and> references_ok db"

lemma unknown_unallocated:
  assumes "references_ok db" and "attempt_row db aid = None"
  shows "\<forall>g\<in>set (attempt_gpus db). g_attempt_id g \<noteq> aid"
proof -
  from assms have "aid \<notin> g_attempt_id ` set (attempt_gpus db)"
    using attempt_row_mem[of db aid] by (auto simp: references_ok_def)
  then show ?thesis by auto
qed

lemma held_unknown: "references_ok db \<Longrightarrow> attempt_row db aid = None \<Longrightarrow> held db aid = []"
  using unknown_unallocated by (auto simp: held_def unreleased_def filter_empty_conv)

lemma run_gpus:
  assumes "references_ok db" and "r \<in> set (runs db)"
  shows "0 \<le> gpu_count (spec_resources (r_spec r))" and "r_gpu_count r = gpu_count (spec_resources (r_spec r))"
proof -
  from assms have "run_check db r" by (simp add: references_ok_def)
  then show "0 \<le> gpu_count (spec_resources (r_spec r))" "r_gpu_count r = gpu_count (spec_resources (r_spec r))"
    using run_check_gpus[of db r] by (auto simp: run_check_def)
qed

lemma free_gpus_worker:
  "keys_ok db \<Longrightarrow> d \<in> set (free_gpus e db wid) \<Longrightarrow> device_worker db (gd_uuid d) = Some wid"
  by (auto simp: free_gpus_def device_worker_def keys_ok_def find_by_of_mem)

lemma assign_accounts:
  assumes ok: "accounts_ok db" and ctx: "accounts_ctx db"
    and asg: "assign timing e wid session db = Inr (v, db')"
  shows "accounts_ok db'"
  using asg
proof (cases rule: assign_cases)
  case unchanged
  with ok show ?thesis by simp
next
  case (assigned w r row db2 reserved_cpu reserved_memory devices)
  let ?n = "nat (gpu_count (spec_resources (r_spec r)))"
  note claim = claim_run_effect[OF assigned(9)]
  from ctx have keys: "keys_ok db" and refs: "references_ok db" by (auto simp: accounts_ctx_def)
  have "wid \<noteq> ''@kubernetes''"
    using ok worker_row_mem[OF assigned(1)] by (auto simp: accounts_ok_def)
  note gpus = run_gpus[OF refs next_run_Some(1)[OF assigned(8)]]
  from reserve_devices_ok[OF assigned(10)[unfolded reserve_gpus_def]] obtain gs where
    uuids: "map g_uuid gs = map gd_uuid (take ?n devices)" and len: "length gs = ?n"
    and new: "\<forall>g\<in>set gs. g_attempt_id g = fresh e 0 \<and> g_released_at g = None"
    and db': "db' = db2\<lparr>attempt_gpus := attempt_gpus db2 @ gs\<rparr>" by auto
  have "unreleased gs = gs" using new by (simp add: unreleased_def)
  then have held': "held db' aid = held db aid @ (if aid = fresh e 0 then gs else [])" for aid
    using new claim by (auto simp: held_def db' unreleased_def)
  have dw: "device_worker db' = device_worker db"
    using claim by (simp add: device_worker_def db' fun_eq_iff)
  have "device_worker db (g_uuid g) = Some wid" if "g \<in> set gs" for g
  proof -
    have "g_uuid g \<in> gd_uuid ` set (take ?n devices)" using that uuids by (metis image_eqI image_set)
    then obtain d where "d \<in> set devices" "g_uuid g = gd_uuid d" by (auto dest: in_set_takeD)
    then show ?thesis using free_gpus_worker[OF keys] by (auto simp: assigned(7) split: if_splits)
  qed
  then have "account_ok db' (fresh e 0) row"
    using claim held_unknown[OF refs, of "fresh e 0"] len gpus \<open>wid \<noteq> ''@kubernetes''\<close>
    by (auto simp: account_ok_def held' dw)
  moreover have "account_ok db' aid a" if "attempt_row db aid = Some a" "aid \<noteq> fresh e 0" for aid a
    using ok that by (auto simp: accounts_ok_def account_ok_def held' dw)
  ultimately show ?thesis
    using ok claim by (auto simp: accounts_ok_def db' split: if_splits)
qed

lemma admit_accounts:
  assumes ok: "accounts_ok db" and ctx: "accounts_ctx db"
    and adm: "admit_kubernetes timing e n db = Inr (v, db')"
  shows "accounts_ok db'"
  using adm
proof (cases rule: admit_cases)
  case unchanged
  with ok show ?thesis by simp
next
  case (admitted r row active)
  note claim = claim_run_effect[OF admitted(6)]
  have same: "held db' = held db" "device_worker db' = device_worker db"
    using claim by (simp_all add: held_def device_worker_def fun_eq_iff)
  have "account_ok db' (fresh e 0) row"
    using claim held_unknown[of db "fresh e 0"] ctx by (auto simp: account_ok_def same accounts_ctx_def)
  then show ?thesis
    using ok claim by (auto simp: accounts_ok_def account_ok_def same split: if_splits)
qed

lemma runtime_accounts:
  assumes ok: "accounts_ok db" and rt: "runtime_report e wid session aid runtime stopped db = Inr (u, db')"
  shows "accounts_ok db'"
proof (cases stopped)
  case False
  with rt have "db' = upd_attempt aid (\<lambda>x. x\<lparr>a_runtime_id := Some runtime\<rparr>) db"
    by (auto simp: runtime_report_def split: sum.splits if_splits)
  with ok show ?thesis by (simp add: upd_attempt_def accounts_attempts)
next
  case True
  with rt have db': "db' = release_gpus (clk e 1) aid (upd_attempt aid (\<lambda>x. x\<lparr>a_cleanup_status := ''DONE''\<rparr>) db)"
    by (auto simp: runtime_report_def split: sum.splits if_splits)
  have held': "held db' i = (if i = aid then [] else held db i)" for i
    by (auto simp: db' held_def unreleased_release filter_empty_conv intro!: filter_cong)
  have rows: "attempt_row db' i = (if i = aid then map_option (\<lambda>x. x\<lparr>a_cleanup_status := ''DONE''\<rparr>) (attempt_row db i)
      else attempt_row db i)" for i
    by (simp add: db' release_gpus_def row_simps)
  have "device_worker db' = device_worker db" "workers db' = workers db"
    by (simp_all add: db' release_gpus_def device_worker_def fun_eq_iff)
  with ok show ?thesis
    by (auto simp: accounts_ok_def account_ok_def held' rows split: if_splits)
qed

lemma kubernetes_runtime_accounts:
  assumes ok: "accounts_ok db" and rt: "kubernetes_runtime e aid runtime removed db = Inr (u, db')"
  shows "accounts_ok db'"
proof (cases removed)
  case False
  with rt have "db' = upd_attempt aid (\<lambda>x. x\<lparr>a_runtime_id := Some runtime\<rparr>) db"
    by (auto simp: kubernetes_runtime_def split: sum.splits if_splits)
  with ok show ?thesis by (simp add: upd_attempt_def accounts_attempts)
next
  case True
  with rt obtain a where a: "attempt_row db aid = Some a" "a_worker_id a = ''@kubernetes''"
    and db': "db' = upd_attempt aid (\<lambda>x. x\<lparr>a_cleanup_status := ''DONE''\<rparr>) db"
    by (auto simp: kubernetes_runtime_def lock_attempt_ok split: sum.splits if_splits)
  have "held db' = held db" "device_worker db' = device_worker db" "workers db' = workers db"
    by (simp_all add: db' held_def device_worker_def fun_eq_iff)
  with ok a show ?thesis
    by (auto simp: accounts_ok_def account_ok_def db' row_simps split: if_splits)
qed

interpretation accounts: op_invariant accounts_ok accounts_ctx
proof unfold_locales
  fix db db' e aid g inst records n
  assume "accounts_ok db" "report e aid g inst records db = Inr (n, db')"
  then show "accounts_ok db'"
    by (elim report_cases) (simp add: accounts_upd_attempt)
next
  fix db db' e art g inst v
  assume "accounts_ok db" "publish_artifact e art g inst db = Inr (v, db')"
  then show "accounts_ok db'" by (elim publish_cases) (auto simp: insert_artifact_ok)
next
  fix db h wid
  assume "accounts_ok db" "keeps_worker h"
  then show "accounts_ok (upd_worker wid h db)"
    using account_frame[of "upd_worker wid h db" db]
    by (auto simp: accounts_ok_def upd_worker_def ball_upd_where keeps_simps)
next
  fix db and w :: workers_row
  assume "accounts_ok db" "w_id w \<noteq> ''@kubernetes''"
  then show "accounts_ok (db\<lparr>workers := workers db @ [w]\<rparr>)"
    using account_frame[of "db\<lparr>workers := workers db @ [w]\<rparr>" db] by (auto simp: accounts_ok_def)
qed (auto simp: event_ok insert_run_ok insert_submission_def insert_sweep_def insert_unique_def upd_run_def
      accounts_attempts keeps_simps split: if_splits
      intro: inventory_accounts assign_accounts admit_accounts runtime_accounts kubernetes_runtime_accounts)

end
