(* ===== verification/Store_System.thy ===== *)
theory Store_System
  imports Store_Accounting
begin

text \<open>
  The whole coordinator: every reachable database satisfies all invariants and every committed
  transaction is a step of the abstract life cycle.
\<close>

definition store_inv :: "db \<Rightarrow> bool" where
  "store_inv db \<longleftrightarrow> keys_ok db \<and> life_inv (life_of db) \<and> references_ok db \<and> events_ok db \<and>
     telemetry_ok db \<and> artifacts_ok db \<and> exclusive_ok db \<and> accounts_ok db"

lemma store_invD:
  assumes "store_inv db"
  shows "keys_ok db" "life_inv (life_of db)" "references_ok db" "events_ok db" "telemetry_ok db"
    "artifacts_ok db" "exclusive_ok db" "accounts_ok db" "store_keys db"
  using assms by (simp_all add: store_inv_def keys_ok_def)

lemma store_inv_empty: "store_inv empty_db"
proof -
  have "run_row empty_db i = None" "attempt_row empty_db i = None" for i
    by (simp_all add: empty_db_def run_row_def attempt_row_def)
  then show ?thesis
    by (simp add: store_inv_def keys_ok_def store_keys_def life_inv_def references_ok_def events_ok_def
        telemetry_ok_def artifacts_ok_def exclusive_ok_def accounts_ok_def last_event_def acknowledged_def
        run_events_def attempt_telemetry_def attempt_artifacts_def artifact_total_def unreleased_def)
      (simp add: empty_db_def)
qed

lemma store_inv_step:
  assumes inv: "store_inv db" and step: "store_step timing db db'"
  shows "store_inv db'"
proof -
  note I = store_invD[OF inv]
  have "life_inv (life_of db')"
    using life_step_inv[OF store_step_sim[OF step I(2) I(9)] I(2)] .
  moreover have "accounts_ok db'"
    using accounts.store_step_I[OF step I(8)] I by (simp add: accounts_ctx_def)
  ultimately show ?thesis
    using keys.store_step_I[OF step I(1)] references.store_step_I[OF step I(3)]
      events.store_step_I[OF step I(4)] telemetry.store_step_I[OF step I(5)]
      artifacts.store_step_I[OF step I(6)] exclusive.store_step_I[OF step I(7)]
    by (simp add: store_inv_def)
qed

interpretation store: simulation empty_db "store_step timing" store_inv life_init life_step life_of
  for timing
proof
  show "store_inv empty_db" by (rule store_inv_empty)
  show "store_inv db \<Longrightarrow> store_step timing db db' \<Longrightarrow> store_inv db'" for db db'
    by (rule store_inv_step)
  show "life_of empty_db = life_init"
    by (simp add: life_of_def life_init_def run_row_def attempt_row_def empty_db_def)
  show "store_inv db \<Longrightarrow> store_step timing db db' \<Longrightarrow> life_step (life_of db) (life_of db')" for db db'
    by (blast intro: store_step_sim dest: store_invD)
qed

abbreviation reachable :: "Timing \<Rightarrow> db \<Rightarrow> bool" where
  "reachable timing \<equiv> reach empty_db (store_step timing)"

end
