(* ===== verification/Scenario.thy ===== *)
theory Scenario
  imports Store_System
begin

text \<open>
  A concrete history of the coordinator, from the empty database: a run that asks for one GPU
  is submitted, a worker registers and reports its device, the run is assigned, started,
  sends telemetry, collects outputs, publishes an artifact and finishes.
\<close>

definition committed :: "('a \<times> db) result \<Rightarrow> db \<Rightarrow> db" where
  "committed res db = (case res of Inl _ \<Rightarrow> db | Inr (_, db') \<Rightarrow> db')"

definition demo_env :: "int \<Rightarrow> string \<Rightarrow> env" where
  "demo_env t name = \<lparr>clk = (\<lambda>k. t + int k), fresh = (\<lambda>k. name @ replicate k (CHR ''+'')),
     text_le = (\<le>), skip_locked = (\<lambda>_. False)\<rparr>"

definition demo_spec :: RunSpec where
  "demo_spec = \<lparr>spec_version = 1, spec_name = ''demo'',
     spec_image = ''img@sha256:'' @ replicate 64 (CHR ''0''), spec_command = [''run''],
     spec_parameters = [], spec_environment = [], spec_labels = [],
     spec_resources = \<lparr>cpu_millis = 1000, memory_mib = 512, gpu_count = 1\<rparr>,
     spec_retry = \<lparr>max_attempts = 3, retry_exit = False, retry_timeout = False\<rparr>,
     spec_timeout_seconds = 1800, spec_priority = 0, spec_source_repository = [],
     spec_source_revision = []\<rparr>"

definition demo_telemetry :: "int \<Rightarrow> Telemetry" where
  "demo_telemetry n = \<lparr>t_sequence = n, t_kind = ''stdout'', t_text = ''x'', t_name = [],
     t_step = 0, t_value = 0, t_timestamp_ms = 0\<rparr>"

definition demo_artifact :: Artifact where
  "demo_artifact = \<lparr>art_id = ''f'', art_attempt_id = ''a'', art_path = ''out'',
     art_storage_key = ''k'', art_sha256 = ''h'', art_size = 7\<rparr>"

definition demo_submitted :: db where
  "demo_submitted = committed (submit (demo_env 100 ''r'') demo_spec ''key'' ''fp'' empty_db) empty_db"

definition demo_registered :: db where
  "demo_registered = committed (register_worker (demo_env 200 ''-'') ''w'' ''s''
     \<lparr>cpu_millis = 1500, memory_mib = 1024, gpu_count = 0\<rparr>
     \<lparr>reg_engine_id = ''e'', reg_capable = True\<rparr> demo_submitted) demo_submitted"

definition demo_ready :: db where
  "demo_ready = committed (report_gpu_inventory (demo_env 300 ''-'') ''w'' ''s''
     \<lparr>snap_sequence = 1, snap_ready = True, snap_devices =
       [\<lparr>gd_uuid = ''GPU-1'', gd_name = ''n'', gd_memory_mib = 8, gd_eligible = True, gd_reason = []\<rparr>]\<rparr>
     demo_registered) demo_registered"

definition demo_assigned :: db where
  "demo_assigned = committed (assign default_Timing (demo_env 400 ''a'') ''w'' ''s'' demo_ready) demo_ready"

definition demo_started :: db where
  "demo_started = committed (start default_Timing (demo_env 500 ''-'') ''a'' 1 ''i'' [] demo_assigned) demo_assigned"

definition demo_reported :: db where
  "demo_reported = committed (report (demo_env 600 ''-'') ''a'' 1 ''i''
     [demo_telemetry 1, demo_telemetry 2] demo_started) demo_started"

definition demo_collecting :: db where
  "demo_collecting = committed (begin_finalization default_Timing (demo_env 700 ''-'') ''a'' 1 ''i''
     demo_reported) demo_reported"

definition demo_published :: db where
  "demo_published = committed (publish_artifact (demo_env 800 ''-'') demo_artifact 1 ''i'' demo_collecting) demo_collecting"

definition demo_finished :: db where
  "demo_finished = committed (finish default_Timing (demo_env 900 ''-'') ''a'' 1 ''i'' 0 ''DONE'' 2
     demo_published) demo_published"

definition demo_cancelled :: db where
  "demo_cancelled = committed (cancel (demo_env 650 ''-'') ''r'' demo_reported) demo_reported"

definition demo_late :: env where
  "demo_late = demo_env 100000000000 ''-''"

definition demo_recovered :: db where
  "demo_recovered = committed (recover_attempt default_Timing demo_late ''a'' demo_reported) demo_reported"

lemma committed_reachable:
  assumes "reachable timing db" and "\<And>v db'. res = Inr (v, db') \<Longrightarrow> store_step timing db db'"
  shows "reachable timing (committed res db)"
  using assms by (cases res) (auto simp: committed_def intro: reach.reach_step)

lemma demo_reachable:
  "reachable default_Timing demo_submitted" "reachable default_Timing demo_registered"
  "reachable default_Timing demo_ready" "reachable default_Timing demo_assigned"
  "reachable default_Timing demo_started" "reachable default_Timing demo_reported"
  "reachable default_Timing demo_collecting" "reachable default_Timing demo_published"
  "reachable default_Timing demo_finished" "reachable default_Timing demo_cancelled"
  "reachable default_Timing demo_recovered"
proof -
  note go = committed_reachable store_step.intros
  show 1: "reachable default_Timing demo_submitted"
    unfolding demo_submitted_def by (intro go) (auto intro: reach.reach_init store_step.intros)
  show 2: "reachable default_Timing demo_registered"
    unfolding demo_registered_def using 1 by (auto intro: go)
  show 3: "reachable default_Timing demo_ready"
    unfolding demo_ready_def using 2 by (auto intro: go)
  show 4: "reachable default_Timing demo_assigned"
    unfolding demo_assigned_def using 3 by (auto intro: go)
  show 5: "reachable default_Timing demo_started"
    unfolding demo_started_def using 4 by (auto intro: go)
  show 6: "reachable default_Timing demo_reported"
    unfolding demo_reported_def using 5 by (auto intro: go)
  show 7: "reachable default_Timing demo_collecting"
    unfolding demo_collecting_def using 6 by (auto intro: go)
  show 8: "reachable default_Timing demo_published"
    unfolding demo_published_def using 7 by (auto intro: go)
  show "reachable default_Timing demo_finished"
    unfolding demo_finished_def using 8 by (auto intro: go)
  show "reachable default_Timing demo_cancelled"
    unfolding demo_cancelled_def using 6 by (auto intro: go)
  show "reachable default_Timing demo_recovered"
    unfolding demo_recovered_def using 6 by (auto intro: go)
qed

lemma committed_step:
  assumes "committed res db \<noteq> db" and "\<And>v db'. res = Inr (v, db') \<Longrightarrow> store_step timing db db'"
  shows "store_step timing db (committed res db)"
  using assms by (cases res) (auto simp: committed_def)

section \<open>The states of the history\<close>

definition demo_run :: "RunStatus \<Rightarrow> int \<Rightarrow> string option \<Rightarrow> int \<Rightarrow> int \<Rightarrow> int \<Rightarrow> runs_row" where
  "demo_run status generation active sequence available updated =
     \<lparr>r_id = ''r'', r_spec = demo_spec, r_status = status, r_generation = generation,
      r_active_attempt = active, r_priority = 0, r_cpu_millis = 1000, r_memory_mib = 512,
      r_gpu_count = 1, r_sweep_id = None, r_parent_run_id = None, r_event_sequence = sequence,
      r_available_at = available, r_created_at = 100, r_updated_at = updated\<rparr>"

definition demo_event :: "int \<Rightarrow> string \<Rightarrow> string \<Rightarrow> int \<Rightarrow> events_row" where
  "demo_event n kind detail t =
     \<lparr>e_run_id = ''r'', e_sequence = n, e_kind = kind, e_detail = detail, e_created_at = t\<rparr>"

definition demo_attempt :: attempts_row where
  "demo_attempt = \<lparr>a_id = ''a'', a_run_id = ''r'', a_generation = 1, a_worker_id = ''w'',
     a_instance_id = None, a_status = ''STARTING'', a_reason = None, a_exit_code = None,
     a_runtime_id = None, a_cleanup_status = ''PENDING'', a_ack_sequence = 0,
     a_launch_deadline = 300000403, a_lease_until = None, a_execution_deadline = None,
     a_finalization_deadline = None, a_created_at = 403, a_started_at = None, a_finished_at = None,
     a_gpu_count = 1, a_node_name = []\<rparr>"

definition demo_running :: attempts_row where
  "demo_running = demo_attempt\<lparr>a_instance_id := Some ''i'', a_status := ''RUNNING'', a_started_at := Some 501,
     a_lease_until := Some 30000501, a_execution_deadline := Some 1800000501\<rparr>"

lemma list_all_replicate: "list_all P (replicate n c) = (n = 0 \<or> P c)"
  by (induction n) auto

lemma demo_spec_valid: "validate_submission demo_spec = Inr ()"
proof -
  have "image_regex (spec_image demo_spec)"
    unfolding image_regex_iff
    by (intro exI[of _ "CHR ''i''"] exI[of _ "''mg''"] exI[of _ "replicate 64 (CHR ''0'')"])
      (auto simp: demo_spec_def list_all_replicate is_alnum_def is_lower_def is_upper_def is_digit_def
        is_lower_hex_def char_between_def less_eq_char_def image_char_def)
  then show ?thesis
    by (simp add: validate_submission_ok validate_ok_iff demo_spec_def safe_string_def)
qed

lemma demo_spec_simps:
  "spec_priority demo_spec = 0" "spec_timeout_seconds demo_spec = 1800"
  "spec_resources demo_spec = \<lparr>cpu_millis = 1000, memory_mib = 512, gpu_count = 1\<rparr>"
  "spec_retry demo_spec = \<lparr>max_attempts = 3, retry_exit = False, retry_timeout = False\<rparr>"
  by (simp_all add: demo_spec_def)

lemmas demo_eval = committed_def demo_env_def Let_def insert_unique_def find_by_def run_row_def
  attempt_row_def upd_run_def upd_attempt_def upd_worker_def worker_row_def event_def
  require_worker_def lock_attempt_def locked_def owned_def run_of_def attempt_of_def text_of_def
  lease_valid_def launch_valid_def deadline_valid_def seconds_def default_Timing_def
  demo_spec_valid demo_spec_simps demo_run_def demo_event_def demo_attempt_def demo_running_def
  demo_telemetry_def

lemma demo_submitted_eq:
  "demo_submitted = empty_db\<lparr>runs := [demo_run queued 0 None 1 100 101],
     submissions := [\<lparr>sub_key = ''key'', sub_fingerprint = ''fp'', sub_run_id = ''r''\<rparr>],
     events := [demo_event 1 ''submitted'' ''run accepted'' 102]\<rparr>"
  by (simp add: demo_submitted_def submit_def create_run_def insert_run_def insert_submission_def
      empty_db_def new_run_def demo_eval)

lemma demo_ready_eq:
  "demo_ready = demo_submitted\<lparr>
     workers := [\<lparr>w_id = ''w'', w_session = ''s'', w_cpu_millis = 1500, w_memory_mib = 1024,
       w_drained = False, w_heartbeat_at = 200, w_engine_id = ''e'', w_gpu_capable = True,
       w_gpu_ready = True, w_gpu_sequence = 1, w_gpu_observed_at = Some 364\<rparr>],
     gpu_devices := [\<lparr>d_uuid = ''GPU-1'', d_worker_id = ''w'', d_name = ''n'', d_memory_mib = 8,
       d_eligible = True, d_present = True, d_reason = [], d_observed_at = 300\<rparr>]\<rparr>"
  by (simp add: demo_ready_def demo_registered_def demo_submitted_eq empty_db_def register_worker_def
      starts_with_def report_gpu_inventory_def device_ok_def upsert_device_def demo_eval)

lemma show_int_1: "show_int 1 = ''1''"
  by code_simp

lemma demo_assigned_eq:
  "demo_assigned = demo_ready\<lparr>runs := [demo_run starting 1 (Some ''a'') 2 100 404],
     attempts := [demo_attempt],
     events := events demo_ready @ [demo_event 2 ''assigned'' ''attempt 1 assigned to w'' 405],
     attempt_gpus := [\<lparr>g_attempt_id = ''a'', g_uuid = ''GPU-1'', g_name = ''n'', g_memory_mib = 8,
       g_allocated_at = 406, g_released_at = None\<rparr>]\<rparr>"
  by (simp add: demo_assigned_def demo_ready_eq demo_submitted_eq empty_db_def assign_def
      worker_available_def gpu_observed_fresh_def pending_launch_def reserved_sum_def
      pending_attempts_def as_int_def free_gpus_def device_free_def next_run_def claim_run_def
      insert_attempt_def new_attempt_def reserve_gpus_def insert_allocation_def unreleased_def
      show_int_1 demo_eval)

lemmas demo_states = demo_assigned_eq demo_ready_eq demo_submitted_eq empty_db_def

lemma demo_started_eq:
  "demo_started = demo_assigned\<lparr>runs := [demo_run running 1 (Some ''a'') 3 100 502],
     attempts := [demo_running],
     events := events demo_assigned @ [demo_event 3 ''started'' ''runner claimed execution'' 503]\<rparr>"
  by (simp add: demo_started_def demo_states start_def node_name_chars_def terminal_def demo_eval)

lemma demo_reported_eq:
  "demo_reported = demo_started\<lparr>attempts := [demo_running\<lparr>a_ack_sequence := 2\<rparr>],
     telemetry := [\<lparr>tm_attempt_id = ''a'', tm_record = demo_telemetry 1\<rparr>,
                   \<lparr>tm_attempt_id = ''a'', tm_record = demo_telemetry 2\<rparr>]\<rparr>"
  by (simp add: demo_reported_def demo_started_eq demo_states report_def validate_telemetry_def
      guard_eval safe_string_def insert_telemetry_def demo_eval)

lemma demo_collecting_eq:
  "demo_collecting = demo_reported\<lparr>runs := [demo_run finalizing 1 (Some ''a'') 4 100 702],
     attempts := [demo_running\<lparr>a_ack_sequence := 2, a_status := ''FINALIZING'',
       a_finalization_deadline := Some 300000701\<rparr>],
     events := events demo_reported @ [demo_event 4 ''finalizing'' ''collecting execution outputs'' 703]\<rparr>"
  by (simp add: demo_collecting_def demo_reported_eq demo_started_eq demo_states begin_finalization_def
      demo_eval)

lemma demo_published_eq:
  "demo_published = demo_collecting\<lparr>artifacts := [\<lparr>f_id = ''f'', f_attempt_id = ''a'', f_path = ''out'',
     f_storage_key = ''k'', f_sha256 = ''h'', f_size = 7\<rparr>]\<rparr>"
  by (simp add: demo_published_def demo_collecting_eq demo_reported_eq demo_started_eq demo_states
      publish_artifact_def demo_artifact_def attempt_artifacts_def artifact_total_def as_uint64_def
      as_int_def insert_artifact_def demo_eval)

lemma demo_finished_eq:
  "demo_finished = demo_published\<lparr>runs := [demo_run succeeded 1 (Some ''a'') 5 100 903],
     attempts := [demo_running\<lparr>a_ack_sequence := 2, a_status := ''SUCCEEDED'', a_reason := Some ''DONE'',
       a_exit_code := Some 0, a_finalization_deadline := Some 300000701, a_finished_at := Some 902\<rparr>],
     events := events demo_published @ [demo_event 5 ''completed'' ''SUCCEEDED'' 904]\<rparr>"
  by (simp add: demo_finished_def demo_published_eq demo_collecting_eq demo_reported_eq demo_started_eq
      demo_states finish_def demo_eval)

lemma demo_cancelled_eq:
  "demo_cancelled = demo_reported\<lparr>runs := [demo_run cancelled 1 (Some ''a'') 4 100 651],
     attempts := [demo_running\<lparr>a_ack_sequence := 2, a_status := ''CANCELLED'', a_reason := Some ''USER_CANCELLED'',
       a_lease_until := Some 650, a_finished_at := Some 650\<rparr>],
     events := events demo_reported @ [demo_event 4 ''cancelled''
       ''results fenced; remote cleanup may still be pending'' 652]\<rparr>"
  by (simp add: demo_cancelled_def demo_reported_eq demo_started_eq demo_states cancel_def terminal_def
      live_def demo_eval)

lemma demo_recovered_eq:
  "demo_recovered = demo_reported\<lparr>runs := [demo_run failed 1 (Some ''a'') 4 100005000002 100000000003],
     attempts := [demo_running\<lparr>a_ack_sequence := 2, a_status := ''FAILED'', a_reason := Some ''TIMEOUT'',
       a_finished_at := Some 100000000001\<rparr>],
     events := events demo_reported @ [demo_event 4 ''failed'' ''TIMEOUT'' 100000000004]\<rparr>"
  by (simp add: demo_recovered_def demo_late_def demo_reported_eq demo_started_eq demo_states
      recover_attempt_def fail_def should_retry_def retry_delay_def retry_factor_def terminal_def
      clamp_def demo_eval)

lemmas demo_all = demo_recovered_eq demo_cancelled_eq demo_finished_eq demo_published_eq
  demo_collecting_eq demo_reported_eq demo_started_eq demo_states demo_eval

text \<open>Two of the steps, as steps of the store.\<close>

lemma demo_step_started: "store_step default_Timing demo_assigned demo_started"
proof -
  have "demo_started \<noteq> demo_assigned" by (simp add: demo_all)
  then show ?thesis
    unfolding demo_started_def by (rule committed_step) (rule store_step.intros)
qed

lemma demo_step_recovered: "store_step default_Timing demo_reported demo_recovered"
proof -
  have "demo_recovered \<noteq> demo_reported" by (simp add: demo_all)
  then show ?thesis
    unfolding demo_recovered_def by (rule committed_step) (rule store_step.intros)
qed

end
