(* ===== verification/Store_Properties.thy ===== *)
theory Store_Properties
  imports Scenario
begin

text \<open>
  What the invariants and the simulation give for the life cycle of a run: allowed status
  changes, terminal states, the retry limit, a single owner, fencing, recovery.
\<close>

section \<open>Life cycle\<close>

text \<open>
  C1: the coordinator's database refines the abstract life cycle. Every reachable database
  maps to a reachable abstract state, every committed transaction is one abstract step (or
  none), and all table invariants hold before and after it.
\<close>

theorem store_refines_life_cycle:
  assumes "reachable timing db" and "store_step timing db db'"
  shows "reach life_init life_step (life_of db) \<and> life_step (life_of db) (life_of db') \<and>
    store_inv db \<and> store_inv db'"
  using store.reachable_abs[OF assms(1)] store.reachable_inv[OF assms(1)] store.abs_step store.step_inv assms(2)
  by blast

theorem store_refines_life_cycle_witness:
  "reach life_init life_step (life_of demo_assigned) \<and>
   life_step (life_of demo_assigned) (life_of demo_started) \<and> store_inv demo_assigned \<and> store_inv demo_started"
  using store_refines_life_cycle[OF demo_reachable(4) demo_step_started] .

lemma life_row: "run_row db i = Some r \<Longrightarrow> l_runs (life_of db) i = Some (life_run_of r)"
  by simp

text \<open>
  Whatever transaction commits, a run keeps its specification, its generation never
  decreases, and its status changes only along \<open>transition_allowed\<close>.
\<close>

theorem status_changes_are_allowed:
  assumes "reachable timing db" and "store_step timing db db'" and "run_row db rid = Some r"
  shows "\<exists>r'. run_row db' rid = Some r' \<and> r_spec r' = r_spec r \<and> r_generation r \<le> r_generation r' \<and>
    (r_status r' = r_status r \<or> transition_allowed (r_status r) (r_status r'))"
proof -
  from store.abs_step[OF store.reachable_inv[OF assms(1)] assms(2)]
  have step: "life_step (life_of db) (life_of db')" .
  from life_step_status[OF step life_row[OF assms(3)]] life_step_generation[OF step life_row[OF assms(3)]]
  show ?thesis by auto
qed

theorem status_changes_are_allowed_witness:
  "\<exists>r'. run_row demo_started ''r'' = Some r' \<and> r_spec r' = demo_spec \<and> 1 \<le> r_generation r' \<and>
    (r_status r' = starting \<or> transition_allowed starting (r_status r'))"
  using status_changes_are_allowed[OF demo_reachable(4) demo_step_started,
      of "''r''" "demo_run starting 1 (Some ''a'') 2 100 404"]
  by (simp add: demo_all)

text \<open>
  C2: a run that succeeded, failed or was cancelled keeps its status, generation, current
  attempt and specification through every later history.
\<close>

theorem terminal_runs_never_change:
  assumes "reachable timing db" and "(store_step timing)\<^sup>*\<^sup>* db db'"
    and "run_row db rid = Some r" and "terminal (r_status r)"
  shows "\<exists>r'. run_row db' rid = Some r' \<and> r_status r' = r_status r \<and> r_spec r' = r_spec r \<and>
    r_generation r' = r_generation r \<and> r_active_attempt r' = r_active_attempt r"
proof -
  from store.steps_abs[OF assms(2) store.reachable_inv[OF assms(1)]]
  have "life_step\<^sup>*\<^sup>* (life_of db) (life_of db')" .
  from life_steps_terminal[OF this life_row[OF assms(3)]] assms(4)
  obtain r' where r': "run_row db' rid = Some r'" and eq: "life_run_of r' = life_run_of r" by auto
  from arg_cong[OF eq, of lr_status] arg_cong[OF eq, of lr_spec] arg_cong[OF eq, of lr_generation]
    arg_cong[OF eq, of lr_active] r'
  show ?thesis by simp
qed

theorem terminal_runs_never_change_witness:
  "\<exists>r'. run_row demo_cancelled ''r'' = Some r' \<and> r_status r' = cancelled \<and> r_spec r' = demo_spec \<and>
    r_generation r' = 1 \<and> r_active_attempt r' = Some ''a''"
  using terminal_runs_never_change[OF demo_reachable(10) rtranclp.rtrancl_refl,
      of "''r''" "demo_run cancelled 1 (Some ''a'') 4 100 651"]
  by (simp add: demo_all terminal_def)

section \<open>Attempts\<close>

lemma row_live_current:
  assumes "store_inv db" and "attempt_row db aid = Some a" and "live (a_status a)"
  shows "\<exists>r. run_row db (a_run_id a) = Some r \<and> r_active_attempt r = Some aid \<and>
    r_generation r = a_generation a \<and> r_status r = status_of (a_status a)"
  using live_is_current[OF store_invD(2)[OF assms(1)], of aid "life_attempt_of a"] assms(2,3) by auto

text \<open>
  C3: at any moment a run has at most one live attempt; it is the run's current attempt, has
  its generation, and run and attempt carry the same status.
\<close>

theorem at_most_one_live_attempt:
  assumes "reachable timing db" and "a \<in> set (attempts db)" and "live (a_status a)"
  shows "(\<exists>r. run_row db (a_run_id a) = Some r \<and> r_active_attempt r = Some (a_id a) \<and>
      r_generation r = a_generation a \<and> to_string (r_status r) = a_status a) \<and>
    (\<forall>b\<in>set (attempts db). a_run_id b = a_run_id a \<and> live (a_status b) \<longrightarrow> b = a)"
proof -
  note inv = store.reachable_inv[OF assms(1)]
  note row = attempt_row_of_mem[OF store_invD(9)[OF inv]]
  from row_live_current[OF inv row[OF assms(2)] assms(3)] obtain r where
    r: "run_row db (a_run_id a) = Some r" "r_active_attempt r = Some (a_id a)"
    "r_generation r = a_generation a" "r_status r = status_of (a_status a)" by auto
  have "to_string (status_of (a_status a)) = a_status a"
    using assms(3) by (auto simp: live_def)
  moreover have "b = a" if b: "b \<in> set (attempts db)" "a_run_id b = a_run_id a" "live (a_status b)" for b
    using row_live_current[OF inv row[OF b(1)] b(3)] b(2) r(1,2) row[OF b(1)] row[OF assms(2)] by auto
  ultimately show ?thesis using r by auto
qed

theorem at_most_one_live_attempt_witness:
  "(\<exists>r. run_row demo_started ''r'' = Some r \<and> r_active_attempt r = Some ''a'' \<and>
      r_generation r = 1 \<and> to_string (r_status r) = ''RUNNING'') \<and> live (a_status demo_running)"
  using at_most_one_live_attempt[OF demo_reachable(5), of demo_running]
  by (simp add: demo_all live_def)

text \<open>
  C4: a run is never given more attempts than its generation counts, nor more than the
  \<open>max_attempts\<close> of its specification.
\<close>

theorem attempts_within_limit:
  assumes "reachable timing db" and "run_row db rid = Some r"
  shows "int (length (filter (\<lambda>a. a_run_id a = rid) (attempts db))) \<le> r_generation r \<and>
    r_generation r \<le> max_attempts (spec_retry (r_spec r))"
proof -
  note inv = store.reachable_inv[OF assms(1)]
  note row = attempt_row_of_mem[OF store_invD(9)[OF inv]]
  let ?as = "filter (\<lambda>a. a_run_id a = rid) (attempts db)"
  have ok: "attempt_ok (life_of db) (a_id a) (life_attempt_of a)" if "a \<in> set (attempts db)" for a
    using life_inv_attemptD[OF store_invD(2)[OF inv], of "a_id a"] row[OF that] by simp
  have "inj_on a_generation (set ?as)"
  proof (rule inj_onI)
    fix a b assume a: "a \<in> set ?as" and b: "b \<in> set ?as" and gen: "a_generation a = a_generation b"
    have "a_id b = a_id a"
      using ok[of a] row[of b] a b gen unfolding attempt_ok_def by auto
    then show "a = b" using row[of a] row[of b] a b by auto
  qed
  moreover have "distinct ?as"
    using store_invD(9)[OF inv] by (auto simp: store_keys_def distinct_map)
  ultimately have "length ?as = card (a_generation ` set ?as)"
    by (metis card_image distinct_card)
  also have "a_generation ` set ?as \<subseteq> {1..r_generation r}"
    using ok assms(2) unfolding attempt_ok_def by fastforce
  then have "card (a_generation ` set ?as) \<le> card {1..r_generation r}"
    by (intro card_mono) simp_all
  finally have "length ?as \<le> nat (r_generation r)" by simp
  moreover have "run_ok (life_of db) rid (life_run_of r)"
    using life_inv_runD[OF store_invD(2)[OF inv] life_row[OF assms(2)]] .
  ultimately show ?thesis by (auto simp: run_ok_def)
qed

theorem attempts_within_limit_witness:
  "int (length (filter (\<lambda>a. a_run_id a = ''r'') (attempts demo_started))) \<le> 1 \<and>
    (1::int) \<le> max_attempts (spec_retry demo_spec)"
  using attempts_within_limit[OF demo_reachable(5), of "''r''" "demo_run running 1 (Some ''a'') 3 100 502"]
  by (simp add: demo_all)

section \<open>Ownership and fencing\<close>

abbreviation lost_ownership :: exn where
  "lost_ownership \<equiv> Error stale ''attempt ownership expired or was replaced''"

lemma owned_eq:
  assumes "attempt_row db aid = Some a" and "run_row db (a_run_id a) = Some r"
  shows "owned now aid g inst db = (if owns now aid g inst a r then Inr (locked now a r) else Inl lost_ownership)"
  using assms by (auto simp: owned_def lock_attempt_def owns_def)

text \<open>Every attempt has its run.\<close>

lemma attempt_run:
  assumes "store_inv db" and "attempt_row db aid = Some a"
  obtains r where "run_row db (a_run_id a) = Some r"
  using life_inv_attemptD[OF store_invD(2)[OF assms(1)], of aid "life_attempt_of a"] assms(2)
  by (auto simp: attempt_ok_def)

text \<open>The run is over, or a newer attempt has replaced this one.\<close>

definition superseded :: "attempts_row \<Rightarrow> runs_row \<Rightarrow> bool" where
  "superseded a r \<longleftrightarrow> terminal (r_status r) \<or> a_generation a < r_generation r"

lemma superseded_not_owned:
  assumes "store_inv db" and "attempt_row db aid = Some a" and "run_row db (a_run_id a) = Some r"
    and "superseded a r"
  shows "\<not> owns now aid g inst a r"
  using current_of(4)[OF store_invD(2)[OF assms(1)] assms(2,3)] assms(4)
  by (auto simp: owns_def superseded_def terminal_def)

lemma superseded_stays:
  assumes inv: "store_inv db" and steps: "(store_step timing)\<^sup>*\<^sup>* db db'"
    and a: "attempt_row db aid = Some a" and r: "run_row db (a_run_id a) = Some r" and sup: "superseded a r"
  shows "\<exists>a' r'. attempt_row db' aid = Some a' \<and> run_row db' (a_run_id a') = Some r' \<and> superseded a' r'"
proof -
  note abs = store.steps_abs[OF steps inv]
  from life_steps_attempt[OF abs, of aid] a obtain a' where a': "attempt_row db' aid = Some a'"
    and same: "a_run_id a' = a_run_id a" "a_generation a' = a_generation a" by auto
  from life_steps_generation[OF abs life_row[OF r]] obtain r' where
    r': "run_row db' (a_run_id a) = Some r'" and gen: "r_generation r \<le> r_generation r'" by auto
  have "terminal (r_status r')" if "terminal (r_status r)"
    using life_steps_terminal[OF abs life_row[OF r]] that r' by (metis life_row life_run_of_simps(2) option.inject)
  with sup gen same have "superseded a' r'" by (auto simp: superseded_def)
  with a' r' same show ?thesis by simp
qed



text \<open>
  A runner owns its attempt only while its lease and the deadline of its phase have not
  passed: a heartbeat, and with it every owner operation, succeeds exactly when the attempt is
  current, the instance is the one that claimed it, and both instants lie in the future.
\<close>

theorem ownership_needs_lease:
  assumes "attempt_row db aid = Some a" and "run_row db (a_run_id a) = Some r"
  shows "(heartbeat timing e aid g inst db \<noteq> Inl lost_ownership) =
    (text_of (r_active_attempt r) = aid \<and> r_generation r = g \<and> text_of (a_instance_id a) = inst \<and> inst \<noteq> [] \<and>
     (\<exists>t. a_lease_until a = Some t \<and> clk e 0 < t) \<and>
     (\<forall>t. (if a_status a = ''FINALIZING'' then a_finalization_deadline a else a_execution_deadline a) = Some t
        \<longrightarrow> clk e 0 < t) \<and> (r_status r = running \<or> r_status r = finalizing))"
proof -
  have "(heartbeat timing e aid g inst db \<noteq> Inl lost_ownership) = owns (clk e 0) aid g inst a r"
    by (simp add: heartbeat_def owned_eq[OF assms])
  moreover have "lease_valid (clk e 0) a = (\<exists>t. a_lease_until a = Some t \<and> clk e 0 < t)"
    by (simp add: lease_valid_def split: option.splits)
  moreover have "deadline_valid (clk e 0) a =
    (\<forall>t. (if a_status a = ''FINALIZING'' then a_finalization_deadline a else a_execution_deadline a) = Some t
        \<longrightarrow> clk e 0 < t)"
    by (simp add: deadline_valid_def split: option.splits)
  ultimately show ?thesis unfolding owns_def by blast
qed

theorem ownership_needs_lease_witness:
  "heartbeat default_Timing (demo_env 550 ''-'') ''a'' 1 ''i'' demo_started \<noteq> Inl lost_ownership \<and>
   heartbeat default_Timing (demo_env 30000501 ''-'') ''a'' 1 ''i'' demo_started = Inl lost_ownership"
proof -
  have rows: "attempt_row demo_started ''a'' = Some demo_running"
    "run_row demo_started (a_run_id demo_running) = Some (demo_run running 1 (Some ''a'') 3 100 502)"
    by (simp_all add: demo_all)
  from ownership_needs_lease[OF rows, of default_Timing "demo_env 550 ''-''" 1 "''i''"]
    ownership_needs_lease[OF rows, of default_Timing "demo_env 30000501 ''-''" 1 "''i''"]
  show ?thesis by (simp add: demo_run_def demo_running_def demo_attempt_def demo_env_def text_of_def)
qed

text \<open>The rows after a failure has been recorded.\<close>

lemma fail_rows:
  assumes a: "attempt_row db aid = Some a" and r: "run_row db (a_run_id a) = Some r"
    and ok: "fail timing t (locked now a r) f reason code db = Inr db'"
  shows "attempt_row db' aid = Some (a\<lparr>a_status := ''FAILED'', a_reason := Some reason,
      a_exit_code := code, a_finished_at := Some (t 0)\<rparr>)"
    and "run_row db' (a_run_id a) = Some (bump (t 2) (r\<lparr>
      r_status := (if should_retry (spec_retry (r_spec r)) (a_generation a) f then retry_wait else failed),
      r_available_at := t 1 + seconds (retry_delay (a_generation a) (retry_base_seconds timing)
        (retry_max_seconds timing))\<rparr>))"
  using ok a r run_row_key[OF r] attempt_row_key[OF a]
  by (simp_all add: fail_def Let_def event_ok row_simps)

text \<open>
  Completion is idempotent. After \<open>finish\<close> has been accepted, sending it again with the same
  generation, instance and exit code is accepted at any later time and changes nothing, while
  the run already has its final status or waits for its next attempt.
\<close>

theorem finish_is_idempotent:
  assumes "reachable timing db" and "finish timing e aid g inst code reason fin db = Inr (u, db')"
    and "db' \<noteq> db"
  shows "finish timing e' aid g inst code reason' fin' db' = Inr ((), db') \<and>
    (\<exists>a r. attempt_row db' aid = Some a \<and> run_row db' (a_run_id a) = Some r \<and>
       a_exit_code a = Some code \<and>
       (if code = 0 then a_status a = ''SUCCEEDED'' \<and> r_status r = succeeded
        else a_status a = ''FAILED'' \<and> (r_status r = failed \<or> r_status r = retry_wait)))"
proof -
  have dup: "finish timing e' aid g inst code reason' fin' db' = Inr ((), db')"
    if "attempt_row db' aid = Some a" "run_row db' (a_run_id a) = Some r"
      "text_of (r_active_attempt r) = aid" "text_of (a_instance_id a) = inst" "a_generation a = g"
      "a_exit_code a = Some code" "a_status a = ''SUCCEEDED'' \<or> a_status a = ''FAILED''" for a r
    using that by (simp add: finish_def lock_attempt_def)
  note inv = store_invD(2)[OF store.reachable_inv[OF assms(1)]]
  from assms(2) show ?thesis
  proof (cases rule: finish_cases)
    case duplicate
    with assms(3) show ?thesis by simp
  next
    case (success a r)
    let ?a = "a\<lparr>a_status := ''SUCCEEDED'', a_exit_code := Some 0, a_reason := Some reason,
        a_finished_at := Some (clk e 2)\<rparr>"
    let ?r = "bump (clk e 3) (r\<lparr>r_status := succeeded\<rparr>)"
    have "attempt_row db' aid = Some ?a" "run_row db' (a_run_id ?a) = Some ?r"
      using success(1,2,7) run_row_key[OF success(2)] by (auto simp: event_ok row_simps)
    with dup[of ?a ?r] success(3,6) current_of(4)[OF inv success(1,2)] show ?thesis
      by (auto simp: owns_def)
  next
    case (failure a r f reason'')
    let ?a = "a\<lparr>a_status := ''FAILED'', a_reason := Some reason'', a_exit_code := Some code,
        a_finished_at := Some (clk e 2)\<rparr>"
    obtain r' where "attempt_row db' aid = Some ?a" "run_row db' (a_run_id ?a) = Some r'"
      "r_active_attempt r' = r_active_attempt r" "r_status r' = failed \<or> r_status r' = retry_wait"
      using fail_rows[OF failure(1,2,6)] by simp
    with dup[of ?a r'] failure(3,5) current_of(4)[OF inv failure(1,2)] show ?thesis
      by (auto simp: owns_def)
  qed
qed

theorem finish_is_idempotent_witness:
  "finish default_Timing (demo_env 5000 ''-'') ''a'' 1 ''i'' 0 ''again'' 9 demo_finished = Inr ((), demo_finished) \<and>
    (\<exists>a r. attempt_row demo_finished ''a'' = Some a \<and> run_row demo_finished (a_run_id a) = Some r \<and>
       a_exit_code a = Some 0 \<and>
       (if (0::int) = 0 then a_status a = ''SUCCEEDED'' \<and> r_status r = succeeded
        else a_status a = ''FAILED'' \<and> (r_status r = failed \<or> r_status r = retry_wait)))"
proof -
  have "finish default_Timing (demo_env 900 ''-'') ''a'' 1 ''i'' 0 ''DONE'' 2 demo_published = Inr ((), demo_finished)"
    "demo_finished \<noteq> demo_published"
    by (simp_all add: finish_def demo_all)
  from finish_is_idempotent[OF demo_reachable(8) this] show ?thesis .
qed

text \<open>
  An attempt is claimed once. After a runner instance has claimed it, the same instance may
  repeat the call while its lease lasts, and any other instance is refused.
\<close>

theorem start_claims_once:
  assumes "start timing e aid g inst node db = Inr (v, db')" and "db' \<noteq> db"
    and "inst' \<noteq> inst" and "inst' \<noteq> []" and "length inst' \<le> 200"
    and "length node' \<le> 253" and "set node' \<subseteq> set node_name_chars"
    and "node' \<noteq> [] \<Longrightarrow> att_worker_id (asg_attempt v) = ''@kubernetes''"
  shows "start timing e' aid g inst' node' db' = throw stale ''attempt already claimed or expired'' \<and>
    (clk e' 0 < clk e 1 + seconds (lease_seconds timing) \<and>
     clk e' 0 < clk e 1 + seconds (spec_timeout_seconds (asg_spec v)) \<longrightarrow>
       (\<exists>v'. start timing e' aid g inst node db' = Inr (v', db')))"
proof -
  from assms(1) obtain a r where a: "attempt_row db aid = Some a" and r: "run_row db (a_run_id a) = Some r"
    by (auto simp: start_def lock_attempt_def split: if_splits sum.splits option.splits)
  let ?a = "a\<lparr>a_node_name := node, a_instance_id := Some inst, a_status := ''RUNNING'',
     a_started_at := Some (clk e 1), a_lease_until := Some (clk e 1 + seconds (lease_seconds timing)),
     a_execution_deadline := Some (clk e 1 + seconds (spec_timeout_seconds (r_spec r)))\<rparr>"
  let ?r = "bump (clk e 2) (r\<lparr>r_status := running\<rparr>)"
  have rid: "r_id r = a_run_id a" using run_row_key[OF r] .
  from assms(1,2) a r have rows: "attempt_row db' aid = Some ?a" "run_row db' (a_run_id a) = Some ?r"
    and act: "text_of (r_active_attempt r) = aid" "r_generation r = g" "inst \<noteq> []" "length inst \<le> 200"
    and node: "length node \<le> 253" "set node \<subseteq> set node_name_chars" "node \<noteq> [] \<Longrightarrow> a_worker_id a = ''@kubernetes''"
    and v: "asg_attempt v = attempt_of ?a" "asg_spec v = r_spec r"
    by (auto simp: start_def lock_attempt_def Let_def event_ok row_simps rid split: if_splits sum.splits)
  have "start timing e' aid g inst' node' db' = throw stale ''attempt already claimed or expired''"
    using rows act assms(3-8) v
    by (auto simp: start_def lock_attempt_def terminal_def text_of_def)
  moreover have "\<exists>v'. start timing e' aid g inst node db' = Inr (v', db')"
    if "clk e' 0 < clk e 1 + seconds (lease_seconds timing)"
      "clk e' 0 < clk e 1 + seconds (spec_timeout_seconds (asg_spec v))"
    using rows act node that v
    by (auto simp: start_def lock_attempt_def terminal_def text_of_def lease_valid_def deadline_valid_def)
  ultimately show ?thesis by blast
qed

theorem start_claims_once_witness:
  "start default_Timing (demo_env 510 ''-'') ''a'' 1 ''j'' [] demo_started =
     throw stale ''attempt already claimed or expired'' \<and>
   (\<exists>v'. start default_Timing (demo_env 510 ''-'') ''a'' 1 ''i'' [] demo_started = Inr (v', demo_started))"
proof -
  let ?v = "\<lparr>asg_attempt = attempt_of demo_running, asg_spec = demo_spec\<rparr>"
  have "start default_Timing (demo_env 500 ''-'') ''a'' 1 ''i'' [] demo_assigned = Inr (?v, demo_started)"
    "demo_started \<noteq> demo_assigned"
    by (simp_all add: start_def node_name_chars_def terminal_def demo_all)
  from start_claims_once[OF this, of "''j''" "[]" "demo_env 510 ''-''"] show ?thesis
    by (simp add: demo_eval)
qed

section \<open>Recovery\<close>

text \<open>With gap-free histories an event can always be appended.\<close>

lemma event_total:
  assumes "events_ok db" and "run_row db rid = Some r"
  shows "\<exists>db'. event t1 t2 rid kind detail db = Inr db'"
proof -
  have "(rid, r_event_sequence r + 1) \<notin> (\<lambda>e. (e_run_id e, e_sequence e)) ` set (events db)"
  proof
    assume "(rid, r_event_sequence r + 1) \<in> (\<lambda>e. (e_run_id e, e_sequence e)) ` set (events db)"
    then have "r_event_sequence r + 1 \<in> set (map e_sequence (run_events db rid))"
      by (auto simp: run_events_def)
    moreover have "map e_sequence (run_events db rid) = [1..r_event_sequence r]"
      using assms by (simp add: events_ok_def last_event_def split: option.splits)
    ultimately show False by simp
  qed
  with assms(2) show ?thesis by (auto simp: event_ok)
qed

lemma transition_total:
  assumes "events_ok db" and "run_row db rid = Some r" and "keeps_run f" and "keeps_attempt g"
  shows "\<exists>db'. event t1 t2 rid kind detail (upd_run rid f (upd_attempt aid g db)) = Inr db'"
proof -
  have "events_ok (upd_run rid f (upd_attempt aid g db))"
    using assms by (simp add: events.upd_run_I events.upd_attempt_I)
  moreover have "run_row (upd_run rid f (upd_attempt aid g db)) rid = Some (f r)"
    using assms(2,3) by (simp add: row_simps keeps_simps)
  ultimately show ?thesis by (rule event_total)
qed

lemma fail_total:
  assumes "store_inv db" and "run_row db (r_id r) = Some r"
  shows "\<exists>db'. fail timing t (locked now a r) f reason code db = Inr db'"
  unfolding fail_def Let_def
  using transition_total[OF store_invD(4)[OF assms(1)] assms(2)]
  by (simp add: keeps_run_def keeps_attempt_def)

lemma recover_attempt_expired:
  assumes inv: "store_inv db" and "attempt_row db aid = Some a" and "expired (clk e 0) a"
  obtains r reason where "run_row db (a_run_id a) = Some r"
    and "recover_attempt timing e aid db =
      (case fail timing (\<lambda>k. clk e (1 + k)) (locked (clk e 0) a r)
          (if a_status a = ''RUNNING'' \<and> \<not> deadline_valid (clk e 0) a then timeout else infrastructure) reason None db of
         Inl ex \<Rightarrow> Inl ex | Inr db' \<Rightarrow> Inr ((), db'))"
proof -
  have live: "live (a_status a)" using assms(3) by (auto simp: expired_def live_def)
  from row_live_current[OF inv assms(2) live] obtain r where r: "run_row db (a_run_id a) = Some r"
    and act: "r_active_attempt r = Some aid" and st: "r_status r = status_of (a_status a)" by auto
  let ?f = "if a_status a = ''RUNNING'' \<and> \<not> deadline_valid (clk e 0) a then timeout else infrastructure"
  have "\<exists>reason. recover_attempt timing e aid db =
      (case fail timing (\<lambda>k. clk e (1 + k)) (locked (clk e 0) a r) ?f reason None db of
         Inl ex \<Rightarrow> Inl ex | Inr db' \<Rightarrow> Inr ((), db'))"
  proof -
    let ?now = "clk e 0"
    have lk: "lock_attempt ?now aid db = Inr (locked ?now a r)"
      using assms(2) r by (simp add: lock_attempt_def)
    have act': "text_of (r_active_attempt r) = aid" "a_status a \<noteq> ''FAILED''"
      using act live by (auto simp: text_of_def live_def)
    have "(a_status a = ''STARTING'' \<and> \<not> launch_valid ?now a) \<or>
        ((a_status a = ''RUNNING'' \<or> a_status a = ''FINALIZING'') \<and>
         (\<not> lease_valid ?now a \<or> \<not> deadline_valid ?now a))"
      using assms(3) by (auto simp: expired_def passed_def launch_valid_def lease_valid_def
          deadline_valid_def not_less split: option.splits)
    then consider "a_status a = ''STARTING''" "\<not> launch_valid ?now a"
      | "a_status a = ''RUNNING''" "\<not> deadline_valid ?now a"
      | "a_status a = ''FINALIZING''" "\<not> deadline_valid ?now a"
      | "a_status a = ''RUNNING'' \<or> a_status a = ''FINALIZING''" "deadline_valid ?now a" "\<not> lease_valid ?now a"
      by blast
    then show ?thesis
      by cases (use st act' in \<open>auto simp: recover_attempt_def lk Let_def terminal_def\<close>)
  qed
  with that r show thesis by blast
qed

text \<open>
  Recovery makes progress. An attempt found past its launch, lease or phase deadline is
  failed by the transaction that recovers it, which never errs; its run waits for a retry or
  fails, as its retry policy decides for a timeout (the execution deadline of a running
  attempt) or an infrastructure failure (everything else), and the next attempt is not
  available before the retry delay.
\<close>

theorem recovery_fails_expired_attempts:
  assumes "reachable timing db" and "attempt_row db aid = Some a" and "expired (clk e 0) a"
  shows "\<exists>db' a' r r'. recover_attempt timing e aid db = Inr ((), db') \<and>
    attempt_row db' aid = Some a' \<and> a_status a' = ''FAILED'' \<and>
    run_row db (a_run_id a) = Some r \<and> run_row db' (a_run_id a) = Some r' \<and>
    r_status r' = (if should_retry (spec_retry (r_spec r)) (a_generation a)
                        (if a_status a = ''RUNNING'' \<and> \<not> deadline_valid (clk e 0) a then timeout else infrastructure)
                   then retry_wait else failed) \<and>
    r_available_at r' = clk e 2 + seconds (retry_delay (a_generation a) (retry_base_seconds timing)
      (retry_max_seconds timing))"
proof -
  note inv = store.reachable_inv[OF assms(1)]
  let ?f = "if a_status a = ''RUNNING'' \<and> \<not> deadline_valid (clk e 0) a then timeout else infrastructure"
  obtain r reason where r: "run_row db (a_run_id a) = Some r"
    and rec: "recover_attempt timing e aid db =
      (case fail timing (\<lambda>k. clk e (1 + k)) (locked (clk e 0) a r) ?f reason None db of
         Inl ex \<Rightarrow> Inl ex | Inr db' \<Rightarrow> Inr ((), db'))"
    using recover_attempt_expired[OF inv assms(2,3)] by blast
  have "run_row db (r_id r) = Some r" using r run_row_key[OF r] by simp
  from fail_total[OF inv this] obtain db' where
    ok: "fail timing (\<lambda>k. clk e (1 + k)) (locked (clk e 0) a r) ?f reason None db = Inr db'" by blast
  from fail_rows[OF assms(2) r ok] rec ok r show ?thesis by (simp add: numeral_2_eq_2)
qed

theorem recovery_fails_expired_attempts_witness:
  "\<exists>db' a' r r'. recover_attempt default_Timing demo_late ''a'' demo_reported = Inr ((), db') \<and>
    attempt_row db' ''a'' = Some a' \<and> a_status a' = ''FAILED'' \<and>
    run_row demo_reported ''r'' = Some r \<and> run_row db' ''r'' = Some r' \<and>
    r_status r' = failed \<and> r_available_at r' = 100005000002"
proof -
  have row: "attempt_row demo_reported ''a'' = Some (demo_running\<lparr>a_ack_sequence := 2\<rparr>)"
    and "expired (clk demo_late 0) (demo_running\<lparr>a_ack_sequence := 2\<rparr>)"
    by (simp_all add: demo_all demo_late_def expired_def passed_def)
  moreover have "run_row demo_reported ''r'' = Some (demo_run running 1 (Some ''a'') 3 100 502)"
    by (simp add: demo_all)
  ultimately show ?thesis
    using recovery_fails_expired_attempts[OF demo_reachable(6) row, of demo_late]
    by (simp add: demo_eval demo_late_def should_retry_def retry_delay_def retry_factor_def clamp_def)
qed

end
