(* ===== verification/Store_Scheduling.thy ===== *)
theory Store_Scheduling
  imports Store_Properties
begin

text \<open>
  What the two schedulers promise: capacity, GPUs, queue order, the Kubernetes limit, and that
  an assignment never fails on a constraint.
\<close>

section \<open>Reserved resources after a claim\<close>

lemma pending_attempts_append:
  "attempts db' = attempts db @ [row] \<Longrightarrow>
     pending_attempts db' wid = pending_attempts db wid @
       (if a_worker_id row = wid \<and> a_cleanup_status row = ''PENDING'' then [row] else [])"
  by (simp add: pending_attempts_def)

text \<open>The columns of a run that no statement changes.\<close>

definition fixed_column :: "(runs_row \<Rightarrow> int) \<Rightarrow> bool" where
  "fixed_column col \<longleftrightarrow> (\<forall>t r. col (bump t r) = col r) \<and>
     (\<forall>r s a g. col (r\<lparr>r_status := s, r_active_attempt := a, r_generation := g\<rparr>) = col r)"

lemma fixed_columns [simp]: "fixed_column r_cpu_millis" "fixed_column r_memory_mib" "fixed_column r_gpu_count"
  by (simp_all add: fixed_column_def)

lemma claim_run_columns:
  assumes claim: "claim_run timing t aid wid detail r db = Inr (row, db')" and col: "fixed_column col"
  shows "map_option col (run_row db' i) = map_option col (run_row db i)"
  using claim
proof (cases rule: claim_run_cases)
  case (1 db1)
  have "run_row db1 = run_row db" using 1(2) by (auto simp: insert_attempt_ok)
  with 1(3) col show ?thesis
    by (auto simp: event_ok row_simps fixed_column_def option.map_comp comp_def)
qed

lemma reserved_sum_claim:
  assumes claim: "claim_run timing t aid wid detail r db = Inr (row, db')"
    and r: "run_row db (r_id r) = Some r" and col: "fixed_column col"
  shows "reserved_sum col db' wid = reserved_sum col db wid + col r"
proof -
  note eff = claim_run_effect[OF claim]
  have same: "(case run_row db' i of None \<Rightarrow> 0 | Some q \<Rightarrow> col q) =
      (case run_row db i of None \<Rightarrow> 0 | Some q \<Rightarrow> col q)" for i
    using claim_run_columns[OF claim col, of i] by (auto split: option.splits)
  from eff have "pending_attempts db' wid = pending_attempts db wid @ [row]"
    using pending_attempts_append[of db' db row wid] by simp
  with eff r show ?thesis by (simp add: reserved_sum_def same)
qed

lemma reserve_gpus_reserved:
  "reserve_gpus t aid n devices db = Inr db' \<Longrightarrow> reserved_sum col db' wid = reserved_sum col db wid"
  unfolding reserve_gpus_def
  by (auto dest!: reserve_devices_frame simp: reserved_sum_def pending_attempts_def)

section \<open>Assignment\<close>

text \<open>
  C7: a new assignment never overcommits the worker: the CPU and memory reserved by all its
  attempts whose runtimes may still exist, the new one included, stay within the registered
  capacity; the worker is current, alive and not drained; and the attempt holds exactly the
  number of GPUs the specification asks for, each a device of this worker that nobody held.
\<close>

theorem assign_respects_capacity:
  assumes "reachable timing db" and "assign timing e wid session db = Inr (v, db')" and "db' \<noteq> db"
  shows "\<exists>w asg. worker_row db wid = Some w \<and> v = Some asg \<and> w_session w = session \<and> \<not> w_drained w \<and>
    worker_available timing (clk e 0) w \<and>
    reserved_sum r_cpu_millis db' wid \<le> w_cpu_millis w \<and>
    reserved_sum r_memory_mib db' wid \<le> w_memory_mib w \<and>
    int (length (held db' (fresh e 0))) = gpu_count (spec_resources (asg_spec asg)) \<and>
    (\<forall>g\<in>set (held db' (fresh e 0)). \<exists>d\<in>set (gpu_devices db).
        d_uuid d = g_uuid g \<and> d_worker_id d = wid \<and> device_free db d)"
  using assms(2)
proof (cases rule: assign_cases)
  case unchanged
  with assms(3) show ?thesis by simp
next
  case (assigned w r row db2 rc rm devices)
  note inv = store.reachable_inv[OF assms(1)]
  note nx = next_run_Some[OF assigned(8)]
  note r = run_row_of_mem[OF store_invD(9)[OF inv] nx(1)]
  note eff = claim_run_effect[OF assigned(9)]
  let ?n = "nat (gpu_count (spec_resources (r_spec r)))"
  from assigned(5,6) have sums: "reserved_sum r_cpu_millis db wid = rc" "reserved_sum r_memory_mib db wid = rm"
    by (auto simp: as_int_def split: if_splits)
  have cap: "reserved_sum r_cpu_millis db' wid \<le> w_cpu_millis w" "reserved_sum r_memory_mib db' wid \<le> w_memory_mib w"
    using reserved_sum_claim[OF assigned(9) r] reserve_gpus_reserved[OF assigned(10)] sums nx(3) by simp_all
  from reserve_devices_ok[OF assigned(10)[unfolded reserve_gpus_def]] obtain gs where
    uuids: "map g_uuid gs = map gd_uuid (take ?n devices)" and len: "length gs = ?n"
    and new: "\<forall>g\<in>set gs. g_attempt_id g = fresh e 0 \<and> g_released_at g = None"
    and db': "db' = db2\<lparr>attempt_gpus := attempt_gpus db2 @ gs\<rparr>" by auto
  have "held db' (fresh e 0) = held db2 (fresh e 0) @ gs"
    using new by (simp add: held_def db' unreleased_def)
  then have held: "held db' (fresh e 0) = gs"
    using held_unknown[OF store_invD(3)[OF inv]] eff by (simp add: held_def)
  have "\<exists>d\<in>set (gpu_devices db). d_uuid d = g_uuid g \<and> d_worker_id d = wid \<and> device_free db d"
    if "g \<in> set gs" for g
  proof -
    have "g_uuid g \<in> gd_uuid ` set (take ?n devices)" using that uuids by (metis image_eqI image_set)
    then obtain d where "d \<in> set devices" "g_uuid g = gd_uuid d" by (auto dest: in_set_takeD)
    then show ?thesis using free_gpus_devices[of d e db wid] by (auto simp: assigned(7) split: if_splits)
  qed
  then show ?thesis
    using assigned(1-4,11) cap len run_gpus(1)[OF store_invD(3)[OF inv] nx(1)] by (simp add: held)
qed

lemma demo_assign:
  obtains v where "assign default_Timing (demo_env 400 ''a'') ''w'' ''s'' demo_ready = Inr (v, demo_assigned)"
    and "demo_assigned \<noteq> demo_ready"
proof -
  have "demo_assigned \<noteq> demo_ready" by (simp add: demo_all)
  moreover from this obtain v where
    "assign default_Timing (demo_env 400 ''a'') ''w'' ''s'' demo_ready = Inr (v, demo_assigned)"
    unfolding demo_assigned_def committed_def by (auto split: sum.splits)
  ultimately show ?thesis by (rule that[rotated])
qed

theorem assign_respects_capacity_witness:
  "\<exists>w asg. worker_row demo_ready ''w'' = Some w \<and>
    fst (projr (assign default_Timing (demo_env 400 ''a'') ''w'' ''s'' demo_ready)) = Some asg \<and>
    reserved_sum r_cpu_millis demo_assigned ''w'' \<le> w_cpu_millis w \<and> w_cpu_millis w = 1500 \<and>
    int (length (held demo_assigned ''a'')) = gpu_count (spec_resources (asg_spec asg))"
proof (rule demo_assign)
  fix v
  assume v: "assign default_Timing (demo_env 400 ''a'') ''w'' ''s'' demo_ready = Inr (v, demo_assigned)"
    and "demo_assigned \<noteq> demo_ready"
  have a: "fresh (demo_env 400 ''a'') 0 = ''a''" by (simp add: demo_env_def)
  from assign_respects_capacity[OF demo_reachable(3) v \<open>demo_assigned \<noteq> demo_ready\<close>] obtain w asg where
    w: "worker_row demo_ready ''w'' = Some w" and asg: "v = Some asg"
    and cap: "reserved_sum r_cpu_millis demo_assigned ''w'' \<le> w_cpu_millis w"
    and gpus: "int (length (held demo_assigned ''a'')) = gpu_count (spec_resources (asg_spec asg))"
    unfolding a by blast
  have "w_cpu_millis w = 1500" using w by (auto simp: demo_ready_eq worker_row_def find_by_def)
  with w asg cap gpus show ?thesis unfolding v sum.sel prod.sel by blast
qed

text \<open>The queue order is a total preorder under a total, transitive collation.\<close>

definition collation :: "(string \<Rightarrow> string \<Rightarrow> bool) \<Rightarrow> bool" where
  "collation le \<longleftrightarrow> (\<forall>a b. le a b \<or> le b a) \<and> (\<forall>a b c. le a b \<longrightarrow> le b c \<longrightarrow> le a c)"

lemma queue_before_total: "collation (text_le e) \<Longrightarrow> queue_before e a b \<or> queue_before e b a"
  using linorder_less_linear[of "r_priority a" "r_priority b"]
    linorder_less_linear[of "r_created_at a" "r_created_at b"]
  unfolding queue_before_def collation_def by metis

lemma queue_before_trans:
  "collation (text_le e) \<Longrightarrow> queue_before e a b \<Longrightarrow> queue_before e b c \<Longrightarrow> queue_before e a c"
  unfolding queue_before_def collation_def by (smt (verit))

lemma next_run_first:
  assumes "collation (text_le e)" and "next_run e wanted db = Some r"
    and "q \<in> set (runs db)" and "r_status q = queued" and "wanted q" and "\<not> skip_locked e (r_id q)"
  shows "queue_before e r q"
proof -
  let ?rs = "filter (\<lambda>r. r_status r = queued \<and> wanted r \<and> \<not> skip_locked e (r_id r)) (runs db)"
  from assms(2) obtain rs where "sort_by (queue_before e) ?rs = r # rs"
    by (auto simp: next_run_def split: list.splits)
  moreover have "q \<in> set ?rs" using assms(3-6) by simp
  ultimately show ?thesis
    using sort_by_head[of "queue_before e" ?rs r rs q] queue_before_total[OF assms(1)]
      queue_before_trans[OF assms(1)] by blast
qed

text \<open>
  C8: the scheduler is fair to the queue. The assigned run stands before every other queued
  run that is available, fits the worker's free CPU, memory and GPUs, and is not being claimed
  by a concurrent transaction: higher priority first, then earlier submission, then id.
\<close>

theorem assign_takes_the_first_fitting_run:
  assumes "reachable timing db" and "assign timing e wid session db = Inr (v, db')" and "db' \<noteq> db"
    and "collation (text_le e)" and "worker_row db wid = Some w"
    and "q \<in> set (runs db)" and "r_status q = queued" and "r_available_at q \<le> clk e 2"
    and "r_cpu_millis q \<le> w_cpu_millis w - reserved_sum r_cpu_millis db wid"
    and "r_memory_mib q \<le> w_memory_mib w - reserved_sum r_memory_mib db wid"
    and "r_gpu_count q = 0 \<or> (w_gpu_capable w \<and> w_gpu_ready w \<and> gpu_observed_fresh (clk e 0) w \<and>
          r_gpu_count q \<le> int (length (free_gpus e db wid)))"
    and "\<not> skip_locked e (r_id q)"
  shows "\<exists>r\<in>set (runs db). queue_before e r q \<and> r_status r = queued \<and>
    (\<exists>r'. run_row db' (r_id r) = Some r' \<and> r_status r' = starting \<and> r_active_attempt r' = Some (fresh e 0))"
  using assms(2)
proof (cases rule: assign_cases)
  case unchanged
  with assms(3) show ?thesis by simp
next
  case (assigned w' r row db2 rc rm devices)
  note inv = store.reachable_inv[OF assms(1)]
  note nx = next_run_Some[OF assigned(8)]
  note r = run_row_of_mem[OF store_invD(9)[OF inv] nx(1)]
  from assms(5) assigned(1) have w: "w' = w" by simp
  from assigned(5,6) have sums: "reserved_sum r_cpu_millis db wid = rc" "reserved_sum r_memory_mib db wid = rm"
    by (auto simp: as_int_def split: if_splits)
  have "r_gpu_count q \<le> int (length devices)"
    using assms(11) by (auto simp: assigned(7) w)
  then have first: "queue_before e r q"
    using next_run_first[OF assms(4) assigned(8) assms(6,7)] assms(8-12) sums by (simp add: w)
  from assigned(9) have "\<exists>r'. run_row db2 (r_id r) = Some r' \<and> r_status r' = starting \<and>
      r_active_attempt r' = Some (fresh e 0)"
  proof (cases rule: claim_run_cases)
    case (1 db1)
    have "run_row db1 = run_row db" using 1(2) by (auto simp: insert_attempt_ok)
    with 1(3) r show ?thesis by (auto simp: event_ok row_simps)
  qed
  moreover have "run_row db' = run_row db2"
    using reserve_devices_frame[OF assigned(10)[unfolded reserve_gpus_def]] by auto
  ultimately show ?thesis using first nx(1,2) by auto
qed

theorem assign_takes_the_first_fitting_run_witness:
  "\<exists>r\<in>set (runs demo_ready). queue_before (demo_env 400 ''a'') r (demo_run queued 0 None 1 100 101) \<and>
    r_status r = queued \<and> (\<exists>r'. run_row demo_assigned (r_id r) = Some r' \<and> r_status r' = starting \<and>
      r_active_attempt r' = Some (fresh (demo_env 400 ''a'') 0))"
proof (rule demo_assign)
  fix v
  assume "assign default_Timing (demo_env 400 ''a'') ''w'' ''s'' demo_ready = Inr (v, demo_assigned)"
    and "demo_assigned \<noteq> demo_ready"
  moreover have "collation (text_le (demo_env 400 ''a''))"
    by (auto simp: collation_def demo_env_def)
  moreover have "worker_row demo_ready ''w'' = Some (hd (workers demo_ready))"
    by (simp add: demo_ready_eq worker_row_def find_by_def)
  moreover have "reserved_sum col demo_ready ''w'' = 0" for col
    by (simp add: demo_all reserved_sum_def pending_attempts_def)
  moreover have "free_gpus (demo_env 400 ''a'') demo_ready ''w'' \<noteq> []"
    by (simp add: demo_all free_gpus_def device_free_def)
  ultimately show ?thesis
    by (intro assign_takes_the_first_fitting_run[OF demo_reachable(3)])
      (auto simp: demo_all gpu_observed_fresh_def Suc_le_eq)
qed

text \<open>No two allocations of a free list collide, and a new attempt has a new generation.\<close>

lemma free_gpus_distinct: "keys_ok db \<Longrightarrow> distinct (map gd_uuid (free_gpus e db wid))"
  by (simp add: free_gpus_def comp_def distinct_map_filter_sub keys_ok_def)

lemma free_gpus_unheld:
  "d \<in> set (free_gpus e db wid) \<Longrightarrow> gd_uuid d \<notin> g_uuid ` set (unreleased (attempt_gpus db))"
  by (auto simp: free_gpus_def device_free_def unreleased_def)

lemma reserve_devices_total:
  assumes "n \<le> length devices" and "distinct (map gd_uuid devices)"
    and "\<forall>g\<in>set (attempt_gpus db). g_attempt_id g = aid \<longrightarrow> g_uuid g \<notin> gd_uuid ` set devices"
    and "gd_uuid ` set devices \<inter> g_uuid ` set (unreleased (attempt_gpus db)) = {}"
  shows "\<exists>db'. reserve_devices t aid n devices db = Inr db'"
  using assms
proof (induction t aid n devices db rule: reserve_devices.induct)
  case (3 t aid n device devices db)
  let ?g = "\<lparr>g_attempt_id = aid, g_uuid = gd_uuid device, g_name = gd_name device,
      g_memory_mib = gd_memory_mib device, g_allocated_at = t 0, g_released_at = None\<rparr>"
  note own = "3.prems"(3)
  then have ins: "insert_allocation ?g db = Inr (db\<lparr>attempt_gpus := attempt_gpus db @ [?g]\<rparr>)"
    using "3.prems"(4) by (auto simp: insert_allocation_def)
  have "\<exists>db'. reserve_devices (\<lambda>k. t (Suc k)) aid n devices (db\<lparr>attempt_gpus := attempt_gpus db @ [?g]\<rparr>) = Inr db'"
    using "3.prems" own by (intro "3.IH"[OF ins]) (auto simp: unreleased_def)
  with ins show ?case by simp
qed simp_all

lemma claim_run_total:
  assumes inv: "store_inv db" and r: "run_row db (r_id r) = Some r" and new: "attempt_row db aid = None"
  shows "\<exists>row db'. claim_run timing t aid wid detail r db = Inr (row, db')"
proof -
  let ?row = "new_attempt aid (r_id r) (r_generation r + 1) wid (t 0 + seconds (launch_seconds timing))
                  (gpu_count (spec_resources (r_spec r))) (t 0)"
  let ?db1 = "db\<lparr>attempts := attempts db @ [?row]\<rparr>"
  have "(r_id r, r_generation r + 1) \<notin> (\<lambda>a. (a_run_id a, a_generation a)) ` set (attempts db)"
  proof
    assume "(r_id r, r_generation r + 1) \<in> (\<lambda>a. (a_run_id a, a_generation a)) ` set (attempts db)"
    then obtain a where a: "a \<in> set (attempts db)" "a_run_id a = r_id r" "a_generation a = r_generation r + 1"
      by auto
    from attempt_row_of_mem[OF store_invD(9)[OF inv] a(1)] life_inv_attemptD[OF store_invD(2)[OF inv], of "a_id a"]
    have "attempt_ok (life_of db) (a_id a) (life_attempt_of a)" by simp
    with a r show False by (auto simp: attempt_ok_def)
  qed
  moreover have "aid \<notin> a_id ` set (attempts db)" using new by (simp add: attempt_row_def find_by_None)
  ultimately have ins: "insert_attempt ?row db = Inr ?db1"
    by (simp add: insert_attempt_ok new_attempt_def)
  have "\<exists>db'. event (t 1) (t 2) (r_id r) ''assigned'' (''attempt '' @ show_int (r_generation r + 1) @ detail)
      (upd_run (r_id r) (\<lambda>x. x\<lparr>r_status := starting, r_active_attempt := Some aid,
         r_generation := r_generation r + 1\<rparr>) ?db1) = Inr db'"
    using store_invD(4)[OF inv] r
    by (intro event_total events.upd_run_I) (simp_all add: keeps_run_def row_simps)
  with ins show ?thesis by (auto simp: claim_run_def Let_def)
qed

text \<open>
  An assignment request never fails on a database constraint. From a current worker, with
  a fresh attempt id and reservations that fit an \<open>int\<close>, \<open>assign\<close> always returns: with a pending
  launch, a new assignment, or nothing.
\<close>

theorem assign_never_fails:
  assumes "reachable timing db" and "worker_row db wid = Some w" and "w_session w = session"
    and "attempt_row db (fresh e 0) = None"
    and "\<bar>reserved_sum r_cpu_millis db wid\<bar> \<le> INT_MAX" and "\<bar>reserved_sum r_memory_mib db wid\<bar> \<le> INT_MAX"
  shows "\<exists>v db'. assign timing e wid session db = Inr (v, db')"
proof -
  note inv = store.reachable_inv[OF assms(1)]
  let ?gpu = "w_gpu_capable w \<and> w_gpu_ready w \<and> gpu_observed_fresh (clk e 0) w"
  let ?devices = "if ?gpu then free_gpus e db wid else []"
  have pending: "run_row db (a_run_id a) \<noteq> None" if "pending_launch (clk e 1) g wid db = Some a" for a g
  proof -
    have "a \<in> set (attempts db)"
      using that by (auto simp: pending_launch_def split: list.splits dest!: arg_cong[of _ _ set])
    from attempt_run[OF inv attempt_row_of_mem[OF store_invD(9)[OF inv] this]] show ?thesis by auto
  qed
  have claim: "\<exists>row db2 db3. claim_run timing t (fresh e 0) wid detail r db = Inr (row, db2) \<and>
      reserve_gpus t' (fresh e 0) (gpu_count (spec_resources (r_spec r))) ?devices db2 = Inr db3"
    if nx: "next_run e wanted db = Some r" and gpus: "r_gpu_count r \<le> int (length ?devices)"
    for t t' detail r wanted
  proof -
    note r = run_row_of_mem[OF store_invD(9)[OF inv] next_run_Some(1)[OF nx]]
    from claim_run_total[OF inv r assms(4)] obtain row db2 where
      ok: "claim_run timing t (fresh e 0) wid detail r db = Inr (row, db2)" by blast
    note eff = claim_run_effect[OF ok]
    from unknown_unallocated[OF store_invD(3)[OF inv] assms(4)]
    have "\<exists>db3. reserve_devices t' (fresh e 0) (nat (gpu_count (spec_resources (r_spec r)))) ?devices db2 = Inr db3"
      using gpus run_gpus[OF store_invD(3)[OF inv] next_run_Some(1)[OF nx]] eff
        free_gpus_distinct[OF store_invD(1)[OF inv], of e wid] free_gpus_unheld[of _ e db wid]
      by (intro reserve_devices_total) auto
    with ok show ?thesis by (auto simp: reserve_gpus_def)
  qed
  show ?thesis
  proof (cases "pending_launch (clk e 1) ?gpu wid db")
    case (Some a)
    with pending[OF Some] assms(2,3) show ?thesis
      by (auto simp: assign_def require_worker_def Let_def)
  next
    case None
    have ints: "as_int (reserved_sum r_cpu_millis db wid) = Inr (reserved_sum r_cpu_millis db wid)"
      "as_int (reserved_sum r_memory_mib db wid) = Inr (reserved_sum r_memory_mib db wid)"
      using assms(5,6) by (auto simp: as_int_def)
    let ?wanted = "\<lambda>r. r_gpu_count r \<le> int (length ?devices) \<and> r_available_at r \<le> clk e 2 \<and>
       r_cpu_millis r \<le> w_cpu_millis w - reserved_sum r_cpu_millis db wid \<and>
       r_memory_mib r \<le> w_memory_mib w - reserved_sum r_memory_mib db wid"
    show ?thesis
    proof (cases "next_run e ?wanted db")
      case none: None
      with None assms(2,3) ints show ?thesis by (simp add: assign_def require_worker_def Let_def)
    next
      case (Some r)
      from claim[OF Some, of "\<lambda>k. clk e (3 + k)" "'' assigned to '' @ wid" "\<lambda>k. clk e (6 + k)"]
        next_run_Some(3)[OF Some] obtain row db2 db3 where
        "claim_run timing (\<lambda>k. clk e (3 + k)) (fresh e 0) wid ('' assigned to '' @ wid) r db = Inr (row, db2)"
        "reserve_gpus (\<lambda>k. clk e (6 + k)) (fresh e 0) (gpu_count (spec_resources (r_spec r))) ?devices db2 = Inr db3"
        by blast
      with Some None assms(2,3) ints show ?thesis by (simp add: assign_def require_worker_def Let_def)
    qed
  qed
qed

theorem assign_never_fails_witness:
  "\<exists>v db'. assign default_Timing (demo_env 400 ''a'') ''w'' ''s'' demo_ready = Inr (v, db')"
proof -
  have "worker_row demo_ready ''w'' = Some (hd (workers demo_ready))"
    "w_session (hd (workers demo_ready)) = ''s''"
    "attempt_row demo_ready (fresh (demo_env 400 ''a'') 0) = None"
    "\<And>col. reserved_sum col demo_ready ''w'' = 0"
    by (simp_all add: demo_all reserved_sum_def pending_attempts_def)
  then show ?thesis by (intro assign_never_fails[OF demo_reachable(3)]) simp_all
qed

section \<open>GPUs\<close>

text \<open>
  C9: GPU accounting. No device is held by two attempts; an attempt whose runtime may still
  exist holds exactly the GPUs it asked for (none on Kubernetes, where the cluster places
  them), all devices of its own worker; an attempt whose cleanup is done is not live and
  holds none.
\<close>

theorem gpus_are_exclusive:
  assumes "reachable timing db" and "a \<in> set (attempts db)"
  shows "distinct (map g_uuid (unreleased (attempt_gpus db))) \<and>
    int (length (held db (a_id a))) =
      (if a_cleanup_status a = ''PENDING'' \<and> a_worker_id a \<noteq> ''@kubernetes'' then a_gpu_count a else 0) \<and>
    (\<forall>g\<in>set (held db (a_id a)). \<exists>d\<in>set (gpu_devices db).
        d_uuid d = g_uuid g \<and> d_worker_id d = a_worker_id a) \<and>
    (a_cleanup_status a \<noteq> ''PENDING'' \<longrightarrow> \<not> live (a_status a))"
proof -
  note inv = store.reachable_inv[OF assms(1)]
  note row = attempt_row_of_mem[OF store_invD(9)[OF inv] assms(2)]
  have account: "account_ok db (a_id a) a"
    using store_invD(8)[OF inv] row by (simp add: accounts_ok_def)
  moreover have "\<exists>d\<in>set (gpu_devices db). d_uuid d = uuid \<and> d_worker_id d = w"
    if "device_worker db uuid = Some w" for uuid w
    using that by (auto simp: device_worker_def dest: find_by_mem find_by_key)
  moreover have "attempt_ok (life_of db) (a_id a) (life_attempt_of a)"
    using life_inv_attemptD[OF store_invD(2)[OF inv], of "a_id a"] row by simp
  ultimately show ?thesis
    using store_invD(7)[OF inv] by (auto simp: exclusive_ok_def account_ok_def attempt_ok_def)
qed

theorem gpus_are_exclusive_witness:
  "distinct (map g_uuid (unreleased (attempt_gpus demo_assigned))) \<and>
    int (length (held demo_assigned ''a'')) = 1"
  using gpus_are_exclusive[OF demo_reachable(4), of demo_attempt]
  by (simp add: demo_assigned_eq demo_attempt_def)

text \<open>
  The Kubernetes backend never has more unresolved attempts than the admission limit,
  which lies between 1 and 100, when one is admitted.
\<close>

theorem admission_respects_limit:
  assumes "admit_kubernetes timing e n db = Inr (v, db')" and "db' \<noteq> db"
  shows "int (length (pending_attempts db' ''@kubernetes'')) \<le> n \<and> n \<le> 100 \<and>
    length (pending_attempts db' ''@kubernetes'') = Suc (length (pending_attempts db ''@kubernetes''))"
  using assms(1)
proof (cases rule: admit_cases)
  case unchanged
  with assms(2) show ?thesis by simp
next
  case (admitted r row active)
  note eff = claim_run_effect[OF admitted(6)]
  then have "pending_attempts db' ''@kubernetes'' = pending_attempts db ''@kubernetes'' @ [row]"
    using pending_attempts_append[of db' db row "''@kubernetes''"] by simp
  with admitted(2-4) show ?thesis by (auto simp: as_int_def split: if_splits)
qed

theorem admission_respects_limit_witness:
  "int (length (pending_attempts
     (committed (admit_kubernetes default_Timing (demo_env 400 ''a'') 1 demo_ready) demo_ready) ''@kubernetes'')) \<le> 1"
proof -
  let ?db = "committed (admit_kubernetes default_Timing (demo_env 400 ''a'') 1 demo_ready) demo_ready"
  have "?db \<noteq> demo_ready"
    by (simp add: admit_kubernetes_def pending_attempts_def as_int_def next_run_def claim_run_def
        insert_attempt_def new_attempt_def show_int_1 demo_all)
  moreover from this obtain v where "admit_kubernetes default_Timing (demo_env 400 ''a'') 1 demo_ready = Inr (v, ?db)"
    unfolding committed_def by (auto split: sum.splits)
  ultimately show ?thesis using admission_respects_limit by blast
qed

end
