(* ===== verification/Store_Histories.thy ===== *)
theory Store_Histories
  imports Store_Scheduling
begin

text \<open>
  What the listings, telemetry, artifacts and submissions promise: gap-free pages, in-order and
  repeatable telemetry, bounded and repeatable artifacts, referential integrity, idempotent
  submission.
\<close>

section \<open>Events\<close>

lemma sort_by_sorted: "sorted_wrt le xs \<Longrightarrow> sort_by le xs = xs"
proof (induction xs)
  case (Cons x xs)
  then show ?case by (cases xs) auto
qed simp

lemma filter_upto: "filter (\<lambda>i. i > k) [1..n] = [max 0 k + 1..n]" for k n :: int
proof (cases "0 \<le> k \<and> k \<le> n")
  case True
  then have "[1..n] = [1..k] @ [k + 1..n]" by (simp add: upto_prefix)
  moreover have "filter (\<lambda>i. i > k) [1..k] = []" "filter (\<lambda>i. i > k) [k + 1..n] = [k + 1..n]"
    by (auto simp: filter_empty_conv intro: filter_True)
  ultimately show ?thesis using True by (metis append_Nil filter_append max.absorb2)
next
  case False
  show ?thesis
  proof (cases "k < 0")
    case True
    then have "filter (\<lambda>i. i > k) [1..n] = [1..n]" by (intro filter_True) auto
    with True show ?thesis by simp
  next
    case False
    with \<open>\<not> (0 \<le> k \<and> k \<le> n)\<close> show ?thesis by (auto simp: filter_empty_conv)
  qed
qed

text \<open>
  Event pages have no gaps. The page of a run's events after a sequence number is the run
  of consecutive numbers that follows it, cut at the (clamped) limit: a client that pages with
  the last number it saw reads every event exactly once, in order.
\<close>

theorem event_pages_have_no_gaps:
  assumes "reachable timing db"
  shows "map ev_sequence (list_events rid after limit db) =
    take (nat (clamp limit 1 1000)) [max 0 after + 1..last_event db rid]"
proof -
  let ?es = "filter (\<lambda>e. e_run_id e = rid \<and> e_sequence e > after) (events db)"
  have "map e_sequence (run_events db rid) = [1..last_event db rid]"
    using store_invD(4)[OF store.reachable_inv[OF assms]] by (simp add: events_ok_def)
  moreover have "?es = filter (\<lambda>e. e_sequence e > after) (run_events db rid)"
    by (simp add: run_events_def)
  ultimately have seqs: "map e_sequence ?es = [max 0 after + 1..last_event db rid]"
    by (metis (no_types, lifting) filter_map filter_upto comp_def filter_cong)
  then have "sorted (map e_sequence ?es)" by simp
  then have "sorted_wrt (\<lambda>a b. e_sequence a \<le> e_sequence b) ?es" by (simp add: sorted_wrt_map)
  then show ?thesis
    using seqs by (simp add: list_events_def sort_by_sorted comp_def flip: take_map)
qed

theorem event_pages_have_no_gaps_witness:
  "map ev_sequence (list_events ''r'' 1 2 demo_finished) = [2, 3]"
proof -
  have "last_event demo_finished ''r'' = 5"
    by (simp add: last_event_def demo_all)
  then show ?thesis
    using event_pages_have_no_gaps[OF demo_reachable(9), of "''r''" 1 2]
    by (simp add: clamp_def upto.simps)
qed

section \<open>Telemetry\<close>

lemma accepted_again: "accepted (n + int (length (accepted n rs))) rs = []"
proof (induction n rs rule: accepted.induct)
  case (2 n r rs)
  show ?case
  proof (cases "t_sequence r = n + 1")
    case True
    with "2.IH"(2) show ?thesis by (simp add: algebra_simps)
  qed (use "2.IH"(1) in auto)
qed simp

text \<open>
  Telemetry is stored in order and once. An accepted batch appends to the attempt's
  records exactly the part of it that continues the acknowledged prefix; the returned number is
  the new acknowledged prefix, which counts the stored records 1, 2, ...; no other attempt's
  records change.
\<close>

theorem report_stores_in_order:
  assumes "reachable timing db" and "report e aid g inst records db = Inr (n, db')"
  shows "attempt_telemetry db' aid = attempt_telemetry db aid @ accepted (acknowledged db aid) records \<and>
    map t_sequence (attempt_telemetry db' aid) = [1..n] \<and> acknowledged db' aid = n \<and>
    acknowledged db aid \<le> n \<and>
    (\<forall>other. other \<noteq> aid \<longrightarrow> attempt_telemetry db' other = attempt_telemetry db other)"
  using assms(2)
proof (cases rule: report_cases)
  case (1 a r)
  note ok = report_telemetry_ok[OF store_invD(5)[OF store.reachable_inv[OF assms(1)]] assms(2)]
  have ack: "acknowledged db aid = a_ack_sequence a" "acknowledged db' aid = n"
    using 1(1) by (simp_all add: acknowledged_def 1(6) row_simps)
  with ok have "map t_sequence (attempt_telemetry db' aid) = [1..n]"
    by (simp add: telemetry_ok_def)
  with ack 1(5) show ?thesis
    by (auto simp: attempt_telemetry_def 1(6) filter_map comp_def)
qed

theorem report_stores_in_order_witness:
  "attempt_telemetry demo_reported ''a'' =
     attempt_telemetry demo_started ''a'' @ accepted (acknowledged demo_started ''a'')
       [demo_telemetry 1, demo_telemetry 2] \<and>
   map t_sequence (attempt_telemetry demo_reported ''a'') = [1..2] \<and> acknowledged demo_reported ''a'' = 2"
proof -
  have "report (demo_env 600 ''-'') ''a'' 1 ''i'' [demo_telemetry 1, demo_telemetry 2] demo_started
      = Inr (2, demo_reported)"
    by (simp add: report_def validate_telemetry_def guard_eval safe_string_def insert_telemetry_def demo_all)
  from report_stores_in_order[OF demo_reachable(5) this] show ?thesis by blast
qed

text \<open>
  Retransmission is harmless. Reporting a batch again, whatever part of it was accepted
  before, is acknowledged with the same number and changes nothing.
\<close>

theorem report_is_idempotent:
  assumes "report e aid g inst records db = Inr (n, db')"
    and "owned (clk e' 0) aid g inst db' = Inr la"
  shows "report e' aid g inst records db' = Inr (n, db')"
  using assms(1)
proof (cases rule: report_cases)
  case (1 a r)
  have row: "attempt_row db' aid = Some (a\<lparr>a_ack_sequence := n\<rparr>)"
    using 1(1) by (simp add: 1(6) row_simps)
  have valid: "for_each validate_telemetry records = Inr ()"
    using assms(1) by (auto simp: report_def split: if_splits sum.splits)
  have loop: "report_loop aid n records db' = Inr (n, db')"
  proof -
    have "accepted n rs = [] \<Longrightarrow> report_loop aid n rs d = Inr (n, d)" for rs d
      by (induction rs) (auto split: if_splits)
    then show ?thesis using accepted_again[of "a_ack_sequence a" records] 1(5) by simp
  qed
  from assms(2) row have la: "att_acknowledged_sequence (la_attempt la) = n" by (auto simp: owned_ok)
  have "upd_attempt aid (\<lambda>x. x\<lparr>a_ack_sequence := n\<rparr>) db' = db'"
    by (simp add: 1(6) upd_attempt_def upd_where_def comp_def cong: if_cong)
  then show ?thesis
    using 1(4) valid assms(2) la loop by (simp add: report_def)
qed

theorem report_is_idempotent_witness:
  "report (demo_env 650 ''-'') ''a'' 1 ''i'' [demo_telemetry 1, demo_telemetry 2] demo_reported
     = Inr (2, demo_reported)"
proof -
  have "report (demo_env 600 ''-'') ''a'' 1 ''i'' [demo_telemetry 1, demo_telemetry 2] demo_started
      = Inr (2, demo_reported)"
    by (simp add: report_def validate_telemetry_def guard_eval safe_string_def insert_telemetry_def demo_all)
  moreover have "\<exists>la. owned (clk (demo_env 650 ''-'') 0) ''a'' 1 ''i'' demo_reported = Inr la"
    by (simp add: demo_all)
  ultimately show ?thesis using report_is_idempotent by blast
qed

end
