(* ===== verification/Store_Contents.thy ===== *)
theory Store_Contents
  imports Store_Histories
begin

text \<open>
  What the store keeps: bounded and repeatable artifacts, referential integrity, submissions that
  stay, and the answer to an agent's inventory.
\<close>

section \<open>Artifacts\<close>



text \<open>
  What is published can be read. The artifact that \<open>publish_artifact\<close> returns, newly stored or
  found under the same path, is the one \<open>get_artifact\<close> returns for its id, it has the digest and
  the size that were asked for, and publishing it again changes nothing.
\<close>

theorem published_artifacts_can_be_read:
  assumes "reachable timing db" and "publish_artifact e value g inst db = Inr (v, db')"
  shows "get_artifact (art_id v) db' = Inr v \<and> art_sha256 v = art_sha256 value \<and>
    art_size v = art_size value \<and> art_path v = art_path value \<and>
    (\<forall>la e'. owned (clk e' 0) (art_attempt_id value) g inst db' = Inr la \<longrightarrow>
       run_status (la_run la) = finalizing \<longrightarrow>
       publish_artifact e' value g inst db' = Inr (v, db'))"
proof -
  have ok: "artifacts_ok db'"
    using publish_artifacts_ok[OF _ assms(2)] store_invD(6)[OF store.reachable_inv[OF assms(1)]] by blast
  obtain f where f: "f \<in> set (attempt_artifacts db' (art_attempt_id value))" "f_path f = art_path value"
    "artifact_of f = v" "art_sha256 v = art_sha256 value" "art_size v = art_size value"
    using assms(2)
  proof (cases rule: publish_cases)
    case (existing f)
    then show ?thesis using that by auto
  next
    case (published a r)
    then show ?thesis
      by (intro that[of "new_artifact value"])
        (auto simp: insert_artifact_ok attempt_artifacts_def new_artifact_def artifact_of_def)
  qed
  have "find_by f_id (artifacts db') (f_id f) = Some f"
    using ok f(1) by (intro find_by_of_mem) (auto simp: artifacts_ok_def attempt_artifacts_def)
  then have "get_artifact (art_id v) db' = Inr v"
    using f(3) by (auto simp: get_artifact_def artifact_of_def)
  moreover have "find_by f_path (attempt_artifacts db' (art_attempt_id value)) (art_path value) = Some f"
    using ok find_by_of_mem[of f_path _ f] f(1,2) by (auto simp: artifacts_ok_def)
  ultimately show ?thesis
    using f by (auto simp: publish_artifact_def Let_def artifact_of_def)
qed

theorem published_artifacts_can_be_read_witness:
  "get_artifact ''f'' demo_published = Inr demo_artifact"
proof -
  have "publish_artifact (demo_env 800 ''-'') demo_artifact 1 ''i'' demo_collecting
      = Inr (demo_artifact, demo_published)"
    by (simp add: publish_artifact_def demo_artifact_def attempt_artifacts_def artifact_total_def
        as_uint64_def as_int_def insert_artifact_def demo_all)
  from published_artifacts_can_be_read[OF demo_reachable(7) this]
  show ?thesis by (simp add: demo_artifact_def)
qed

section \<open>Integrity\<close>



section \<open>Submission\<close>

lemma submission_kept:
  assumes "find_by sub_key (submissions db) key = Some s" and "insert_submission x db = Inr db'"
  shows "find_by sub_key (submissions db') key = Some s"
  using assms by (auto simp: insert_submission_def insert_unique_def find_by_append split: if_splits)

lemma inventory_submissions:
  "report_gpu_inventory e wid session snap db = Inr (u, db') \<Longrightarrow> submissions db' = submissions db"
  by (auto dest!: inventory_frame)

text \<open>A stored submission is never changed: an invariant of every operation.\<close>

interpretation submission: statement_invariant "\<lambda>db. find_by sub_key (submissions db) key = Some s"
  for key s
proof unfold_locales
  fix db db' e aid g inst records n
  assume "find_by sub_key (submissions db) key = Some s" "report e aid g inst records db = Inr (n, db')"
  then show "find_by sub_key (submissions db') key = Some s"
    by (elim report_cases) (simp add: upd_attempt_def)
next
  fix db db' e art g inst v
  assume "find_by sub_key (submissions db) key = Some s" "publish_artifact e art g inst db = Inr (v, db')"
  then show "find_by sub_key (submissions db') key = Some s"
    by (elim publish_cases) (auto simp: insert_artifact_ok)
qed (auto simp: event_ok insert_run_ok insert_attempt_ok insert_sweep_def dest!: inventory_submissions
      simp: insert_unique_def insert_allocation_def release_gpus_def upd_worker_def upd_run_def upd_attempt_def
      intro: submission_kept split: if_splits)

lemma submission_steps:
  assumes "(store_step timing)\<^sup>*\<^sup>* db db'" and "find_by sub_key (submissions db) key = Some s"
  shows "find_by sub_key (submissions db') key = Some s"
  using assms by (induction rule: rtranclp_induct) (auto intro: submission.store_step_I)

lemma submit_stored:
  assumes "submit e spec key fp db = Inr (r, db')"
  obtains s row where "find_by sub_key (submissions db') key = Some s" "sub_fingerprint s = fp"
    "run_row db' (sub_run_id s) = Some row" "run_id r = sub_run_id s" "run_spec r = r_spec row"
proof (cases "find_by sub_key (submissions db) key")
  case (Some s)
  then obtain row where row: "run_row db (sub_run_id s) = Some row"
    and db': "sub_fingerprint s = fp" "db' = db" "r = run_of row"
    using assms by (auto simp: submit_def split: sum.splits if_splits option.splits)
  show ?thesis
    by (rule that[of s row]) (use Some row db' run_row_key[OF row] in \<open>simp_all add: run_of_def\<close>)
next
  case None
  let ?row = "new_run (fresh e 0) spec None None (clk e 0)"
    and ?s = "\<lparr>sub_key = key, sub_fingerprint = fp, sub_run_id = fresh e 0\<rparr>"
  from None assms obtain db1 db2 where ins: "insert_run ?row db = Inr db1" "insert_submission ?s db1 = Inr db2"
    and ev: "event (clk e 1) (clk e 2) (r_id ?row) ''submitted'' ''run accepted'' db2 = Inr db'"
    and r: "r = run_of ?row"
    by (auto simp: submit_def create_run_def Let_def numeral_2_eq_2 split: sum.splits)
  have new: "run_row db1 (fresh e 0) = Some ?row"
    using ins(1) by (auto simp: insert_run_def run_row_def new_run_def find_by_insert_unique split: sum.splits)
  have sub: "find_by sub_key (submissions db2) key = Some ?s" and same: "runs db2 = runs db1"
    using ins(2) find_by_insert_unique[of sub_key _ ?s]
    by (auto simp: insert_submission_def split: sum.splits)
  show ?thesis
    using ev r new sub same
    by (intro that[of ?s "bump (clk e 1) ?row"])
      (auto simp: event_ok upd_run_def run_of_def run_row_def find_by_upd_key bump_def new_run_def)
qed

text \<open>
  Submission is idempotent. Once a key has been accepted, repeating the request at any later
  time returns the same run with the same specification and changes nothing, and a different
  request under that key is refused as a conflict.
\<close>

theorem submission_is_idempotent:
  assumes "reachable timing db" and "submit e spec key fp db = Inr (r, db')"
    and "(store_step timing)\<^sup>*\<^sup>* db' db''" and "validate_submission spec' = Inr ()"
  shows "(\<exists>r'. submit e' spec' key fp db'' = Inr (r', db'') \<and> run_id r' = run_id r \<and> run_spec r' = run_spec r) \<and>
    (fp' \<noteq> fp \<longrightarrow> submit e' spec' key fp' db'' =
       throw conflict ''idempotency key already identifies another request'')"
proof -
  from assms(2) obtain s row where s: "find_by sub_key (submissions db') key = Some s" "sub_fingerprint s = fp"
    and row: "run_row db' (sub_run_id s) = Some row" and r: "run_id r = sub_run_id s" "run_spec r = r_spec row"
    by (rule submit_stored)
  have "reachable timing db'" using assms(1,2) by (auto intro: reach.reach_step store_step.intros)
  from store.steps_abs[OF assms(3) store.reachable_inv[OF this]]
  have "life_step\<^sup>*\<^sup>* (life_of db') (life_of db'')" .
  from life_steps_spec[OF this life_row[OF row]]
  obtain row' where row': "run_row db'' (sub_run_id s) = Some row'" "r_spec row' = r_spec row" by auto
  show ?thesis
    using submission_steps[OF assms(3) s(1)] s(2) row' r assms(4) run_row_key[OF row'(1)]
    by (simp add: submit_def run_of_def)
qed

theorem submission_is_idempotent_witness:
  "(\<exists>r'. submit (demo_env 1000 ''q'') demo_spec ''key'' ''fp'' demo_submitted = Inr (r', demo_submitted) \<and>
     run_id r' = ''r'' \<and> run_spec r' = demo_spec) \<and>
   submit (demo_env 1000 ''q'') demo_spec ''key'' ''other'' demo_submitted =
     throw conflict ''idempotency key already identifies another request''"
proof -
  have "submit (demo_env 100 ''r'') demo_spec ''key'' ''fp'' empty_db
      = Inr (run_of (new_run ''r'' demo_spec None None 100), demo_submitted)"
    unfolding demo_submitted_eq
    by (simp add: submit_def create_run_def insert_run_def insert_submission_def empty_db_def
        new_run_def demo_eval)
  from submission_is_idempotent[OF reach.reach_init this rtranclp.rtrancl_refl demo_spec_valid]
  show ?thesis by (fastforce simp: run_of_def new_run_def)
qed

section \<open>Inventories\<close>

definition live_attempt :: "db \<Rightarrow> string \<Rightarrow> bool" where
  "live_attempt db aid \<longleftrightarrow> (\<exists>a. attempt_row db aid = Some a \<and> live (a_status a))"

lemma reconcile_loop_filter:
  assumes inv: "store_inv db" and "reconcile_loop worker db stop aids = Inr stop'"
  shows "stop' = stop @ filter (\<lambda>aid. \<not> live_attempt db aid) aids"
  using assms(2)
proof (induction aids arbitrary: stop)
  case (Cons aid aids)
  show ?case
  proof (cases "attempt_row db aid")
    case None
    with Cons show ?thesis by (fastforce simp: attempt_with_run_def live_attempt_def)
  next
    case (Some a)
    from attempt_run[OF inv Some] obtain r where r: "run_row db (a_run_id a) = Some r" .
    have "text_of (r_active_attempt r) = aid" if "live (a_status a)"
      using live_is_current[OF store_invD(2)[OF inv], of aid "life_attempt_of a"] Some r that
      by (auto simp: text_of_def)
    with Cons Some r show ?thesis
      by (fastforce simp: attempt_with_run_def live_attempt_def split: if_splits)
  qed
qed simp

lemma reconcile_loop_owner:
  assumes inv: "store_inv db" and "reconcile_loop worker db stop aids = Inr stop'"
    and "aid \<in> set aids" "attempt_row db aid = Some a"
  shows "a_worker_id a = worker"
  using assms(2,3)
proof (induction aids arbitrary: stop)
  case (Cons b aids)
  show ?case
  proof (cases "b = aid")
    case True
    from attempt_run[OF inv assms(4)] obtain r where "run_row db (a_run_id a) = Some r" .
    with Cons.prems(1) True assms(4) show ?thesis
      by (auto simp: attempt_with_run_def split: if_splits)
  next
    case False
    with Cons show ?thesis by (auto split: option.splits if_splits prod.splits)
  qed
qed simp

text \<open>
  Reconciliation stops what must not run. When a worker's inventory is accepted, the answer
  is, in order, exactly the observed ids that are not live attempts: unknown to the store,
  finished, or fenced off by a newer attempt. Every attempt of the inventory known to the store is the
  worker's own.
\<close>

theorem reconcile_stops_exactly_the_dead:
  assumes "reachable timing db" and "reconcile worker session observed db = Inr stop"
  shows "stop = filter (\<lambda>aid. \<not> live_attempt db aid) observed \<and> length observed \<le> 1000 \<and>
    (\<forall>aid\<in>set observed. \<forall>a. attempt_row db aid = Some a \<longrightarrow> a_worker_id a = worker)"
proof -
  note inv = store.reachable_inv[OF assms(1)]
  from assms(2) have loop: "reconcile_loop worker db [] observed = Inr stop" and "length observed \<le> 1000"
    by (auto simp: reconcile_def split: if_splits sum.splits)
  moreover have "a_worker_id a = worker"
    if "aid \<in> set observed" "attempt_row db aid = Some a" for aid a
    by (rule reconcile_loop_owner[OF inv loop that])
  ultimately show ?thesis using reconcile_loop_filter[OF inv loop] by simp
qed

theorem reconcile_stops_exactly_the_dead_witness:
  "reconcile ''w'' ''s'' [''a'', ''ghost''] demo_started = Inr [''ghost''] \<and>
   [''ghost''] = filter (\<lambda>aid. \<not> live_attempt demo_started aid) [''a'', ''ghost'']"
proof -
  have run: "reconcile ''w'' ''s'' [''a'', ''ghost''] demo_started = Inr [''ghost'']"
    by (simp add: reconcile_def attempt_with_run_def live_def demo_all)
  with reconcile_stops_exactly_the_dead[OF demo_reachable(5) run] show ?thesis by blast
qed

end
