(* ===== verification/Run_Service.thy ===== *)
theory Run_Service
  imports Store_Contents
begin

text \<open>
  \<^verbatim>\<open>src/application/runs.cpp\<close>, \<^verbatim>\<open>src/application/capacity.cpp\<close> and \<^verbatim>\<open>src/domain/capacity.cpp\<close>: the services
  the HTTP interface calls, over the store.
\<close>

section \<open>Runs\<close>

definition check_key :: "string \<Rightarrow> unit result" where
  "check_key key =
     (if key = [] \<or> length key > 200
      then throw invalid ''Idempotency-Key must contain 1 to 200 characters'' else Inr ())"

definition service_submit :: "env \<Rightarrow> RunSpec \<Rightarrow> string \<Rightarrow> string \<Rightarrow> db \<Rightarrow> (Run \<times> db) result" where
  "service_submit e spec key fingerprint db =
     (case validate_submission spec of
        Inl ex \<Rightarrow> Inl ex
      | Inr _ \<Rightarrow>
        (case check_key key of Inl ex \<Rightarrow> Inl ex | Inr _ \<Rightarrow> submit e spec key fingerprint db))"

definition service_list :: "env \<Rightarrow> int \<Rightarrow> string \<Rightarrow> string \<Rightarrow> db \<Rightarrow> Run list result" where
  "service_list e limit after status db =
     (if limit < 1 \<or> limit > 200 then throw invalid ''limit must be between 1 and 200''
      else case (if status \<noteq> [] then parse_status status else Inr queued) of
        Inl ex \<Rightarrow> Inl ex
      | Inr _ \<Rightarrow> Inr (list_runs e limit after status db))"

definition service_sweep :: "env \<Rightarrow> SweepSpec \<Rightarrow> string \<Rightarrow> string \<Rightarrow> db \<Rightarrow> (Sweep \<times> db) result" where
  "service_sweep e spec key fingerprint db =
     (case check_key key of
        Inl ex \<Rightarrow> Inl ex
      | Inr _ \<Rightarrow>
        (case expand_sweep (sweep_base spec) (sweep_grid spec) of
           Inl ex \<Rightarrow> Inl ex
         | Inr specs \<Rightarrow> submit_sweep e spec specs key fingerprint db))"

definition service_rerun :: "(string \<Rightarrow> string) \<Rightarrow> env \<Rightarrow> string \<Rightarrow> string \<Rightarrow> db \<Rightarrow> (Run \<times> db) result" where
  "service_rerun sha e rid key db =
     (case check_key key of Inl ex \<Rightarrow> Inl ex | Inr _ \<Rightarrow> rerun sha e rid key db)"

text \<open>The listings of one run first look it up.\<close>

definition service_attempts :: "env \<Rightarrow> string \<Rightarrow> db \<Rightarrow> Attempt list result" where
  "service_attempts e rid db =
     (case get_run rid db of Inl ex \<Rightarrow> Inl ex | Inr _ \<Rightarrow> Inr (list_attempts e rid db))"

definition service_events :: "string \<Rightarrow> int \<Rightarrow> int \<Rightarrow> db \<Rightarrow> Event list result" where
  "service_events rid after limit db =
     (case get_run rid db of Inl ex \<Rightarrow> Inl ex | Inr _ \<Rightarrow> Inr (list_events rid after limit db))"

definition service_telemetry ::
    "string \<Rightarrow> string \<Rightarrow> int \<Rightarrow> int \<Rightarrow> string \<Rightarrow> string \<Rightarrow> db \<Rightarrow> Telemetry list result" where
  "service_telemetry rid attempt after limit kind name db =
     (case get_run rid db of
        Inl ex \<Rightarrow> Inl ex | Inr _ \<Rightarrow> Inr (list_telemetry rid attempt after limit kind name db))"

section \<open>Capacity\<close>

record GpuNodeCapacity =
  gn_name :: string
  gn_capacity :: int
  gn_allocatable :: int
  gn_reserved :: int
  gn_ready :: bool
  gn_schedulable :: bool
  gn_eligible :: bool

record ClusterGpuSnapshot =
  cs_nodes :: "GpuNodeCapacity list"
  cs_pending :: int
  cs_observed_at :: "int option"
  cs_age_seconds :: "int option"
  cs_fresh :: bool

record CapacityPage =
  cp_backend :: string
  cp_gpu :: GpuCapacityTotals
  cp_workers :: "Worker list"
  cp_nodes :: "GpuNodeCapacity list"
  cp_next_cursor :: string

definition add_node :: "GpuCapacityTotals \<Rightarrow> GpuNodeCapacity \<Rightarrow> GpuCapacityTotals" where
  "add_node sums node = sums\<lparr>
     gc_capacity := gc_capacity sums + gn_capacity node,
     gc_allocatable := gc_allocatable sums + gn_allocatable node,
     gc_reserved := gc_reserved sums + gn_reserved node,
     gc_available := gc_available sums +
       (if gn_eligible node then max 0 (gn_allocatable node - gn_reserved node) else 0)\<rparr>"

definition summarize :: "ClusterGpuSnapshot \<Rightarrow> GpuCapacityTotals" where
  "summarize snapshot =
     foldl add_node \<lparr>gc_capacity = 0, gc_allocatable = 0, gc_reserved = 0, gc_available = 0,
       gc_pending = cs_pending snapshot, gc_fresh = cs_fresh snapshot,
       gc_observed_at = cs_observed_at snapshot, gc_age_seconds = cs_age_seconds snapshot\<rparr> (cs_nodes snapshot)"

text \<open>The loop over the nodes: skip those up to the cursor, stop at the limit.\<close>

fun collect_nodes :: "string \<Rightarrow> nat \<Rightarrow> GpuNodeCapacity list \<Rightarrow> GpuNodeCapacity list \<Rightarrow> GpuNodeCapacity list" where
  "collect_nodes after limit acc [] = acc"
| "collect_nodes after limit acc (node # nodes) =
     (if gn_name node \<le> after then collect_nodes after limit acc nodes
      else if length acc = limit then acc
      else collect_nodes after limit (acc @ [node]) nodes)"

definition capacity_get ::
    "Timing \<Rightarrow> env \<Rightarrow> ClusterGpuSnapshot option \<Rightarrow> int \<Rightarrow> string \<Rightarrow> db \<Rightarrow> CapacityPage result" where
  "capacity_get timing e cluster limit after db =
     (if limit < 1 \<or> limit > 200 \<or> length after > 253 then throw invalid ''invalid capacity pagination''
      else case cluster of
        Some snapshot \<Rightarrow>
          (let nodes = collect_nodes after (nat limit) [] (cs_nodes snapshot) in
           Inr \<lparr>cp_backend = ''kubernetes'', cp_gpu = summarize snapshot, cp_workers = [], cp_nodes = nodes,
             cp_next_cursor = (if length nodes = nat limit then gn_name (last nodes) else [])\<rparr>)
      | None \<Rightarrow>
          (case list_workers timing e limit after db of
             Inl ex \<Rightarrow> Inl ex
           | Inr ws \<Rightarrow>
             Inr \<lparr>cp_backend = ''docker'', cp_gpu = gpu_capacity timing e db, cp_workers = ws, cp_nodes = [],
               cp_next_cursor = (if length ws = nat limit then wk_id (last ws) else [])\<rparr>))"

section \<open>Properties\<close>

definition sweep_runs :: "db \<Rightarrow> string \<Rightarrow> runs_row list" where
  "sweep_runs db sid = filter (\<lambda>r. r_sweep_id r = Some sid) (runs db)"

lemma bump_sweep_runs:
  "map r_spec (filter (\<lambda>r. r_sweep_id r = Some sid) (upd_where P (bump t) rows)) =
     map r_spec (filter (\<lambda>r. r_sweep_id r = Some sid) rows)"
  by (induction rows) (auto simp: bump_def)

lemma event_sweep_runs:
  "event t1 t2 rid kind detail db = Inr db' \<Longrightarrow> map r_spec (sweep_runs db' sid) = map r_spec (sweep_runs db sid)"
  by (auto simp: event_ok sweep_runs_def upd_run_def bump_sweep_runs)

lemma insert_sweep_runs_specs:
  "insert_sweep_runs t ids sid specs db = Inr db' \<Longrightarrow>
     map r_spec (sweep_runs db' sid) = map r_spec (sweep_runs db sid) @ specs \<and> sweeps db' = sweeps db \<and>
     (\<forall>s\<in>set specs. validate_submission s = Inr ())"
proof (induction t ids sid specs db arbitrary: db' rule: insert_sweep_runs.induct)
  case (2 t ids sid spec specs db)
  from "2.prems" obtain db1 db2 where v: "validate_submission spec = Inr ()"
    and ins: "insert_run (new_run (ids 0) spec (Some sid) None (t 0)) db = Inr db1"
    and ev: "event (t 1) (t 2) (ids 0) ''submitted'' (''sweep '' @ sid) db1 = Inr db2"
    and rest: "insert_sweep_runs (\<lambda>k. t (3 + k)) (\<lambda>k. ids (Suc k)) sid specs db2 = Inr db'"
    by (auto split: sum.splits)
  have "map r_spec (sweep_runs db1 sid) = map r_spec (sweep_runs db sid) @ [spec]" "sweeps db1 = sweeps db"
    using ins by (auto simp: insert_run_ok sweep_runs_def new_run_def)
  with "2.IH"[OF v ins ev rest] event_sweep_runs[OF ev, of sid] v ev
  show ?case by (auto simp: event_ok)
qed simp


definition demo_sweep_env :: env where
  "demo_sweep_env = \<lparr>clk = int, fresh = (\<lambda>k. replicate k CHR ''x''), text_le = (\<le>), skip_locked = (\<lambda>_. False)\<rparr>"

lemma demo_item_valid: "validate_submission (demo_spec\<lparr>spec_parameters := [(''lr'', SInt i)]\<rparr>) = Inr ()"
  using demo_spec_valid
  by (simp add: validate_submission_ok validate_ok_iff)
    (simp add: demo_spec_def safe_string_def check_parameter_def guard_eval)

lemma demo_item_valid': "validate (demo_spec\<lparr>spec_parameters := [(''lr'', SInt i)]\<rparr>) = Inr ()"
  using demo_item_valid[of i] by (simp add: validate_submission_ok)

lemma demo_expand:
  "expand_sweep demo_spec [(''lr'', [SInt 1, SInt 2])] =
     Inr [demo_spec\<lparr>spec_parameters := [(''lr'', SInt 1)]\<rparr>, demo_spec\<lparr>spec_parameters := [(''lr'', SInt 2)]\<rparr>]"
proof -
  have "validate demo_spec = Inr ()" using demo_spec_valid by (simp add: validate_submission_ok)
  moreover have "sweep_bytes demo_spec [(''lr'', [SInt 1, SInt 2])] \<le> 16 * 1024 * 1024 div 2"
    by (simp add: sweep_bytes_def demo_spec_def scalar_bytes_def)
  moreover have "spec_parameters demo_spec = []" by (simp add: demo_spec_def)
  ultimately show ?thesis
    by (simp add: expand_sweep_def expand_dimension_def expand_item_def set_parameter_def demo_item_valid' Let_def
        numeral_2_eq_2[symmetric])
qed


lemma collect_nodes_take:
  assumes "length acc \<le> limit"
  shows "collect_nodes after limit acc nodes =
    acc @ take (limit - length acc) (filter (\<lambda>n. \<not> gn_name n \<le> after) nodes)"
  using assms
proof (induction nodes arbitrary: acc)
  case (Cons node nodes)
  show ?case
  proof (cases "gn_name node \<le> after \<or> length acc = limit")
    case False
    then have "limit - length acc = Suc (limit - length (acc @ [node]))" using Cons.prems by (simp, arith)
    with False Cons.IH[of "acc @ [node]"] Cons.prems show ?thesis by simp
  qed (use Cons in auto)
qed simp

lemma filter_after_last:
  assumes "sorted_wrt (<) (map gn_name nodes)" and "ns = take k (filter (\<lambda>n. after < gn_name n) nodes)" and "ns \<noteq> []"
  shows "ns @ filter (\<lambda>n. gn_name (last ns) < gn_name n) nodes = filter (\<lambda>n. after < gn_name n) nodes"
proof -
  let ?all = "filter (\<lambda>n. after < gn_name n) nodes"
  have split: "?all = ns @ drop k ?all" by (simp add: assms(2))
  have sorted: "sorted_wrt (\<lambda>a b. gn_name a < gn_name b) ?all"
    using assms(1) by (simp add: sorted_wrt_map sorted_wrt_filter)
  then have "sorted_wrt (\<lambda>a b. gn_name a < gn_name b) (ns @ drop k ?all)" by (simp only: split[symmetric])
  then have order: "sorted_wrt (\<lambda>a b. gn_name a < gn_name b) ns" "\<And>x y. x \<in> set ns \<Longrightarrow> y \<in> set (drop k ?all) \<Longrightarrow> gn_name x < gn_name y"
    by (simp_all only: sorted_wrt_append)
  have "gn_name x \<le> gn_name (last ns)" if "x \<in> set ns" for x
  proof -
    have "ns = butlast ns @ [last ns]" using assms(3) by simp
    with order(1) have "\<forall>y\<in>set (butlast ns). gn_name y < gn_name (last ns)"
      by (metis list.set_intros(1) sorted_wrt_append)
    with that \<open>ns = butlast ns @ [last ns]\<close> show ?thesis
      by (metis Un_iff empty_iff empty_set less_imp_le order_refl set_ConsD set_append)
  qed
  then have "filter (\<lambda>n. gn_name (last ns) < gn_name n) ns = []" by (auto simp: filter_empty_conv not_less)
  moreover have "filter (\<lambda>n. gn_name (last ns) < gn_name n) (drop k ?all) = drop k ?all"
    using order(2) assms(3) by (intro filter_True) simp
  ultimately have "filter (\<lambda>n. gn_name (last ns) < gn_name n) (ns @ drop k ?all) = drop k ?all"
    by (simp only: filter_append append_Nil)
  then have "filter (\<lambda>n. gn_name (last ns) < gn_name n) ?all = drop k ?all" by (simp only: split[symmetric])
  moreover have "last ns \<in> set ?all" using assms(2,3) by (metis in_set_takeD last_in_set)
  then have "after < gn_name (last ns)" by simp
  then have "filter (\<lambda>n. gn_name (last ns) < gn_name n) ?all = filter (\<lambda>n. gn_name (last ns) < gn_name n) nodes"
    by (auto intro!: filter_cong)
  ultimately show ?thesis using split by simp
qed

text \<open>
  Capacity pages are complete and disjoint. For nodes listed by name, a page holds the first
  nodes after the cursor, no more than the limit; when it returns a cursor, the page's nodes and
  those after the new cursor are all the nodes after the old one, and when it returns none, nothing
  is left.
\<close>

theorem capacity_pages_are_complete:
  assumes "capacity_get timing e (Some snapshot) limit after db = Inr page"
    and "sorted_wrt (<) (map gn_name (cs_nodes snapshot))" and "\<forall>n\<in>set (cs_nodes snapshot). gn_name n \<noteq> []"
  shows "length (cp_nodes page) \<le> nat limit \<and>
    cp_nodes page @ (if cp_next_cursor page = [] then [] else filter (\<lambda>n. cp_next_cursor page < gn_name n) (cs_nodes snapshot)) =
      filter (\<lambda>n. after < gn_name n) (cs_nodes snapshot)"
proof -
  let ?all = "filter (\<lambda>n. after < gn_name n) (cs_nodes snapshot)"
  from assms(1) have limit: "1 \<le> limit" and nodes: "cp_nodes page = take (nat limit) ?all"
    and cursor: "cp_next_cursor page = (if length (cp_nodes page) = nat limit then gn_name (last (cp_nodes page)) else [])"
    using collect_nodes_take[of "[]" "nat limit" after "cs_nodes snapshot"]
    by (auto simp: capacity_get_def Let_def not_le split: if_splits)
  show ?thesis
  proof (cases "length (cp_nodes page) = nat limit")
    case True
    then have ne: "cp_nodes page \<noteq> []" using limit by auto
    then have "last (cp_nodes page) \<in> set (cs_nodes snapshot)"
      using nodes by (metis filter_is_subset in_set_takeD last_in_set subsetD)
    with assms(3) True cursor filter_after_last[OF assms(2) nodes ne] show ?thesis by simp
  next
    case False
    then have "cp_nodes page = ?all" using nodes by (simp add: min_def split: if_splits)
    moreover have "cp_next_cursor page = []" using False cursor by simp
    moreover have "length (cp_nodes page) \<le> nat limit" by (simp add: nodes)
    ultimately show ?thesis by simp
  qed
qed

definition demo_node :: "string \<Rightarrow> GpuNodeCapacity" where
  "demo_node name = \<lparr>gn_name = name, gn_capacity = 8, gn_allocatable = 8, gn_reserved = 2, gn_ready = True,
     gn_schedulable = True, gn_eligible = True\<rparr>"

theorem capacity_pages_are_complete_witness:
  "\<exists>page. capacity_get default_Timing demo_sweep_env
       (Some \<lparr>cs_nodes = [demo_node ''a'', demo_node ''b'', demo_node ''c''], cs_pending = 0, cs_observed_at = None,
         cs_age_seconds = None, cs_fresh = True\<rparr>) 1 ''a'' empty_db = Inr page \<and>
     cp_nodes page @ [demo_node ''c''] = [demo_node ''b'', demo_node ''c'']"
proof -
  let ?snap = "\<lparr>cs_nodes = [demo_node ''a'', demo_node ''b'', demo_node ''c''], cs_pending = 0, cs_observed_at = None,
         cs_age_seconds = None, cs_fresh = True\<rparr>"
  have order: "''a'' < ''b''" "''b'' < ''c''" "''a'' < ''c''" "\<not> ''a'' < ''a''" "\<not> ''b'' < ''a''" "\<not> ''b'' < ''b''"
    by (simp_all add: less_char_def)
  obtain page where run: "capacity_get default_Timing demo_sweep_env (Some ?snap) 1 ''a'' empty_db = Inr page"
    and cursor: "cp_next_cursor page = ''b''"
    using order by (simp add: capacity_get_def demo_node_def Let_def not_le[symmetric])
  have "sorted_wrt (<) (map gn_name (cs_nodes ?snap))" using order by (simp add: demo_node_def)
  from capacity_pages_are_complete[OF run this] cursor order run show ?thesis
    by (simp add: demo_node_def)
qed

end
