(* ===== verification/Crypto.thy ===== *)
theory Crypto
  imports Domain
begin

text \<open>
  \<^verbatim>\<open>src/support/crypto.cpp\<close>: hexadecimal identifiers, digests and signatures. OpenSSL's digest, HMAC and
  random bytes are parameters; each is a function to bytes.
\<close>

type_synonym byte = "8 word"

definition hex_digits :: string where
  "hex_digits = ''0123456789abcdef''"

definition hex_pair :: "byte \<Rightarrow> string" where
  "hex_pair b = [hex_digits ! (unat b div 16), hex_digits ! (unat b mod 16)]"

definition hex :: "byte list \<Rightarrow> string" where
  "hex bytes = concat (map hex_pair bytes)"

text \<open>The sixteen bytes that \<open>RAND_bytes\<close> wrote.\<close>

definition random_id :: "(nat \<Rightarrow> byte) \<Rightarrow> string" where
  "random_id bytes = hex (map bytes [0..<16])"

definition sha256 :: "(string \<Rightarrow> byte list) \<Rightarrow> string \<Rightarrow> string" where
  "sha256 digest data = hex (digest data)"

text \<open>The digest of a file is that of its content, read in blocks; a missing file is an error.\<close>

definition sha256_file :: "(string \<Rightarrow> byte list) \<Rightarrow> string option \<Rightarrow> string result" where
  "sha256_file digest file =
     (case file of None \<Rightarrow> Inl (StdError ''cannot open file for checksum'') | Some c \<Rightarrow> Inr (sha256 digest c))"

definition sign :: "(string \<Rightarrow> string \<Rightarrow> byte list) \<Rightarrow> string \<Rightarrow> string \<Rightarrow> string" where
  "sign hmac secret message = hex (hmac secret message)"

definition constant_equal :: "string \<Rightarrow> string \<Rightarrow> bool" where
  "constant_equal left right \<longleftrightarrow> length left = length right \<and> list_all2 (=) left right"

lemma constant_equal_iff [simp]: "constant_equal a b \<longleftrightarrow> a = b"
  by (auto simp: constant_equal_def list.rel_eq)

lemma length_hex [simp]: "length (hex bytes) = 2 * length bytes"
  by (induction bytes) (simp_all add: hex_def hex_pair_def)

lemma length_random_id: "length (random_id bytes) = 32"
  by (simp add: random_id_def)

lemma hex_digit: "n < 16 \<Longrightarrow> is_lower_hex (hex_digits ! n)"
proof -
  have "\<forall>n\<in>set [0..<16]. is_lower_hex (hex_digits ! n)" by code_simp
  then show "n < 16 \<Longrightarrow> is_lower_hex (hex_digits ! n)" by simp
qed

lemma hex_lower: "list_all is_lower_hex (hex bytes)"
proof -
  have "is_lower_hex (hex_digits ! (unat b div 16))" "is_lower_hex (hex_digits ! (unat b mod 16))" for b :: byte
  proof -
    have "unat b < 2 ^ LENGTH(8)" by (rule unsigned_less)
    then show "is_lower_hex (hex_digits ! (unat b div 16))" by (intro hex_digit) simp
  qed (simp add: hex_digit)
  then show ?thesis by (induction bytes) (simp_all add: hex_def hex_pair_def)
qed

end
