(* ===== verification/Blob_Storage.thy ===== *)
theory Blob_Storage
  imports Crypto
begin

text \<open>
  \<^verbatim>\<open>src/storage/filesystem.cpp\<close>: artifact contents in a directory tree. The disk is the map from paths to
  contents of regular files. Every system call may fail: \<open>io\<close> says which ones do and which bytes
  \<open>random_id\<close> draws. A step that fails after the rename has replaced the target.
\<close>

type_synonym disk = "string \<rightharpoonup> string"

record io_faults =
  no_directory :: bool
  no_copy :: bool
  no_sync_file :: bool
  no_rename :: bool
  no_sync_parent :: bool
  no_sync_created :: bool
  no_cleanup :: bool
  random_bytes :: "nat \<Rightarrow> byte"

definition temporary_name :: "io_faults \<Rightarrow> string \<Rightarrow> string" where
  "temporary_name io target = target @ ''.tmp-'' @ random_id (random_bytes io)"

text \<open>\<open>catch (...)\<close>: remove the temporary file, ignoring a failure to do so, and rethrow.\<close>

definition clean_up :: "io_faults \<Rightarrow> string \<Rightarrow> exn \<Rightarrow> disk \<Rightarrow> unit result \<times> disk" where
  "clean_up io temporary ex d = (Inl ex, if no_cleanup io then d else d(temporary := None))"

abbreviation cannot_synchronize :: exn where
  "cannot_synchronize \<equiv> Error unavailable ''cannot synchronize artifact storage''"

definition atomic_copy :: "io_faults \<Rightarrow> string \<Rightarrow> string \<Rightarrow> disk \<Rightarrow> unit result \<times> disk" where
  "atomic_copy io source target d =
     (if no_directory io then (Inl (StdError ''create_directories''), d)
      else let temporary = temporary_name io target in
        case d source of
          None \<Rightarrow> clean_up io temporary (StdError ''copy_file'') d
        | Some content \<Rightarrow>
          (if no_copy io \<or> d temporary \<noteq> None then clean_up io temporary (StdError ''copy_file'') d
           else let d1 = d(temporary \<mapsto> content) in
             if no_sync_file io then clean_up io temporary cannot_synchronize d1
             else if no_rename io then clean_up io temporary (StdError ''rename'') d1
             else let d2 = d1(temporary := None, target \<mapsto> content) in
               if no_sync_parent io \<or> no_sync_created io then clean_up io temporary cannot_synchronize d2
               else (Inr (), d2)))"

definition object_path :: "string \<Rightarrow> string \<Rightarrow> string" where
  "object_path root key = root @ ''/'' @ key"

definition fs_put :: "string \<Rightarrow> io_faults \<Rightarrow> string \<Rightarrow> string \<Rightarrow> disk \<Rightarrow> unit result \<times> disk" where
  "fs_put root io key source d =
     (case validate_relative_path key of
        Inl ex \<Rightarrow> (Inl ex, d)
      | Inr _ \<Rightarrow> atomic_copy io source (object_path root key) d)"

definition fs_get :: "string \<Rightarrow> io_faults \<Rightarrow> string \<Rightarrow> string \<Rightarrow> disk \<Rightarrow> unit result \<times> disk" where
  "fs_get root io key destination d =
     (case validate_relative_path key of
        Inl ex \<Rightarrow> (Inl ex, d)
      | Inr _ \<Rightarrow>
        (if d (object_path root key) = None then (throw not_found ''artifact content missing'', d)
         else atomic_copy io (object_path root key) destination d))"

section \<open>Atomicity\<close>

text \<open>
  A copy that returns has copied; however it ends, the target has its old content or the whole new
  one, and only the target and the temporary name can change.
\<close>

lemma temporary_differs: "temporary_name io target \<noteq> target"
  by (simp add: temporary_name_def)

lemma atomic_copy_ok:
  assumes "atomic_copy io source target d = (Inr (), d')"
  shows "\<exists>c. d source = Some c \<and> d' target = Some c"
  using assms by (auto simp: atomic_copy_def clean_up_def Let_def split: if_splits option.splits)

lemma atomic_copy_frame:
  assumes "atomic_copy io source target d = (res, d')"
  shows "p = temporary_name io target \<or> d' p = d p \<or> (p = target \<and> d' p = d source)"
  using assms
  by (auto simp: atomic_copy_def clean_up_def Let_def split: if_splits option.splits)

section \<open>The interface of a blob store\<close>

text \<open>
  Storage keys end in a digest: 64 lower case hexadecimal characters. No temporary name does.
\<close>

definition final_key :: "string \<Rightarrow> bool" where
  "final_key k \<longleftrightarrow> 64 \<le> length k \<and> list_all is_lower_hex (drop (length k - 64) k)"

lemma not_final_temporary: "\<not> final_key (temporary_name io k)"
proof -
  let ?r = "random_id (random_bytes io)"
  have "drop (length (temporary_name io k) - 64) (temporary_name io k) =
      drop (length (temporary_name io k) - 64) k @ ''.tmp-'' @ ?r"
    by (simp add: temporary_name_def length_random_id)
  then show ?thesis
    by (simp add: final_key_def is_lower_hex_def is_digit_def char_between_def less_eq_char_def)
qed

lemma final_object:
  assumes "final_key k"
  shows "final_key (object_path root k)"
proof -
  have "length k - 63 = Suc (length k - 64)" using assms unfolding final_key_def by arith
  then show ?thesis using assms by (simp add: final_key_def object_path_def)
qed

text \<open>
  What the artifact service relies on. \<open>blob d k\<close> is the content stored under \<open>k\<close>, \<open>outside p\<close> says
  that the path is not one of the store's. \<open>'io\<close> is what happens to the calls of an operation.
\<close>

locale blob_store =
  fixes put :: "'io \<Rightarrow> string \<Rightarrow> string \<Rightarrow> disk \<Rightarrow> unit result \<times> disk"
    and get :: "'io \<Rightarrow> string \<Rightarrow> string \<Rightarrow> disk \<Rightarrow> unit result \<times> disk"
    and blob :: "disk \<Rightarrow> string \<Rightarrow> string option" and outside :: "string \<Rightarrow> bool"
  assumes put_ok: "put io key source d = (Inr (), d') \<Longrightarrow> \<exists>c. d source = Some c \<and> blob d' key = Some c"
    and put_frame: "put io key source d = (res, d') \<Longrightarrow> final_key k \<Longrightarrow>
      blob d' k = blob d k \<or> (k = key \<and> blob d' k = d source)"
    and put_outside: "put io key source d = (res, d') \<Longrightarrow> outside p \<Longrightarrow> d' p = d p"
    and get_ok: "get io key destination d = (Inr (), d') \<Longrightarrow> \<exists>c. blob d key = Some c \<and> d' destination = Some c"
    and get_frame: "get io key destination d = (res, d') \<Longrightarrow> outside destination \<Longrightarrow> final_key k \<Longrightarrow> blob d' k = blob d k"
    and get_elsewhere: "get io key destination d = (res, d') \<Longrightarrow> length p < length destination \<Longrightarrow> d' p = d p"
    and update_outside: "outside p \<Longrightarrow> final_key k \<Longrightarrow> blob (d(p := c)) k = blob d k"

definition in_objects :: "string \<Rightarrow> string \<Rightarrow> bool" where
  "in_objects root p \<longleftrightarrow> (\<exists>key. p = object_path root key)"

interpretation filesystem: blob_store "fs_put root" "fs_get root" "\<lambda>d k. d (object_path root k)"
    "\<lambda>p. \<not> in_objects root p" for root
proof
  have tmp: "temporary_name io (object_path root key) = object_path root (temporary_name io key)" for io key
    by (simp add: temporary_name_def object_path_def)
  fix io key source d d' res k p destination c
  show "\<exists>c. d source = Some c \<and> d' (object_path root key) = Some c"
    if "fs_put root io key source d = (Inr (), d')"
    using that by (auto simp: fs_put_def split: sum.splits dest: atomic_copy_ok)
  show "d' (object_path root k) = d (object_path root k) \<or> k = key \<and> d' (object_path root k) = d source"
    if put: "fs_put root io key source d = (res, d')" and "final_key k"
  proof (cases "validate_relative_path key")
    case (Inr u)
    with put have "atomic_copy io source (object_path root key) d = (res, d')" by (simp add: fs_put_def)
    from atomic_copy_frame[OF this, of "object_path root k"] show ?thesis
      unfolding tmp using \<open>final_key k\<close> not_final_temporary[of io key] by (auto simp: object_path_def)
  qed (use put in \<open>simp add: fs_put_def\<close>)
  show "d' p = d p" if put: "fs_put root io key source d = (res, d')" and "\<not> in_objects root p"
  proof (cases "validate_relative_path key")
    case (Inr u)
    with put have "atomic_copy io source (object_path root key) d = (res, d')" by (simp add: fs_put_def)
    from atomic_copy_frame[OF this, of p] show ?thesis
      unfolding tmp using \<open>\<not> in_objects root p\<close> by (auto simp: in_objects_def)
  qed (use put in \<open>simp add: fs_put_def\<close>)
  show "\<exists>c. d (object_path root key) = Some c \<and> d' destination = Some c"
    if "fs_get root io key destination d = (Inr (), d')"
    using that by (auto simp: fs_get_def split: sum.splits if_splits dest: atomic_copy_ok)
  show "d' (object_path root k) = d (object_path root k)"
    if get: "fs_get root io key destination d = (res, d')" and out: "\<not> in_objects root destination" and "final_key k"
  proof (cases "\<exists>u. validate_relative_path key = Inr u \<and> d (object_path root key) \<noteq> None")
    case True
    with get have "atomic_copy io (object_path root key) destination d = (res, d')" by (auto simp: fs_get_def)
    from atomic_copy_frame[OF this, of "object_path root k"] show ?thesis
      using out final_object[OF \<open>final_key k\<close>, of root] not_final_temporary[of io destination]
      by (auto simp: in_objects_def)
  qed (use get in \<open>auto simp: fs_get_def split: sum.splits if_splits\<close>)
  show "d' p = d p" if get: "fs_get root io key destination d = (res, d')" and "length p < length destination"
  proof (cases "\<exists>u. validate_relative_path key = Inr u \<and> d (object_path root key) \<noteq> None")
    case True
    with get have "atomic_copy io (object_path root key) destination d = (res, d')" by (auto simp: fs_get_def)
    from atomic_copy_frame[OF this, of p] that(2) show ?thesis by (auto simp: temporary_name_def)
  qed (use get in \<open>auto simp: fs_get_def split: sum.splits if_splits\<close>)
  show "(d(p := c)) (object_path root k) = d (object_path root k)" if "\<not> in_objects root p"
    using that by (auto simp: in_objects_def)
qed

end
