(* ===== verification/Artifact_Service.thy ===== *)
theory Artifact_Service
  imports Blob_Storage Store_Contents
begin

text \<open>
  \<^verbatim>\<open>src/application/artifacts.cpp\<close>: publication and download of artifacts over a repository and a blob
  store. Publication is not one transaction: the ownership check, the copy to the blob store and the
  insertion into the database are separate steps, and anything may happen between them.
\<close>

definition storage_key :: "(string \<Rightarrow> byte list) \<Rightarrow> string \<Rightarrow> string \<Rightarrow> string \<Rightarrow> string" where
  "storage_key digest attempt relative checksum = attempt @ ''/'' @ sha256 digest relative @ ''-'' @ checksum"

definition artifact_for :: "(string \<Rightarrow> byte list) \<Rightarrow> string \<Rightarrow> string \<Rightarrow> string \<Rightarrow> nat \<Rightarrow> Artifact" where
  "artifact_for digest attempt relative checksum bytes =
     \<lparr>art_id = sha256 digest (attempt @ '':'' @ relative), art_attempt_id = attempt, art_path = relative,
      art_storage_key = storage_key digest attempt relative checksum, art_sha256 = checksum,
      art_size = of_nat bytes\<rparr>"

text \<open>The first part of \<open>publish\<close>, up to and including \<open>blobs_.put\<close>.\<close>

definition publish_content ::
    "(string \<Rightarrow> byte list) \<Rightarrow> ('io \<Rightarrow> string \<Rightarrow> string \<Rightarrow> disk \<Rightarrow> unit result \<times> disk) \<Rightarrow>
     env \<Rightarrow> 'io \<Rightarrow> string \<Rightarrow> int \<Rightarrow> string \<Rightarrow> string \<Rightarrow> string \<Rightarrow> string \<Rightarrow> db \<Rightarrow> disk \<Rightarrow> Artifact result \<times> disk" where
  "publish_content digest put e io attempt generation inst relative expected file db d =
     (case validate_relative_path relative of
        Inl ex \<Rightarrow> (Inl ex, d)
      | Inr _ \<Rightarrow>
        (case sha256_file digest (d file) of
           Inl ex \<Rightarrow> (Inl ex, d)
         | Inr checksum \<Rightarrow>
           (if checksum \<noteq> expected then (throw invalid ''artifact checksum mismatch'', d)
            else let bytes = length (the (d file)) in
              if bytes > 256 * 1024 * 1024 then (throw exhausted ''artifact exceeds 256 MiB'', d)
              else case verify_owner e attempt generation inst db of
                Inl ex \<Rightarrow> (Inl ex, d)
              | Inr _ \<Rightarrow>
                (let artifact = artifact_for digest attempt relative checksum bytes in
                 case put io (art_storage_key artifact) file d of
                   (Inl ex, d') \<Rightarrow> (Inl ex, d') | (Inr _, d') \<Rightarrow> (Inr artifact, d')))))"

text \<open>\<open>publish\<close> when the two transactions find the database as \<open>db\<close> and as \<open>db'\<close>.\<close>

definition publish ::
    "(string \<Rightarrow> byte list) \<Rightarrow> ('io \<Rightarrow> string \<Rightarrow> string \<Rightarrow> disk \<Rightarrow> unit result \<times> disk) \<Rightarrow>
     env \<Rightarrow> env \<Rightarrow> 'io \<Rightarrow> string \<Rightarrow> int \<Rightarrow> string \<Rightarrow> string \<Rightarrow> string \<Rightarrow> string \<Rightarrow> db \<Rightarrow> db \<Rightarrow> disk \<Rightarrow>
     (Artifact \<times> db) result \<times> disk" where
  "publish digest put e e' io attempt generation inst relative expected file db db' d =
     (case publish_content digest put e io attempt generation inst relative expected file db d of
        (Inl ex, d') \<Rightarrow> (Inl ex, d')
      | (Inr artifact, d') \<Rightarrow> (publish_artifact e' artifact generation inst db', d'))"

definition list_run_artifacts :: "env \<Rightarrow> string \<Rightarrow> string \<Rightarrow> db \<Rightarrow> Artifact list result" where
  "list_run_artifacts e run attempt db =
     (case get_run run db of Inl ex \<Rightarrow> Inl ex | Inr _ \<Rightarrow> Inr (list_artifacts e run attempt db))"

definition download_path :: "string \<Rightarrow> string \<Rightarrow> string" where
  "download_path root aid = root @ ''/downloads/'' @ aid"

text \<open>\<open>io\<close> is for the blob store, \<open>io'\<close> for the service's own calls.\<close>

definition download ::
    "(string \<Rightarrow> byte list) \<Rightarrow> ('io \<Rightarrow> string \<Rightarrow> string \<Rightarrow> disk \<Rightarrow> unit result \<times> disk) \<Rightarrow>
     'io \<Rightarrow> io_faults \<Rightarrow> string \<Rightarrow> string \<Rightarrow> db \<Rightarrow> disk \<Rightarrow> string result \<times> disk" where
  "download digest get io io' root aid db d =
     (case get_artifact aid db of
        Inl ex \<Rightarrow> (Inl ex, d)
      | Inr artifact \<Rightarrow>
        (let path = download_path root (art_id artifact) in
         if d path \<noteq> None \<and> sha256_file digest (d path) = Inr (art_sha256 artifact) then (Inr path, d)
         else if no_directory io' then (Inl (StdError ''create_directories''), d)
         else let temporary = temporary_name io' path; failed = (\<lambda>ex d. (Inl ex, snd (clean_up io' temporary ex d))) in
           case get io (art_storage_key artifact) temporary d of
             (Inl ex, d1) \<Rightarrow> failed ex d1
           | (Inr _, d1) \<Rightarrow>
             (case sha256_file digest (d1 temporary) of
                Inl ex \<Rightarrow> failed ex d1
              | Inr checksum \<Rightarrow>
                (if checksum \<noteq> art_sha256 artifact
                 then failed (Error unavailable ''stored artifact checksum mismatch'') d1
                 else if no_rename io' then failed (StdError ''rename'') d1
                 else (Inr path, d1(temporary := None, path := d1 temporary))))))"

section \<open>The service at work\<close>

record artifact_system =
  as_disk :: disk
  as_db :: db
  as_pending :: "Artifact list"

text \<open>
  \<open>as_pending\<close> are the artifacts whose content is stored and whose publication is still to be
  committed. \<open>content\<close> is the first part of a publication, with whatever result; \<open>commit\<close> the
  second; \<open>downloaded\<close> a download; \<open>elsewhere_db\<close> any transaction but a publication; \<open>local\<close> a write
  outside the blob store, as when a file is received.
\<close>

inductive artifact_step ::
    "(string \<Rightarrow> byte list) \<Rightarrow> ('io \<Rightarrow> string \<Rightarrow> string \<Rightarrow> disk \<Rightarrow> unit result \<times> disk) \<Rightarrow>
     ('io \<Rightarrow> string \<Rightarrow> string \<Rightarrow> disk \<Rightarrow> unit result \<times> disk) \<Rightarrow> (string \<Rightarrow> bool) \<Rightarrow> Timing \<Rightarrow>
     artifact_system \<Rightarrow> artifact_system \<Rightarrow> bool" for digest put get outside timing where
  content: "publish_content digest put e io attempt g inst relative expected file (as_db s) (as_disk s) = (res, d') \<Longrightarrow>
    artifact_step digest put get outside timing s
      (s\<lparr>as_disk := d', as_pending := (case res of Inl _ \<Rightarrow> as_pending s | Inr a \<Rightarrow> a # as_pending s)\<rparr>)"
| commit: "a \<in> set (as_pending s) \<Longrightarrow> publish_artifact e a g inst (as_db s) = Inr (v, db') \<Longrightarrow>
    artifact_step digest put get outside timing s (s\<lparr>as_db := db'\<rparr>)"
| downloaded: "outside (temporary_name io' (download_path root aid)) \<Longrightarrow> outside (download_path root aid) \<Longrightarrow>
    download digest get io io' root aid (as_db s) (as_disk s) = (res, d') \<Longrightarrow>
    artifact_step digest put get outside timing s (s\<lparr>as_disk := d'\<rparr>)"
| elsewhere_db: "store_step timing (as_db s) db' \<Longrightarrow> artifacts db' = artifacts (as_db s) \<Longrightarrow>
    artifact_step digest put get outside timing s (s\<lparr>as_db := db'\<rparr>)"
| local: "outside p \<Longrightarrow> artifact_step digest put get outside timing s (s\<lparr>as_disk := (as_disk s)(p := c)\<rparr>)"

definition artifact_init :: "disk \<Rightarrow> db \<Rightarrow> artifact_system" where
  "artifact_init d db = \<lparr>as_disk = d, as_db = db, as_pending = []\<rparr>"

text \<open>A key that ends in a checksum, and a stored content that has it.\<close>

definition kept :: "(string \<Rightarrow> byte list) \<Rightarrow> (disk \<Rightarrow> string \<Rightarrow> string option) \<Rightarrow> disk \<Rightarrow> string \<Rightarrow> string \<Rightarrow> bool" where
  "kept digest blob d key checksum \<longleftrightarrow> length checksum = 64 \<and> final_key key \<and>
     (\<exists>c. blob d key = Some c \<and> sha256 digest c = checksum \<and> drop (length key - 64) key = checksum)"

definition artifact_inv :: "(string \<Rightarrow> byte list) \<Rightarrow> (disk \<Rightarrow> string \<Rightarrow> string option) \<Rightarrow> artifact_system \<Rightarrow> bool" where
  "artifact_inv digest blob s \<longleftrightarrow>
     (\<forall>f\<in>set (artifacts (as_db s)). kept digest blob (as_disk s) (f_storage_key f) (f_sha256 f)) \<and>
     (\<forall>a\<in>set (as_pending s). kept digest blob (as_disk s) (art_storage_key a) (art_sha256 a))"

lemma storage_key_final:
  assumes "length (digest c) = 32"
  shows "final_key (storage_key digest attempt relative (sha256 digest c))"
    and "drop (length (storage_key digest attempt relative (sha256 digest c)) - 64)
      (storage_key digest attempt relative (sha256 digest c)) = sha256 digest c"
  using hex_lower[of "digest c"] assms by (simp_all add: final_key_def storage_key_def sha256_def)

lemma publish_content_ok:
  assumes "publish_content digest put e io attempt g inst relative expected file db d = (Inr a, d')"
  obtains c where "d file = Some c" "a = artifact_for digest attempt relative (sha256 digest c) (length c)"
    "put io (art_storage_key a) file d = (Inr (), d')"
  using assms
  by (auto simp: publish_content_def sha256_file_def Let_def split: sum.splits option.splits if_splits prod.splits)

lemma publish_content_disk:
  assumes "publish_content digest put e io attempt g inst relative expected file db d = (res, d')"
  shows "d' = d \<or> (\<exists>c r. d file = Some c \<and>
    put io (storage_key digest attempt relative (sha256 digest c)) file d = (r, d'))"
  using assms
  by (auto simp: publish_content_def sha256_file_def Let_def artifact_for_def
      split: sum.splits option.splits if_splits prod.splits)

text \<open>What a download leaves on the disk.\<close>

lemma download_disk:
  assumes "download digest get io io' root aid db d = (res, d')"
  obtains (same) "d' = d"
  | (fetched) a r d1 where "get_artifact aid db = Inr a"
      "get io (art_storage_key a) (temporary_name io' (download_path root (art_id a))) d = (r, d1)"
      "\<And>p. p \<noteq> temporary_name io' (download_path root (art_id a)) \<Longrightarrow> p \<noteq> download_path root (art_id a) \<Longrightarrow> d' p = d1 p"
      "d' = d1 \<or> d' = d1(temporary_name io' (download_path root (art_id a)) := None) \<or>
       d' = d1(temporary_name io' (download_path root (art_id a)) := None,
         download_path root (art_id a) := d1 (temporary_name io' (download_path root (art_id a))))"
  using assms
  by (auto simp: download_def clean_up_def Let_def split: sum.splits if_splits prod.splits)

lemma get_artifact_id: "get_artifact aid db = Inr a \<Longrightarrow> art_id a = aid"
  by (auto simp: get_artifact_def artifact_of_def split: option.splits dest: find_by_key)

context blob_store
begin

lemma kept_put:
  assumes "kept digest blob d key checksum" and "length (digest c) = 32" and "d file = Some c"
    and "put io (storage_key digest attempt relative (sha256 digest c)) file d = (r, d')"
  shows "kept digest blob d' key checksum"
proof -
  let ?k = "storage_key digest attempt relative (sha256 digest c)"
  from assms(1) have "final_key key" by (simp add: kept_def)
  from put_frame[OF assms(4) this] consider "blob d' key = blob d key" | "key = ?k" "blob d' key = Some c"
    using assms(3) by auto
  then show ?thesis
  proof cases
    case 2
    with storage_key_final(2)[of digest c attempt relative] assms(1,2) show ?thesis by (auto simp: kept_def)
  qed (use assms(1) in \<open>simp add: kept_def\<close>)
qed

lemma kept_update: "outside p \<Longrightarrow> kept digest blob (d(p := c)) key checksum = kept digest blob d key checksum"
  by (auto simp: kept_def update_outside)

lemma kept_download:
  assumes "kept digest blob d key checksum" and "download digest get io io' root aid db d = (res, d')"
    and "outside (temporary_name io' (download_path root aid))" and "outside (download_path root aid)"
  shows "kept digest blob d' key checksum"
  using assms(2)
proof (cases rule: download_disk)
  case same
  with assms(1) show ?thesis by simp
next
  case (fetched a r d1)
  from get_artifact_id[OF fetched(1)] have aid: "art_id a = aid" .
  have "kept digest blob d1 key checksum"
    using assms(1) get_frame[OF fetched(2)] assms(3) by (auto simp: kept_def aid)
  with fetched(4) show ?thesis by (auto simp: aid kept_update assms(3,4))
qed

text \<open>A file at the returned path is complete; a failure leaves what was there.\<close>

lemma download_verified:
  assumes "download digest get io io' cache aid db d = (res, d')" and "get_artifact aid db = Inr a"
  shows "(\<forall>path. res = Inr path \<longrightarrow> path = download_path cache aid \<and>
      (\<exists>c. d' path = Some c \<and> sha256 digest c = art_sha256 a)) \<and>
    (\<forall>ex. res = Inl ex \<longrightarrow> d' (download_path cache aid) = d (download_path cache aid))"
proof -
  let ?path = "download_path cache aid" and ?key = "art_storage_key a"
  let ?tmp = "temporary_name io' ?path"
  have aid: "art_id a = aid" by (rule get_artifact_id[OF assms(2)])
  have tmp: "?tmp \<noteq> ?path" "length ?path < length ?tmp" by (simp_all add: temporary_name_def)
  then have "d1 ?path = d ?path" if "get io ?key ?tmp d = (r, d1)" for r d1
    using get_elsewhere[OF that] by blast
  with tmp(1) assms show ?thesis
    by (auto simp: download_def clean_up_def aid sha256_file_def Let_def
        split: sum.splits if_splits prod.splits option.splits)
qed

lemma step_kept:
  assumes inv: "artifact_inv digest blob s" and digest: "\<And>x. length (digest x) = 32"
    and step: "artifact_step digest put get outside timing s s'"
  shows "artifact_inv digest blob s'"
  using step
proof cases
  case (content e io attempt g inst relative expected src res d')
  have keep: "kept digest blob d' key checksum" if "kept digest blob (as_disk s) key checksum" for key checksum
    using publish_content_disk[OF content(2)] that kept_put[OF that digest] by blast
  show ?thesis
  proof (cases res)
    case (Inl ex)
    with inv keep content(1) show ?thesis by (auto simp: artifact_inv_def)
  next
    case (Inr a)
    with content(2) obtain c where c: "as_disk s src = Some c"
      "a = artifact_for digest attempt relative (sha256 digest c) (length c)"
      "put io (art_storage_key a) src (as_disk s) = (Inr (), d')" by (auto elim: publish_content_ok)
    have "kept digest blob d' (art_storage_key a) (art_sha256 a)"
      using put_ok[OF c(3)] storage_key_final[of digest c attempt relative, OF digest] c(1,2) digest
      by (auto simp: kept_def artifact_for_def sha256_def)
    with inv keep content(1) Inr show ?thesis by (auto simp: artifact_inv_def)
  qed
next
  case (commit a e g inst v db')
  from commit(3) have "set (artifacts db') \<subseteq> insert (new_artifact a) (set (artifacts (as_db s)))"
    by (elim publish_cases) (auto simp: insert_artifact_ok)
  moreover have "kept digest blob (as_disk s) (f_storage_key (new_artifact a)) (f_sha256 (new_artifact a))"
    using inv commit(2) by (auto simp: artifact_inv_def new_artifact_def)
  ultimately show ?thesis using inv commit(1) by (auto simp: artifact_inv_def)
next
  case (downloaded io' root aid io res d')
  with inv kept_download[OF _ downloaded(4) downloaded(2,3)] show ?thesis by (auto simp: artifact_inv_def)
next
  case (elsewhere_db db')
  with inv show ?thesis by (auto simp: artifact_inv_def)
next
  case (local p c)
  with inv kept_update show ?thesis by (auto simp: artifact_inv_def)
qed

lemma published_kept:
  assumes "reach (artifact_init d db) (artifact_step digest put get outside timing) s"
    and "artifacts db = []" and "\<And>x. length (digest x) = 32"
  shows "artifact_inv digest blob s"
  using assms(1)
proof (induction rule: reach.induct)
  case reach_init
  show ?case using assms(2) by (simp add: artifact_inv_def artifact_init_def)
next
  case (reach_step s t)
  then show ?case by (blast intro: step_kept assms(3))
qed

end

section \<open>Properties\<close>

abbreviation serving where
  "serving digest root timing d db \<equiv> reach (artifact_init d db)
     (artifact_step digest (fs_put root) (fs_get root) (\<lambda>p. \<not> in_objects root p) timing)"

text \<open>An upload of the file \<open>in\<close> by the runner of the demonstration, with a constant digest.\<close>

definition demo_digest :: "string \<Rightarrow> byte list" where
  "demo_digest = (\<lambda>_. replicate 32 0)"

definition demo_io :: io_faults where
  "demo_io = \<lparr>no_directory = False, no_copy = False, no_sync_file = False, no_rename = False,
     no_sync_parent = False, no_sync_created = False, no_cleanup = False, random_bytes = (\<lambda>_. 0)\<rparr>"

definition zeros :: string where
  "zeros = replicate 64 CHR ''0''"

definition demo_key :: string where
  "demo_key = ''a/'' @ zeros @ ''-'' @ zeros"

definition demo_upload :: Artifact where
  "demo_upload = \<lparr>art_id = zeros, art_attempt_id = ''a'', art_path = ''out'', art_storage_key = demo_key,
     art_sha256 = zeros, art_size = 1\<rparr>"

definition demo_disk :: disk where
  "demo_disk = [''in'' \<mapsto> ''x'']"

definition demo_stored :: disk where
  "demo_stored = demo_disk(object_path ''o'' demo_key \<mapsto> ''x'')"

definition demo_db :: db where
  "demo_db = demo_collecting\<lparr>artifacts := [new_artifact demo_upload]\<rparr>"

lemma demo_sha256: "sha256 demo_digest c = zeros"
  unfolding sha256_def demo_digest_def by code_simp

lemma demo_put: "fs_put ''o'' demo_io demo_key ''in'' demo_disk = (Inr (), demo_stored)"
proof -
  have key: "validate_relative_path demo_key = Inr ()" by code_simp
  have "object_path ''o'' demo_key \<noteq> ''in''" by (simp add: object_path_def)
  moreover have "temporary_name demo_io (object_path ''o'' demo_key) \<noteq> ''in''"
    by (simp add: temporary_name_def object_path_def)
  ultimately show ?thesis
    by (simp add: fs_put_def key atomic_copy_def demo_io_def demo_disk_def demo_stored_def temporary_differs
        fun_upd_twist)
qed

lemma demo_publish_content:
  "publish_content demo_digest (fs_put ''o'') (demo_env 750 ''-'') demo_io ''a'' 1 ''i'' ''out'' zeros ''in''
     demo_collecting demo_disk = (Inr demo_upload, demo_stored)"
proof -
  have "verify_owner (demo_env 750 ''-'') ''a'' 1 ''i'' demo_collecting = Inr ((), demo_collecting)"
    by (simp add: verify_owner_def demo_all)
  moreover have "validate_relative_path ''out'' = Inr ()" by code_simp
  moreover have "artifact_for demo_digest ''a'' ''out'' zeros 1 = demo_upload"
    by (simp add: artifact_for_def demo_upload_def storage_key_def demo_sha256 demo_key_def)
  moreover have "demo_disk ''in'' = Some ''x''" by (simp add: demo_disk_def)
  moreover have "art_storage_key demo_upload = demo_key" by (simp add: demo_upload_def)
  ultimately show ?thesis
    by (simp add: publish_content_def sha256_file_def demo_sha256 demo_put)
qed

lemma demo_commit:
  "publish_artifact (demo_env 800 ''-'') demo_upload 1 ''i'' demo_collecting = Inr (demo_upload, demo_db)"
  by (simp add: publish_artifact_def demo_upload_def attempt_artifacts_def artifact_total_def
      as_uint64_def as_int_def insert_artifact_def demo_db_def new_artifact_def demo_all)

lemma demo_serving:
  "serving demo_digest ''o'' default_Timing demo_disk demo_collecting
     \<lparr>as_disk = demo_stored, as_db = demo_db, as_pending = [demo_upload]\<rparr>"
proof -
  let ?s = "\<lambda>d db p. \<lparr>as_disk = d, as_db = db, as_pending = p\<rparr>"
  note go = artifact_step.intros[where digest = demo_digest and put = "fs_put ''o''" and get = "fs_get ''o''"
      and outside = "\<lambda>p. \<not> in_objects ''o'' p" and timing = default_Timing]
  let ?go = "artifact_step demo_digest (fs_put ''o'') (fs_get ''o'') (\<lambda>p. \<not> in_objects ''o'' p) default_Timing"
  have first: "?go (?s demo_disk demo_collecting []) (?s demo_stored demo_collecting [demo_upload])"
    using go(1)[of _ _ _ _ _ _ _ _ "?s demo_disk demo_collecting []"] demo_publish_content by fastforce
  have second: "?go (?s demo_stored demo_collecting [demo_upload]) (?s demo_stored demo_db [demo_upload])"
    using go(2)[of demo_upload "?s demo_stored demo_collecting [demo_upload]"] demo_commit by simp
  note then_step = reach.reach_step[where step = ?go]
  show ?thesis
    unfolding artifact_init_def by (rule then_step[OF then_step[OF reach.reach_init first] second])
qed

text \<open>
  C22: a published artifact has its content. From a store without artifacts on, whatever uploads,
  publications, downloads and other transactions happen in whatever order, and whichever system calls
  fail, every artifact of the database has a file under its storage key, with the recorded digest.
\<close>

theorem published_contents_are_kept:
  assumes "serving digest root timing d db s" and "artifacts db = []" and "\<And>x. length (digest x) = 32"
    and "f \<in> set (artifacts (as_db s))"
  shows "\<exists>c. as_disk s (object_path root (f_storage_key f)) = Some c \<and> sha256 digest c = f_sha256 f"
  using filesystem.published_kept[OF assms(1-3)] assms(4) by (auto simp: artifact_inv_def kept_def)

theorem published_contents_are_kept_witness:
  "\<exists>c. demo_stored (object_path ''o'' demo_key) = Some c \<and> sha256 demo_digest c = zeros"
proof -
  have "artifacts demo_collecting = []" by (simp add: demo_all)
  moreover have "new_artifact demo_upload \<in> set (artifacts demo_db)" by (simp add: demo_db_def)
  ultimately show ?thesis
    using published_contents_are_kept[OF demo_serving, of "new_artifact demo_upload"]
    by (simp add: demo_digest_def new_artifact_def demo_upload_def)
qed

text \<open>
  A download is verified before it can be seen. When it succeeds, the file at the returned path
  has the digest that the database records for the artifact; when it fails, the file at that path is
  as it was.
\<close>

theorem downloads_are_verified:
  assumes "download digest (fs_get root) io io' cache aid db d = (res, d')"
    and "get_artifact aid db = Inr a"
  shows "(\<forall>path. res = Inr path \<longrightarrow> path = download_path cache aid \<and>
      (\<exists>c. d' path = Some c \<and> sha256 digest c = art_sha256 a)) \<and>
    (\<forall>ex. res = Inl ex \<longrightarrow> d' (download_path cache aid) = d (download_path cache aid))"
  by (rule filesystem.download_verified[OF assms])

theorem downloads_are_verified_witness:
  "\<exists>d'. download demo_digest (fs_get ''o'') demo_io demo_io ''c'' zeros demo_db demo_stored =
     (Inr (download_path ''c'' zeros), d') \<and>
   (\<exists>c. d' (download_path ''c'' zeros) = Some c \<and> sha256 demo_digest c = zeros)"
proof -
  have got: "get_artifact zeros demo_db = Inr demo_upload"
    by (simp add: get_artifact_def find_by_def demo_db_def new_artifact_def demo_upload_def artifact_of_def)
  obtain res d' where run: "download demo_digest (fs_get ''o'') demo_io demo_io ''c'' zeros demo_db demo_stored = (res, d')"
    by (cases "download demo_digest (fs_get ''o'') demo_io demo_io ''c'' zeros demo_db demo_stored")
  have "validate_relative_path demo_key = Inr ()" by code_simp
  then have "res = Inr (download_path ''c'' zeros)"
    using run got
    by (auto simp: download_def fs_get_def atomic_copy_def demo_io_def demo_stored_def demo_disk_def demo_upload_def
        object_path_def download_path_def temporary_name_def sha256_file_def demo_sha256 Let_def split: if_splits)
  with downloads_are_verified[OF run got] run show ?thesis by (auto simp: demo_upload_def)
qed

end
