(* ===== verification/Config.thy ===== *)
theory Config
  imports Domain
begin

text \<open>
  \<^verbatim>\<open>src/support/config.cpp\<close>: the coordinator's settings, read from environment variables and checked
  before anything starts. The environment is a map.
\<close>

type_synonym environment = "string \<rightharpoonup> string"

definition env_or :: "environment \<Rightarrow> string \<Rightarrow> string \<Rightarrow> string" where
  "env_or vars name fallback = (case vars name of None \<Rightarrow> fallback | Some value \<Rightarrow> value)"

section \<open>Integers\<close>

text \<open>
  \<open>std::stoi\<close>: white space, a sign, digits; the value and the number of characters used, or \<open>None\<close>
  where it throws (no digits, or a value outside \<open>int\<close>).
\<close>

definition is_space :: "char \<Rightarrow> bool" where
  "is_space c \<longleftrightarrow> c \<in> {CHR '' '', CHR 0x09, CHR 0x0A, CHR 0x0B, CHR 0x0C, CHR 0x0D}"

definition digits_value :: "string \<Rightarrow> int" where
  "digits_value ds = foldl (\<lambda>n c. 10 * n + int (of_char c) - 48) 0 ds"

definition stoi :: "string \<Rightarrow> (int \<times> nat) option" where
  "stoi text =
     (let blank = takeWhile is_space text;
          rest = dropWhile is_space text;
          sign = (case rest of c # _ \<Rightarrow> if c = CHR ''-'' \<or> c = CHR ''+'' then [c] else [] | [] \<Rightarrow> []);
          digits = takeWhile is_digit (drop (length sign) rest);
          value = (if sign = ''-'' then - digits_value digits else digits_value digits)
      in if digits = [] \<or> value < - 2147483648 \<or> value > INT_MAX then None
         else Some (value, length blank + length sign + length digits))"

definition env_int :: "environment \<Rightarrow> string \<Rightarrow> int \<Rightarrow> int result" where
  "env_int vars name fallback =
     (let text = env_or vars name [] in
      if text = [] then Inr fallback
      else case stoi text of
        None \<Rightarrow> throw invalid (''invalid integer setting: '' @ name)
      | Some (value, used) \<Rightarrow>
        (if used \<noteq> length text \<or> value < 1 then throw invalid (''invalid integer setting: '' @ name)
         else Inr value))"

section \<open>Settings\<close>

record ServerConfig =
  cf_database :: string
  cf_owner_token :: string
  cf_worker_token :: string
  cf_signing_key :: string
  cf_host :: string
  cf_http_port :: int
  cf_grpc_port :: int
  cf_development :: bool
  cf_certificate :: string
  cf_private_key :: string
  cf_mode :: string
  cf_artifacts :: string
  cf_timing :: Timing

text \<open>The integer settings in the order they are read, with their defaults.\<close>

definition load_timing :: "environment \<Rightarrow> Timing result" where
  "load_timing vars =
     (case map_result (\<lambda>(name, fallback). env_int vars name fallback)
        [(''RUNYARD_HEARTBEAT_SECONDS'', 5), (''RUNYARD_LEASE_SECONDS'', 30), (''RUNYARD_WORKER_SECONDS'', 15),
         (''RUNYARD_LAUNCH_SECONDS'', 300), (''RUNYARD_RETRY_BASE_SECONDS'', 5),
         (''RUNYARD_TERMINATION_SECONDS'', 10), (''RUNYARD_FINALIZATION_SECONDS'', 300),
         (''RUNYARD_RETRY_MAX_SECONDS'', 60), (''RUNYARD_RECOVERY_SCAN_MILLIS'', 1000)] of
        Inl ex \<Rightarrow> Inl ex
      | Inr v \<Rightarrow> Inr \<lparr>heartbeat_seconds = v ! 0, lease_seconds = v ! 1, worker_seconds = v ! 2,
          launch_seconds = v ! 3, retry_base_seconds = v ! 4, termination_seconds = v ! 5,
          finalization_seconds = v ! 6, retry_max_seconds = v ! 7, recovery_scan_millis = v ! 8\<rparr>)"

definition check_config :: "ServerConfig \<Rightarrow> unit result" where
  "check_config c = all_of [
     require (\<not> (cf_database c = [] \<or> length (cf_owner_token c) < 16))
       ''database URL and owner token (at least 16 characters) are required'',
     require (\<not> ((cf_certificate c = []) \<noteq> (cf_private_key c = [])))
       ''TLS certificate and key must be configured together'',
     require (\<not> (\<not> cf_development c \<and> (cf_certificate c = [] \<or> cf_private_key c = [])))
       ''TLS certificate/key required outside development profile'',
     require (\<not> (cf_mode c \<noteq> ''docker'' \<and> cf_mode c \<noteq> ''kubernetes''))
       ''execution mode must be docker or kubernetes'',
     require (\<not> (lease_seconds (cf_timing c) \<le>
         heartbeat_seconds (cf_timing c) + termination_seconds (cf_timing c) + 2))
       ''lease must exceed heartbeat, termination grace, and safety margin'']"

definition load_config :: "environment \<Rightarrow> ServerConfig result" where
  "load_config vars =
     (let worker_token = env_or vars ''RUNYARD_WORKER_TOKEN'' []; signing_key = env_or vars ''RUNYARD_SIGNING_KEY'' [] in
      if length worker_token < 16 \<or> length signing_key < 32
      then throw invalid ''worker token (16+ characters) and signing key (32+ characters) required''
      else case env_int vars ''RUNYARD_HTTP_PORT'' 8080 of
        Inl ex \<Rightarrow> Inl ex
      | Inr http_port \<Rightarrow>
        (case env_int vars ''RUNYARD_GRPC_PORT'' 9090 of
           Inl ex \<Rightarrow> Inl ex
         | Inr grpc_port \<Rightarrow>
           (case load_timing vars of
              Inl ex \<Rightarrow> Inl ex
            | Inr timing \<Rightarrow>
              (let c = \<lparr>cf_database = env_or vars ''RUNYARD_DATABASE_URL'' [],
                        cf_owner_token = env_or vars ''RUNYARD_OWNER_TOKEN'' [],
                        cf_worker_token = worker_token, cf_signing_key = signing_key,
                        cf_host = env_or vars ''RUNYARD_BIND'' ''127.0.0.1'',
                        cf_http_port = http_port, cf_grpc_port = grpc_port,
                        cf_development = (env_or vars ''RUNYARD_PROFILE'' [] = ''development''),
                        cf_certificate = env_or vars ''RUNYARD_TLS_CERT'' [],
                        cf_private_key = env_or vars ''RUNYARD_TLS_KEY'' [],
                        cf_mode = env_or vars ''RUNYARD_EXECUTION_MODE'' ''docker'',
                        cf_artifacts = env_or vars ''RUNYARD_ARTIFACT_ROOT'' ''.local/artifacts'',
                        cf_timing = timing\<rparr>
               in case check_config c of Inl ex \<Rightarrow> Inl ex | Inr _ \<Rightarrow> Inr c))))"

section \<open>Printed integers\<close>

lemma show_nat_digits: "list_all is_digit (show_nat n)"
proof (induction n rule: show_nat.induct)
  case (1 n)
  have digit: "is_digit (char_of (48 + i))" if "i < 10" for i :: nat
  proof -
    have "\<forall>i\<in>set [0..<10]. is_digit (char_of (48 + i))" by code_simp
    with that show ?thesis by simp
  qed
  show ?case
  proof (cases "n < 10")
    case True
    then show ?thesis using digit show_nat.simps[of n] by simp
  next
    case False
    then show ?thesis using 1 digit[of "n mod 10"] show_nat.simps[of n] by simp
  qed
qed

lemma digits_value_snoc: "digits_value (ds @ [ch]) = 10 * digits_value ds + int (of_char ch) - 48"
  by (simp add: digits_value_def)

lemma digits_value_show_nat: "digits_value (show_nat n) = int n"
proof (induction n rule: show_nat.induct)
  case (1 n)
  have d: "int (of_char (char_of (48 + i) :: char)) = 48 + int i" if "i < 10" for i :: nat
    using that by (simp add: of_char_of take_bit_nat_eq_self)
  show ?case
  proof (cases "n < 10")
    case True
    then show ?thesis using d by (simp add: show_nat.simps[of n] digits_value_def)
  next
    case False
    then have "digits_value (show_nat n) = 10 * int (n div 10) + int (n mod 10)"
      using 1 d[of "n mod 10"] by (simp add: show_nat.simps[of n] digits_value_snoc)
    then show ?thesis by (simp add: zdiv_int zmod_int)
  qed
qed

lemma digit_facts: "is_digit ch \<Longrightarrow> \<not> is_space ch \<and> ch \<noteq> CHR ''-'' \<and> ch \<noteq> CHR ''+''"
  by (auto simp: is_digit_def char_between_def is_space_def less_eq_char_def)

text \<open>An integer that fits into an \<open>int\<close> is read as it was printed.\<close>

lemma stoi_show: "0 \<le> n \<Longrightarrow> n \<le> INT_MAX \<Longrightarrow> stoi (show_int n) = Some (n, length (show_int n))"
proof -
  assume n: "0 \<le> n" "n \<le> INT_MAX"
  let ?ds = "show_nat (nat n)"
  have dig: "\<forall>ch\<in>set ?ds. is_digit ch" using show_nat_digits[of "nat n"] by (simp add: list_all_iff)
  have "?ds \<noteq> []" by (subst show_nat.simps) simp
  then obtain ch ds where ds: "?ds = ch # ds" by (cases ?ds) auto
  with dig digit_facts have "takeWhile is_space ?ds = []" "dropWhile is_space ?ds = ?ds" "ch \<noteq> CHR ''-''" "ch \<noteq> CHR ''+''" by auto
  moreover have "takeWhile is_digit ?ds = ?ds" using dig by (simp add: takeWhile_eq_all_conv)
  ultimately show ?thesis
    using n digits_value_show_nat[of "nat n"] ds by (simp add: stoi_def show_int_def Let_def)
qed

lemma env_int_show: "vars name = Some (show_int n) \<Longrightarrow> 1 \<le> n \<Longrightarrow> n \<le> INT_MAX \<Longrightarrow> env_int vars name fallback = Inr n"
  using stoi_show[of n] by (auto simp: env_int_def env_or_def Let_def stoi_def)

section \<open>What a loaded configuration guarantees\<close>

lemma env_int_positive: "env_int vars name fallback = Inr v \<Longrightarrow> 1 \<le> fallback \<Longrightarrow> 1 \<le> v"
  by (auto simp: env_int_def Let_def split: if_splits option.splits)

lemma load_timing_positive:
  assumes "load_timing vars = Inr t"
  shows "1 \<le> heartbeat_seconds t" "1 \<le> lease_seconds t" "1 \<le> termination_seconds t" "1 \<le> retry_base_seconds t"
    "1 \<le> retry_max_seconds t" "1 \<le> worker_seconds t" "1 \<le> launch_seconds t" "1 \<le> finalization_seconds t"
    "1 \<le> recovery_scan_millis t"
  using assms by (auto simp: load_timing_def Let_def dest: env_int_positive split: sum.splits)

lemma check_config_ok:
  "check_config c = Inr () \<longleftrightarrow> cf_database c \<noteq> [] \<and> 16 \<le> length (cf_owner_token c) \<and>
     (cf_certificate c = []) = (cf_private_key c = []) \<and> (cf_development c \<or> cf_certificate c \<noteq> []) \<and>
     cf_mode c \<in> {''docker'', ''kubernetes''} \<and>
     heartbeat_seconds (cf_timing c) + termination_seconds (cf_timing c) + 2 < lease_seconds (cf_timing c)"
  by (auto simp: check_config_def ok_simps)

lemma load_config_ok:
  assumes "load_config vars = Inr c"
  shows "check_config c = Inr ()" "16 \<le> length (cf_worker_token c)" "32 \<le> length (cf_signing_key c)"
    "1 \<le> cf_http_port c" "1 \<le> cf_grpc_port c" "load_timing vars = Inr (cf_timing c)"
  using assms by (auto simp: load_config_def Let_def dest: env_int_positive split: if_splits sum.splits)

end
