(* ===== verification/Rpc.thy ===== *)
theory Rpc
  imports Artifact_Service Config
begin

text \<open>
  \<^verbatim>\<open>src/grpc/services.cpp\<close> and the messages of \<^verbatim>\<open>proto\<close>: the remote procedures of agents and runners,
  with authentication, the mapping of exceptions to status codes, and the mapping back in
  \<open>check_rpc\<close> of \<^verbatim>\<open>src/runner/client.cpp\<close>. HMAC is a parameter. A message field that carries a
  specification as JSON text is modelled by the specification. The metrics of \<open>guard\<close> are left out.
\<close>

section \<open>Status codes\<close>

text \<open>The codes the program names, and \<open>DEADLINE_EXCEEDED\<close>, which the library produces on its own.\<close>

datatype StatusCode = OK | INVALID_ARGUMENT | UNAUTHENTICATED | NOT_FOUND | FAILED_PRECONDITION
  | RESOURCE_EXHAUSTED | UNAVAILABLE | DEADLINE_EXCEEDED

type_synonym status = "StatusCode \<times> string"

fun error_status :: "ErrorCode \<Rightarrow> StatusCode" where
  "error_status invalid = INVALID_ARGUMENT"
| "error_status unauthorized = UNAUTHENTICATED"
| "error_status not_found = NOT_FOUND"
| "error_status stale = FAILED_PRECONDITION"
| "error_status conflict = FAILED_PRECONDITION"
| "error_status exhausted = RESOURCE_EXHAUSTED"
| "error_status unavailable = UNAVAILABLE"

fun exception_status :: "exn \<Rightarrow> status" where
  "exception_status (Error code m) = (error_status code, m)"
| "exception_status (SqlError m) = (UNAVAILABLE, ''operation temporarily unavailable'')"
| "exception_status (JsonError m) = (UNAVAILABLE, ''operation temporarily unavailable'')"
| "exception_status (StdError m) = (UNAVAILABLE, ''operation temporarily unavailable'')"

text \<open>A handler: its status, its reply when there is one, and the state it leaves.\<close>

definition protect :: "('reply \<times> 's) result \<Rightarrow> 's \<Rightarrow> status \<times> 'reply option \<times> 's" where
  "protect work s =
     (case work of Inl ex \<Rightarrow> (exception_status ex, None, s) | Inr (reply, s') \<Rightarrow> ((OK, []), Some reply, s'))"

definition check_rpc :: "status \<Rightarrow> unit result" where
  "check_rpc st =
     (if fst st = OK then Inr ()
      else throw (if fst st = UNAUTHENTICATED then unauthorized
                  else if fst st = INVALID_ARGUMENT then invalid
                  else if fst st = NOT_FOUND then not_found
                  else if fst st = FAILED_PRECONDITION then stale
                  else unavailable) (snd st))"

section \<open>Authentication\<close>

record ServerContext =
  sc_authorization :: "string option"
  sc_cancelled :: bool

definition authenticate :: "ServerContext \<Rightarrow> string \<Rightarrow> bool \<Rightarrow> unit result" where
  "authenticate caller token ready =
     (if token = [] \<or> (case sc_authorization caller of None \<Rightarrow> True
          | Some found \<Rightarrow> \<not> constant_equal found (''Bearer '' @ token))
      then throw unauthorized ''invalid RPC credentials''
      else if \<not> ready then throw unavailable ''coordinator is not ready''
      else if sc_cancelled caller then throw unavailable ''RPC cancelled''
      else Inr ())"

definition attempt_message :: "string \<Rightarrow> int \<Rightarrow> string" where
  "attempt_message aid generation = ''attempt:'' @ aid @ '':'' @ show_int generation"

definition attempt_capability ::
    "(string \<Rightarrow> string \<Rightarrow> byte list) \<Rightarrow> string \<Rightarrow> string \<Rightarrow> int \<Rightarrow> string" where
  "attempt_capability hmac secret aid generation = sign hmac secret (attempt_message aid generation)"

section \<open>Agents\<close>

record WorkerIdentity =
  wi_id :: string
  wi_session :: string

record WorkAssignment =
  wa_attempt_id :: string
  wa_run_id :: string
  wa_generation :: int
  wa_specification :: RunSpec
  wa_capability :: string
  wa_gpu_uuids :: "string list"

datatype AgentRequest =
    Reconcile WorkerIdentity "string list"
  | Register WorkerIdentity int int string bool
  | ReportGpuInventory WorkerIdentity GpuSnapshot
  | WorkerHeartbeat WorkerIdentity
  | Poll WorkerIdentity
  | ReportRuntime WorkerIdentity string string bool

datatype AgentReply =
    Empty
  | Decisions "string list"
  | WorkReply "WorkAssignment option" "string list"

definition agent_authorize :: "ServerConfig \<Rightarrow> ServerContext \<Rightarrow> bool \<Rightarrow> unit result" where
  "agent_authorize config caller ready =
     (case authenticate caller (cf_worker_token config) ready of
        Inl ex \<Rightarrow> Inl ex
      | Inr _ \<Rightarrow>
        (if cf_mode config \<noteq> ''docker'' then throw invalid ''Docker agents are disabled in Kubernetes mode''
         else Inr ()))"

definition work_assignment :: "(string \<Rightarrow> string \<Rightarrow> byte list) \<Rightarrow> ServerConfig \<Rightarrow> Assignment \<Rightarrow> WorkAssignment" where
  "work_assignment hmac config assignment =
     (let a = asg_attempt assignment in
      \<lparr>wa_attempt_id = att_id a, wa_run_id = att_run_id a, wa_generation = att_generation a,
       wa_specification = asg_spec assignment,
       wa_capability = attempt_capability hmac (cf_signing_key config) (att_id a) (att_generation a),
       wa_gpu_uuids = map (\<lambda>g. gd_uuid (al_device g)) (att_gpu_allocations a)\<rparr>)"

fun agent_work ::
    "(string \<Rightarrow> string \<Rightarrow> byte list) \<Rightarrow> ServerConfig \<Rightarrow> env \<Rightarrow> AgentRequest \<Rightarrow> db \<Rightarrow> (AgentReply \<times> db) result" where
  "agent_work hmac config e (Reconcile w ids) db =
     (case reconcile (wi_id w) (wi_session w) ids db of
        Inl ex \<Rightarrow> Inl ex | Inr stop \<Rightarrow> Inr (Decisions stop, db))"
| "agent_work hmac config e (Register w cpu memory engine capable) db =
     (case register_worker e (wi_id w) (wi_session w) \<lparr>cpu_millis = cpu, memory_mib = memory, gpu_count = 0\<rparr>
         \<lparr>reg_engine_id = engine, reg_capable = capable\<rparr> db of
        Inl ex \<Rightarrow> Inl ex | Inr (_, db') \<Rightarrow> Inr (Empty, db'))"
| "agent_work hmac config e (ReportGpuInventory w snapshot) db =
     (if length (snap_devices snapshot) > 64 then throw invalid ''GPU inventory exceeds 64 devices''
      else case report_gpu_inventory e (wi_id w) (wi_session w) snapshot db of
        Inl ex \<Rightarrow> Inl ex | Inr (_, db') \<Rightarrow> Inr (Empty, db'))"
| "agent_work hmac config e (WorkerHeartbeat w) db =
     (case worker_heartbeat e (wi_id w) (wi_session w) db of
        Inl ex \<Rightarrow> Inl ex | Inr (_, db') \<Rightarrow> Inr (Empty, db'))"
| "agent_work hmac config e (Poll w) db =
     (case cleanup (wi_id w) (wi_session w) db of
        Inl ex \<Rightarrow> Inl ex
      | Inr finished \<Rightarrow>
        (case assign (cf_timing config) e (wi_id w) (wi_session w) db of
           Inl ex \<Rightarrow> Inl ex
         | Inr (assignment, db') \<Rightarrow>
           Inr (WorkReply (map_option (work_assignment hmac config) assignment) (map att_id finished), db')))"
| "agent_work hmac config e (ReportRuntime w aid runtime stopped) db =
     (case runtime_report e (wi_id w) (wi_session w) aid runtime stopped db of
        Inl ex \<Rightarrow> Inl ex | Inr (_, db') \<Rightarrow> Inr (Empty, db'))"

definition agent_rpc ::
    "(string \<Rightarrow> string \<Rightarrow> byte list) \<Rightarrow> ServerConfig \<Rightarrow> env \<Rightarrow> ServerContext \<Rightarrow> bool \<Rightarrow> AgentRequest \<Rightarrow> db \<Rightarrow>
     status \<times> AgentReply option \<times> db" where
  "agent_rpc hmac config e caller ready request db =
     protect (case agent_authorize config caller ready of
                Inl ex \<Rightarrow> Inl ex | Inr _ \<Rightarrow> agent_work hmac config e request db) db"

section \<open>Runners\<close>

record Owner =
  ow_attempt_id :: string
  ow_generation :: int
  ow_instance_id :: string
  ow_node_name :: string

datatype AttemptRequest =
    Start Owner
  | Heartbeat Owner
  | BeginFinalization Owner
  | Complete Owner int string int
  | Report Owner "Telemetry list"

datatype AttemptReply =
    Done
  | StartReply RunSpec int int int int
  | Lease int
  | Ack int

fun request_owner :: "AttemptRequest \<Rightarrow> Owner" where
  "request_owner (Start r) = r"
| "request_owner (Heartbeat r) = r"
| "request_owner (BeginFinalization r) = r"
| "request_owner (Complete r code reason sequence) = r"
| "request_owner (Report r records) = r"

definition attempt_authorize ::
    "(string \<Rightarrow> string \<Rightarrow> byte list) \<Rightarrow> ServerConfig \<Rightarrow> ServerContext \<Rightarrow> bool \<Rightarrow> Owner \<Rightarrow> unit result" where
  "attempt_authorize hmac config caller ready own =
     authenticate caller
       (attempt_capability hmac (cf_signing_key config) (ow_attempt_id own) (ow_generation own)) ready"

fun attempt_work :: "ServerConfig \<Rightarrow> env \<Rightarrow> AttemptRequest \<Rightarrow> db \<Rightarrow> (AttemptReply \<times> db) result" where
  "attempt_work config e (Start r) db =
     (case start (cf_timing config) e (ow_attempt_id r) (ow_generation r) (ow_instance_id r) (ow_node_name r) db of
        Inl ex \<Rightarrow> Inl ex
      | Inr (a, db') \<Rightarrow>
        Inr (StartReply (asg_spec a) (lease_seconds (cf_timing config)) (heartbeat_seconds (cf_timing config))
               (termination_seconds (cf_timing config)) (finalization_seconds (cf_timing config)), db'))"
| "attempt_work config e (Heartbeat r) db =
     (case heartbeat (cf_timing config) e (ow_attempt_id r) (ow_generation r) (ow_instance_id r) db of
        Inl ex \<Rightarrow> Inl ex | Inr (_, db') \<Rightarrow> Inr (Lease (lease_seconds (cf_timing config)), db'))"
| "attempt_work config e (BeginFinalization r) db =
     (case begin_finalization (cf_timing config) e (ow_attempt_id r) (ow_generation r) (ow_instance_id r) db of
        Inl ex \<Rightarrow> Inl ex | Inr (_, db') \<Rightarrow> Inr (Done, db'))"
| "attempt_work config e (Complete r code reason sequence) db =
     (case finish (cf_timing config) e (ow_attempt_id r) (ow_generation r) (ow_instance_id r) code reason sequence db of
        Inl ex \<Rightarrow> Inl ex | Inr (_, db') \<Rightarrow> Inr (Done, db'))"
| "attempt_work config e (Report r records) db =
     (case report e (ow_attempt_id r) (ow_generation r) (ow_instance_id r) records db of
        Inl ex \<Rightarrow> Inl ex | Inr (sequence, db') \<Rightarrow> Inr (Ack sequence, db'))"

definition attempt_rpc ::
    "(string \<Rightarrow> string \<Rightarrow> byte list) \<Rightarrow> ServerConfig \<Rightarrow> env \<Rightarrow> ServerContext \<Rightarrow> bool \<Rightarrow> AttemptRequest \<Rightarrow> db \<Rightarrow>
     status \<times> AttemptReply option \<times> db" where
  "attempt_rpc hmac config e caller ready request db =
     protect (case attempt_authorize hmac config caller ready (request_owner request) of
                Inl ex \<Rightarrow> Inl ex | Inr _ \<Rightarrow> attempt_work config e request db) db"

section \<open>Uploads\<close>

record ArtifactChunk =
  ch_owner :: Owner
  ch_path :: string
  ch_data :: string
  ch_sha256 :: string

record ArtifactReply =
  ar_id :: string
  ar_sha256 :: string
  ar_size :: uint64

text \<open>The loop that writes the chunks to the temporary file: what it has written, or the quota error.\<close>

fun receive_chunks :: "string \<Rightarrow> ArtifactChunk list \<Rightarrow> string result" where
  "receive_chunks written [] = Inr written"
| "receive_chunks written (c # cs) =
     (if length written + length (ch_data c) > 256 * 1024 * 1024
      then throw exhausted ''artifact exceeds 256 MiB''
      else receive_chunks (written @ ch_data c) cs)"

text \<open>
  The transactions of an upload find the database as \<open>db\<close> (the first ownership check), \<open>db1\<close> and \<open>db2\<close>
  (those of \<open>publish\<close>). \<open>interrupted\<close> is the second test of \<open>IsCancelled\<close>. The temporary file is gone when
  the handler returns.
\<close>

definition upload_work ::
    "(string \<Rightarrow> string \<Rightarrow> byte list) \<Rightarrow> (string \<Rightarrow> byte list) \<Rightarrow> (io_faults \<Rightarrow> string \<Rightarrow> string \<Rightarrow> disk \<Rightarrow> unit result \<times> disk) \<Rightarrow>
     ServerConfig \<Rightarrow> env \<Rightarrow> env \<Rightarrow> env \<Rightarrow> io_faults \<Rightarrow> ServerContext \<Rightarrow> bool \<Rightarrow> bool \<Rightarrow> string \<Rightarrow> ArtifactChunk list \<Rightarrow>
     db \<Rightarrow> db \<Rightarrow> db \<Rightarrow> disk \<Rightarrow> (ArtifactReply \<times> db) result \<times> disk" where
  "upload_work hmac digest put config e e1 e2 io caller ready interrupted temporary chunks db db1 db2 d =
     (case chunks of
        [] \<Rightarrow> (throw invalid ''artifact metadata required'', d)
      | chunk # _ \<Rightarrow>
        (let own = ch_owner chunk in
         case attempt_authorize hmac config caller ready own of
           Inl ex \<Rightarrow> (Inl ex, d)
         | Inr _ \<Rightarrow>
           (case validate_relative_path (ch_path chunk) of
              Inl ex \<Rightarrow> (Inl ex, d)
            | Inr _ \<Rightarrow>
              (case verify_owner e (ow_attempt_id own) (ow_generation own) (ow_instance_id own) db of
                 Inl ex \<Rightarrow> (Inl ex, d)
               | Inr _ \<Rightarrow>
                 (case receive_chunks [] chunks of
                    Inl ex \<Rightarrow> (Inl ex, d(temporary := None))
                  | Inr content \<Rightarrow>
                    (if interrupted then (throw unavailable ''upload interrupted'', d(temporary := None))
                     else case publish digest put e1 e2 io (ow_attempt_id own) (ow_generation own) (ow_instance_id own)
                         (ch_path chunk) (ch_sha256 chunk) temporary db1 db2 (d(temporary \<mapsto> content)) of
                       (Inl ex, d') \<Rightarrow> (Inl ex, d'(temporary := None))
                     | (Inr (a, db'), d') \<Rightarrow>
                       (Inr (\<lparr>ar_id = art_id a, ar_sha256 = art_sha256 a, ar_size = art_size a\<rparr>, db'),
                        d'(temporary := None))))))))"

definition upload_rpc ::
    "(string \<Rightarrow> string \<Rightarrow> byte list) \<Rightarrow> (string \<Rightarrow> byte list) \<Rightarrow> (io_faults \<Rightarrow> string \<Rightarrow> string \<Rightarrow> disk \<Rightarrow> unit result \<times> disk) \<Rightarrow>
     ServerConfig \<Rightarrow> env \<Rightarrow> env \<Rightarrow> env \<Rightarrow> io_faults \<Rightarrow> ServerContext \<Rightarrow> bool \<Rightarrow> bool \<Rightarrow> string \<Rightarrow> ArtifactChunk list \<Rightarrow>
     db \<Rightarrow> db \<Rightarrow> db \<Rightarrow> disk \<Rightarrow> (status \<times> ArtifactReply option \<times> db) \<times> disk" where
  "upload_rpc hmac digest put config e e1 e2 io caller ready interrupted temporary chunks db db1 db2 d =
     (case upload_work hmac digest put config e e1 e2 io caller ready interrupted temporary chunks db db1 db2 d of
        (work, d') \<Rightarrow> (protect work db2, d'))"

section \<open>Properties\<close>

lemma authenticate_wrong:
  "sc_authorization caller \<noteq> Some (''Bearer '' @ token) \<Longrightarrow>
     authenticate caller token ready = throw unauthorized ''invalid RPC credentials''"
  by (auto simp: authenticate_def split: option.splits)

lemma show_nat_inject: "show_nat m = show_nat n \<Longrightarrow> m = n"
proof (induction m arbitrary: n rule: show_nat.induct)
  case (1 m)
  have len: "(length (show_nat k) = 1) = (k < 10)" for k
  proof -
    have "length (show_nat j) > 0" for j using show_nat.simps[of j] by (cases "j < 10") simp_all
    then show ?thesis using show_nat.simps[of k] by (cases "k < 10") simp_all
  qed
  have digit: "char_of (48 + i) = char_of (48 + j) \<Longrightarrow> i < 10 \<Longrightarrow> j < 10 \<Longrightarrow> i = j" for i j :: nat
    by (simp add: char_of_eq_iff of_char_of take_bit_nat_eq_self)
  show ?case
  proof (cases "m < 10")
    case True
    with 1(2) len[of m] len[of n] have "n < 10" by simp
    with True 1(2) digit show ?thesis using show_nat.simps[of m] show_nat.simps[of n] by simp
  next
    case False
    with 1(2) len[of m] len[of n] have "\<not> n < 10" by simp
    with False 1(2) have "show_nat (m div 10) = show_nat (n div 10)" "char_of (48 + m mod 10) = (char_of (48 + n mod 10) :: char)"
      using show_nat.simps[of m] show_nat.simps[of n] by simp_all
    with 1(1)[OF False] digit[of "m mod 10" "n mod 10"] have "m div 10 = n div 10" "m mod 10 = n mod 10" by simp_all
    then show ?thesis by (metis div_mult_mod_eq)
  qed
qed

lemma show_nat_no: "\<not> is_digit c \<Longrightarrow> c \<notin> set (show_nat n)"
  using show_nat_digits[of n] by (auto simp: list_all_iff)

lemma not_digits: "\<not> is_digit CHR '':''" "\<not> is_digit CHR ''-''"
  by (simp_all add: is_digit_def char_between_def less_eq_char_def)

lemma show_int_no_colon: "CHR '':'' \<notin> set (show_int i)"
  using show_nat_no[OF not_digits(1)] by (simp add: show_int_def)

lemma show_int_inject: "show_int i = show_int j \<Longrightarrow> i = j"
proof -
  have "show_nat n \<noteq> CHR ''-'' # xs" for n xs
    using show_nat_no[OF not_digits(2), of n] by (metis list.set_intros(1))
  then show "show_int i = show_int j \<Longrightarrow> i = j"
    by (auto simp: show_int_def split: if_splits dest!: show_nat_inject dest: sym)
qed

lemma split_last:
  "c \<notin> set s \<Longrightarrow> c \<notin> set t \<Longrightarrow> xs @ c # s = ys @ c # t \<Longrightarrow> xs = ys \<and> s = t"
proof (induction xs arbitrary: ys)
  case Nil
  then show ?case by (cases ys) auto
next
  case (Cons x xs)
  then show ?case by (cases ys) auto
qed

lemma attempt_message_inject: "attempt_message a g = attempt_message b h \<longleftrightarrow> a = b \<and> g = h"
  using split_last[OF show_int_no_colon show_int_no_colon, of a g b h]
  by (auto simp: attempt_message_def dest: show_int_inject)

lemma hex_pair_inject: "hex_pair a = hex_pair b \<Longrightarrow> a = b"
proof -
  assume eq: "hex_pair a = hex_pair b"
  have inj: "i = j" if "hex_digits ! i = hex_digits ! j" "i < 16" "j < 16" for i j
  proof -
    have "distinct hex_digits" "length hex_digits = 16" by (simp_all add: hex_digits_def)
    with that show ?thesis by (metis nth_eq_iff_index_eq)
  qed
  have "unat c div 16 < 16" for c :: byte
  proof -
    have "unat c < 2 ^ LENGTH(8)" by (rule unsigned_less)
    then show ?thesis by simp
  qed
  with eq inj have "unat a div 16 = unat b div 16" "unat a mod 16 = unat b mod 16" by (simp_all add: hex_pair_def)
  then have "unat a = unat b" by (metis div_mult_mod_eq)
  then show "a = b" by (simp add: word_unat_eq_iff)
qed

lemma hex_inject: "hex a = hex b \<Longrightarrow> a = b"
proof (induction a arbitrary: b)
  case Nil
  then show ?case by (cases b) (simp_all add: hex_def hex_pair_def)
next
  case (Cons x a)
  then obtain y c where b: "b = y # c" by (cases b) (simp_all add: hex_def hex_pair_def)
  with Cons.prems have "hex_pair x @ hex a = hex_pair y @ hex c" by (simp add: hex_def)
  then have "hex_pair x = hex_pair y" "hex a = hex c" by (simp_all add: hex_pair_def)
  with Cons.IH hex_pair_inject b show ?case by blast
qed

text \<open>
  C28: nothing happens without credentials. A call that does not carry the worker token (agents) or
  the capability of the attempt and generation it names (runners, uploads included) is answered
  UNAUTHENTICATED, and leaves database and disk as they were.
\<close>

theorem calls_need_credentials:
  assumes "sc_authorization agent \<noteq> Some (''Bearer '' @ cf_worker_token config)"
    and "sc_authorization runner \<noteq> Some (''Bearer '' @ attempt_capability hmac (cf_signing_key config)
      (ow_attempt_id (request_owner request)) (ow_generation (request_owner request)))"
    and "sc_authorization uploader \<noteq> Some (''Bearer '' @ attempt_capability hmac (cf_signing_key config)
      (ow_attempt_id (ch_owner chunk)) (ow_generation (ch_owner chunk)))"
  shows "agent_rpc hmac config e agent ready work db = ((UNAUTHENTICATED, ''invalid RPC credentials''), None, db) \<and>
    attempt_rpc hmac config e runner ready request db = ((UNAUTHENTICATED, ''invalid RPC credentials''), None, db) \<and>
    upload_rpc hmac digest put config e e1 e2 io uploader ready interrupted temporary (chunk # chunks) db db1 db2 d =
      (((UNAUTHENTICATED, ''invalid RPC credentials''), None, db2), d)"
  using authenticate_wrong[OF assms(1)] authenticate_wrong[OF assms(2)] authenticate_wrong[OF assms(3)]
  by (simp add: agent_rpc_def agent_authorize_def attempt_rpc_def attempt_authorize_def protect_def
      upload_rpc_def upload_work_def)

definition demo_config :: ServerConfig where
  "demo_config = \<lparr>cf_database = [], cf_owner_token = ''owner'', cf_worker_token = ''worker'', cf_signing_key = ''key'',
     cf_host = [], cf_http_port = 8080, cf_grpc_port = 9090, cf_development = True, cf_certificate = [],
     cf_private_key = [], cf_mode = ''docker'', cf_artifacts = [], cf_timing = default_Timing\<rparr>"

definition demo_context :: "string \<Rightarrow> ServerContext" where
  "demo_context token = \<lparr>sc_authorization = Some (''Bearer '' @ token), sc_cancelled = False\<rparr>"

definition demo_owner :: Owner where
  "demo_owner = \<lparr>ow_attempt_id = ''a'', ow_generation = 1, ow_instance_id = ''i'', ow_node_name = []\<rparr>"

text \<open>An HMAC that is the message itself: injective, as an ideal one is.\<close>

definition demo_hmac :: "string \<Rightarrow> string \<Rightarrow> byte list" where
  "demo_hmac secret message = map (\<lambda>c. of_nat (of_char c)) message"

theorem calls_need_credentials_witness:
  "agent_rpc demo_hmac demo_config (demo_env 500 ''-'') (demo_context ''guess'') True
     (Poll \<lparr>wi_id = ''w'', wi_session = ''s''\<rparr>) demo_ready =
       ((UNAUTHENTICATED, ''invalid RPC credentials''), None, demo_ready) \<and>
   attempt_rpc demo_hmac demo_config (demo_env 500 ''-'') (demo_context ''guess'') True
     (Heartbeat demo_owner) demo_started = ((UNAUTHENTICATED, ''invalid RPC credentials''), None, demo_started)"
proof -
  let ?cap = "attempt_capability demo_hmac (cf_signing_key demo_config) (ow_attempt_id demo_owner) (ow_generation demo_owner)"
  have "length ?cap \<noteq> length ''guess''"
    by (simp add: attempt_capability_def sign_def demo_hmac_def) presburger
  then have bad: "sc_authorization (demo_context ''guess'') \<noteq> Some (''Bearer '' @ ?cap)"
    by (auto simp: demo_context_def dest!: arg_cong[of "''guess''" _ length])
  have "sc_authorization (demo_context ''guess'') \<noteq> Some (''Bearer '' @ cf_worker_token demo_config)"
    by (simp add: demo_context_def demo_config_def)
  from calls_need_credentials[OF this, of "demo_context ''guess''" demo_hmac "Heartbeat demo_owner" "demo_context ''guess''"
      "\<lparr>ch_owner = demo_owner, ch_path = [], ch_data = [], ch_sha256 = []\<rparr>"] bad
  show ?thesis by simp
qed

text \<open>
  A capability is good for one attempt. The message that is signed determines the attempt and
  the generation, so with an injective HMAC the capability of another attempt, or of another
  generation, is refused.
\<close>

theorem capabilities_do_not_transfer:
  assumes "inj (hmac (cf_signing_key config))"
    and "(ow_attempt_id (request_owner request), ow_generation (request_owner request)) \<noteq> (aid, generation)"
    and "sc_authorization caller = Some (''Bearer '' @ attempt_capability hmac (cf_signing_key config) aid generation)"
  shows "attempt_rpc hmac config e caller ready request db = ((UNAUTHENTICATED, ''invalid RPC credentials''), None, db)"
proof -
  have "attempt_capability hmac (cf_signing_key config) aid generation \<noteq>
      attempt_capability hmac (cf_signing_key config) (ow_attempt_id (request_owner request)) (ow_generation (request_owner request))"
    using assms(1,2) by (auto simp: attempt_capability_def sign_def dest!: hex_inject injD simp: attempt_message_inject)
  with assms(3) have "authenticate caller (attempt_capability hmac (cf_signing_key config)
      (ow_attempt_id (request_owner request)) (ow_generation (request_owner request))) ready =
      throw unauthorized ''invalid RPC credentials''"
    by (intro authenticate_wrong) auto
  then show ?thesis by (simp add: attempt_rpc_def attempt_authorize_def protect_def)
qed

theorem capabilities_do_not_transfer_witness:
  "attempt_rpc demo_hmac demo_config (demo_env 500 ''-'')
     (demo_context (attempt_capability demo_hmac ''key'' ''a'' 2)) True (Heartbeat demo_owner) demo_started =
       ((UNAUTHENTICATED, ''invalid RPC credentials''), None, demo_started)"
proof -
  have "inj (demo_hmac (cf_signing_key demo_config))"
  proof (rule injI)
    fix x y
    assume "demo_hmac (cf_signing_key demo_config) x = demo_hmac (cf_signing_key demo_config) y"
    then have "map (\<lambda>c. of_nat (of_char c) :: byte) x = map (\<lambda>c. of_nat (of_char c)) y" by (simp add: demo_hmac_def)
    moreover have "inj (\<lambda>c. of_nat (of_char c) :: byte)"
    proof (rule injI)
      fix a b :: char
      assume "(of_nat (of_char a) :: byte) = of_nat (of_char b)"
      then have "unat (of_nat (of_char a) :: byte) = unat (of_nat (of_char b) :: byte)" by simp
      then have "(of_char a :: nat) = of_char b"
        using nat_of_char_less_256[of a] nat_of_char_less_256[of b] by (simp add: unat_of_nat take_bit_nat_eq_self)
      then show "a = b" by simp
    qed
    ultimately show "x = y" by (simp add: inj_map_eq_map)
  qed
  from capabilities_do_not_transfer[where hmac = demo_hmac and config = demo_config and
      request = "Heartbeat demo_owner" and aid = "''a''" and generation = 2, OF this]
  show ?thesis
    by (simp add: demo_owner_def demo_context_def demo_config_def)
qed

text \<open>
  A remote call is at most one transaction of the store, and none at all unless its status is
  OK: everything proved of the store holds for whatever agents and runners send.
\<close>

theorem calls_are_transactions:
  assumes "agent_rpc hmac config e caller ready work db = (st, reply, db')"
    and "attempt_rpc hmac config e caller ready request db = (st1, reply1, db1)"
    and "upload_rpc hmac digest put config e e1 e2 io caller ready interrupted temporary chunks u u1 db d = ((st2, reply2, db2), d')"
  shows "(if fst st = OK then db' = db \<or> store_step (cf_timing config) db db' else db' = db \<and> reply = None) \<and>
    (if fst st1 = OK then db1 = db \<or> store_step (cf_timing config) db db1 else db1 = db \<and> reply1 = None) \<and>
    (if fst st2 = OK then db2 = db \<or> store_step (cf_timing config) db db2 else db2 = db \<and> reply2 = None)"
proof -
  have ex: "fst (exception_status ex) \<noteq> OK" for ex
    by (cases ex rule: exception_status.cases; simp) (metis StatusCode.distinct error_status.simps ErrorCode.exhaust)
  have agent: "agent_work hmac config e work db = Inr (r, x) \<Longrightarrow> x = db \<or> store_step (cf_timing config) db x" for r x
    by (cases work) (auto split: sum.splits if_splits intro: store_step.intros)
  have runner: "attempt_work config e request db = Inr (r, x) \<Longrightarrow> store_step (cf_timing config) db x" for r x
    by (cases request) (auto split: sum.splits intro: store_step.intros)
  have upload: "upload_work hmac digest put config e e1 e2 io caller ready interrupted temporary chunks u u1 db d = (Inr (r, x), y)
      \<Longrightarrow> store_step (cf_timing config) db x" for r x y
    by (auto simp: upload_work_def publish_def Let_def split: list.splits sum.splits if_splits prod.splits intro: store_step.intros)
  from assms(1) agent ex have "if fst st = OK then db' = db \<or> store_step (cf_timing config) db db' else db' = db \<and> reply = None"
    by (auto simp: agent_rpc_def protect_def split: sum.splits)
  moreover from assms(2) runner ex have "if fst st1 = OK then db1 = db \<or> store_step (cf_timing config) db db1 else db1 = db \<and> reply1 = None"
    by (auto simp: attempt_rpc_def protect_def split: sum.splits)
  moreover from assms(3) upload ex have "if fst st2 = OK then db2 = db \<or> store_step (cf_timing config) db db2 else db2 = db \<and> reply2 = None"
    by (auto simp: upload_rpc_def protect_def split: sum.splits prod.splits)
  ultimately show ?thesis by blast
qed

theorem calls_are_transactions_witness:
  "\<exists>db1. attempt_rpc demo_hmac demo_config (demo_env 600 ''-'')
       (demo_context (attempt_capability demo_hmac ''key'' ''a'' 1)) True (Heartbeat demo_owner) demo_started =
         ((OK, []), Some (Lease 30), db1) \<and>
     (db1 = demo_started \<or> store_step default_Timing demo_started db1)"
proof -
  let ?caller = "demo_context (attempt_capability demo_hmac ''key'' ''a'' 1)"
  have "attempt_capability demo_hmac ''key'' ''a'' 1 \<noteq> []"
    by (simp add: attempt_capability_def sign_def demo_hmac_def attempt_message_def hex_def hex_pair_def)
  then have run: "\<exists>db1. attempt_rpc demo_hmac demo_config (demo_env 600 ''-'') ?caller True (Heartbeat demo_owner)
      demo_started = ((OK, []), Some (Lease 30), db1)"
    by (simp add: attempt_rpc_def attempt_authorize_def authenticate_def demo_context_def demo_owner_def
        demo_config_def protect_def heartbeat_def demo_all)
  obtain st reply db' where agent: "agent_rpc demo_hmac demo_config (demo_env 600 ''-'') ?caller True
      (Poll \<lparr>wi_id = ''w'', wi_session = ''s''\<rparr>) demo_started = (st, reply, db')" by (metis prod_cases3)
  have upload: "upload_rpc demo_hmac demo_digest (fs_put ''o'') demo_config (demo_env 600 ''-'') (demo_env 600 ''-'')
      (demo_env 600 ''-'') demo_io ?caller True False ''t'' [] demo_started demo_started demo_started demo_disk =
      (((INVALID_ARGUMENT, ''artifact metadata required''), None, demo_started), demo_disk)"
    by (simp add: upload_rpc_def upload_work_def protect_def)
  from run obtain db1 where run: "attempt_rpc demo_hmac demo_config (demo_env 600 ''-'') ?caller True (Heartbeat demo_owner)
      demo_started = ((OK, []), Some (Lease 30), db1)" by blast
  with calls_are_transactions[OF agent run upload] show ?thesis by (auto simp: demo_config_def)
qed

text \<open>
  What the runner makes of a failed call. Its client turns the status back into an exception: a
  stale or conflicting request is stale, one that is invalid, unknown or unauthorized keeps its
  code, so that the runner gives up; every other failure, an exhausted quota included, becomes
  unavailable, which the runner retries.
\<close>

theorem errors_survive_the_wire:
  "check_rpc (exception_status ex) =
     (case ex of
        Error code m \<Rightarrow> throw (if code = conflict then stale else if code = exhausted then unavailable else code) m
      | _ \<Rightarrow> throw unavailable ''operation temporarily unavailable'')"
proof (cases ex)
  case (Error code m)
  then show ?thesis by (cases code) (simp_all add: check_rpc_def)
qed (simp_all add: check_rpc_def)

end
