(* ===== verification/Runner_Telemetry.thy ===== *)
theory Runner_Telemetry
  imports Domain
begin

text \<open>
  \<^verbatim>\<open>src/runner/telemetry.cpp\<close>: the runner's bounded telemetry queue (\<open>Reporter\<close>) and the reader of
  the workload's metric file (\<open>MetricReader\<close>). Every method body runs under the reporter's mutex,
  so one call is one step; the sender thread is a sequence of such steps around the remote call.
  \<open>timestamp()\<close> is a parameter: \<open>ts n\<close> is the time at which record number \<open>n\<close> was queued.
\<close>

section \<open>The queue\<close>

record Reporter =
  rp_queue :: "Telemetry list"
  rp_bytes :: nat
  rp_dropped :: uint64
  rp_next :: int
  rp_failure :: "exn option"

definition new_Reporter :: Reporter where
  "new_Reporter = \<lparr>rp_queue = [], rp_bytes = 0, rp_dropped = 0, rp_next = 1, rp_failure = None\<rparr>"

definition buffer_limit :: nat where
  "buffer_limit = 4 * 1024 * 1024"

definition record_size :: "Telemetry \<Rightarrow> nat" where
  "record_size r = length (t_text r) + length (t_name r) + 128"

text \<open>\<open>Telemetry record;\<close>: the default member initialisers.\<close>

definition blank_record :: Telemetry where
  "blank_record = \<lparr>t_sequence = 0, t_kind = [], t_text = [], t_name = [], t_step = 0, t_value = 0,
     t_timestamp_ms = 0\<rparr>"

text \<open>A record that enters the queue gets the next number and the current time.\<close>

definition push_record :: "(int \<Rightarrow> int) \<Rightarrow> Telemetry \<Rightarrow> Reporter \<Rightarrow> Reporter" where
  "push_record ts r rp =
     rp\<lparr>rp_queue := rp_queue rp @ [r\<lparr>t_sequence := rp_next rp, t_timestamp_ms := ts (rp_next rp)\<rparr>],
        rp_bytes := rp_bytes rp + record_size r, rp_next := rp_next rp + 1\<rparr>"

definition enqueue :: "(int \<Rightarrow> int) \<Rightarrow> Telemetry \<Rightarrow> Reporter \<Rightarrow> Reporter result" where
  "enqueue ts r rp =
     (case rp_failure rp of
        Some ex \<Rightarrow> Inl ex
      | None \<Rightarrow>
        (if rp_bytes rp + record_size r > buffer_limit
         then Inr (rp\<lparr>rp_dropped := rp_dropped rp + 1\<rparr>)
         else Inr (push_record ts r rp)))"

section \<open>Logs and metrics\<close>

text \<open>
  \<open>readable\<close> first passes the text through the JSON library, which replaces malformed UTF-8; that
  step is the parameter \<open>sanitize\<close>. Then it writes out null characters.
\<close>

definition readable :: "(string \<Rightarrow> string) \<Rightarrow> string \<Rightarrow> string" where
  "readable sanitize text = concat (map (\<lambda>ch. if ch = CHR 0x00 then [CHR 0x5C, CHR ''0''] else [ch]) (sanitize text))"

text \<open>\<open>(static_cast<unsigned char>(ch) & 0xc0) == 0x80\<close>\<close>

definition continuation :: "char \<Rightarrow> bool" where
  "continuation ch \<longleftrightarrow> of_char ch div (64::nat) = 2"

text \<open>The inner loop of \<open>log\<close>; \<open>None\<close> is the index running below zero.\<close>

fun back_off :: "string \<Rightarrow> nat \<Rightarrow> nat option" where
  "back_off clean 0 = (if clean \<noteq> [] \<and> continuation (clean ! 0) then None else Some 0)"
| "back_off clean (Suc n) =
     (if Suc n < length clean \<and> continuation (clean ! Suc n) then back_off clean n else Some (Suc n))"

partial_function (option) log_loop ::
    "(int \<Rightarrow> int) \<Rightarrow> string \<Rightarrow> string \<Rightarrow> nat \<Rightarrow> Reporter \<Rightarrow> Reporter result option" where
  "log_loop ts kind clean offset rp =
     (if offset < length clean
      then case back_off clean (min (length clean) (offset + 16000)) of
          None \<Rightarrow> None
        | Some till \<Rightarrow>
          (case enqueue ts (blank_record\<lparr>t_kind := kind, t_text := take (till - offset) (drop offset clean)\<rparr>) rp of
             Inl ex \<Rightarrow> Some (Inl ex)
           | Inr rp' \<Rightarrow> log_loop ts kind clean till rp')
      else Some (Inr rp))"

definition log_text ::
    "(string \<Rightarrow> string) \<Rightarrow> (int \<Rightarrow> int) \<Rightarrow> string \<Rightarrow> string \<Rightarrow> Reporter \<Rightarrow> Reporter result option" where
  "log_text sanitize ts kind text rp = log_loop ts kind (readable sanitize text) 0 rp"

definition metric :: "(int \<Rightarrow> int) \<Rightarrow> string \<Rightarrow> int \<Rightarrow> double \<Rightarrow> Reporter \<Rightarrow> Reporter result" where
  "metric ts name step value rp =
     (let r = blank_record\<lparr>t_kind := ''metric'', t_name := name, t_step := step, t_value := value,
                t_sequence := 1\<rparr>
      in case validate_telemetry r of Inl ex \<Rightarrow> Inl ex | Inr _ \<Rightarrow> enqueue ts r rp)"

section \<open>Sending\<close>

text \<open>What \<open>send_loop\<close> copies from the queue: at most 128 records and 256 KiB.\<close>

fun take_batch :: "nat \<Rightarrow> nat \<Rightarrow> Telemetry list \<Rightarrow> Telemetry list" where
  "take_batch count bytes [] = []"
| "take_batch count bytes (r # rs) =
     (if 128 \<le> count \<or> 256 * 1024 < bytes + record_size r then []
      else r # take_batch (Suc count) (bytes + record_size r) rs)"

definition next_batch :: "Reporter \<Rightarrow> Telemetry list" where
  "next_batch rp = take_batch 0 0 (rp_queue rp)"

fun pop_acknowledged :: "int \<Rightarrow> nat \<Rightarrow> Telemetry list \<Rightarrow> nat \<times> Telemetry list" where
  "pop_acknowledged ack bytes [] = (bytes, [])"
| "pop_acknowledged ack bytes (r # rs) =
     (if t_sequence r \<le> ack then pop_acknowledged ack (bytes - record_size r) rs else (bytes, r # rs))"

definition overflow_notice :: "uint64 \<Rightarrow> Telemetry" where
  "overflow_notice dropped = blank_record\<lparr>t_kind := ''notice'', t_text :=
     ''Telemetry buffer overflow: dropped '' @ show_nat (unat dropped) @ '' records''\<rparr>"

text \<open>After an acknowledgement: forget what was stored, then report what was dropped.\<close>

definition acknowledge :: "(int \<Rightarrow> int) \<Rightarrow> int \<Rightarrow> Reporter \<Rightarrow> Reporter" where
  "acknowledge ts ack rp =
     (let (bytes, queue) = pop_acknowledged ack (rp_bytes rp) (rp_queue rp);
          rp1 = rp\<lparr>rp_bytes := bytes, rp_queue := queue\<rparr>
      in if rp_dropped rp1 \<noteq> 0 \<and> rp_bytes rp1 < buffer_limit - 1024
         then (push_record ts (overflow_notice (rp_dropped rp1)) rp1)\<lparr>rp_dropped := 0\<rparr>
         else rp1)"

text \<open>
  A call that threw: an unavailable coordinator is retried, every other exception ends the loop
  and is kept for the producers.
\<close>

definition call_failed :: "exn \<Rightarrow> Reporter \<Rightarrow> Reporter" where
  "call_failed ex rp = (if exn_code ex = Some unavailable then rp else rp\<lparr>rp_failure := Some ex\<rparr>)"

text \<open>
  \<open>flush\<close> in the state in which its wait ended: the queue is empty or the sender failed, or else the
  deadline has passed.
\<close>

definition flush :: "Reporter \<Rightarrow> int result" where
  "flush rp =
     (if \<not> (rp_queue rp = [] \<or> rp_failure rp \<noteq> None)
      then throw unavailable ''telemetry flush deadline exceeded''
      else case rp_failure rp of Some ex \<Rightarrow> Inl ex | None \<Rightarrow> Inr (rp_next rp - 1))"

section \<open>Splitting logs\<close>

text \<open>
  The pieces \<open>log\<close> queues. The text is valid UTF-8 after \<open>sanitize\<close>: it does not begin with a
  continuation byte and no four of them stand in a row.
\<close>

definition utf8_runs :: "string \<Rightarrow> bool" where
  "utf8_runs s \<longleftrightarrow> (s \<noteq> [] \<longrightarrow> \<not> continuation (s ! 0)) \<and>
     (\<forall>i. i + 3 < length s \<longrightarrow> (\<exists>j\<le>3. \<not> continuation (s ! (i + j))))"

lemma back_off_bounds:
  assumes "utf8_runs s" and "n \<le> length s"
  shows "\<exists>m. back_off s n = Some m \<and> m \<le> n \<and> n \<le> m + 3 \<and> (m < length s \<longrightarrow> \<not> continuation (s ! m)) \<and>
    (n = length s \<longrightarrow> m = n)"
proof -
  have "\<exists>m. back_off s n = Some m \<and> m \<le> n \<and> (m < length s \<longrightarrow> \<not> continuation (s ! m)) \<and>
      (\<forall>k. m < k \<and> k \<le> n \<longrightarrow> k < length s \<and> continuation (s ! k))" for n
    using assms(1)
  proof (induction n)
    case 0
    then show ?case by (auto simp: utf8_runs_def)
  next
    case (Suc n)
    show ?case
    proof (cases "Suc n < length s \<and> continuation (s ! Suc n)")
      case True
      with Suc obtain m where "back_off s n = Some m" "m \<le> n" "m < length s \<longrightarrow> \<not> continuation (s ! m)"
        "\<forall>k. m < k \<and> k \<le> n \<longrightarrow> k < length s \<and> continuation (s ! k)" by blast
      with True show ?thesis by (intro exI[of _ m]) (auto simp: le_Suc_eq)
    qed auto
  qed
  then obtain m where m: "back_off s n = Some m" "m \<le> n" "m < length s \<longrightarrow> \<not> continuation (s ! m)"
    "\<forall>k. m < k \<and> k \<le> n \<longrightarrow> k < length s \<and> continuation (s ! k)" by blast
  have "n \<le> m + 3"
  proof (rule ccontr)
    assume "\<not> n \<le> m + 3"
    then have "\<forall>j\<le>3. continuation (s ! (m + 1 + j))" "m + 1 + 3 < length s" using m(4) by auto
    with assms(1) show False unfolding utf8_runs_def by blast
  qed
  moreover have "m = n" if "n = length s"
    using m(2,4) that by (metis le_neq_implies_less le_refl less_irrefl_nat)
  ultimately show ?thesis using m by blast
qed

fun enqueue_all :: "(int \<Rightarrow> int) \<Rightarrow> Telemetry list \<Rightarrow> Reporter \<Rightarrow> Reporter result" where
  "enqueue_all ts [] rp = Inr rp"
| "enqueue_all ts (r # rs) rp = (case enqueue ts r rp of Inl ex \<Rightarrow> Inl ex | Inr rp' \<Rightarrow> enqueue_all ts rs rp')"

definition log_record :: "string \<Rightarrow> string \<Rightarrow> Telemetry" where
  "log_record kind text = blank_record\<lparr>t_kind := kind, t_text := text\<rparr>"

lemma log_loop_pieces:
  assumes "utf8_runs clean"
  shows "\<exists>pieces. log_loop ts kind clean offset rp = Some (enqueue_all ts (map (log_record kind) pieces) rp) \<and>
    concat pieces = drop offset clean \<and> (\<forall>p\<in>set pieces. p \<noteq> [] \<and> length p \<le> 16000)"
proof (induction "length clean - offset" arbitrary: offset rp rule: less_induct)
  case less
  show ?case
  proof (cases "offset < length clean")
    case False
    then show ?thesis by (intro exI[of _ "[]"]) (subst log_loop.simps, simp)
  next
    case True
    let ?goal = "min (length clean) (offset + 16000)"
    obtain m where m: "back_off clean ?goal = Some m" "m \<le> ?goal" "?goal \<le> m + 3" "?goal = length clean \<longrightarrow> m = ?goal"
      using back_off_bounds[OF assms, of ?goal] by auto
    with True have more: "offset < m" by (auto simp: min_def split: if_splits)
    let ?piece = "take (m - offset) (drop offset clean)"
    have piece: "?piece \<noteq> []" "length ?piece \<le> 16000" using m(2) True more by auto
    have rest: "\<exists>pieces. log_loop ts kind clean m rp' = Some (enqueue_all ts (map (log_record kind) pieces) rp') \<and>
        concat pieces = drop m clean \<and> (\<forall>p\<in>set pieces. p \<noteq> [] \<and> length p \<le> 16000)" for rp'
      using True more by (intro less) simp
    have joined: "?piece @ drop m clean = drop offset clean"
      using more by (metis append_take_drop_id drop_drop le_add_diff_inverse2 less_imp_le_nat)
    define rp1 where "rp1 = (case enqueue ts (log_record kind ?piece) rp of Inl _ \<Rightarrow> rp | Inr rp' \<Rightarrow> rp')"
    from rest[of rp1] obtain pieces where
      "log_loop ts kind clean m rp1 = Some (enqueue_all ts (map (log_record kind) pieces) rp1)"
      "concat pieces = drop m clean" "\<forall>p\<in>set pieces. p \<noteq> [] \<and> length p \<le> 16000" by blast
    then show ?thesis
      using True m(1) piece joined
      by (intro exI[of _ "?piece # pieces"])
        (subst log_loop.simps, simp add: log_record_def rp1_def split: sum.splits)
  qed
qed



end
