(* ===== verification/Metric_Reader.thy ===== *)
theory Metric_Reader
  imports Runner_Telemetry
begin

text \<open>
  \<open>MetricReader\<close> of \<^verbatim>\<open>src/runner/telemetry.cpp\<close>: the workload appends lines to a file, the runner reads
  what was added since the last poll and turns complete lines into metrics. What the JSON library
  makes of a line is the parameter \<open>classify\<close>.
\<close>

text \<open>
  A line that the library cannot parse or that lacks a field, one whose step is no 64-bit integer or
  whose value is no number, and one that has a name, a step and a value.
\<close>

datatype MetricLine = json_exception | wrong_types | metric_fields string int double

record MetricReader =
  mr_offset :: nat
  mr_partial :: string
  mr_oversized :: bool
  mr_records :: nat

definition new_MetricReader :: MetricReader where
  "new_MetricReader = \<lparr>mr_offset = 0, mr_partial = [], mr_oversized = False, mr_records = 0\<rparr>"

text \<open>The reporter, the clock and the two parameters, as the reader's methods use them.\<close>

record metric_env =
  me_sanitize :: "string \<Rightarrow> string"
  me_ts :: "int \<Rightarrow> int"
  me_classify :: "string \<Rightarrow> MetricLine"

definition notice :: "metric_env \<Rightarrow> string \<Rightarrow> Reporter \<Rightarrow> Reporter result option" where
  "notice me text rp = log_text (me_sanitize me) (me_ts me) ''notice'' (text @ [CHR 0x0A]) rp"

definition parse_line :: "metric_env \<Rightarrow> string \<Rightarrow> Reporter \<Rightarrow> Reporter result option" where
  "parse_line me line rp =
     (case me_classify me line of
        json_exception \<Rightarrow> notice me ''Ignored malformed metric record'' rp
      | wrong_types \<Rightarrow> notice me ''Ignored invalid metric record'' rp
      | metric_fields name step value \<Rightarrow>
        (case metric (me_ts me) name step value rp of
           Inr rp' \<Rightarrow> Some (Inr rp')
         | Inl ex \<Rightarrow>
           (if exn_code ex = Some invalid then notice me ''Ignored invalid metric record'' rp
            else Some (Inl ex))))"

definition line_limit :: nat where
  "line_limit = 65536"

definition record_limit :: nat where
  "record_limit = 100000"

definition end_line ::
    "metric_env \<Rightarrow> MetricReader \<Rightarrow> Reporter \<Rightarrow> (bool \<times> MetricReader \<times> Reporter) result option" where
  "end_line me mr rp =
     (case (if \<not> mr_oversized mr \<and> mr_partial mr \<noteq> [] then parse_line me (mr_partial mr) rp
            else if mr_oversized mr then notice me ''Ignored metric line exceeding 64 KiB'' rp
            else Some (Inr rp)) of
        None \<Rightarrow> None
      | Some (Inl ex) \<Rightarrow> Some (Inl ex)
      | Some (Inr rp1) \<Rightarrow>
        (let mr' = mr\<lparr>mr_partial := [], mr_oversized := False, mr_records := mr_records mr + 1\<rparr> in
         if mr_records mr' \<ge> record_limit
         then (case notice me ''Metric record limit reached'' rp1 of
                 None \<Rightarrow> None
               | Some (Inl ex) \<Rightarrow> Some (Inl ex)
               | Some (Inr rp2) \<Rightarrow> Some (Inr (True, mr', rp2)))
         else Some (Inr (False, mr', rp1))))"

definition add_char :: "char \<Rightarrow> MetricReader \<Rightarrow> MetricReader" where
  "add_char ch mr =
     (if mr_oversized mr then mr
      else if length (mr_partial mr) < line_limit then mr\<lparr>mr_partial := mr_partial mr @ [ch]\<rparr>
      else mr\<lparr>mr_partial := [], mr_oversized := True\<rparr>)"

text \<open>The loop over the bytes that were read; the flag says that \<open>poll\<close> returned.\<close>

fun read_chars ::
    "metric_env \<Rightarrow> string \<Rightarrow> MetricReader \<Rightarrow> Reporter \<Rightarrow> (bool \<times> MetricReader \<times> Reporter) result option" where
  "read_chars me [] mr rp = Some (Inr (False, mr, rp))"
| "read_chars me (ch # chs) mr rp =
     (if ch = CHR 0x0A
      then (case end_line me mr rp of
              None \<Rightarrow> None
            | Some (Inl ex) \<Rightarrow> Some (Inl ex)
            | Some (Inr (returned, mr', rp')) \<Rightarrow>
              (if returned then Some (Inr (True, mr', rp')) else read_chars me chs mr' rp'))
      else read_chars me chs (add_char ch mr) rp)"

fun poll_batches ::
    "metric_env \<Rightarrow> string \<Rightarrow> nat \<Rightarrow> MetricReader \<Rightarrow> Reporter \<Rightarrow> (MetricReader \<times> Reporter) result option" where
  "poll_batches me content 0 mr rp = Some (Inr (mr, rp))"
| "poll_batches me content (Suc n) mr rp =
     (let bytes = take 4096 (drop (mr_offset mr) content) in
      case read_chars me bytes (mr\<lparr>mr_offset := mr_offset mr + length bytes\<rparr>) rp of
        None \<Rightarrow> None
      | Some (Inl ex) \<Rightarrow> Some (Inl ex)
      | Some (Inr (returned, mr', rp')) \<Rightarrow>
        (if returned \<or> length bytes < 4096 then Some (Inr (mr', rp'))
         else poll_batches me content n mr' rp'))"

text \<open>One poll of a file with this content: at most 16 reads of 4096 bytes.\<close>

definition poll ::
    "metric_env \<Rightarrow> string \<Rightarrow> MetricReader \<Rightarrow> Reporter \<Rightarrow> (MetricReader \<times> Reporter) result option" where
  "poll me content mr rp =
     (if mr_records mr \<ge> record_limit then Some (Inr (mr, rp)) else poll_batches me content 16 mr rp)"

section \<open>Lines\<close>

text \<open>
  The reference: each line is handled once and whole, an empty one only counted, one of more than
  64 KiB reported, every other one parsed; at the limit the rest is ignored.
\<close>

definition handle_line :: "metric_env \<Rightarrow> string \<Rightarrow> Reporter \<Rightarrow> Reporter result option" where
  "handle_line me line rp =
     (if line = [] then Some (Inr rp)
      else if length line \<le> line_limit then parse_line me line rp
      else notice me ''Ignored metric line exceeding 64 KiB'' rp)"

fun handle_lines :: "metric_env \<Rightarrow> string list \<Rightarrow> Reporter \<Rightarrow> Reporter result option" where
  "handle_lines me [] rp = Some (Inr rp)"
| "handle_lines me (l # ls) rp =
     (case handle_line me l rp of
        None \<Rightarrow> None | Some (Inl ex) \<Rightarrow> Some (Inl ex) | Some (Inr rp') \<Rightarrow> handle_lines me ls rp')"

definition after_line :: "string \<Rightarrow> MetricReader \<Rightarrow> MetricReader" where
  "after_line l mr =
     (if length l \<le> line_limit then mr\<lparr>mr_partial := l, mr_oversized := False\<rparr>
      else mr\<lparr>mr_partial := [], mr_oversized := True\<rparr>)"

lemma add_char_after: "add_char ch (after_line l mr) = after_line (l @ [ch]) mr"
  by (simp add: add_char_def after_line_def)

lemma read_chars_line:
  assumes "CHR 0x0A \<notin> set l"
  shows "read_chars me (l @ rest) (after_line l0 mr) rp = read_chars me rest (after_line (l0 @ l) mr) rp"
  using assms
proof (induction l arbitrary: l0)
  case (Cons ch l)
  then show ?case using Cons.IH[of "l0 @ [ch]"] by (auto simp: add_char_after)
qed simp

lemma end_line_after:
  assumes "mr_records mr + 1 < record_limit"
  shows "end_line me (after_line l mr) rp =
    (case handle_line me l rp of
       None \<Rightarrow> None | Some (Inl ex) \<Rightarrow> Some (Inl ex)
     | Some (Inr rp') \<Rightarrow> Some (Inr (False, after_line [] (mr\<lparr>mr_records := mr_records mr + 1\<rparr>), rp')))"
  using assms
  by (auto simp: end_line_def after_line_def handle_line_def Let_def split: option.splits sum.splits)

definition lines_text :: "string list \<Rightarrow> string" where
  "lines_text ls = concat (map (\<lambda>l. l @ [CHR 0x0A]) ls)"

lemma read_chars_lines:
  assumes "\<forall>l\<in>set ls. CHR 0x0A \<notin> set l" and "CHR 0x0A \<notin> set tail"
    and "mr_records mr + length ls < record_limit"
  shows "read_chars me (lines_text ls @ tail) (after_line [] mr) rp =
    (case handle_lines me ls rp of
       None \<Rightarrow> None | Some (Inl ex) \<Rightarrow> Some (Inl ex)
     | Some (Inr rp') \<Rightarrow> Some (Inr (False, after_line tail (mr\<lparr>mr_records := mr_records mr + length ls\<rparr>), rp')))"
  using assms
proof (induction ls arbitrary: mr rp)
  case Nil
  then show ?case using read_chars_line[of tail me "[]" "[]"] by (simp add: lines_text_def)
next
  case (Cons l ls)
  let ?mr = "mr\<lparr>mr_records := mr_records mr + 1\<rparr>"
  have begun: "read_chars me (lines_text (l # ls) @ tail) (after_line [] mr) rp =
      read_chars me (CHR 0x0A # lines_text ls @ tail) (after_line l mr) rp"
    using Cons.prems(1) read_chars_line[of l me "CHR 0x0A # lines_text ls @ tail" "[]"]
    by (simp add: lines_text_def)
  have ending: "end_line me (after_line l mr) rp = (case handle_line me l rp of
       None \<Rightarrow> None | Some (Inl ex) \<Rightarrow> Some (Inl ex)
     | Some (Inr rp') \<Rightarrow> Some (Inr (False, after_line [] ?mr, rp')))"
    using Cons.prems(3) by (intro end_line_after) simp
  have rest: "read_chars me (lines_text ls @ tail) (after_line [] ?mr) rp' =
    (case handle_lines me ls rp' of
       None \<Rightarrow> None | Some (Inl ex) \<Rightarrow> Some (Inl ex)
     | Some (Inr rp'') \<Rightarrow> Some (Inr (False, after_line tail (mr\<lparr>mr_records := mr_records mr + length (l # ls)\<rparr>), rp'')))"
    for rp' using Cons.prems by (subst Cons.IH) (simp_all split: option.split sum.split)
  show ?case
  proof (cases "handle_line me l rp")
    case None
    then show ?thesis by (simp add: begun ending)
  next
    case (Some res)
    then show ?thesis
      by (cases res) (simp_all only: begun ending rest read_chars.simps handle_lines.simps option.case sum.case
          prod.case if_True if_False simp_thms)
  qed
qed

text \<open>Reading in pieces is reading the whole, as long as no piece ends in a return.\<close>

lemma read_chars_append:
  "read_chars me (a @ b) mr rp =
    (case read_chars me a mr rp of
       None \<Rightarrow> None | Some (Inl ex) \<Rightarrow> Some (Inl ex)
     | Some (Inr (returned, mr', rp')) \<Rightarrow>
         if returned then Some (Inr (True, mr', rp')) else read_chars me b mr' rp')"
  by (induction me a mr rp rule: read_chars.induct) (auto split: option.splits sum.splits)

text \<open>The position in the file plays no part in what the characters mean.\<close>

lemma end_line_offset:
  "end_line me (mr\<lparr>mr_offset := n\<rparr>) rp =
     map_option (map_sum id (\<lambda>(b, mr', rp'). (b, mr'\<lparr>mr_offset := n\<rparr>, rp'))) (end_line me mr rp)"
  by (auto simp: end_line_def Let_def split: option.splits sum.splits)

lemma read_chars_offset:
  "read_chars me cs (mr\<lparr>mr_offset := n\<rparr>) rp =
     map_option (map_sum id (\<lambda>(b, mr', rp'). (b, mr'\<lparr>mr_offset := n\<rparr>, rp'))) (read_chars me cs mr rp)"
proof (induction me cs mr rp rule: read_chars.induct)
  case (2 me ch chs mr rp)
  have "add_char ch (mr\<lparr>mr_offset := n\<rparr>) = (add_char ch mr)\<lparr>mr_offset := n\<rparr>"
    by (simp add: add_char_def)
  with 2 show ?case
    by (auto simp: end_line_offset split: option.splits sum.splits)
qed simp

lemma read_chars_keeps_offset:
  "read_chars me cs mr rp = Some (Inr (b, mr', rp')) \<Longrightarrow> mr_offset mr' = mr_offset mr"
  using read_chars_offset[of me cs "mr_offset mr" mr rp] by (auto dest: arg_cong[of _ _ mr_offset])

lemma poll_batches_read:
  assumes "drop (mr_offset mr) content = unread" and "length unread < n * 4096"
    and "read_chars me unread mr rp = Some (Inr (False, mr', rp'))"
  shows "poll_batches me content n mr rp = Some (Inr (mr'\<lparr>mr_offset := mr_offset mr + length unread\<rparr>, rp'))"
  using assms
proof (induction n arbitrary: mr unread rp mr')
  case (Suc n)
  let ?bytes = "take 4096 unread"
  from Suc.prems(3) have "read_chars me (?bytes @ drop 4096 unread) mr rp = Some (Inr (False, mr', rp'))" by simp
  then obtain mr1 rp1 where first: "read_chars me ?bytes mr rp = Some (Inr (False, mr1, rp1))"
    and second: "read_chars me (drop 4096 unread) mr1 rp1 = Some (Inr (False, mr', rp'))"
    unfolding read_chars_append by (auto split: option.splits sum.splits if_splits)
  note off = read_chars_keeps_offset[OF first]
  show ?case
  proof (cases "length unread < 4096")
    case True
    with first second Suc.prems(1) show ?thesis by (simp add: read_chars_offset)
  next
    case False
    let ?mr1 = "mr1\<lparr>mr_offset := mr_offset mr + 4096\<rparr>"
    have "drop (mr_offset ?mr1) content = drop 4096 unread" "length (drop 4096 unread) < n * 4096"
      using Suc.prems(1,2) False by (auto simp: drop_drop add.commute)
    moreover have "read_chars me (drop 4096 unread) ?mr1 rp1 =
        Some (Inr (False, mr'\<lparr>mr_offset := mr_offset mr + 4096\<rparr>, rp'))"
      by (simp add: read_chars_offset second)
    ultimately show ?thesis
      using Suc.IH[of ?mr1 "drop 4096 unread" rp1] first Suc.prems(1) False
      by (simp add: read_chars_offset)
  qed
qed simp

lemma read_chars_resume:
  assumes "tail0 @ unread = lines_text ls @ tail" and "CHR 0x0A \<notin> set tail0"
    and "\<forall>l\<in>set ls. CHR 0x0A \<notin> set l" and "CHR 0x0A \<notin> set tail"
    and "mr_records mr + length ls < record_limit"
    and "handle_lines me ls rp = Some (Inr rp')"
  shows "read_chars me unread (after_line tail0 mr) rp =
    Some (Inr (False, after_line tail (mr\<lparr>mr_records := mr_records mr + length ls\<rparr>), rp'))"
proof -
  have "read_chars me unread (after_line tail0 mr) rp = read_chars me (tail0 @ unread) (after_line [] mr) rp"
    using read_chars_line[OF assms(2), of me unread "[]"] by simp
  then show ?thesis
    unfolding assms(1) using read_chars_lines[OF assms(3-5), of me rp] assms(6) by simp
qed



end
