(* ===== verification/Telemetry_Delivery.thy ===== *)
theory Telemetry_Delivery
  imports Metric_Reader Store_Contents
begin

text \<open>
  The runner's sender thread and the coordinator's store together. The network may lose a request
  or an answer and may serve a request long after the sender gave up on it; producers and other
  transactions run in between. \<open>telemetry_sink\<close> is what the sender relies on; the store provides it.
\<close>

section \<open>The sender\<close>

text \<open>
  \<open>dl_requests\<close> are the batches on their way, \<open>dl_acks\<close> the answers given so far, any of which the
  sender may still receive. \<open>dl_history\<close> is the list of all records that ever entered the queue; no
  step depends on it.
\<close>

record 'db delivery =
  dl_reporter :: Reporter
  dl_waiting :: bool
  dl_requests :: "Telemetry list list"
  dl_acks :: "int list"
  dl_history :: "Telemetry list"
  dl_store :: 'db

definition delivery_init :: "'db \<Rightarrow> 'db delivery" where
  "delivery_init db = \<lparr>dl_reporter = new_Reporter, dl_waiting = False, dl_requests = [], dl_acks = [],
     dl_history = [], dl_store = db\<rparr>"

definition entered :: "Reporter \<Rightarrow> Reporter \<Rightarrow> Telemetry list" where
  "entered rp rp' = (if rp_next rp' = rp_next rp then [] else [last (rp_queue rp')])"

text \<open>
  \<open>produce\<close> is a call of \<open>enqueue\<close> by \<open>log\<close> or \<open>metric\<close>, which bound the text and the name; \<open>pick\<close>, \<open>answered\<close> and \<open>failed\<close> are the parts of an
  iteration of \<open>send_loop\<close>; \<open>served\<close> is the coordinator's transaction for a request, \<open>lost\<close> a request
  that never arrives or is refused, and \<open>other\<close> any transaction that does not touch the attempt's
  records.
\<close>

inductive delivery_step ::
    "('e \<Rightarrow> Telemetry list \<Rightarrow> 'db \<Rightarrow> (int \<times> 'db) result) \<Rightarrow> ('db \<Rightarrow> 'db \<Rightarrow> bool) \<Rightarrow>
     'db delivery \<Rightarrow> 'db delivery \<Rightarrow> bool" for send_batch other where
  produce: "length (t_text r) \<le> 16000 \<Longrightarrow> length (t_name r) \<le> 200 \<Longrightarrow>
    enqueue ts r (dl_reporter d) = Inr rp' \<Longrightarrow>
    delivery_step send_batch other d
      (d\<lparr>dl_reporter := rp', dl_history := dl_history d @ entered (dl_reporter d) rp'\<rparr>)"
| pick: "\<not> dl_waiting d \<Longrightarrow> rp_failure (dl_reporter d) = None \<Longrightarrow> rp_queue (dl_reporter d) \<noteq> [] \<Longrightarrow>
    delivery_step send_batch other d
      (d\<lparr>dl_waiting := True, dl_requests := next_batch (dl_reporter d) # dl_requests d\<rparr>)"
| served: "b \<in> set (dl_requests d) \<Longrightarrow> send_batch e b (dl_store d) = Inr (n, db') \<Longrightarrow>
    delivery_step send_batch other d
      (d\<lparr>dl_requests := remove1 b (dl_requests d), dl_acks := n # dl_acks d, dl_store := db'\<rparr>)"
| lost: "delivery_step send_batch other d (d\<lparr>dl_requests := remove1 b (dl_requests d)\<rparr>)"
| answered: "dl_waiting d \<Longrightarrow> n \<in> set (dl_acks d) \<Longrightarrow> rp' = acknowledge ts n (dl_reporter d) \<Longrightarrow>
    delivery_step send_batch other d
      (d\<lparr>dl_reporter := rp', dl_waiting := False,
         dl_history := dl_history d @ entered (dl_reporter d) rp'\<rparr>)"
| failed: "dl_waiting d \<Longrightarrow>
    delivery_step send_batch other d
      (d\<lparr>dl_reporter := call_failed ex (dl_reporter d), dl_waiting := False\<rparr>)"
| other: "other (dl_store d) db' \<Longrightarrow> delivery_step send_batch other d (d\<lparr>dl_store := db'\<rparr>)"

section \<open>Segments of the history\<close>

lemma take_batch_prefix: "\<exists>j. take_batch c b rs = take j rs"
proof (induction c b rs rule: take_batch.induct)
  case (2 c b r rs)
  show ?case
  proof (cases "128 \<le> c \<or> 256 * 1024 < b + record_size r")
    case True
    then show ?thesis by (intro exI[of _ 0]) auto
  next
    case False
    with 2 obtain j where "take_batch (Suc c) (b + record_size r) rs = take j rs" by blast
    with False show ?thesis by (intro exI[of _ "Suc j"]) auto
  qed
qed simp

lemma accepted_numbered:
  assumes "map t_sequence rs = [a + 1..a + int (length rs)]" and "a \<le> n" and "n \<le> a + int (length rs)"
  shows "accepted n rs = drop (nat (n - a)) rs"
  using assms
proof (induction rs arbitrary: a n)
  case (Cons r rs)
  have "a + 1 \<le> a + int (length (r # rs))" by simp
  with Cons.prems(1) have r: "t_sequence r = a + 1"
    and rs: "map t_sequence rs = [(a + 1) + 1..(a + 1) + int (length rs)]"
    by (simp_all add: upto_rec1 algebra_simps)
  show ?case
  proof (cases "n = a")
    case True
    with r Cons.IH[OF rs, of "a + 1"] show ?thesis by simp
  next
    case False
    then have "nat (n - a) = Suc (nat (n - (a + 1)))" using Cons.prems(2) by simp
    with False r Cons.IH[OF rs, of n] Cons.prems(2,3) show ?thesis by simp
  qed
qed simp

lemma accepted_old: "\<forall>r\<in>set rs. t_sequence r \<le> n \<Longrightarrow> accepted n rs = []"
  by (induction rs) auto

text \<open>
  A segment of a numbered history that does not begin after the stored prefix extends the stored
  prefix, whatever part of it is stored already.
\<close>

lemma numbered_segment:
  assumes "map t_sequence h = [1..int (length h)]"
  shows "map t_sequence (take j (drop i h)) = [int i + 1..int i + int (length (take j (drop i h)))]"
proof -
  have nth: "t_sequence (h ! k) = int k + 1" if "k < length h" for k
    using arg_cong[OF assms, of "\<lambda>xs. xs ! k"] that by simp
  show ?thesis by (rule nth_equalityI) (auto simp: nth)
qed

lemma accepted_segment:
  assumes h: "map t_sequence h = [1..int (length h)]" and "i \<le> m" and "m \<le> length h"
  shows "\<exists>m'. m \<le> m' \<and> m' \<le> length h \<and> take m h @ accepted (int m) (take j (drop i h)) = take m' h"
proof -
  let ?b = "take j (drop i h)"
  show ?thesis
  proof (cases "m \<le> i + length ?b")
    case True
    have "accepted (int m) ?b = drop (m - i) ?b"
      using accepted_numbered[OF numbered_segment[OF h, of j i], of "int m"] assms(2) True
      by (simp add: nat_diff_distrib)
    also have "\<dots> = take (j - (m - i)) (drop m h)" using assms(2) by (simp add: drop_take)
    finally have "take m h @ accepted (int m) ?b = take (m + (j - (m - i))) h"
      by (simp add: take_add)
    then show ?thesis
      by (intro exI[of _ "min (length h) (m + (j - (m - i)))"]) (use assms(3) in \<open>auto simp: min_def\<close>)
  next
    case False
    have "t_sequence r \<le> int m" if "r \<in> set ?b" for r
    proof -
      have "t_sequence r \<in> set (map t_sequence ?b)" using that by (simp only: set_map image_eqI)
      then have "t_sequence r \<in> set [int i + 1..int i + int (length ?b)]"
        using numbered_segment[OF h, of j i] by (simp only:)
      then show ?thesis using False by (simp only: set_upto) simp
    qed
    then have "accepted (int m) ?b = []" by (intro accepted_old) blast
    with assms(3) show ?thesis by auto
  qed
qed

section \<open>The queue and the history\<close>

definition queue_inv :: "Telemetry list \<Rightarrow> nat \<Rightarrow> Reporter \<Rightarrow> bool" where
  "queue_inv h m rp \<longleftrightarrow> rp_next rp = int (length h) + 1 \<and> map t_sequence h = [1..int (length h)] \<and>
     (\<exists>k\<le>m. rp_queue rp = drop k h) \<and> rp_bytes rp = sum_list (map record_size (rp_queue rp)) \<and>
     rp_bytes rp \<le> buffer_limit \<and> (rp_queue rp = [] \<longrightarrow> rp_dropped rp = 0)"

lemma queue_inv_mono: "queue_inv h m rp \<Longrightarrow> m \<le> m' \<Longrightarrow> queue_inv h m' rp"
  unfolding queue_inv_def by (meson le_trans)

lemma push_record_inv:
  assumes "queue_inv h m rp" and "m \<le> length h" and "rp_bytes rp + record_size r \<le> buffer_limit"
  shows "queue_inv (h @ entered rp (push_record ts r rp)) m (push_record ts r rp)"
proof -
  let ?r = "r\<lparr>t_sequence := rp_next rp, t_timestamp_ms := ts (rp_next rp)\<rparr>"
  have new: "entered rp (push_record ts r rp) = [?r]" by (simp add: entered_def push_record_def)
  from assms(1) obtain k where k: "k \<le> m" "rp_queue rp = drop k h"
    and I: "rp_next rp = int (length h) + 1" "map t_sequence h = [1..int (length h)]"
      "rp_bytes rp = sum_list (map record_size (rp_queue rp))"
    by (auto simp: queue_inv_def)
  have "record_size ?r = record_size r" by (simp add: record_size_def)
  moreover have "map t_sequence (h @ [?r]) = [1..int (length (h @ [?r]))]"
    using I(1,2) by (simp add: upto_rec2)
  moreover have "k \<le> length h" using k(1) assms(2) by simp
  ultimately show ?thesis
    unfolding queue_inv_def new using k I assms(3)
    by (simp only: push_record_def Reporter.simps) (auto simp: ac_simps intro!: exI[of _ k])
qed

lemma push_record_dropped:
  "(push_record ts r rp)\<lparr>rp_dropped := n\<rparr> = push_record ts r (rp\<lparr>rp_dropped := n\<rparr>)"
  by (cases rp) (simp add: push_record_def)

lemma queue_inv_dropped:
  "queue_inv h m rp \<Longrightarrow> (rp_queue rp = [] \<longrightarrow> n = 0) \<Longrightarrow> queue_inv h m (rp\<lparr>rp_dropped := n\<rparr>)"
  by (auto simp: queue_inv_def)

lemma enqueue_inv:
  assumes "queue_inv h m rp" and "m \<le> length h" and "length (t_text r) \<le> 16000" and "length (t_name r) \<le> 200"
    and "enqueue ts r rp = Inr rp'"
  shows "queue_inv (h @ entered rp rp') m rp'"
proof (cases "rp_bytes rp + record_size r > buffer_limit")
  case True
  with assms(5) have rp': "rp' = rp\<lparr>rp_dropped := rp_dropped rp + 1\<rparr>"
    by (auto simp: enqueue_def split: option.splits)
  have "rp_queue rp \<noteq> []"
    using True assms(1,3,4) by (auto simp: queue_inv_def record_size_def buffer_limit_def)
  with assms(1) queue_inv_dropped show ?thesis by (simp add: rp' entered_def)
next
  case False
  with assms(5) have "rp' = push_record ts r rp" by (auto simp: enqueue_def split: option.splits)
  with push_record_inv[OF assms(1,2)] False show ?thesis by simp
qed

lemma pop_acknowledged_drop:
  assumes "map t_sequence q = [a + 1..a + int (length q)]"
  shows "pop_acknowledged n (sum_list (map record_size q)) q =
    (sum_list (map record_size (drop (nat (n - a)) q)), drop (nat (n - a)) q)"
  using assms
proof (induction q arbitrary: a)
  case (Cons r q)
  have "a + 1 \<le> a + int (length (r # q))" by simp
  with Cons.prems have r: "t_sequence r = a + 1"
    and q: "map t_sequence q = [(a + 1) + 1..(a + 1) + int (length q)]"
    by (simp_all add: upto_rec1 algebra_simps)
  show ?case
  proof (cases "a + 1 \<le> n")
    case True
    then have "nat (n - a) = Suc (nat (n - (a + 1)))" by simp
    with True r Cons.IH[OF q] show ?thesis by simp
  qed (use r in simp)
qed simp

lemma length_show_nat: "n < 10 ^ k \<Longrightarrow> 0 < k \<Longrightarrow> length (show_nat n) \<le> k"
proof (induction n arbitrary: k rule: show_nat.induct)
  case (1 n)
  show ?case
  proof (cases "n < 10")
    case True
    with "1.prems"(2) show ?thesis using show_nat.simps[of n] by simp
  next
    case False
    obtain k' where k: "k = Suc k'" using "1.prems"(2) by (cases k) auto
    moreover have "0 < k'" using "1.prems"(1) False k by (cases k') auto
    ultimately have k: "k = Suc k'" "0 < k'" by simp_all
    have "n div 10 < 10 ^ k'" using "1.prems"(1) k by (simp add: less_mult_imp_div_less mult.commute)
    with "1.IH"[of k'] False k(2) have "length (show_nat (n div 10)) \<le> k'" by blast
    moreover have "show_nat n = show_nat (n div 10) @ [char_of (48 + n mod 10)]"
      using False show_nat.simps[of n] by simp
    ultimately show ?thesis using k(1) by simp
  qed
qed

lemma notice_size: "record_size (overflow_notice n) \<le> 1024"
proof -
  have "unat n < 2 ^ LENGTH(64)" by (rule unsigned_less)
  then have "unat n < 10 ^ 20" by simp
  then have "length (show_nat (unat n)) \<le> 20" by (intro length_show_nat) auto
  then show ?thesis by (simp add: record_size_def overflow_notice_def blank_record_def)
qed

lemma acknowledge_inv:
  assumes "queue_inv h m rp" and "m \<le> length h" and "n \<le> int m"
  shows "queue_inv (h @ entered rp (acknowledge ts n rp)) m (acknowledge ts n rp)"
proof -
  from assms(1) obtain k where k: "k \<le> m" "rp_queue rp = drop k h"
    and seq: "map t_sequence h = [1..int (length h)]"
    and bytes: "rp_bytes rp = sum_list (map record_size (rp_queue rp))"
    by (auto simp: queue_inv_def)
  let ?q = "drop (nat (n - int k)) (drop k h)"
  let ?rp = "rp\<lparr>rp_bytes := sum_list (map record_size ?q), rp_queue := ?q\<rparr>"
  have pop: "pop_acknowledged n (rp_bytes rp) (rp_queue rp) = (sum_list (map record_size ?q), ?q)"
    unfolding bytes k(2)
    using numbered_segment[OF seq, of "length h" k] by (intro pop_acknowledged_drop) simp
  have "sum_list (map record_size ?q) \<le> sum_list (map record_size (rp_queue rp))"
    unfolding k(2) by (metis append_take_drop_id le_add2 map_append sum_list_append)
  moreover have "k + nat (n - int k) \<le> m" using k(1) assms(3) by linarith
  ultimately have inv: "queue_inv h m ?rp" if "?q = [] \<Longrightarrow> rp_dropped rp = 0"
    using assms(1) that bytes unfolding queue_inv_def by (auto simp: add.commute intro!: exI[of _ "k + nat (n - int k)"])
  show ?thesis
  proof (cases "rp_dropped rp \<noteq> 0 \<and> sum_list (map record_size ?q) < buffer_limit - 1024")
    case True
    let ?note = "overflow_notice (rp_dropped rp)"
    have ack: "acknowledge ts n rp = push_record ts ?note (?rp\<lparr>rp_dropped := 0\<rparr>)"
      using True by (simp add: acknowledge_def pop push_record_dropped del: drop_drop)
    have zero: "queue_inv h m (?rp\<lparr>rp_dropped := 0\<rparr>)"
      using \<open>k + nat (n - int k) \<le> m\<close> \<open>sum_list (map record_size ?q) \<le> _\<close> assms(1) bytes
      unfolding queue_inv_def by (auto simp: add.commute intro!: exI[of _ "k + nat (n - int k)"])
    have "rp_bytes (?rp\<lparr>rp_dropped := 0\<rparr>) + record_size ?note \<le> buffer_limit"
      using True notice_size[of "rp_dropped rp"] by (simp add: buffer_limit_def)
    from push_record_inv[OF zero assms(2) this]
    show ?thesis by (simp add: ack entered_def)
  next
    case False
    then have "acknowledge ts n rp = ?rp" by (auto simp: acknowledge_def pop)
    moreover have "?q = [] \<Longrightarrow> rp_dropped rp = 0" using False by (auto simp: buffer_limit_def)
    ultimately show ?thesis using inv by (simp add: entered_def)
  qed
qed

section \<open>What the sender relies on\<close>

definition delivery_inv :: "('db \<Rightarrow> bool) \<Rightarrow> ('db \<Rightarrow> Telemetry list) \<Rightarrow> 'db delivery \<Rightarrow> bool" where
  "delivery_inv ok stored d \<longleftrightarrow>
     (let h = dl_history d; m = length (stored (dl_store d)) in
      ok (dl_store d) \<and> queue_inv h m (dl_reporter d) \<and> m \<le> length h \<and> stored (dl_store d) = take m h \<and>
      (\<forall>b\<in>set (dl_requests d). \<exists>i j. i \<le> m \<and> b = take j (drop i h)) \<and> (\<forall>n\<in>set (dl_acks d). n \<le> int m))"

lemma segment_append:
  assumes "i \<le> length h" and "b = take j (drop i h)"
  shows "b = take (length b) (drop i (h @ x))"
  using assms by (simp add: min_def)

text \<open>
  The interface: a served batch appends what continues the stored records, the answer is the number
  of records stored then; other activity leaves them alone.
\<close>

locale telemetry_sink =
  fixes send_batch :: "'e \<Rightarrow> Telemetry list \<Rightarrow> 'db \<Rightarrow> (int \<times> 'db) result"
    and other :: "'db \<Rightarrow> 'db \<Rightarrow> bool" and ok :: "'db \<Rightarrow> bool" and stored :: "'db \<Rightarrow> Telemetry list"
  assumes send_ok: "ok db \<Longrightarrow> send_batch e b db = Inr (n, db') \<Longrightarrow> ok db'"
    and send_stores: "ok db \<Longrightarrow> send_batch e b db = Inr (n, db') \<Longrightarrow>
      stored db' = stored db @ accepted (int (length (stored db))) b \<and> n = int (length (stored db'))"
    and other_ok: "ok db \<Longrightarrow> other db db' \<Longrightarrow> ok db'"
    and other_keeps: "ok db \<Longrightarrow> other db db' \<Longrightarrow> stored db' = stored db"
begin

lemma history_grows:
  assumes inv: "delivery_inv ok stored d" and rp: "queue_inv (dl_history d @ x) (length (stored (dl_store d))) rp'"
  shows "delivery_inv ok stored (d\<lparr>dl_reporter := rp', dl_waiting := w, dl_history := dl_history d @ x\<rparr>)"
proof -
  let ?h = "dl_history d" and ?m = "length (stored (dl_store d))"
  have "\<exists>i j. i \<le> ?m \<and> b = take j (drop i (?h @ x))" if b: "b \<in> set (dl_requests d)" for b
  proof -
    from inv b obtain i j where i: "i \<le> ?m" and b: "b = take j (drop i ?h)" by (auto simp: delivery_inv_def Let_def)
    moreover have "i \<le> length ?h" using inv i by (auto simp: delivery_inv_def Let_def)
    ultimately show ?thesis using segment_append[of i ?h b j x] by blast
  qed
  with inv rp show ?thesis by (auto simp: delivery_inv_def Let_def)
qed

lemma served_inv:
  assumes inv: "delivery_inv ok stored d" and b: "b \<in> set (dl_requests d)"
    and send: "send_batch e b (dl_store d) = Inr (n, db')"
  shows "delivery_inv ok stored
    (d\<lparr>dl_requests := remove1 b (dl_requests d), dl_acks := n # dl_acks d, dl_store := db'\<rparr>)"
proof -
  let ?h = "dl_history d" and ?s = "stored (dl_store d)"
  from inv have ok: "ok (dl_store d)" and q: "queue_inv ?h (length ?s) (dl_reporter d)"
    and s: "length ?s \<le> length ?h" "?s = take (length ?s) ?h" by (simp_all add: delivery_inv_def Let_def)
  from inv b obtain i j where i: "i \<le> length ?s" "b = take j (drop i ?h)" by (auto simp: delivery_inv_def Let_def)
  have "map t_sequence ?h = [1..int (length ?h)]" using q by (simp add: queue_inv_def)
  from accepted_segment[OF this i(1) s(1), of j] obtain m' where m': "length ?s \<le> m'" "m' \<le> length ?h"
    and "?s @ accepted (int (length ?s)) b = take m' ?h" using i(2) s(2) by metis
  then have s': "stored db' = take m' ?h" and n: "n = int (length (stored db'))"
    using send_stores[OF ok send] by simp_all
  with m' have len: "length (stored db') = m'" by simp
  have "\<exists>i j. i \<le> m' \<and> c = take j (drop i ?h)" if "c \<in> set (remove1 b (dl_requests d))" for c
  proof -
    have "c \<in> set (dl_requests d)" using that set_remove1_subset by fastforce
    with inv obtain i j where "i \<le> length ?s" "c = take j (drop i ?h)" by (auto simp: delivery_inv_def Let_def)
    with m'(1) show ?thesis by (intro exI[of _ i] exI[of _ j]) simp
  qed
  moreover have "a \<le> int m'" if "a \<in> set (dl_acks d)" for a
    using inv that m'(1) by (fastforce simp: delivery_inv_def Let_def)
  ultimately show ?thesis
    using send_ok[OF ok send] queue_inv_mono[OF q m'(1)] m'(2) s' len n by (auto simp: delivery_inv_def Let_def)
qed

lemma step_inv:
  assumes "delivery_inv ok stored d" and "delivery_step send_batch other d d'"
  shows "delivery_inv ok stored d'"
  using assms(2,1)
proof (cases rule: delivery_step.cases)
  case (produce r ts rp')
  have "queue_inv (dl_history d @ entered (dl_reporter d) rp') (length (stored (dl_store d))) rp'"
    using assms(1) produce by (intro enqueue_inv) (auto simp: delivery_inv_def Let_def)
  from history_grows[OF assms(1) this, of "dl_waiting d"] produce(1) show ?thesis by simp
next
  case pick
  obtain j where "next_batch (dl_reporter d) = take j (rp_queue (dl_reporter d))"
    using take_batch_prefix unfolding next_batch_def by blast
  moreover obtain k where "k \<le> length (stored (dl_store d))" "rp_queue (dl_reporter d) = drop k (dl_history d)"
    using assms(1) by (auto simp: delivery_inv_def queue_inv_def Let_def)
  ultimately show ?thesis using assms(1) pick(1) by (auto simp: delivery_inv_def Let_def)
next
  case (served b e n db')
  with served_inv[OF assms(1)] show ?thesis by simp
next
  case (lost b)
  have "c \<in> set (dl_requests d)" if "c \<in> set (remove1 b (dl_requests d))" for c
    using that set_remove1_subset by fastforce
  with assms(1) lost show ?thesis by (simp add: delivery_inv_def Let_def)
next
  case (answered n rp' ts)
  have "queue_inv (dl_history d @ entered (dl_reporter d) rp') (length (stored (dl_store d))) rp'"
    using assms(1) answered(3,4) unfolding answered(4) by (intro acknowledge_inv) (auto simp: delivery_inv_def Let_def)
  from history_grows[OF assms(1) this, of False] answered(1) show ?thesis by simp
next
  case (failed ex)
  with assms(1) show ?thesis by (auto simp: delivery_inv_def Let_def queue_inv_def call_failed_def)
next
  case (other db')
  with assms(1) other_ok other_keeps show ?thesis by (auto simp: delivery_inv_def Let_def)
qed

lemma delivered:
  assumes "reach (delivery_init db) (delivery_step send_batch other) d" and "ok db" and "stored db = []"
  shows "delivery_inv ok stored d"
  using assms(1)
proof (induction rule: reach.induct)
  case reach_init
  show ?case
    using assms(2,3) by (simp add: delivery_inv_def delivery_init_def queue_inv_def new_Reporter_def buffer_limit_def)
next
  case (reach_step d d')
  then show ?case by (blast intro: step_inv)
qed

end

text \<open>
  The store is such a sink for one runner: what another transaction must not do is write this
  attempt's telemetry, which needs the instance id that only this runner has.
\<close>

definition elsewhere :: "Timing \<Rightarrow> string \<Rightarrow> db \<Rightarrow> db \<Rightarrow> bool" where
  "elsewhere timing aid db db' \<longleftrightarrow>
     store_step timing db db' \<and> attempt_telemetry db' aid = attempt_telemetry db aid"

lemma telemetry_count:
  assumes "store_inv db"
  shows "acknowledged db aid = int (length (attempt_telemetry db aid))"
proof -
  from store_invD(5)[OF assms] have "0 \<le> acknowledged db aid"
    and seq: "map t_sequence (attempt_telemetry db aid) = [1..acknowledged db aid]"
    by (simp_all add: telemetry_ok_def)
  from arg_cong[OF seq, of length] this(1) show ?thesis by simp
qed

interpretation sink: telemetry_sink "\<lambda>e. report e aid g inst" "elsewhere timing aid" store_inv
    "\<lambda>db. attempt_telemetry db aid" for aid g inst timing
proof
  fix db db' e b n
  assume inv: "store_inv db" and send: "report e aid g inst b db = Inr (n, db')"
  then show inv': "store_inv db'" by (blast intro: store_inv_step store_step.intros)
  from send show "attempt_telemetry db' aid = attempt_telemetry db aid @
      accepted (int (length (attempt_telemetry db aid))) b \<and> n = int (length (attempt_telemetry db' aid))"
  proof (cases rule: report_cases)
    case (1 a r)
    have "acknowledged db aid = a_ack_sequence a" "acknowledged db' aid = n"
      using 1(1) by (simp_all add: acknowledged_def 1(6) row_simps)
    with telemetry_count[OF inv, of aid] telemetry_count[OF inv', of aid] show ?thesis
      by (simp add: attempt_telemetry_def 1(6) filter_map comp_def)
  qed
next
  show "store_inv db'" if "store_inv db" "elsewhere timing aid db db'" for db db'
    using that by (blast intro: store_inv_step dest: elsewhere_def[THEN iffD1])
  show "attempt_telemetry db' aid = attempt_telemetry db aid" if "elsewhere timing aid db db'" for db db'
    using that by (simp add: elsewhere_def)
qed

abbreviation delivering where
  "delivering timing aid g inst db \<equiv> reach (delivery_init db)
     (delivery_step (\<lambda>e. report e aid g inst) (elsewhere timing aid))"

text \<open>A run of the sender against the store: two records queued, sent in one batch and acknowledged.\<close>

definition demo_delivered :: "db delivery" where
  "demo_delivered = \<lparr>dl_reporter = \<lparr>rp_queue = [], rp_bytes = 0, rp_dropped = 0, rp_next = 3, rp_failure = None\<rparr>,
     dl_waiting = False, dl_requests = [], dl_acks = [2], dl_history = [demo_telemetry 1, demo_telemetry 2],
     dl_store = demo_reported\<rparr>"

lemma demo_delivering: "delivering default_Timing ''a'' 1 ''i'' demo_started demo_delivered"
proof -
  let ?go = "delivery_step (\<lambda>e. report e ''a'' 1 ''i'') (elsewhere default_Timing ''a'')"
  let ?d = "\<lambda>q w rs as h db. \<lparr>dl_reporter = \<lparr>rp_queue = q, rp_bytes = 129 * length q, rp_dropped = 0,
     rp_next = int (length h) + 1, rp_failure = None\<rparr>, dl_waiting = w, dl_requests = rs, dl_acks = as,
     dl_history = h, dl_store = db\<rparr>"
  let ?h = "[demo_telemetry 1, demo_telemetry 2]"
  have eval: "enqueue (\<lambda>_. 0) (demo_telemetry 0) \<lparr>rp_queue = q, rp_bytes = 129 * length q, rp_dropped = 0,
      rp_next = n, rp_failure = None\<rparr> = Inr \<lparr>rp_queue = q @ [demo_telemetry n],
      rp_bytes = 129 * length q + 129, rp_dropped = 0, rp_next = n + 1, rp_failure = None\<rparr>" if "length q < 5" for q n
    using that by (simp add: enqueue_def push_record_def record_size_def buffer_limit_def demo_telemetry_def)
  note go = delivery_step.intros[where send_batch = "\<lambda>e. report e ''a'' 1 ''i''" and other = "elsewhere default_Timing ''a''"]
  have small: "length (t_text (demo_telemetry 0)) \<le> 16000" "length (t_name (demo_telemetry 0)) \<le> 200"
    by (simp_all add: demo_telemetry_def)
  have s1: "?go (?d [] False [] [] [] demo_started) (?d [demo_telemetry 1] False [] [] [demo_telemetry 1] demo_started)"
  proof -
    have "enqueue (\<lambda>_. 0) (demo_telemetry 0) (dl_reporter (?d [] False [] [] [] demo_started)) =
        Inr (dl_reporter (?d [demo_telemetry 1] False [] [] [demo_telemetry 1] demo_started))"
      using eval[of "[]" 1] by simp
    from go(1)[OF small this] show ?thesis by (simp add: entered_def)
  qed
  have s2: "?go (?d [demo_telemetry 1] False [] [] [demo_telemetry 1] demo_started) (?d ?h False [] [] ?h demo_started)"
  proof -
    have "enqueue (\<lambda>_. 0) (demo_telemetry 0) (dl_reporter (?d [demo_telemetry 1] False [] [] [demo_telemetry 1] demo_started)) =
        Inr (dl_reporter (?d ?h False [] [] ?h demo_started))"
      using eval[of "[demo_telemetry 1]" 2] by simp
    from go(1)[OF small this] show ?thesis by (simp add: entered_def)
  qed
  have s3: "?go (?d ?h False [] [] ?h demo_started) (?d ?h True [?h] [] ?h demo_started)"
    using go(2)[of "?d ?h False [] [] ?h demo_started"]
    by (simp add: next_batch_def record_size_def demo_telemetry_def)
  have s4: "?go (?d ?h True [?h] [] ?h demo_started) (?d ?h True [] [2] ?h demo_reported)"
  proof -
    have "report (demo_env 600 ''-'') ''a'' 1 ''i'' ?h demo_started = Inr (2, demo_reported)"
      by (simp add: report_def validate_telemetry_def guard_eval safe_string_def insert_telemetry_def demo_all)
    then show ?thesis using go(3)[of ?h "?d ?h True [?h] [] ?h demo_started"] by simp
  qed
  have s5: "?go (?d ?h True [] [2] ?h demo_reported) demo_delivered"
    using go(5)[of "?d ?h True [] [2] ?h demo_reported" 2 _ "\<lambda>_. 0", OF _ _ refl]
    by (simp add: acknowledge_def record_size_def demo_telemetry_def entered_def demo_delivered_def)
  have init: "delivery_init demo_started = ?d [] False [] [] [] demo_started"
    by (simp add: delivery_init_def new_Reporter_def)
  note then_step = reach.reach_step[where step = ?go]
  show ?thesis
    unfolding init
    by (rule then_step[OF then_step[OF then_step[OF then_step[OF then_step[OF reach.reach_init s1] s2] s3] s4] s5])
qed

lemma demo_silent: "attempt_telemetry demo_started ''a'' = []"
  by (simp add: attempt_telemetry_def demo_all)



text \<open>
  A flush that returns has delivered everything. Then the store holds the runner's records, all
  of them, none is waiting to be reported as dropped, and the number it returns is the store's
  acknowledged sequence, which is what \<open>finish\<close> demands.
\<close>

theorem flush_means_delivered:
  assumes "reachable timing db" and "attempt_telemetry db aid = []"
    and "delivering timing aid g inst db d" and "flush (dl_reporter d) = Inr n"
  shows "attempt_telemetry (dl_store d) aid = dl_history d \<and> acknowledged (dl_store d) aid = n \<and>
    rp_dropped (dl_reporter d) = 0"
proof -
  note inv = sink.delivered[OF assms(3) store.reachable_inv[OF assms(1)] assms(2)]
  from assms(4) have "rp_queue (dl_reporter d) = []" "n = rp_next (dl_reporter d) - 1"
    by (auto simp: flush_def split: if_splits option.splits)
  with inv obtain k where "k \<le> length (attempt_telemetry (dl_store d) aid)" "drop k (dl_history d) = []"
    and *: "rp_dropped (dl_reporter d) = 0" "n = int (length (dl_history d))" "store_inv (dl_store d)"
      "attempt_telemetry (dl_store d) aid = take (length (attempt_telemetry (dl_store d) aid)) (dl_history d)"
    by (auto simp: delivery_inv_def queue_inv_def Let_def)
  then have "attempt_telemetry (dl_store d) aid = dl_history d" by simp
  with * show ?thesis by (simp add: telemetry_count)
qed

theorem flush_means_delivered_witness:
  "flush (dl_reporter demo_delivered) = Inr 2 \<and>
   attempt_telemetry (dl_store demo_delivered) ''a'' = [demo_telemetry 1, demo_telemetry 2] \<and>
   acknowledged (dl_store demo_delivered) ''a'' = 2"
proof -
  have "flush (dl_reporter demo_delivered) = Inr 2" by (simp add: flush_def demo_delivered_def)
  from this flush_means_delivered[OF demo_reachable(5) demo_silent demo_delivering this]
  show ?thesis by (simp add: demo_delivered_def)
qed

end
