(* ===== verification/Runner_Engine.thy ===== *)
theory Runner_Engine
  imports Rpc Telemetry_Delivery
begin

text \<open>
  \<^verbatim>\<open>src/runner/client.cpp\<close> and \<^verbatim>\<open>src/runner/engine.cpp\<close>: the runner's calls with their retries, the lease
  guard, the supervision of the workload and the completion of the attempt. The workload, the
  clocks and the network are what the definitions take as arguments: what each iteration observes.
\<close>

section \<open>Calls\<close>

text \<open>\<open>retry_transfer\<close>: two more tries when the coordinator is unavailable; \<open>left\<close> counts them.\<close>

fun retry_loop :: "('s \<Rightarrow> 'a result \<times> 's) \<Rightarrow> nat \<Rightarrow> 's \<Rightarrow> 'a result \<times> 's" where
  "retry_loop operation left s =
     (case operation s of
        (Inr v, s') \<Rightarrow> (Inr v, s')
      | (Inl ex, s') \<Rightarrow>
        (if exn_code ex \<noteq> Some unavailable then (Inl ex, s')
         else case left of 0 \<Rightarrow> (Inl ex, s') | Suc left' \<Rightarrow> retry_loop operation left' s'))"

definition retry_transfer :: "('s \<Rightarrow> 'a result \<times> 's) \<Rightarrow> 's \<Rightarrow> 'a result \<times> 's" where
  "retry_transfer operation s = retry_loop operation 2 s"

text \<open>The messages of \<open>upload_once\<close>: the metadata, then the file in blocks of 64 KiB.\<close>

function file_blocks :: "string \<Rightarrow> string list" where
  "file_blocks content = (if content = [] then [] else take 65536 content # file_blocks (drop 65536 content))"
  by auto

termination by (relation "measure length") auto

declare file_blocks.simps [simp del]

definition upload_chunks :: "Owner \<Rightarrow> string \<Rightarrow> string \<Rightarrow> string \<Rightarrow> ArtifactChunk list" where
  "upload_chunks own relative hash content =
     \<lparr>ch_owner = own, ch_path = relative, ch_data = [], ch_sha256 = hash\<rparr> #
     map (\<lambda>bytes. \<lparr>ch_owner = \<lparr>ow_attempt_id = [], ow_generation = 0, ow_instance_id = [], ow_node_name = []\<rparr>,
                    ch_path = [], ch_data = bytes, ch_sha256 = []\<rparr>) (file_blocks content)"

text \<open>How \<open>upload_once\<close> ends: the call's status, then the comparison of the digests.\<close>

definition upload_result :: "status \<Rightarrow> ArtifactReply \<Rightarrow> bool \<Rightarrow> string \<Rightarrow> unit result" where
  "upload_result st reply read_all hash =
     (case check_rpc st of
        Inl ex \<Rightarrow> Inl ex
      | Inr _ \<Rightarrow>
        (if \<not> read_all \<or> ar_sha256 reply \<noteq> hash then throw unavailable ''artifact transfer incomplete''
         else Inr ()))"

section \<open>The lease\<close>

text \<open>Times are milliseconds of the runner's steady clock.\<close>

record LeaseGuard =
  lg_until :: int
  lg_revoked :: bool

definition new_LeaseGuard :: "int \<Rightarrow> int \<Rightarrow> LeaseGuard" where
  "new_LeaseGuard sent lease = \<lparr>lg_until = sent + (lease - 2) * 1000, lg_revoked = False\<rparr>"

text \<open>One iteration of the heartbeat thread: the call that began at \<open>before\<close> and what it returned.\<close>

definition lease_beat :: "int \<Rightarrow> int result \<Rightarrow> LeaseGuard \<Rightarrow> LeaseGuard" where
  "lease_beat before res guard =
     (case res of
        Inr secs \<Rightarrow> guard\<lparr>lg_until := before + (secs - 2) * 1000\<rparr>
      | Inl ex \<Rightarrow> if exn_code ex \<noteq> Some unavailable then guard\<lparr>lg_revoked := True\<rparr> else guard)"

definition near_expiry :: "int \<Rightarrow> int \<Rightarrow> LeaseGuard \<Rightarrow> bool" where
  "near_expiry now grace guard \<longleftrightarrow> now + grace * 1000 \<ge> lg_until guard"

section \<open>Supervision\<close>

text \<open>
  What one iteration of the loop observes: \<open>stop_requested()\<close>, the lease guard, the clock, and the
  exit status that \<open>process.poll()\<close> returns.
\<close>

record observation =
  ob_stop :: bool
  ob_guard :: LeaseGuard
  ob_now :: int
  ob_status :: "int option"

definition stop_reason :: "int \<Rightarrow> int \<Rightarrow> observation \<Rightarrow> string" where
  "stop_reason deadline grace ob =
     (if ob_stop ob then ''STOP_REQUESTED''
      else if lg_revoked (ob_guard ob) \<or> near_expiry (ob_now ob) grace (ob_guard ob) then ''LEASE_LOST''
      else if ob_now ob \<ge> deadline then ''TIMEOUT''
      else [])"

text \<open>
  The loop: it returns the status, the reason and how often \<open>process.stop\<close> was called. \<open>None\<close>: the
  process has not exited within the given observations.
\<close>

fun supervise :: "int \<Rightarrow> int \<Rightarrow> string \<Rightarrow> nat \<Rightarrow> observation list \<Rightarrow> (int \<times> string \<times> nat) option" where
  "supervise deadline grace reason stops [] = None"
| "supervise deadline grace reason stops (ob # obs) =
     (let reason' = (if reason = [] then stop_reason deadline grace ob else reason);
          stops' = (if reason = [] \<and> reason' \<noteq> [] then stops + 1 else stops)
      in case ob_status ob of
           Some status \<Rightarrow> Some (status, reason', stops')
         | None \<Rightarrow> supervise deadline grace reason' stops' obs)"

text \<open>\<open>consume\<close>: the archive of at most 100 MiB; \<open>None\<close> as in \<open>log_text\<close>.\<close>

record archive =
  ac_bytes :: nat
  ac_truncated :: bool

definition consume ::
    "(string \<Rightarrow> string) \<Rightarrow> (int \<Rightarrow> int) \<Rightarrow> string \<Rightarrow> string \<Rightarrow> archive \<Rightarrow> Reporter \<Rightarrow> (archive \<times> Reporter) result option" where
  "consume sanitize ts kind text ac rp =
     (if ac_bytes ac + length text \<le> 100 * 1024 * 1024
      then map_option (map_sum (\<lambda>ex. ex) (\<lambda>rp'. (ac\<lparr>ac_bytes := ac_bytes ac + length text\<rparr>, rp')))
             (log_text sanitize ts kind text rp)
      else if \<not> ac_truncated ac
      then map_option (map_sum (\<lambda>ex. ex) (\<lambda>rp'. (ac\<lparr>ac_truncated := True\<rparr>, rp')))
             (log_text sanitize ts ''notice'' (''Log archive limit reached (100 MiB)'' @ [CHR 0x0A]) rp)
      else Some (Inr (ac, rp)))"

section \<open>Completion\<close>

text \<open>What the artifact directory holds: for every entry its relative path and its kind.\<close>

datatype entry_kind = symlink | regular_file | other_entry

fun collect_artifacts :: "(string \<times> entry_kind) list \<Rightarrow> string list result" where
  "collect_artifacts [] = Inr []"
| "collect_artifacts ((relative, kind) # entries) =
     (if kind = symlink then throw invalid ''artifact symlinks are not supported''
      else if kind \<noteq> regular_file then collect_artifacts entries
      else if relative = ''_runyard'' \<or> starts_with relative ''_runyard/''
      then throw invalid ''_runyard artifact namespace is reserved''
      else case collect_artifacts entries of Inl ex \<Rightarrow> Inl ex | Inr paths \<Rightarrow> Inr (relative # paths))"

text \<open>The names under which the two logs are uploaded last.\<close>

definition upload_list :: "(string \<times> entry_kind) list \<Rightarrow> string list result" where
  "upload_list entries =
     (case collect_artifacts entries of
        Inl ex \<Rightarrow> Inl ex
      | Inr paths \<Rightarrow> Inr (paths @ [''_runyard/stdout.log'', ''_runyard/stderr.log'']))"

definition completion_code :: "int \<Rightarrow> string \<Rightarrow> int" where
  "completion_code status reason = (if reason \<noteq> [] \<and> status = 0 then 143 else status)"

section \<open>Properties\<close>

lemma supervise_stops:
  "supervise deadline grace reason stops obs = Some (status, reason', stops') \<Longrightarrow>
     (reason = [] \<longrightarrow> stops' = stops + (if reason' = [] then 0 else 1)) \<and>
     (reason \<noteq> [] \<longrightarrow> reason' = reason \<and> stops' = stops)"
proof (induction obs arbitrary: reason stops)
  case (Cons ob obs)
  then show ?case by (cases "ob_status ob") (auto simp: Let_def split: if_splits dest!: Cons.IH)
qed simp

text \<open>
  C14: an interrupted attempt never counts as a success. If the runner stopped the workload, for
  whatever reason, it asked the process to stop exactly once, and the completion it then reports,
  when the store accepts it in a run that is not over yet, fails the attempt: the run is failed or
  waits for its retry, even when the workload exited with status 0.
\<close>

theorem interrupted_attempts_never_succeed:
  assumes "supervise deadline grace [] 0 obs = Some (status, reason, stops)" and "reason \<noteq> []"
    and "finish timing e aid g inst (completion_code status reason) reason n db = Inr (u, db')" and "db' \<noteq> db"
  shows "stops = 1 \<and> (\<exists>a r. attempt_row db' aid = Some a \<and> a_status a = ''FAILED'' \<and>
    run_row db' (a_run_id a) = Some r \<and> r_status r \<in> {failed, retry_wait})"
proof -
  have "completion_code status reason \<noteq> 0" using assms(2) by (simp add: completion_code_def)
  with assms(3,4) obtain a r failure reason' where "attempt_row db aid = Some a" "run_row db (a_run_id a) = Some r"
    "fail timing (\<lambda>k. clk e (2 + k)) (locked (clk e 1) a r) failure reason' (Some (completion_code status reason)) db = Inr db'"
    by (auto elim: finish_cases)
  from fail_rows[OF this] supervise_stops[OF assms(1)] assms(2) show ?thesis by (simp add: bump_def)
qed

definition demo_guard :: LeaseGuard where
  "demo_guard = new_LeaseGuard 0 30"

theorem interrupted_attempts_never_succeed_witness:
  "supervise 1800000 10 [] 0
     [\<lparr>ob_stop = False, ob_guard = demo_guard, ob_now = 20, ob_status = None\<rparr>,
      \<lparr>ob_stop = True, ob_guard = demo_guard, ob_now = 40, ob_status = None\<rparr>,
      \<lparr>ob_stop = True, ob_guard = demo_guard, ob_now = 60, ob_status = Some 0\<rparr>] = Some (0, ''STOP_REQUESTED'', 1) \<and>
   (\<exists>db' a r. finish default_Timing (demo_env 700 ''-'') ''a'' 1 ''i'' 143 ''STOP_REQUESTED'' 2 demo_reported = Inr ((), db') \<and>
     attempt_row db' ''a'' = Some a \<and> a_status a = ''FAILED'' \<and>
     run_row db' (a_run_id a) = Some r \<and> r_status r \<in> {failed, retry_wait})"
proof -
  let ?obs = "[\<lparr>ob_stop = False, ob_guard = demo_guard, ob_now = 20, ob_status = None\<rparr>,
      \<lparr>ob_stop = True, ob_guard = demo_guard, ob_now = 40, ob_status = None\<rparr>,
      \<lparr>ob_stop = True, ob_guard = demo_guard, ob_now = 60, ob_status = Some (0::int)\<rparr>]"
  have run: "supervise 1800000 10 [] 0 ?obs = Some (0, ''STOP_REQUESTED'', 1)"
    by (simp add: stop_reason_def near_expiry_def demo_guard_def new_LeaseGuard_def)
  obtain db' where fin: "finish default_Timing (demo_env 700 ''-'') ''a'' 1 ''i''
      (completion_code 0 ''STOP_REQUESTED'') ''STOP_REQUESTED'' 2 demo_reported = Inr ((), db')" and "db' \<noteq> demo_reported"
    by (simp add: completion_code_def finish_def fail_def should_retry_def demo_all)
  from interrupted_attempts_never_succeed[OF run _ this] have
    "\<exists>a r. attempt_row db' ''a'' = Some a \<and> a_status a = ''FAILED'' \<and>
      run_row db' (a_run_id a) = Some r \<and> r_status r \<in> {failed, retry_wait}" by simp
  with run fin show ?thesis by (simp add: completion_code_def)
qed

text \<open>
  C15: the lease guard errs on the safe side. The runner's clock runs like the database's, at an
  unknown offset. After a heartbeat that the store accepted at or after the moment it was sent, as
  long as the guard does not report the lease as near its end, the lease the store granted lasts
  longer than the grace period by more than two seconds.
\<close>

theorem lease_guard_is_conservative:
  assumes "heartbeat timing e aid g inst db = Inr (u, db')"
    and "1000 * before + offset \<le> clk e 1"
    and "\<not> near_expiry now grace (lease_beat before (Inr (lease_seconds timing)) guard)"
  shows "\<exists>a t. attempt_row db' aid = Some a \<and> a_lease_until a = Some t \<and>
    1000 * now + offset + seconds grace + seconds 2 < t"
proof -
  from assms(1) obtain a r where "attempt_row db aid = Some a"
    and "db' = upd_attempt aid (\<lambda>x. x\<lparr>a_lease_until := Some (clk e 1 + seconds (lease_seconds timing))\<rparr>) db"
    by (auto simp: heartbeat_def ok_simps split: sum.splits)
  then show ?thesis
    using assms(2,3) by (simp add: row_simps near_expiry_def lease_beat_def seconds_def algebra_simps)
qed

theorem lease_guard_is_conservative_witness:
  "\<exists>db' a t. heartbeat default_Timing (demo_env 600 ''-'') ''a'' 1 ''i'' demo_started = Inr ((), db') \<and>
     attempt_row db' ''a'' = Some a \<and> a_lease_until a = Some t \<and> 1000 * 17000 + (- 9000) + seconds 10 + seconds 2 < t"
proof -
  obtain db' where run: "heartbeat default_Timing (demo_env 600 ''-'') ''a'' 1 ''i'' demo_started = Inr ((), db')"
    by (simp add: heartbeat_def demo_all)
  have "\<not> near_expiry 17000 10 (lease_beat 9 (Inr (lease_seconds default_Timing)) demo_guard)"
    by (simp add: near_expiry_def lease_beat_def default_Timing_def)
  from lease_guard_is_conservative[OF run _ this, of "- 9000"] run show ?thesis
    by (simp add: demo_env_def)
qed

lemma concat_file_blocks: "concat (file_blocks content) = content"
proof (induction content rule: file_blocks.induct)
  case (1 content)
  then show ?case by (cases "content = []") (simp_all add: file_blocks.simps[of content] file_blocks.simps[of "[]"])
qed

lemma receive_chunks_concat:
  "length written \<le> 256 * 1024 * 1024 \<Longrightarrow>
   receive_chunks written cs =
     (if length written + length (concat (map ch_data cs)) \<le> 256 * 1024 * 1024
      then Inr (written @ concat (map ch_data cs)) else throw exhausted ''artifact exceeds 256 MiB'')"
  by (induction written cs rule: receive_chunks.induct) auto

text \<open>
  An upload arrives whole. The blocks the runner sends for a file, whatever its length, are put
  together by the coordinator to the same content; a file of more than 256 MiB is refused.
\<close>

theorem uploads_arrive_whole:
  "receive_chunks [] (upload_chunks own relative hash content) =
     (if length content \<le> 256 * 1024 * 1024 then Inr content else throw exhausted ''artifact exceeds 256 MiB'')"
  by (simp add: receive_chunks_concat upload_chunks_def comp_def concat_file_blocks del: receive_chunks.simps)

text \<open>
  A configuration that loads leaves room for the heartbeats. All its intervals are positive, its
  secrets long, TLS is configured outside development; and after a heartbeat or a start the guard
  does not report the lease as near its end before the next heartbeat has been due for a second.
\<close>

theorem configured_leases_leave_room:
  assumes "load_config vars = Inr c" and "now < before + 1000 * (heartbeat_seconds (cf_timing c) + 1)"
  shows "\<not> near_expiry now (termination_seconds (cf_timing c)) (lease_beat before (Inr (lease_seconds (cf_timing c))) guard) \<and>
    \<not> near_expiry now (termination_seconds (cf_timing c)) (new_LeaseGuard before (lease_seconds (cf_timing c))) \<and>
    1 \<le> heartbeat_seconds (cf_timing c) \<and> 1 \<le> termination_seconds (cf_timing c) \<and>
    16 \<le> length (cf_worker_token c) \<and> 16 \<le> length (cf_owner_token c) \<and> 32 \<le> length (cf_signing_key c) \<and>
    (cf_development c \<or> cf_certificate c \<noteq> [] \<and> cf_private_key c \<noteq> [])"
  using load_config_ok[OF assms(1)] load_timing_positive assms(2)
  by (auto simp: check_config_ok near_expiry_def lease_beat_def new_LeaseGuard_def)

definition demo_vars :: environment where
  "demo_vars = [''RUNYARD_DATABASE_URL'' \<mapsto> ''postgres'', ''RUNYARD_OWNER_TOKEN'' \<mapsto> ''0123456789abcdef'',
     ''RUNYARD_WORKER_TOKEN'' \<mapsto> ''fedcba9876543210'', ''RUNYARD_SIGNING_KEY'' \<mapsto> ''0123456789abcdef0123456789abcdef'',
     ''RUNYARD_PROFILE'' \<mapsto> ''development'', ''RUNYARD_LEASE_SECONDS'' \<mapsto> '' +40'']"

theorem configured_leases_leave_room_witness:
  "\<exists>c. load_config demo_vars = Inr c \<and> lease_seconds (cf_timing c) = 40 \<and>
     \<not> near_expiry 5900 (termination_seconds (cf_timing c)) (new_LeaseGuard 0 (lease_seconds (cf_timing c)))"
proof -
  have "stoi '' +40'' = Some (40, 4)" by code_simp
  then obtain c where run: "load_config demo_vars = Inr c" and lease: "lease_seconds (cf_timing c) = 40"
    and beat: "heartbeat_seconds (cf_timing c) = 5"
    by (simp add: load_config_def load_timing_def env_int_def env_or_def demo_vars_def check_config_def guard_eval Let_def)
  from configured_leases_leave_room[OF run, of 5900 0] run lease beat show ?thesis by simp
qed

end
