(* ===== verification/Json.thy ===== *)
theory Json
  imports Domain
begin

text \<open>
  JSON values as \<^verbatim>\<open>nlohmann::json\<close> holds them, and the documented behaviour of the accessors that the
  code uses. The library is not part of the program: its text parser and printer (\<open>Json::parse\<close>,
  \<open>dump\<close>) stay parameters of the definitions that use them, and of an exception's text only
  the identifier that the library documents is kept.
\<close>

section \<open>Values\<close>

text \<open>
  Integers have two representations, signed and unsigned; an object's members are a \<open>std::map\<close>.
\<close>

datatype Json =
    JNull
  | JBool bool
  | JInteger int
  | JUnsigned nat
  | JFloat double
  | JString string
  | JArray "Json list"
  | JObject "(string \<times> Json) list"

text \<open>An initializer list of pairs.\<close>

definition json_object :: "(string \<times> Json) list \<Rightarrow> Json" where
  "json_object members = JObject (foldl (\<lambda>m (k, v). map_put k v m) [] members)"

abbreviation json_error :: "string \<Rightarrow> 'a result" where
  "json_error name \<equiv> Inl (JsonError name)"

text \<open>The value that \<open>parse\<close> makes of the printed text: a nonnegative integer becomes unsigned.\<close>

fun reparsed :: "Json \<Rightarrow> Json" where
  "reparsed (JInteger i) = (if 0 \<le> i then JUnsigned (nat i) else JInteger i)"
| "reparsed (JArray vs) = JArray (map reparsed vs)"
| "reparsed (JObject m) = JObject (map (\<lambda>(k, v). (k, reparsed v)) m)"
| "reparsed j = j"

text \<open>What a \<open>Json\<close> object can hold: ordered members and integers of 64 bits.\<close>

fun json_wf :: "Json \<Rightarrow> bool" where
  "json_wf (JInteger i) = (- INT64_MAX - 1 \<le> i \<and> i \<le> INT64_MAX)"
| "json_wf (JUnsigned n) = (int n \<le> 2 * INT64_MAX + 1)"
| "json_wf (JArray vs) = (\<forall>v\<in>set vs. json_wf v)"
| "json_wf (JObject m) = (map_wf m \<and> (\<forall>kv\<in>set m. json_wf (snd kv)))"
| "json_wf j = True"

section \<open>Accessors\<close>

fun is_object :: "Json \<Rightarrow> bool" where
  "is_object (JObject m) = True"
| "is_object j = False"

fun is_array :: "Json \<Rightarrow> bool" where
  "is_array (JArray vs) = True"
| "is_array j = False"

fun members :: "Json \<Rightarrow> (string \<times> Json) list" where
  "members (JObject m) = m"
| "members j = []"

text \<open>A loop over a value: the elements of an array, the values of an object, a primitive itself.\<close>

fun elements :: "Json \<Rightarrow> Json list" where
  "elements JNull = []"
| "elements (JArray vs) = vs"
| "elements (JObject m) = map snd m"
| "elements j = [j]"

definition json_contains :: "Json \<Rightarrow> string \<Rightarrow> bool" where
  "json_contains j k \<longleftrightarrow> map_of (members j) k \<noteq> None"

definition json_at :: "Json \<Rightarrow> string \<Rightarrow> Json result" where
  "json_at j k =
     (if \<not> is_object j then json_error ''type_error.304''
      else case map_of (members j) k of None \<Rightarrow> json_error ''out_of_range.403'' | Some v \<Rightarrow> Inr v)"

definition json_index :: "Json \<Rightarrow> nat \<Rightarrow> Json result" where
  "json_index j n =
     (case j of
        JArray vs \<Rightarrow> if n < length vs then Inr (vs ! n) else json_error ''out_of_range.401''
      | _ \<Rightarrow> json_error ''type_error.304'')"

definition json_value :: "(Json \<Rightarrow> 'a result) \<Rightarrow> Json \<Rightarrow> string \<Rightarrow> 'a \<Rightarrow> 'a result" where
  "json_value get j k fallback =
     (if \<not> is_object j then json_error ''type_error.306''
      else case map_of (members j) k of None \<Rightarrow> Inr fallback | Some v \<Rightarrow> get v)"

fun get_string :: "Json \<Rightarrow> string result" where
  "get_string (JString s) = Inr s"
| "get_string j = json_error ''type_error.302''"

fun get_bool :: "Json \<Rightarrow> bool result" where
  "get_bool (JBool b) = Inr b"
| "get_bool j = json_error ''type_error.302''"

definition get_json :: "Json \<Rightarrow> Json result" where
  "get_json j = Inr j"

definition get_strings :: "Json \<Rightarrow> string list result" where
  "get_strings j =
     (case j of JArray vs \<Rightarrow> map_result get_string vs | _ \<Rightarrow> json_error ''type_error.302'')"

definition get_string_map :: "Json \<Rightarrow> (string, string) stdmap result" where
  "get_string_map j =
     (case j of
        JObject m \<Rightarrow> map_result (\<lambda>(k, v). andthen (get_string v) (\<lambda>s. Inr (k, s))) m
      | _ \<Rightarrow> json_error ''type_error.302'')"

section \<open>Numbers\<close>

fun is_number_integer :: "Json \<Rightarrow> bool" where
  "is_number_integer (JInteger i) = True"
| "is_number_integer (JUnsigned n) = True"
| "is_number_integer j = False"

fun is_number_unsigned :: "Json \<Rightarrow> bool" where
  "is_number_unsigned (JUnsigned n) = True"
| "is_number_unsigned j = False"

text \<open>The value of an integer, of either representation.\<close>

fun integer_value :: "Json \<Rightarrow> int" where
  "integer_value (JInteger i) = i"
| "integer_value (JUnsigned n) = int n"
| "integer_value j = 0"

text \<open>
  \<open>get<int>\<close> converts any number, and a boolean; a double is truncated (beyond the range of \<open>int\<close> the
  conversion is undefined in C++).
\<close>

definition truncated :: "double \<Rightarrow> int" where
  "truncated d =
     (let exponent = uint d div 2 ^ 52 mod 2 ^ 11;
          mantissa = 2 ^ 52 + uint d mod 2 ^ 52;
          magnitude = (if exponent < 1023 then 0
                       else if exponent < 1075 then mantissa div 2 ^ nat (1075 - exponent)
                       else mantissa * 2 ^ nat (exponent - 1075))
      in if uint d < 2 ^ 63 then magnitude else - magnitude)"

fun get_int :: "Json \<Rightarrow> int result" where
  "get_int (JInteger i) = Inr (signed_take_bit 31 i)"
| "get_int (JUnsigned n) = Inr (signed_take_bit 31 (int n))"
| "get_int (JFloat d) = Inr (truncated d)"
| "get_int (JBool b) = Inr (of_bool b)"
| "get_int j = json_error ''type_error.302''"

text \<open>
  \<open>operator==\<close>: integers of both representations compare by value. A number with a fraction or
  exponent is compared as a double; \<open>as_double\<close> is the conversion of an integer, rounded to
  nearest, ties to even.
\<close>

definition magnitude_bits :: "int \<Rightarrow> int" where
  "magnitude_bits n =
     (if n = 0 then 0
      else let e = length (takeWhile (\<lambda>k. 2 ^ Suc k \<le> n) [0..<64]);
               q = (if e \<le> 52 then n * 2 ^ (52 - e)
                    else let s = 2 ^ (e - 52); d = n div s; r = n mod s
                         in if 2 * r > s \<or> (2 * r = s \<and> odd d) then d + 1 else d)
           in (1023 + int e) * 2 ^ 52 + q - 2 ^ 52)"

definition as_double :: "int \<Rightarrow> double" where
  "as_double i = word_of_int (if 0 \<le> i then magnitude_bits i else magnitude_bits (- i) + 2 ^ 63)"

fun canonical :: "Json \<Rightarrow> Json" where
  "canonical (JUnsigned n) = JInteger (int n)"
| "canonical (JArray vs) = JArray (map canonical vs)"
| "canonical (JObject m) = JObject (map (\<lambda>(k, v). (k, canonical v)) m)"
| "canonical j = j"

definition json_equal_integer :: "Json \<Rightarrow> int \<Rightarrow> bool" where
  "json_equal_integer j i \<longleftrightarrow>
     (case j of
        JFloat d \<Rightarrow> d = as_double i \<or> (i = 0 \<and> d = 0x8000000000000000)
      | _ \<Rightarrow> is_number_integer j \<and> integer_value j = i)"

section \<open>Facts\<close>

lemma foldl_put_wf [simp]: "map_wf acc \<Longrightarrow> map_wf (foldl (\<lambda>m (k, v). map_put k (f v) m) acc ps)"
  by (induction ps arbitrary: acc) auto

lemma map_of_foldl_put:
  "map_wf acc \<Longrightarrow> map_of (foldl (\<lambda>m (k, v). map_put k v m) acc ps) = map_of acc ++ map_of (rev ps)"
proof (induction ps arbitrary: acc)
  case (Cons p ps)
  obtain k v where "p = (k, v)" by (cases p)
  then show ?case using Cons by (simp add: map_add_def fun_eq_iff split: option.splits)
qed simp

lemma keys_foldl_put: "fst ` set (foldl (\<lambda>m (k, v). map_put k v m) acc ps) = fst ` set acc \<union> fst ` set ps"
proof (induction ps arbitrary: acc)
  case (Cons p ps)
  obtain k v where "p = (k, v)" by (cases p)
  then show ?case using Cons[of "map_put k v acc"] by (simp del: set_map)
qed simp

lemma json_object_members:
  "is_object (json_object ps)" "map_of (members (json_object ps)) = map_of (rev ps)"
  "fst ` set (members (json_object ps)) = fst ` set ps" "map_wf (members (json_object ps))"
  using foldl_put_wf[of "[]" "\<lambda>v. v" ps]
  by (simp_all add: json_object_def map_of_foldl_put keys_foldl_put)

lemma reparsed_members [simp]:
  "is_object (reparsed j) = is_object j"
  "map_of (members (reparsed j)) k = map_option reparsed (map_of (members j) k)"
  "fst ` set (members (reparsed j)) = fst ` set (members j)"
proof -
  show "is_object (reparsed j) = is_object j" by (cases j) auto
  show "map_of (members (reparsed j)) k = map_option reparsed (map_of (members j) k)"
    by (cases j) (auto simp: map_of_map)
  show "fst ` set (members (reparsed j)) = fst ` set (members j)"
    by (cases j) (force simp: image_def)+
qed

lemma map_put_snoc: "\<forall>x\<in>fst ` set m. x < k \<Longrightarrow> map_put k v m = m @ [(k, v)]"
  by (induction k v m rule: map_put.induct) auto

text \<open>Inserting the entries of an ordered map one after the other gives the map.\<close>

lemma foldl_put_ordered:
  "map_wf m \<Longrightarrow> \<forall>x\<in>fst ` set acc. \<forall>y\<in>fst ` set m. x < y \<Longrightarrow>
     foldl (\<lambda>n (k, v). map_put k (f v) n) acc m = acc @ map (\<lambda>(k, v). (k, f v)) m"
proof (induction m arbitrary: acc)
  case (Cons p m)
  obtain k v where p: "p = (k, v)" by (cases p)
  with Cons.prems have "map_put k (f v) acc = acc @ [(k, f v)]" by (intro map_put_snoc) auto
  with Cons p show ?case by auto
qed simp

lemma json_accessors:
  "json_contains (json_object ps) k \<longleftrightarrow> map_of (rev ps) k \<noteq> None"
  "json_contains (reparsed j) k = json_contains j k"
  "json_at (json_object ps) k = (case map_of (rev ps) k of None \<Rightarrow> json_error ''out_of_range.403'' | Some v \<Rightarrow> Inr v)"
  "is_object j \<Longrightarrow> json_contains j k \<Longrightarrow> json_at (reparsed j) k = map_sum (\<lambda>x. x) reparsed (json_at j k)"
  "json_value get (json_object ps) k fallback = (case map_of (rev ps) k of None \<Rightarrow> Inr fallback | Some v \<Rightarrow> get v)"
  "is_object j \<Longrightarrow> json_value get (reparsed j) k fallback = json_value (\<lambda>v. get (reparsed v)) j k fallback"
  by (auto simp: json_contains_def json_at_def json_value_def json_object_members split: option.splits)

lemma get_string_ok: "get_string j = Inr s \<Longrightarrow> j = JString s"
  by (cases j) auto

end
