(* ===== verification/Serialization.thy ===== *)
theory Serialization
  imports Json Run_Service
begin

text \<open>
  \<^verbatim>\<open>src/serialization/json.cpp\<close> and \<^verbatim>\<open>src/serialization/capacity.cpp\<close>: what the interfaces send and
  accept. Timestamps, which the model keeps as instants, are printed by the parameter \<open>stamp\<close>.
\<close>

section \<open>Specifications\<close>

definition fields :: "Json \<Rightarrow> string list \<Rightarrow> unit result" where
  "fields v allowed =
     (if \<not> is_object v then throw invalid ''expected a JSON object''
      else for_each (\<lambda>(k, _). if k \<in> set allowed then Inr () else throw invalid (''unknown field: '' @ k)) (members v))"

definition integer :: "Json \<Rightarrow> string \<Rightarrow> int \<Rightarrow> int result" where
  "integer v key fallback =
     (if \<not> json_contains v key then Inr fallback
      else andthen (json_at v key) (\<lambda>field.
        if \<not> is_number_integer field \<or> (is_number_unsigned field \<and> INT_MAX < integer_value field)
        then throw invalid (key @ '' must be an integer in range'')
        else if integer_value field < INT_MIN \<or> INT_MAX < integer_value field
        then throw invalid (key @ '' is out of range'')
        else Inr (integer_value field)))"

fun decode_scalar :: "Json \<Rightarrow> Scalar result" where
  "decode_scalar JNull = Inr SNull"
| "decode_scalar (JBool b) = Inr (SBool b)"
| "decode_scalar (JInteger i) = Inr (SInt i)"
| "decode_scalar (JUnsigned n) =
     (if INT64_MAX < int n then throw invalid ''integer parameter is too large'' else Inr (SInt (int n)))"
| "decode_scalar (JFloat d) = Inr (SDouble d)"
| "decode_scalar (JString s) = Inr (SString s)"
| "decode_scalar j = throw invalid ''parameters must be JSON scalars''"

fun encode_scalar :: "Scalar \<Rightarrow> Json" where
  "encode_scalar SNull = JNull"
| "encode_scalar (SBool b) = JBool b"
| "encode_scalar (SInt i) = JInteger i"
| "encode_scalar (SDouble d) = JFloat d"
| "encode_scalar (SString s) = JString s"

definition encode_strings :: "(string, string) stdmap \<Rightarrow> Json" where
  "encode_strings m = JObject (map (\<lambda>(k, v). (k, JString v)) m)"

text \<open>The member \<open>gpu_count\<close> is only written when it is not zero.\<close>

definition encode_resources :: "Resources \<Rightarrow> Json" where
  "encode_resources r = json_object
     ([(''cpu_millis'', JInteger (cpu_millis r)), (''memory_mib'', JInteger (memory_mib r))] @
      (if gpu_count r \<noteq> 0 then [(''gpu_count'', JInteger (gpu_count r))] else []))"

definition encode_spec :: "RunSpec \<Rightarrow> Json" where
  "encode_spec s = json_object [
     (''version'', JInteger (spec_version s)),
     (''name'', JString (spec_name s)),
     (''image'', JString (spec_image s)),
     (''command'', JArray (map JString (spec_command s))),
     (''parameters'', JObject (foldl (\<lambda>p (k, v). map_put k (encode_scalar v) p) [] (spec_parameters s))),
     (''environment'', encode_strings (spec_environment s)),
     (''labels'', encode_strings (spec_labels s)),
     (''resources'', encode_resources (spec_resources s)),
     (''retry'', json_object [
        (''max_attempts'', JInteger (max_attempts (spec_retry s))),
        (''retry_exit'', JBool (retry_exit (spec_retry s))),
        (''retry_timeout'', JBool (retry_timeout (spec_retry s)))]),
     (''timeout_seconds'', JInteger (spec_timeout_seconds s)),
     (''priority'', JInteger (spec_priority s)),
     (''source'', json_object [
        (''repository'', JString (spec_source_repository s)), (''revision'', JString (spec_source_revision s))])]"

definition spec_fields :: "string list" where
  "spec_fields = [''version'', ''name'', ''image'', ''command'', ''parameters'', ''environment'', ''labels'',
     ''resources'', ''retry'', ''timeout_seconds'', ''priority'', ''source'']"

fun decode_parameters :: "(string \<times> Json) list \<Rightarrow> Parameters \<Rightarrow> Parameters result" where
  "decode_parameters [] acc = Inr acc"
| "decode_parameters ((k, v) # ps) acc =
     andthen (decode_scalar v) (\<lambda>s. decode_parameters ps (map_put k s acc))"

definition decode_resources :: "Json \<Rightarrow> Resources result" where
  "decode_resources r =
     andthen (fields r [''cpu_millis'', ''memory_mib'', ''gpu_count'']) (\<lambda>_.
     andthen (integer r ''cpu_millis'' 1000) (\<lambda>cpu.
     andthen (integer r ''memory_mib'' 512) (\<lambda>memory.
     andthen (integer r ''gpu_count'' 0) (\<lambda>gpu.
     Inr \<lparr>cpu_millis = cpu, memory_mib = memory, gpu_count = gpu\<rparr>))))"

definition decode_retry :: "Json \<Rightarrow> RetryPolicy result" where
  "decode_retry r =
     andthen (fields r [''max_attempts'', ''retry_exit'', ''retry_timeout'']) (\<lambda>_.
     andthen (integer r ''max_attempts'' 3) (\<lambda>n.
     andthen (json_value get_bool r ''retry_exit'' False) (\<lambda>exit.
     andthen (json_value get_bool r ''retry_timeout'' False) (\<lambda>time.
     Inr \<lparr>max_attempts = n, retry_exit = exit, retry_timeout = time\<rparr>))))"

text \<open>The body of the \<open>try\<close> block of \<open>decode_spec\<close>.\<close>

definition decode_members :: "Json \<Rightarrow> RunSpec result" where
  "decode_members j =
     (if \<not> is_object j then throw invalid ''specification must be an object''
      else
       andthen (for_each (\<lambda>(k, _). if k \<in> set spec_fields then Inr ()
                            else throw invalid (''unknown specification field: '' @ k)) (members j)) (\<lambda>_.
       andthen (integer j ''version'' 1) (\<lambda>version.
       andthen (andthen (json_at j ''name'') get_string) (\<lambda>name.
       andthen (andthen (json_at j ''image'') get_string) (\<lambda>image.
       andthen (andthen (json_at j ''command'') get_strings) (\<lambda>command.
       andthen (json_value get_json j ''parameters'' (JObject [])) (\<lambda>p.
       if \<not> is_object p then throw invalid ''parameters must be an object''
       else
       andthen (decode_parameters (members p) []) (\<lambda>parameters.
       andthen (json_value get_string_map j ''environment'' []) (\<lambda>environment.
       andthen (json_value get_string_map j ''labels'' []) (\<lambda>labels.
       andthen (andthen (json_value get_json j ''resources'' (JObject [])) decode_resources) (\<lambda>resources.
       andthen (andthen (json_value get_json j ''retry'' (JObject [])) decode_retry) (\<lambda>retry.
       andthen (integer j ''timeout_seconds'' 1800) (\<lambda>timeout.
       andthen (integer j ''priority'' 0) (\<lambda>priority.
       andthen (json_value get_json j ''source'' (JObject [])) (\<lambda>source.
       andthen (fields source [''repository'', ''revision'']) (\<lambda>_.
       andthen (json_value get_string source ''repository'' []) (\<lambda>repository.
       andthen (json_value get_string source ''revision'' []) (\<lambda>revision.
       let s = \<lparr>spec_version = version, spec_name = name, spec_image = image, spec_command = command,
                spec_parameters = parameters, spec_environment = environment, spec_labels = labels,
                spec_resources = resources, spec_retry = retry, spec_timeout_seconds = timeout,
                spec_priority = priority, spec_source_repository = repository, spec_source_revision = revision\<rparr>
       in andthen (validate s) (\<lambda>_. Inr s)))))))))))))))))))"

definition decode_spec :: "Json \<Rightarrow> RunSpec result" where
  "decode_spec j =
     (case decode_members j of
        Inl (JsonError what) \<Rightarrow> throw invalid (''invalid specification: '' @ what)
      | r \<Rightarrow> r)"

section \<open>Sweeps\<close>

definition encode_sweep_spec :: "SweepSpec \<Rightarrow> Json" where
  "encode_sweep_spec spec = json_object [
     (''base'', encode_spec (sweep_base spec)),
     (''grid'', JObject (foldl (\<lambda>g (k, vs). map_put k (JArray (map encode_scalar vs)) g) [] (sweep_grid spec)))]"

fun decode_grid :: "(string \<times> Json) list \<Rightarrow> ParameterGrid \<Rightarrow> ParameterGrid result" where
  "decode_grid [] grid = Inr grid"
| "decode_grid ((k, v) # dims) grid =
     (if \<not> is_array v then throw invalid ''grid dimensions must be arrays''
      else andthen (map_result decode_scalar (elements v)) (\<lambda>values.
        if elements v = [] then throw invalid ''grid dimensions cannot be empty''
        else decode_grid dims (map_put k values grid)))"

definition decode_sweep :: "Json \<Rightarrow> SweepSpec result" where
  "decode_sweep j =
     andthen (fields j [''base'', ''grid'']) (\<lambda>_.
     andthen (andthen (json_at j ''base'') decode_spec) (\<lambda>base.
     andthen (json_at j ''grid'') (\<lambda>grid.
     if \<not> is_object grid then throw invalid ''grid must be an object''
     else andthen (decode_grid (members grid) []) (\<lambda>g. Inr \<lparr>sweep_base = base, sweep_grid = g\<rparr>))))"

section \<open>Replies\<close>

definition encode_sweep :: "(int option \<Rightarrow> string) \<Rightarrow> Sweep \<Rightarrow> Json" where
  "encode_sweep stamp s = json_object [
     (''id'', JString (sw_id s)), (''spec'', encode_sweep_spec (sw_spec s)),
     (''run_ids'', JArray (map JString (sw_run_ids s))), (''created_at'', JString (stamp (sw_created_at s)))]"

definition encode_run :: "(int option \<Rightarrow> string) \<Rightarrow> Run \<Rightarrow> Json" where
  "encode_run stamp r = json_object [
     (''id'', JString (run_id r)),
     (''spec'', encode_spec (run_spec r)),
     (''status'', JString (to_string (run_status r))),
     (''generation'', JInteger (run_generation r)),
     (''active_attempt'', JString (run_active_attempt r)),
     (''sweep_id'', JString (run_sweep_id r)),
     (''parent_run_id'', JString (run_parent_run_id r)),
     (''created_at'', JString (stamp (run_created_at r))),
     (''updated_at'', JString (stamp (run_updated_at r)))]"

definition encode_gpu :: "GpuDevice \<Rightarrow> Json" where
  "encode_gpu d = json_object [
     (''uuid'', JString (gd_uuid d)), (''name'', JString (gd_name d)),
     (''memory_mib'', JUnsigned (unat (gd_memory_mib d))),
     (''eligible'', JBool (gd_eligible d)), (''reason'', JString (gd_reason d))]"

definition encode_allocation :: "(int option \<Rightarrow> string) \<Rightarrow> GpuAllocation \<Rightarrow> Json" where
  "encode_allocation stamp a = json_object [
     (''device'', encode_gpu (al_device a)),
     (''allocated_at'', JString (stamp (al_allocated_at a))),
     (''released_at'', JString (stamp (al_released_at a)))]"

definition optional_integer :: "int option \<Rightarrow> Json" where
  "optional_integer i = (case i of None \<Rightarrow> JNull | Some v \<Rightarrow> JInteger v)"

definition encode_attempt :: "(int option \<Rightarrow> string) \<Rightarrow> Attempt \<Rightarrow> Json" where
  "encode_attempt stamp a = json_object [
     (''id'', JString (att_id a)),
     (''run_id'', JString (att_run_id a)),
     (''generation'', JInteger (att_generation a)),
     (''worker_id'', JString (att_worker_id a)),
     (''status'', JString (att_status a)),
     (''reason'', JString (att_reason a)),
     (''runtime_id'', JString (att_runtime_id a)),
     (''cleanup_status'', JString (att_cleanup_status a)),
     (''created_at'', JString (stamp (att_created_at a))),
     (''started_at'', JString (stamp (att_started_at a))),
     (''finished_at'', JString (stamp (att_finished_at a))),
     (''acknowledged_sequence'', JInteger (att_acknowledged_sequence a)),
     (''gpu_count'', JInteger (att_gpu_count a)),
     (''gpu_allocations'', JArray (map (encode_allocation stamp) (att_gpu_allocations a))),
     (''node_name'', JString (att_node_name a)),
     (''exit_code'', optional_integer (att_exit_code a))]"

definition encode_capacity :: "Resources \<Rightarrow> Json" where
  "encode_capacity r = json_object [
     (''cpu_millis'', JInteger (cpu_millis r)), (''memory_mib'', JInteger (memory_mib r)),
     (''gpu_count'', JInteger (gpu_count r))]"

definition encode_worker :: "(int option \<Rightarrow> string) \<Rightarrow> Worker \<Rightarrow> Json" where
  "encode_worker stamp w = json_object [
     (''id'', JString (wk_id w)),
     (''capacity'', encode_capacity (wk_capacity w)),
     (''reserved'', encode_capacity (wk_reserved w)),
     (''drained'', JBool (wk_drained w)),
     (''available'', JBool (wk_available w)),
     (''heartbeat_at'', JString (stamp (wk_heartbeat_at w))),
     (''gpu_inventory'', json_object [
        (''capable'', JBool (wk_gpu_capable w)),
        (''ready'', JBool (wk_gpu_ready w)),
        (''fresh'', JBool (wk_gpu_fresh w)),
        (''observed_at'', JString (stamp (wk_gpu_observed_at w))),
        (''devices'', JArray (map encode_gpu (wk_gpu_devices w))),
        (''available_estimate'',
           if wk_gpu_capable w \<and> (\<not> wk_gpu_ready w \<or> \<not> wk_gpu_fresh w) then JNull
           else JInteger (wk_available_gpus w))])]"

definition encode_telemetry :: "Telemetry \<Rightarrow> Json" where
  "encode_telemetry t = json_object [
     (''sequence'', JInteger (t_sequence t)), (''kind'', JString (t_kind t)), (''text'', JString (t_text t)),
     (''name'', JString (t_name t)), (''step'', JInteger (t_step t)), (''value'', JFloat (t_value t)),
     (''timestamp_ms'', JInteger (t_timestamp_ms t))]"

definition encode_artifact :: "Artifact \<Rightarrow> Json" where
  "encode_artifact a = json_object [
     (''id'', JString (art_id a)), (''attempt_id'', JString (art_attempt_id a)), (''path'', JString (art_path a)),
     (''sha256'', JString (art_sha256 a)), (''size'', JUnsigned (unat (art_size a)))]"

definition encode_event :: "(int option \<Rightarrow> string) \<Rightarrow> Event \<Rightarrow> Json" where
  "encode_event stamp e = json_object [
     (''sequence'', JInteger (ev_sequence e)), (''kind'', JString (ev_kind e)), (''detail'', JString (ev_detail e)),
     (''created_at'', JString (stamp (ev_created_at e)))]"

definition encode_node :: "bool \<Rightarrow> GpuNodeCapacity \<Rightarrow> Json" where
  "encode_node known node = json_object [
     (''name'', JString (gn_name node)),
     (''capacity'', JInteger (gn_capacity node)),
     (''allocatable'', JInteger (gn_allocatable node)),
     (''reserved'', JInteger (gn_reserved node)),
     (''ready'', JBool (gn_ready node)),
     (''schedulable'', JBool (gn_schedulable node)),
     (''eligible'', JBool (gn_eligible node)),
     (''available_estimate'',
        if known then JInteger (if gn_eligible node then max 0 (gn_allocatable node - gn_reserved node) else 0)
        else JNull)]"

definition encode_capacity_page :: "(int option \<Rightarrow> string) \<Rightarrow> CapacityPage \<Rightarrow> Json" where
  "encode_capacity_page stamp page =
     (let g = cp_gpu page in json_object [
        (''backend'', JString (cp_backend page)),
        (''gpu'', json_object [
           (''capacity'', JInteger (gc_capacity g)),
           (''allocatable'', JInteger (gc_allocatable g)),
           (''reserved'', JInteger (gc_reserved g)),
           (''available_estimate'', if gc_fresh g then JInteger (gc_available g) else JNull),
           (''pending'', JInteger (gc_pending g)),
           (''fresh'', JBool (gc_fresh g)),
           (''observed_at'', JString (stamp (gc_observed_at g))),
           (''age_seconds'', optional_integer (gc_age_seconds g))]),
        (''workers'', JArray (map (encode_worker stamp) (cp_workers page))),
        (''nodes'', JArray (map (encode_node (gc_fresh g)) (cp_nodes page))),
        (''next_cursor'', JString (cp_next_cursor page))])"

section \<open>Round trips\<close>

text \<open>The integers of a scalar are 64-bit, as their type in the code says.\<close>

definition scalar_in_range :: "Scalar \<Rightarrow> bool" where
  "scalar_in_range v = (case v of SInt i \<Rightarrow> i \<le> INT64_MAX | _ \<Rightarrow> True)"

lemma decode_encode_scalar: "scalar_in_range v \<Longrightarrow> decode_scalar (reparsed (encode_scalar v)) = Inr v"
  by (cases v) (auto simp: scalar_in_range_def)

lemma decode_parameters_encoded:
  "map_wf m \<Longrightarrow> \<forall>x\<in>fst ` set acc. \<forall>y\<in>fst ` set m. x < y \<Longrightarrow> \<forall>(k, v)\<in>set m. decode_scalar (g v) = Inr v \<Longrightarrow>
     decode_parameters (map (\<lambda>(k, v). (k, g v)) m) acc = Inr (acc @ m)"
proof (induction m arbitrary: acc)
  case (Cons p m)
  obtain k v where p: "p = (k, v)" by (cases p)
  with Cons.prems have "map_put k v acc = acc @ [(k, v)]" by (intro map_put_snoc) auto
  with Cons p show ?case by auto
qed simp

lemma integer_encoded:
  "is_object j \<Longrightarrow> map_of (members j) k = Some (JInteger i) \<Longrightarrow> INT_MIN \<le> i \<Longrightarrow> i \<le> INT_MAX \<Longrightarrow>
     integer (reparsed j) k d = Inr i"
  by (auto simp: integer_def json_contains_def json_at_def)

lemma integer_absent: "map_of (members j) k = None \<Longrightarrow> integer (reparsed j) k d = Inr d"
  by (simp add: integer_def json_contains_def)

lemma for_each_keys:
  "for_each (\<lambda>(k, _). if k \<in> K then Inr () else Inl (e k)) ms = Inr () \<longleftrightarrow> set (map fst ms) \<subseteq> K"
  by (induction ms) (auto simp: ok_simps split: if_splits)

lemma fields_known:
  "is_object j \<Longrightarrow> fst ` set (members j) \<subseteq> set allowed \<Longrightarrow> fields (reparsed j) allowed = Inr ()"
  using for_each_keys[of "set allowed" _ "members (reparsed j)"] by (simp add: fields_def del: reparsed_members(2))

lemma resources_members:
  "is_object (encode_resources r)"
  "map_of (members (encode_resources r)) ''cpu_millis'' = Some (JInteger (cpu_millis r))"
  "map_of (members (encode_resources r)) ''memory_mib'' = Some (JInteger (memory_mib r))"
  "map_of (members (encode_resources r)) ''gpu_count'' = (if gpu_count r \<noteq> 0 then Some (JInteger (gpu_count r)) else None)"
  "fst ` set (members (encode_resources r)) \<subseteq> set [''cpu_millis'', ''memory_mib'', ''gpu_count'']"
  by (auto simp: encode_resources_def json_object_members)

lemma decode_encode_resources:
  assumes "0 \<le> cpu_millis r" "cpu_millis r \<le> INT_MAX" "0 \<le> memory_mib r" "memory_mib r \<le> INT_MAX"
    "0 \<le> gpu_count r" "gpu_count r \<le> INT_MAX"
  shows "decode_resources (reparsed (encode_resources r)) = Inr r"
proof -
  let ?j = "encode_resources r"
  have "integer (reparsed ?j) ''gpu_count'' 0 = Inr (gpu_count r)"
    using assms by (cases "gpu_count r = 0") (simp_all add: integer_encoded integer_absent resources_members)
  moreover have "integer (reparsed ?j) ''cpu_millis'' 1000 = Inr (cpu_millis r)"
    "integer (reparsed ?j) ''memory_mib'' 512 = Inr (memory_mib r)"
    using assms by (simp_all add: integer_encoded resources_members)
  ultimately show ?thesis
    unfolding decode_resources_def fields_known[OF resources_members(1,5)] by simp
qed

lemma get_strings_encoded: "get_strings (reparsed (JArray (map JString xs))) = Inr xs"
  by (induction xs) (auto simp: get_strings_def)

lemma get_string_map_encoded: "get_string_map (reparsed (encode_strings m)) = Inr m"
  by (induction m) (auto simp: get_string_map_def encode_strings_def)

lemma decode_encode_retry:
  assumes "0 \<le> max_attempts r" "max_attempts r \<le> INT_MAX"
  shows "decode_retry (reparsed (json_object [(''max_attempts'', JInteger (max_attempts r)),
    (''retry_exit'', JBool (retry_exit r)), (''retry_timeout'', JBool (retry_timeout r))])) = Inr r"
    (is "decode_retry (reparsed ?j) = _")
proof -
  have "is_object ?j" "fst ` set (members ?j) \<subseteq> set [''max_attempts'', ''retry_exit'', ''retry_timeout'']"
    by (simp_all add: json_object_members)
  note f = fields_known[OF this]
  have "integer (reparsed ?j) ''max_attempts'' 3 = Inr (max_attempts r)"
    using assms by (simp add: integer_encoded json_object_members)
  then show ?thesis
    unfolding decode_retry_def f by (simp add: json_value_def json_object_members)
qed

lemma spec_members:
  "is_object (encode_spec s)"
  "map_of (members (encode_spec s)) ''version'' = Some (JInteger (spec_version s))"
  "map_of (members (encode_spec s)) ''name'' = Some (JString (spec_name s))"
  "map_of (members (encode_spec s)) ''image'' = Some (JString (spec_image s))"
  "map_of (members (encode_spec s)) ''command'' = Some (JArray (map JString (spec_command s)))"
  "map_of (members (encode_spec s)) ''parameters'' =
     Some (JObject (foldl (\<lambda>p (k, v). map_put k (encode_scalar v) p) [] (spec_parameters s)))"
  "map_of (members (encode_spec s)) ''environment'' = Some (encode_strings (spec_environment s))"
  "map_of (members (encode_spec s)) ''labels'' = Some (encode_strings (spec_labels s))"
  "map_of (members (encode_spec s)) ''resources'' = Some (encode_resources (spec_resources s))"
  "map_of (members (encode_spec s)) ''retry'' = Some (json_object [
     (''max_attempts'', JInteger (max_attempts (spec_retry s))),
     (''retry_exit'', JBool (retry_exit (spec_retry s))), (''retry_timeout'', JBool (retry_timeout (spec_retry s)))])"
  "map_of (members (encode_spec s)) ''timeout_seconds'' = Some (JInteger (spec_timeout_seconds s))"
  "map_of (members (encode_spec s)) ''priority'' = Some (JInteger (spec_priority s))"
  "map_of (members (encode_spec s)) ''source'' = Some (json_object [
     (''repository'', JString (spec_source_repository s)), (''revision'', JString (spec_source_revision s))])"
  by (simp_all add: encode_spec_def json_object_members)

lemma spec_member_names: "fst ` set (members (encode_spec s)) = set spec_fields"
  by (simp add: encode_spec_def json_object_members spec_fields_def)

lemma spec_integers:
  assumes "validate s = Inr ()"
  shows "integer (reparsed (encode_spec s)) ''version'' 1 = Inr (spec_version s)"
    and "integer (reparsed (encode_spec s)) ''timeout_seconds'' 1800 = Inr (spec_timeout_seconds s)"
    and "integer (reparsed (encode_spec s)) ''priority'' 0 = Inr (spec_priority s)"
  using assms by (simp_all add: validate_ok_iff integer_encoded spec_members)

lemma spec_parts:
  assumes "validate s = Inr ()"
  shows "decode_resources (reparsed (encode_resources (spec_resources s))) = Inr (spec_resources s)"
    and "decode_retry (reparsed (json_object [
     (''max_attempts'', JInteger (max_attempts (spec_retry s))),
     (''retry_exit'', JBool (retry_exit (spec_retry s))), (''retry_timeout'', JBool (retry_timeout (spec_retry s)))]))
      = Inr (spec_retry s)"
  using assms by (auto simp: validate_ok_iff intro!: decode_encode_resources decode_encode_retry)

lemma spec_source:
  fixes s :: RunSpec
  defines "j \<equiv> reparsed (json_object [
     (''repository'', JString (spec_source_repository s)), (''revision'', JString (spec_source_revision s))])"
  shows "fields j [''repository'', ''revision''] = Inr ()"
    and "json_value get_string j ''repository'' [] = Inr (spec_source_repository s)"
    and "json_value get_string j ''revision'' [] = Inr (spec_source_revision s)"
  unfolding j_def by (simp_all add: fields_known json_value_def json_object_members)

lemma spec_eta:
  "\<lparr>spec_version = spec_version s, spec_name = spec_name s, spec_image = spec_image s, spec_command = spec_command s,
     spec_parameters = spec_parameters s, spec_environment = spec_environment s, spec_labels = spec_labels s,
     spec_resources = spec_resources s, spec_retry = spec_retry s, spec_timeout_seconds = spec_timeout_seconds s,
     spec_priority = spec_priority s, spec_source_repository = spec_source_repository s,
     spec_source_revision = spec_source_revision s\<rparr> = s"
  by simp

lemma decode_encode_members:
  assumes valid: "validate s = Inr ()" and wf: "map_wf (spec_parameters s)"
    and range: "\<forall>(k, v)\<in>set (spec_parameters s). scalar_in_range v"
  shows "decode_members (reparsed (encode_spec s)) = Inr s"
proof -
  have known: "for_each (\<lambda>(k, _). if k \<in> set spec_fields then Inr ()
      else throw invalid (''unknown specification field: '' @ k)) (members (reparsed (encode_spec s))) = Inr ()"
    using for_each_keys[of "set spec_fields" "\<lambda>k. Error invalid (''unknown specification field: '' @ k)"
        "members (reparsed (encode_spec s))"] spec_member_names[of s] by (simp del: reparsed_members(2))
  have scalars: "decode_parameters (map (\<lambda>(k, v). (k, reparsed (encode_scalar v))) (spec_parameters s)) [] = Inr (spec_parameters s)"
    using decode_parameters_encoded[OF wf, of "[]" "\<lambda>v. reparsed (encode_scalar v)"] range
    by (force simp: decode_encode_scalar)
  then have parameters: "decode_parameters (members (reparsed (JObject
      (foldl (\<lambda>p (k, v). map_put k (encode_scalar v) p) [] (spec_parameters s))))) [] = Inr (spec_parameters s)"
    using foldl_put_ordered[OF wf, of "[]" encode_scalar] by (simp add: case_prod_unfold comp_def)
  have str: "get_string (reparsed (JString x)) = Inr x" for x by simp
  show ?thesis
    unfolding decode_members_def known andthen_simps spec_integers[OF valid]
    by (simp add: json_at_def json_value_def get_json_def spec_members parameters spec_parts[OF valid] spec_source(1)
        json_object_members str get_strings_encoded get_string_map_encoded valid Let_def spec_eta del: reparsed.simps)
qed

lemma decode_encode_spec:
  assumes "validate s = Inr ()" and "map_wf (spec_parameters s)"
    and "\<And>k v. (k, v) \<in> set (spec_parameters s) \<Longrightarrow> scalar_in_range v"
  shows "decode_spec (reparsed (encode_spec s)) = Inr s"
proof -
  from assms have "decode_members (reparsed (encode_spec s)) = Inr s" by (intro decode_encode_members) auto
  then show ?thesis by (simp add: decode_spec_def)
qed

text \<open>
  C35: a specification survives the wire and the database. What \<open>decode_spec\<close> makes of the printed and
  parsed encoding of a valid specification is that specification, whatever its strings, parameters,
  environment and labels.
\<close>

theorem specifications_round_trip:
  assumes "validate s = Inr ()" and "map_wf (spec_parameters s)"
    and "\<And>k v. (k, v) \<in> set (spec_parameters s) \<Longrightarrow> scalar_in_range v"
  shows "decode_spec (reparsed (encode_spec s)) = Inr s"
  using assms by (intro decode_encode_spec) auto

definition demo_grid_spec :: RunSpec where
  "demo_grid_spec = demo_spec\<lparr>spec_parameters := [(''a'', SInt 3), (''b'', SNull), (''c'', SDouble 5)],
     spec_labels := [(''team'', ''x'')]\<rparr>"

lemma demo_grid_spec_ok: "validate demo_grid_spec = Inr ()" "map_wf (spec_parameters demo_grid_spec)"
  "scalar_in_range v \<or> (k, v) \<notin> set (spec_parameters demo_grid_spec)"
  subgoal by code_simp
  subgoal by code_simp
  subgoal by (auto simp: demo_grid_spec_def scalar_in_range_def)
  done

theorem specifications_round_trip_witness:
  "decode_spec (reparsed (encode_spec demo_grid_spec)) = Inr demo_grid_spec"
  by (rule specifications_round_trip) (use demo_grid_spec_ok in auto)

section \<open>What decoding accepts\<close>

text \<open>Decoding fails with the client's error, or with the library's exception for a wrong type.\<close>

definition blames_client :: "'a result \<Rightarrow> bool" where
  "blames_client r \<longleftrightarrow> (\<forall>ex. r = Inl ex \<longrightarrow> (\<exists>m. ex = Error invalid m \<or> ex = JsonError m))"

lemma blames_client_simps [simp]:
  "blames_client (Inr v)" "blames_client (throw invalid m)" "blames_client (json_error m)"
  by (simp_all add: blames_client_def)

lemma blames_client_andthen:
  "blames_client r \<Longrightarrow> (\<And>v. blames_client (f v)) \<Longrightarrow> blames_client (andthen r f)"
  by (auto simp: blames_client_def andthen_err)

lemma blames_client_if: "blames_client a \<Longrightarrow> blames_client b \<Longrightarrow> blames_client (if c then a else b)"
  by simp

lemma blames_client_for_each: "(\<And>x. blames_client (f x)) \<Longrightarrow> blames_client (for_each f xs)"
  unfolding blames_client_def by (auto dest!: for_each_err)

lemma blames_client_map_result: "(\<And>x. blames_client (f x)) \<Longrightarrow> blames_client (map_result f xs)"
  unfolding blames_client_def by (induction xs) (auto split: sum.splits)

lemma blames_client_get [simp]:
  "blames_client (get_string j)" "blames_client (get_bool j)" "blames_client (get_json j)"
  "blames_client (json_at j k)" "blames_client (decode_scalar j)"
  by (cases j; simp add: get_json_def json_at_def split: option.splits)+

lemma blames_client_value: "(\<And>v. blames_client (get v)) \<Longrightarrow> blames_client (json_value get j k d)"
  by (auto simp: json_value_def split: option.splits)

lemma blames_client_lists [simp]: "blames_client (get_strings j)" "blames_client (get_string_map j)"
  by (cases j; auto simp: get_strings_def get_string_map_def intro!: blames_client_map_result blames_client_andthen)+

lemma blames_client_members [simp]: "blames_client (integer j k d)" "blames_client (fields j ks)"
  by (auto simp: integer_def fields_def intro!: blames_client_for_each blames_client_andthen)

lemma blames_client_parameters [simp]: "blames_client (decode_parameters ps acc)"
  by (induction ps acc rule: decode_parameters.induct) (auto intro: blames_client_andthen)

lemma blames_client_validate [simp]: "blames_client (validate s)"
  using throws_invalid_validate[of s] by (auto simp: throws_invalid_def blames_client_def)

lemmas blames_client_rules = blames_client_andthen blames_client_if blames_client_for_each blames_client_value

lemma decode_parts_blame_client [simp]: "blames_client (decode_resources j)" "blames_client (decode_retry j)"
  unfolding decode_resources_def decode_retry_def by (rule blames_client_rules | simp)+

lemma decode_members_blames_client: "blames_client (decode_members j)"
  unfolding decode_members_def Let_def by (rule blames_client_rules | simp split: prod.splits)+

text \<open>What decoding produces fits the types of the program.\<close>

definition spec_wf :: "RunSpec \<Rightarrow> bool" where
  "spec_wf s \<longleftrightarrow> validate s = Inr () \<and> map_wf (spec_parameters s) \<and> map_wf (spec_environment s) \<and>
     map_wf (spec_labels s) \<and> (\<forall>kv\<in>set (spec_parameters s). scalar_in_range (snd kv))"

lemma decode_scalar_range: "json_wf v \<Longrightarrow> decode_scalar v = Inr x \<Longrightarrow> scalar_in_range x"
  by (cases v) (auto simp: scalar_in_range_def split: if_splits)

lemma decode_parameters_wf:
  "decode_parameters ps acc = Inr p \<Longrightarrow> \<forall>kv\<in>set ps. json_wf (snd kv) \<Longrightarrow> map_wf acc \<Longrightarrow>
     \<forall>kv\<in>set acc. scalar_in_range (snd kv) \<Longrightarrow> map_wf p \<and> (\<forall>kv\<in>set p. scalar_in_range (snd kv))"
proof (induction ps acc rule: decode_parameters.induct)
  case (2 k v ps acc)
  then obtain x where x: "decode_scalar v = Inr x" "decode_parameters ps (map_put k x acc) = Inr p"
    by (auto simp: ok_simps)
  have "\<forall>kv\<in>set (map_put k x acc). scalar_in_range (snd kv)"
    using "2.prems" decode_scalar_range[OF _ x(1)] set_map_put_subset[of k x acc] by auto
  with 2 x show ?case by simp
qed simp

lemma map_result_keys:
  "map_result (\<lambda>(k, v). andthen (get v) (\<lambda>s. Inr (k, s))) ms = Inr m \<Longrightarrow> map fst m = map fst ms"
proof (induction ms arbitrary: m)
  case (Cons kv ms)
  then show ?case by (cases kv; cases "get (snd kv)") (auto split: sum.splits)
qed simp

lemma get_string_map_wf: "json_wf j \<Longrightarrow> get_string_map j = Inr m \<Longrightarrow> map_wf m"
proof -
  assume wf: "json_wf j" and m: "get_string_map j = Inr m"
  then obtain ms where j: "j = JObject ms" by (cases j) (auto simp: get_string_map_def)
  with m have "map fst m = map fst ms" by (auto simp: get_string_map_def dest: map_result_keys)
  with wf j show "map_wf m" by (simp add: map_wf_def)
qed

lemma json_value_wf:
  "json_wf j \<Longrightarrow> json_value get j k d = Inr v \<Longrightarrow> v = d \<or> (\<exists>x. json_wf x \<and> get x = Inr v)"
  by (cases j) (force simp: json_value_def split: option.splits if_splits dest: map_of_SomeD)+

lemma decode_spec_wf:
  assumes "decode_spec j = Inr s" and wf: "json_wf j"
  shows "spec_wf s"
proof -
  from assms(1) have "decode_members j = Inr s" by (auto simp: decode_spec_def split: sum.splits exn.splits)
  then obtain p where p: "json_value get_json j ''parameters'' (JObject []) = Inr p"
    and sp: "decode_parameters (members p) [] = Inr (spec_parameters s)"
    and se: "json_value get_string_map j ''environment'' [] = Inr (spec_environment s)"
    and sl: "json_value get_string_map j ''labels'' [] = Inr (spec_labels s)"
    and v: "validate s = Inr ()"
    by (auto simp: decode_members_def ok_simps Let_def split: if_splits)
  from json_value_wf[OF wf p] have "json_wf p" by (auto simp: get_json_def)
  then have "\<forall>kv\<in>set (members p). json_wf (snd kv)" by (cases p) auto
  from decode_parameters_wf[OF sp this] json_value_wf[OF wf se] json_value_wf[OF wf sl] get_string_map_wf v
  show ?thesis by (auto simp: spec_wf_def)
qed

lemma decode_grid_wf:
  "decode_grid dims grid = Inr g \<Longrightarrow> map_wf grid \<Longrightarrow> map_wf g"
  by (induction dims grid rule: decode_grid.induct) (auto simp: ok_simps split: if_splits)

lemma decode_grid_blames_client: "blames_client (decode_grid dims grid)"
  by (induction dims grid rule: decode_grid.induct)
    (auto intro!: blames_client_andthen blames_client_map_result)

lemma decode_spec_throws_invalid: "throws_invalid (decode_spec j)"
  using decode_members_blames_client[of j]
  by (auto simp: decode_spec_def throws_invalid_def blames_client_def split: sum.splits exn.splits)

lemma decode_sweep_blames_client: "blames_client (decode_sweep j)"
proof -
  have "blames_client (decode_spec v)" for v
    using decode_spec_throws_invalid[of v] by (auto simp: throws_invalid_def blames_client_def)
  then show ?thesis
    unfolding decode_sweep_def by (auto intro!: blames_client_rules decode_grid_blames_client)
qed

text \<open>
  C36: only well-formed submissions get in. From any JSON value, \<open>decode_spec\<close> either throws the
  client's error \<open>invalid\<close> or returns a specification that passes every check of \<open>validate\<close>, whose
  maps are ordered and whose integers fit 64 bits; \<open>decode_sweep\<close> returns such a base and an ordered
  grid, or throws \<open>invalid\<close> or the library's exception, which the interface answers with 400 as well.
\<close>

theorem decoded_specifications_are_well_formed:
  assumes "json_wf j"
  shows "(case decode_spec j of Inr s \<Rightarrow> spec_wf s | Inl ex \<Rightarrow> \<exists>m. ex = Error invalid m) \<and>
    (case decode_sweep j of Inr w \<Rightarrow> spec_wf (sweep_base w) \<and> map_wf (sweep_grid w)
     | Inl ex \<Rightarrow> \<exists>m. ex = Error invalid m \<or> ex = JsonError m)"
proof (rule conjI)
  show "case decode_spec j of Inr s \<Rightarrow> spec_wf s | Inl ex \<Rightarrow> \<exists>m. ex = Error invalid m"
    using decode_spec_wf[OF _ assms] decode_spec_throws_invalid[of j]
    by (auto simp: throws_invalid_def split: sum.splits)
  have "spec_wf (sweep_base w) \<and> map_wf (sweep_grid w)" if "decode_sweep j = Inr w" for w
  proof -
    from that obtain b where "json_at j ''base'' = Inr b" "decode_spec b = Inr (sweep_base w)" "map_wf (sweep_grid w)"
      by (auto simp: decode_sweep_def ok_simps split: if_splits dest: decode_grid_wf)
    moreover from this(1) assms have "json_wf b"
      by (cases j) (auto simp: json_at_def dest!: map_of_SomeD split: option.splits)
    ultimately show ?thesis using decode_spec_wf by blast
  qed
  with decode_sweep_blames_client[of j]
  show "case decode_sweep j of Inr w \<Rightarrow> spec_wf (sweep_base w) \<and> map_wf (sweep_grid w)
     | Inl ex \<Rightarrow> \<exists>m. ex = Error invalid m \<or> ex = JsonError m"
    by (auto simp: blames_client_def split: sum.splits)
qed

theorem decoded_specifications_are_well_formed_witness:
  "json_wf (reparsed (encode_spec demo_grid_spec)) \<and> spec_wf demo_grid_spec \<and>
   (\<exists>m. decode_spec (JObject [(''gpus'', JUnsigned 1)]) = throw invalid m)"
proof -
  have wf: "json_wf (reparsed (encode_spec demo_grid_spec))" "json_wf (JObject [(''gpus'', JUnsigned 1)])" by code_simp+
  have "decode_spec (reparsed (encode_spec demo_grid_spec)) = Inr demo_grid_spec"
    using demo_grid_spec_ok by (intro decode_encode_spec) auto
  moreover have "decode_spec (JObject [(''gpus'', JUnsigned 1)]) = throw invalid ''unknown specification field: gpus''"
    by code_simp
  ultimately show ?thesis
    using decoded_specifications_are_well_formed[OF wf(1)] decoded_specifications_are_well_formed[OF wf(2)] wf(1) by auto
qed

end
