(* ===== verification/Executor.thy ===== *)
theory Executor
  imports Prelude "HOL-Library.Multiset"
begin

text \<open>
  \<^verbatim>\<open>src/support/executor.cpp\<close>: a bounded queue of tasks and the threads that work it off. A thread is
  waiting for work, runs a task or has left its loop; a step is what one thread does while it holds
  the mutex. The history of accepted, started and finished tasks is kept beside the state.
\<close>

section \<open>State and operations\<close>

datatype 'task worker = Waiting | Running 'task | Exited

record 'task Executor =
  ex_tasks :: "'task list"
  ex_capacity :: nat
  ex_stopping :: bool
  ex_threads :: "'task worker list"

definition new_Executor :: "nat \<Rightarrow> nat \<Rightarrow> 'task Executor result" where
  "new_Executor threads capacity =
     (if threads = 0 \<or> capacity = 0 then Inl (StdError ''executor sizes must be positive'')
      else Inr \<lparr>ex_tasks = [], ex_capacity = capacity, ex_stopping = False, ex_threads = replicate threads Waiting\<rparr>)"

definition executor_submit :: "'task \<Rightarrow> 'task Executor \<Rightarrow> bool \<times> 'task Executor" where
  "executor_submit task ex =
     (if ex_stopping ex \<or> ex_capacity ex \<le> length (ex_tasks ex) then (False, ex)
      else (True, ex\<lparr>ex_tasks := ex_tasks ex @ [task]\<rparr>))"

text \<open>
  A thread that waits passes \<open>ready_.wait\<close> when its condition holds, and takes the first task or
  returns; \<open>None\<close>: it goes on waiting.
\<close>

definition wake :: "nat \<Rightarrow> 'task Executor \<Rightarrow> 'task Executor option" where
  "wake i ex =
     (if \<not> (ex_stopping ex \<or> ex_tasks ex \<noteq> []) then None
      else case ex_tasks ex of
        [] \<Rightarrow> Some (ex\<lparr>ex_threads := (ex_threads ex)[i := Exited]\<rparr>)
      | task # rest \<Rightarrow> Some (ex\<lparr>ex_tasks := rest, ex_threads := (ex_threads ex)[i := Running task]\<rparr>))"

text \<open>\<open>shutdown\<close> sets the flag; it returns, as \<open>threads_.clear()\<close> does, when every thread has left.\<close>

definition begin_shutdown :: "'task Executor \<Rightarrow> 'task Executor" where
  "begin_shutdown ex = ex\<lparr>ex_stopping := True\<rparr>"

definition joined :: "'task Executor \<Rightarrow> bool" where
  "joined ex \<longleftrightarrow> ex_stopping ex \<and> (\<forall>w\<in>set (ex_threads ex). w = Exited)"

section \<open>The executor at work\<close>

record 'task history =
  hs_ex :: "'task Executor"
  hs_accepted :: "'task list"
  hs_started :: "'task list"
  hs_finished :: "'task list"

inductive executor_step :: "'task history \<Rightarrow> 'task history \<Rightarrow> bool" where
  submitted: "executor_submit task (hs_ex h) = (ok, ex') \<Longrightarrow>
    executor_step h (h\<lparr>hs_ex := ex', hs_accepted := (if ok then hs_accepted h @ [task] else hs_accepted h)\<rparr>)"
| taken: "i < length (ex_threads (hs_ex h)) \<Longrightarrow> ex_threads (hs_ex h) ! i = Waiting \<Longrightarrow> wake i (hs_ex h) = Some ex' \<Longrightarrow>
    executor_step h (h\<lparr>hs_ex := ex', hs_started := hs_started h @ take 1 (ex_tasks (hs_ex h))\<rparr>)"
| completed: "i < length (ex_threads (hs_ex h)) \<Longrightarrow> ex_threads (hs_ex h) ! i = Running task \<Longrightarrow>
    executor_step h (h\<lparr>hs_ex := (hs_ex h)\<lparr>ex_threads := (ex_threads (hs_ex h))[i := Waiting]\<rparr>,
      hs_finished := hs_finished h @ [task]\<rparr>)"
| shut_down: "executor_step h (h\<lparr>hs_ex := begin_shutdown (hs_ex h)\<rparr>)"

definition executor_init :: "'task Executor \<Rightarrow> 'task history" where
  "executor_init ex = \<lparr>hs_ex = ex, hs_accepted = [], hs_started = [], hs_finished = []\<rparr>"

text \<open>The tasks that threads are running.\<close>

fun in_progress :: "'task worker list \<Rightarrow> 'task list" where
  "in_progress [] = []"
| "in_progress (Running task # ws) = task # in_progress ws"
| "in_progress (w # ws) = in_progress ws"

definition executor_inv :: "'task history \<Rightarrow> bool" where
  "executor_inv h \<longleftrightarrow>
     hs_started h @ ex_tasks (hs_ex h) = hs_accepted h \<and>
     length (ex_tasks (hs_ex h)) \<le> ex_capacity (hs_ex h) \<and>
     mset (hs_finished h) + mset (in_progress (ex_threads (hs_ex h))) = mset (hs_started h) \<and>
     ex_threads (hs_ex h) \<noteq> [] \<and>
     (Exited \<in> set (ex_threads (hs_ex h)) \<longrightarrow> ex_stopping (hs_ex h) \<and> ex_tasks (hs_ex h) = [])"

section \<open>Properties\<close>

lemma in_progress_update:
  "i < length ws \<Longrightarrow> mset (in_progress (ws[i := w])) + mset (in_progress [ws ! i]) =
     mset (in_progress ws) + mset (in_progress [w])"
proof (induction ws arbitrary: i)
  case (Cons v ws)
  then show ?case
    by (cases i; cases v; cases w) (auto simp: add_mset_commute)
qed simp

lemma executor_init_inv: "new_Executor threads capacity = Inr ex \<Longrightarrow> executor_inv (executor_init ex)"
proof -
  have "in_progress (replicate n Waiting) = []" for n by (induction n) auto
  then show "new_Executor threads capacity = Inr ex \<Longrightarrow> executor_inv (executor_init ex)"
    by (auto simp: new_Executor_def executor_inv_def executor_init_def split: if_splits)
qed

lemma executor_step_inv: "executor_step h h' \<Longrightarrow> executor_inv h \<Longrightarrow> executor_inv h'"
proof (induction rule: executor_step.induct)
  case (submitted task h ok ex')
  then show ?case by (auto simp: executor_submit_def executor_inv_def split: if_splits)
next
  case (taken i h ex')
  show ?case
  proof (cases "ex_tasks (hs_ex h)")
    case Nil
    with taken have "ex' = (hs_ex h)\<lparr>ex_threads := (ex_threads (hs_ex h))[i := Exited]\<rparr>" "ex_stopping (hs_ex h)"
      by (auto simp: wake_def split: if_splits)
    with taken Nil in_progress_update[of i "ex_threads (hs_ex h)" Exited] show ?thesis by (auto simp: executor_inv_def)
  next
    case (Cons task rest)
    with taken have ex': "ex' = (hs_ex h)\<lparr>ex_tasks := rest, ex_threads := (ex_threads (hs_ex h))[i := Running task]\<rparr>"
      by (auto simp: wake_def)
    have "Exited \<notin> set ((ex_threads (hs_ex h))[i := Running task])"
      using taken Cons set_update_subset_insert[of "ex_threads (hs_ex h)" i "Running task"]
      by (auto simp: executor_inv_def)
    with taken Cons ex' in_progress_update[of i "ex_threads (hs_ex h)" "Running task"] show ?thesis
      by (auto simp: executor_inv_def)
  qed
next
  case (completed i h task)
  have "Exited \<in> set ((ex_threads (hs_ex h))[i := Waiting]) \<Longrightarrow> Exited \<in> set (ex_threads (hs_ex h))"
    using set_update_subset_insert[of "ex_threads (hs_ex h)" i Waiting] by auto
  moreover have "mset (in_progress (ex_threads (hs_ex h))) =
      add_mset task (mset (in_progress ((ex_threads (hs_ex h))[i := Waiting])))"
    using completed(1,2) in_progress_update[of i "ex_threads (hs_ex h)" Waiting] by simp
  ultimately show ?case using completed by (auto simp: executor_inv_def)
next
  case (shut_down h)
  then show ?case by (auto simp: executor_inv_def begin_shutdown_def)
qed

lemma in_progress_exited: "\<forall>w\<in>set ws. w = Exited \<Longrightarrow> in_progress ws = []"
  by (induction ws) auto

text \<open>
  C37: accepted work is done, once and in order. However submissions, threads and the shutdown
  interleave, the queue never exceeds its capacity, tasks are started in the order in which they
  were accepted, and when \<open>shutdown\<close> returns every accepted task has finished exactly once. Before
  that, some thread can always go on.
\<close>

theorem accepted_work_is_done:
  assumes "new_Executor threads capacity = Inr ex" and "executor_step\<^sup>*\<^sup>* (executor_init ex) h"
  shows "length (ex_tasks (hs_ex h)) \<le> ex_capacity (hs_ex h) \<and> hs_started h @ ex_tasks (hs_ex h) = hs_accepted h \<and>
    (joined (hs_ex h) \<longrightarrow> mset (hs_finished h) = mset (hs_accepted h)) \<and>
    (ex_stopping (hs_ex h) \<and> \<not> joined (hs_ex h) \<longrightarrow>
       (\<exists>i < length (ex_threads (hs_ex h)). (\<exists>task. ex_threads (hs_ex h) ! i = Running task) \<or>
          ex_threads (hs_ex h) ! i = Waiting \<and> wake i (hs_ex h) \<noteq> None))"
proof -
  from assms(2) have inv: "executor_inv h"
    by (induction rule: rtranclp_induct) (auto intro: executor_step_inv executor_init_inv assms(1))
  have "ex_tasks (hs_ex h) = [] \<and> in_progress (ex_threads (hs_ex h)) = []" if "joined (hs_ex h)"
    using that inv in_progress_exited by (auto simp: joined_def executor_inv_def) (metis list.set_intros(1) neq_Nil_conv)+
  then have "joined (hs_ex h) \<Longrightarrow> mset (hs_finished h) = mset (hs_accepted h)"
    using inv by (auto simp: executor_inv_def)
  moreover have "\<exists>i < length (ex_threads (hs_ex h)). (\<exists>task. ex_threads (hs_ex h) ! i = Running task) \<or>
      ex_threads (hs_ex h) ! i = Waiting \<and> wake i (hs_ex h) \<noteq> None"
    if stop: "ex_stopping (hs_ex h)" "\<not> joined (hs_ex h)"
  proof -
    from stop obtain i where i: "i < length (ex_threads (hs_ex h))" "ex_threads (hs_ex h) ! i \<noteq> Exited"
      by (auto simp: joined_def in_set_conv_nth)
    moreover from stop(1) have "wake i (hs_ex h) \<noteq> None" by (auto simp: wake_def split: list.splits)
    ultimately show ?thesis by (metis worker.exhaust)
  qed
  ultimately show ?thesis using inv by (auto simp: executor_inv_def)
qed

definition demo_executor :: "nat Executor" where
  "demo_executor = \<lparr>ex_tasks = [], ex_capacity = 1, ex_stopping = False, ex_threads = [Waiting]\<rparr>"

text \<open>A task is accepted, the second refused, the first run, and the executor shut down.\<close>

theorem accepted_work_is_done_witness:
  "\<exists>h. executor_step\<^sup>*\<^sup>* (executor_init demo_executor) h \<and> joined (hs_ex h) \<and> hs_accepted h = [7] \<and>
     mset (hs_finished h) = {#7#}"
proof -
  define h1 where "h1 = \<lparr>hs_ex = demo_executor\<lparr>ex_tasks := [7]\<rparr>, hs_accepted = [7], hs_started = [], hs_finished = []\<rparr>"
  define h2 where "h2 = h1\<lparr>hs_ex := demo_executor\<lparr>ex_threads := [Running 7]\<rparr>, hs_started := [7]\<rparr>"
  define h3 where "h3 = h2\<lparr>hs_ex := demo_executor, hs_finished := [7]\<rparr>"
  define h4 where "h4 = h3\<lparr>hs_ex := begin_shutdown demo_executor\<rparr>"
  define h5 where "h5 = h4\<lparr>hs_ex := (begin_shutdown demo_executor)\<lparr>ex_threads := [Exited]\<rparr>\<rparr>"
  note defs = h1_def h2_def h3_def h4_def h5_def demo_executor_def executor_init_def executor_submit_def wake_def begin_shutdown_def
  have "executor_step (executor_init demo_executor) h1"
    using submitted[of 7 "executor_init demo_executor" True "demo_executor\<lparr>ex_tasks := [7]\<rparr>"] by (simp add: defs)
  moreover have "executor_step h1 h1" using submitted[of 8 h1 False "hs_ex h1"] by (simp add: defs)
  moreover have "executor_step h1 h2"
    using taken[of 0 h1 "demo_executor\<lparr>ex_threads := [Running 7]\<rparr>"] by (simp add: defs)
  moreover have "executor_step h2 h3" using completed[of 0 h2 7] by (simp add: defs)
  moreover have "executor_step h3 h4" using shut_down[of h3] by (simp add: defs)
  moreover have "executor_step h4 h5"
    using taken[of 0 h4 "(begin_shutdown demo_executor)\<lparr>ex_threads := [Exited]\<rparr>"] by (simp add: defs)
  ultimately have run: "executor_step\<^sup>*\<^sup>* (executor_init demo_executor) h5"
    by (meson converse_rtranclp_into_rtranclp rtranclp.rtrancl_refl)
  have "new_Executor 1 1 = Inr demo_executor" by (simp add: new_Executor_def demo_executor_def)
  from accepted_work_is_done[OF this run] run show ?thesis by (force simp: defs joined_def)
qed

end
