(* ===== verification/Http_Api.thy ===== *)
theory Http_Api
  imports Serialization Artifact_Service Config Executor
begin

text \<open>
  \<^verbatim>\<open>src/http/api.cpp\<close>: the owner's interface. The web server hands a handler the request with its path
  parameter; a request that passes the checks is queued in the executor, and a thread runs it and
  answers. JSON text is parsed and printed by the parameters \<open>ap_parse\<close> and \<open>ap_dump\<close>; printing fails,
  as the library's does, on a string that is not valid UTF-8. The transactions of one request see
  one database. Log lines are left out.
\<close>

section \<open>Requests and responses\<close>

text \<open>The handlers that \<open>mount\<close> registers, with their path parameter.\<close>

datatype Route =
    GetCapacity
  | PostSweep
  | GetSweep string
  | PostRerun string
  | GetWorkers
  | PostDrain string
  | PostCancel string
  | GetArtifacts string
  | GetArtifact string
  | GetDownload string
  | GetLogs string
  | GetMetrics string
  | PostRun
  | GetRuns
  | GetRun string
  | GetAttempts string
  | GetEvents string

record HttpRequest =
  hq_route :: Route
  hq_headers :: "(string, string) stdmap"
  hq_parameters :: "(string, string) stdmap"
  hq_body :: string

datatype http_body = JsonText string | FileContent string

record HttpResponse =
  hr_status :: int
  hr_body :: http_body
  hr_request_id :: string

text \<open>A header or query parameter that is missing is the empty string.\<close>

definition get_header :: "HttpRequest \<Rightarrow> string \<Rightarrow> string" where
  "get_header r key = (case map_of (hq_headers r) key of None \<Rightarrow> [] | Some v \<Rightarrow> v)"

definition get_parameter :: "HttpRequest \<Rightarrow> string \<Rightarrow> string" where
  "get_parameter r key = (case map_of (hq_parameters r) key of None \<Rightarrow> [] | Some v \<Rightarrow> v)"

definition number :: "HttpRequest \<Rightarrow> string \<Rightarrow> int \<Rightarrow> int result" where
  "number r key fallback =
     (let v = get_parameter r key in
      if v = [] then Inr fallback
      else case stoi v of
        Some (n, used) \<Rightarrow>
          if used = length v \<and> 0 \<le> n then Inr n
          else throw invalid (''invalid numeric query parameter: '' @ key)
      | None \<Rightarrow> throw invalid (''invalid numeric query parameter: '' @ key))"

definition page_size :: "HttpRequest \<Rightarrow> int \<Rightarrow> int \<Rightarrow> int result" where
  "page_size r fallback maximum =
     andthen (number r ''limit'' fallback) (\<lambda>v.
       if v < 1 \<or> v > maximum then throw invalid ''page size is outside the allowed range'' else Inr v)"

fun http_error :: "ErrorCode \<Rightarrow> int \<times> string" where
  "http_error invalid = (400, ''invalid_request'')"
| "http_error not_found = (404, ''not_found'')"
| "http_error conflict = (409, ''conflict'')"
| "http_error unauthorized = (401, ''unauthorized'')"
| "http_error stale = (409, ''stale_attempt'')"
| "http_error exhausted = (429, ''resource_exhausted'')"
| "http_error unavailable = (503, ''unavailable'')"

text \<open>What the interface is built from.\<close>

record Api =
  ap_token :: string
  ap_timing :: Timing
  ap_root :: string
  ap_cluster :: "ClusterGpuSnapshot option"
  ap_parse :: "string \<Rightarrow> Json result"
  ap_dump :: "Json \<Rightarrow> string result"
  ap_stamp :: "int option \<Rightarrow> string"
  ap_digest :: "string \<Rightarrow> byte list"
  ap_get :: "io_faults \<Rightarrow> string \<Rightarrow> string \<Rightarrow> disk \<Rightarrow> unit result \<times> disk"

definition json_response :: "Api \<Rightarrow> Json \<Rightarrow> int \<Rightarrow> string \<Rightarrow> HttpResponse result" where
  "json_response api body status request_id =
     andthen (ap_dump api body) (\<lambda>printed.
       Inr \<lparr>hr_status = status, hr_body = JsonText printed, hr_request_id = request_id\<rparr>)"

section \<open>Handlers\<close>

definition request_body :: "Api \<Rightarrow> HttpRequest \<Rightarrow> Json result" where
  "request_body api r = ap_parse api (hq_body r)"

text \<open>\<open>sha256(encode(spec).dump())\<close>.\<close>

definition fingerprint_of :: "Api \<Rightarrow> Json \<Rightarrow> string result" where
  "fingerprint_of api j = andthen (ap_dump api j) (\<lambda>printed. Inr (sha256 (ap_digest api) printed))"

definition paged :: "string \<Rightarrow> Json list \<Rightarrow> Json \<Rightarrow> Json" where
  "paged key items cursor = json_object [(''items'', JArray items), (key, cursor)]"

definition handle_telemetry :: "Api \<Rightarrow> bool \<Rightarrow> string \<Rightarrow> HttpRequest \<Rightarrow> db \<Rightarrow> Json result" where
  "handle_telemetry api logs rid r db =
     andthen (get_run rid db) (\<lambda>run.
       let requested = get_parameter r ''attempt'';
           attempt = (if requested = [] then run_active_attempt run else requested)
       in andthen (number r ''after'' 0) (\<lambda>after.
          andthen (page_size r 100 1000) (\<lambda>limit.
          andthen (service_telemetry rid attempt after limit (if logs then ''logs'' else ''metric'') (get_parameter r ''name'') db) (\<lambda>rows.
            Inr (json_object [
              (''attempt_id'', JString attempt),
              (''items'', JArray (map encode_telemetry rows)),
              (''next_cursor'', JInteger (if rows = [] then after else t_sequence (last rows)))])))))"

text \<open>The handlers that answer with JSON; those that change the database return the new one.\<close>

fun handle_json :: "Api \<Rightarrow> env \<Rightarrow> Route \<Rightarrow> HttpRequest \<Rightarrow> db \<Rightarrow> (Json \<times> db) result" where
  "handle_json api e GetCapacity r db =
     andthen (page_size r 100 200) (\<lambda>limit.
     andthen (capacity_get (ap_timing api) e (ap_cluster api) limit (get_parameter r ''after'') db) (\<lambda>page.
       Inr (encode_capacity_page (ap_stamp api) page, db)))"
| "handle_json api e PostSweep r db =
     andthen (andthen (request_body api r) decode_sweep) (\<lambda>spec.
     andthen (fingerprint_of api (encode_sweep_spec spec)) (\<lambda>fingerprint.
     andthen (service_sweep e spec (get_header r ''idempotency-key'') fingerprint db) (\<lambda>(sw, db').
       Inr (encode_sweep (ap_stamp api) sw, db'))))"
| "handle_json api e (GetSweep sid) r db =
     andthen (get_sweep e sid db) (\<lambda>sw. Inr (encode_sweep (ap_stamp api) sw, db))"
| "handle_json api e (PostRerun rid) r db =
     andthen (service_rerun (sha256 (ap_digest api)) e rid (get_header r ''idempotency-key'') db) (\<lambda>(run, db').
       Inr (encode_run (ap_stamp api) run, db'))"
| "handle_json api e GetWorkers r db =
     andthen (page_size r 100 200) (\<lambda>limit.
     andthen (list_workers (ap_timing api) e limit (get_parameter r ''after'') db) (\<lambda>ws.
       Inr (paged ''next_cursor'' (map (encode_worker (ap_stamp api)) ws)
              (JString (if ws = [] then [] else wk_id (last ws))), db)))"
| "handle_json api e (PostDrain wid) r db =
     andthen (request_body api r) (\<lambda>body.
     andthen (json_value get_bool body ''drained'' True) (\<lambda>drained.
     andthen (drain_worker wid drained db) (\<lambda>(u, db').
       Inr (json_object [(''id'', JString wid), (''drained'', JBool drained)], db'))))"
| "handle_json api e (PostCancel rid) r db =
     andthen (cancel e rid db) (\<lambda>(run, db'). Inr (encode_run (ap_stamp api) run, db'))"
| "handle_json api e (GetArtifacts rid) r db =
     andthen (list_run_artifacts e rid (get_parameter r ''attempt'') db) (\<lambda>items.
       Inr (json_object [(''items'', JArray (map encode_artifact items))], db))"
| "handle_json api e (GetArtifact aid) r db =
     andthen (get_artifact aid db) (\<lambda>a. Inr (encode_artifact a, db))"
| "handle_json api e (GetLogs rid) r db =
     andthen (handle_telemetry api True rid r db) (\<lambda>j. Inr (j, db))"
| "handle_json api e (GetMetrics rid) r db =
     andthen (handle_telemetry api False rid r db) (\<lambda>j. Inr (j, db))"
| "handle_json api e PostRun r db =
     andthen (andthen (request_body api r) decode_spec) (\<lambda>spec.
     andthen (fingerprint_of api (encode_spec spec)) (\<lambda>fingerprint.
     andthen (service_submit e spec (get_header r ''idempotency-key'') fingerprint db) (\<lambda>(run, db').
       Inr (encode_run (ap_stamp api) run, db'))))"
| "handle_json api e GetRuns r db =
     andthen (page_size r 50 200) (\<lambda>limit.
     andthen (service_list e limit (get_parameter r ''after'') (get_parameter r ''status'') db) (\<lambda>rs.
       Inr (paged ''next_cursor'' (map (encode_run (ap_stamp api)) rs)
              (JString (if rs = [] then [] else run_id (last rs))), db)))"
| "handle_json api e (GetRun rid) r db =
     andthen (get_run rid db) (\<lambda>run. Inr (encode_run (ap_stamp api) run, db))"
| "handle_json api e (GetAttempts rid) r db =
     andthen (service_attempts e rid db) (\<lambda>items.
       Inr (json_object [(''items'', JArray (map (encode_attempt (ap_stamp api)) items))], db))"
| "handle_json api e (GetEvents rid) r db =
     andthen (number r ''after'' 0) (\<lambda>after.
     andthen (page_size r 100 1000) (\<lambda>limit.
     andthen (service_events rid after limit db) (\<lambda>items.
       Inr (json_object [(''items'', JArray (map (encode_event (ap_stamp api)) items))], db))))"
| "handle_json api e (GetDownload aid) r db = throw not_found ''not a JSON handler''"

text \<open>
  A handler's response, or the exception that ends it. \<open>json_response(work())\<close> prints the reply after
  the transaction has committed.
\<close>

definition handle ::
    "Api \<Rightarrow> env \<Rightarrow> io_faults \<Rightarrow> io_faults \<Rightarrow> HttpRequest \<Rightarrow> db \<times> disk \<Rightarrow> HttpResponse result \<times> db \<times> disk" where
  "handle api e io io' r s =
     (case hq_route r of
        GetDownload aid \<Rightarrow>
          (case download (ap_digest api) (ap_get api) io io' (ap_root api) aid (fst s) (snd s) of
             (Inl ex, d) \<Rightarrow> (Inl ex, fst s, d)
           | (Inr path, d) \<Rightarrow> (Inr \<lparr>hr_status = 200, hr_body = FileContent path, hr_request_id = []\<rparr>, fst s, d))
      | _ \<Rightarrow>
          (case handle_json api e (hq_route r) r (fst s) of
             Inl ex \<Rightarrow> (Inl ex, s)
           | Inr (body, db') \<Rightarrow> (json_response api body 200 [], db', snd s)))"

section \<open>Dispatch\<close>

text \<open>A response, or an exception that leaves the code: in the executor's thread it ends the process.\<close>

datatype outcome = Respond HttpResponse | Escape exn

definition error_body :: "string \<Rightarrow> string \<Rightarrow> string \<Rightarrow> Json" where
  "error_body code message request_id = json_object [(''error'', json_object [
     (''code'', JString code), (''message'', JString message), (''request_id'', JString request_id)])]"

definition error_response :: "Api \<Rightarrow> string \<Rightarrow> string \<Rightarrow> int \<Rightarrow> string \<Rightarrow> outcome" where
  "error_response api code message status request_id =
     (case json_response api (error_body code message request_id) status request_id of
        Inl ex \<Rightarrow> Escape ex | Inr response \<Rightarrow> Respond response)"

text \<open>The task that is queued.\<close>

definition run_task ::
    "Api \<Rightarrow> env \<Rightarrow> io_faults \<Rightarrow> io_faults \<Rightarrow> string \<Rightarrow> HttpRequest \<Rightarrow> db \<times> disk \<Rightarrow> outcome \<times> db \<times> disk" where
  "run_task api e io io' request_id r s =
     (case handle api e io io' r s of
        (Inr response, s') \<Rightarrow> (Respond (response\<lparr>hr_request_id := request_id\<rparr>), s')
      | (Inl (Error code message), s') \<Rightarrow>
          (error_response api (snd (http_error code)) message (fst (http_error code)) request_id, s')
      | (Inl (JsonError m), s') \<Rightarrow> (error_response api ''invalid_request'' ''malformed JSON request'' 400 request_id, s')
      | (Inl ex, s') \<Rightarrow> (error_response api ''unavailable'' ''operation temporarily unavailable'' 503 request_id, s'))"

text \<open>\<open>None\<close>: the request waits in the queue.\<close>

definition dispatch_response ::
    "Api \<Rightarrow> bool \<Rightarrow> string \<Rightarrow> HttpRequest \<Rightarrow> (string \<times> HttpRequest) Executor \<Rightarrow> outcome option \<times> (string \<times> HttpRequest) Executor" where
  "dispatch_response api ready request_id r ex =
     (if \<not> constant_equal (get_header r ''authorization'') (''Bearer '' @ ap_token api)
      then (Some (error_response api ''unauthorized'' ''valid owner credentials required'' 401 request_id), ex)
      else if \<not> ready
      then (Some (error_response api ''unavailable'' ''coordinator is not ready'' 503 request_id), ex)
      else case executor_submit (request_id, r) ex of
        (True, ex') \<Rightarrow> (None, ex')
      | (False, ex') \<Rightarrow> (Some (error_response api ''unavailable'' ''request queue is full'' 503 request_id), ex'))"

text \<open>The two health checks answer without credentials and outside the queue.\<close>

definition health_live :: "Api \<Rightarrow> HttpResponse result" where
  "health_live api = json_response api (json_object [(''status'', JString ''live'')]) 200 []"

definition health_ready :: "Api \<Rightarrow> bool \<Rightarrow> HttpResponse result" where
  "health_ready api ready =
     json_response api (json_object [(''ready'', JBool ready)]) (if ready then 200 else 503) []"

section \<open>Properties\<close>

fun reads_only :: "Route \<Rightarrow> bool" where
  "reads_only PostSweep = False"
| "reads_only (PostRerun rid) = False"
| "reads_only (PostDrain wid) = False"
| "reads_only (PostCancel rid) = False"
| "reads_only PostRun = False"
| "reads_only route = True"

lemma handle_json_reads: "handle_json api e route r db = Inr (j, db') \<Longrightarrow> reads_only route \<Longrightarrow> db' = db"
  by (cases route) (auto simp: ok_simps)

lemma handle_json_eq:
  "\<forall>aid. route \<noteq> GetDownload aid \<Longrightarrow> hq_route r = route \<Longrightarrow>
     handle api e io io' r s =
       (case handle_json api e route r (fst s) of
          Inl ex \<Rightarrow> (Inl ex, s) | Inr (body, db') \<Rightarrow> (json_response api body 200 [], db', snd s))"
  by (cases route) (auto simp: handle_def)

lemma handle_cases:
  assumes "handle api e io io' r s = (res, s')"
  obtains (kept) "fst s' = fst s" "\<forall>response. res = Inr response \<longrightarrow> hr_status response = 200"
  | (replied) body where "res = json_response api body 200 []" "\<not> reads_only (hq_route r)"
proof (cases "\<exists>aid. hq_route r = GetDownload aid")
  case True
  with assms show thesis by (intro kept) (auto simp: handle_def split: prod.splits sum.splits)
next
  case False
  then have eq: "handle api e io io' r s =
       (case handle_json api e (hq_route r) r (fst s) of
          Inl ex \<Rightarrow> (Inl ex, s) | Inr (body, db') \<Rightarrow> (json_response api body 200 [], db', snd s))"
    by (intro handle_json_eq) auto
  show thesis
  proof (cases "handle_json api e (hq_route r) r (fst s)")
    case (Inl ex)
    with assms eq show thesis by (intro kept) auto
  next
    case (Inr p)
    then obtain body db' where p: "handle_json api e (hq_route r) r (fst s) = Inr (body, db')" by (cases p) auto
    with assms eq have res: "res = json_response api body 200 []" "s' = (db', snd s)" by auto
    show thesis
    proof (cases "reads_only (hq_route r)")
      case True
      with handle_json_reads[OF p] res show thesis by (intro kept) (auto simp: json_response_def ok_simps)
    qed (use res replied in blast)
  qed
qed

lemma error_response_printed:
  "\<forall>j. \<exists>printed. ap_dump api j = Inr printed \<Longrightarrow>
     \<exists>response. error_response api code message status rid = Respond response \<and> hr_request_id response = rid \<and> hr_status response = status"
proof -
  assume "\<forall>j. \<exists>printed. ap_dump api j = Inr printed"
  then obtain printed where "ap_dump api (error_body code message rid) = Inr printed" by blast
  then show ?thesis by (simp add: error_response_def json_response_def)
qed

lemma http_error_statuses: "fst (http_error code) \<in> {400, 401, 404, 409, 429, 503}"
  by (cases code) auto


lemma submitted_run_kept:
  assumes "reachable timing db" and "submit e spec key fp db = Inr (r, db')" and "(store_step timing)\<^sup>*\<^sup>* db' db''"
  obtains run where "get_run (run_id r) db'' = Inr run" "run_id run = run_id r" "run_spec run = run_spec r"
proof -
  from assms(2) obtain sub :: submissions_row and row where row: "run_row db' (sub_run_id sub) = Some row"
    and r: "run_id r = sub_run_id sub" "run_spec r = r_spec row"
    by (rule submit_stored) blast
  have "reachable timing db'" using assms(1,2) by (auto intro: reach.reach_step store_step.intros)
  from store.steps_abs[OF assms(3) store.reachable_inv[OF this]]
  have "life_step\<^sup>*\<^sup>* (life_of db') (life_of db'')" .
  from life_steps_spec[OF this life_row[OF row]]
  obtain row' where row': "run_row db'' (sub_run_id sub) = Some row'" "r_spec row' = r_spec row" by auto
  with r run_row_key[OF row'(1)] show thesis
    by (intro that[of "run_of row'"]) (auto simp: get_run_def run_of_def)
qed

lemma service_submit_ok: "service_submit e spec key fp db = Inr x \<Longrightarrow> submit e spec key fp db = Inr x"
  by (cases "validate_submission spec"; cases "check_key key") (auto simp: service_submit_def)

lemma submit_new:
  "submit e spec key fp db = Inr (r, db') \<Longrightarrow> find_by sub_key (submissions db) key = None \<Longrightarrow>
     run_spec r = spec \<and> validate spec = Inr ()"
  by (auto simp: submit_def Let_def run_of_def new_run_def validate_submission_ok split: sum.splits option.splits)

text \<open>
  What is posted can be read. When a run is posted under a new key, then from that moment on,
  whatever happens in the coordinator, the run with the returned id can be read, and the
  specification in the reply is one that a client decodes to what was posted.
\<close>

theorem posted_runs_can_be_read:
  assumes "reachable (ap_timing api) db" and "handle_json api e PostRun r db = Inr (reply, db')"
    and "ap_parse api (hq_body r) = Inr body" and "json_wf body"
    and "find_by sub_key (submissions db) (get_header r ''idempotency-key'') = None"
    and "(store_step (ap_timing api))\<^sup>*\<^sup>* db' db''"
  shows "\<exists>rid spec later. decode_spec body = Inr spec \<and> json_at reply ''id'' = Inr (JString rid) \<and>
    handle_json api e' (GetRun rid) r' db'' = Inr (later, db'') \<and> json_at later ''id'' = Inr (JString rid) \<and>
    json_at later ''spec'' = Inr (encode_spec spec) \<and> decode_spec (reparsed (encode_spec spec)) = Inr spec"
proof -
  from assms(2,3) obtain spec fp run where spec: "decode_spec body = Inr spec"
    and sub: "submit e spec (get_header r ''idempotency-key'') fp db = Inr (run, db')"
    and reply: "reply = encode_run (ap_stamp api) run"
    by (auto simp: request_body_def ok_simps dest!: service_submit_ok)
  from submitted_run_kept[OF assms(1) sub assms(6)] obtain run' where run': "get_run (run_id run) db'' = Inr run'"
    "run_id run' = run_id run" "run_spec run' = run_spec run" by blast
  have at: "json_at (encode_run stamp x) ''id'' = Inr (JString (run_id x))"
    "json_at (encode_run stamp x) ''spec'' = Inr (encode_spec (run_spec x))" for stamp x
    by (simp_all add: encode_run_def json_at_def json_object_members)
  from decode_spec_wf[OF spec assms(4)] have "spec_wf spec" .
  then have "decode_spec (reparsed (encode_spec spec)) = Inr spec"
    by (intro decode_encode_spec) (auto simp: spec_wf_def)
  with spec run' reply submit_new[OF sub assms(5)] show ?thesis
    by (intro exI[of _ "run_id run"] exI[of _ spec] exI[of _ "encode_run (ap_stamp api) run'"]) (simp add: at)
qed

text \<open>
  C40: an error message that cannot be printed ends the coordinator. The list of runs echoes an unknown
  status in its error message; when that text is not valid UTF-8, which the JSON library refuses to
  print, the exception leaves the handler of the first exception, and with it the executor's thread.
\<close>

theorem unprintable_messages_escape:
  assumes "hq_route r = GetRuns" and "get_parameter r ''limit'' = []"
    and "get_parameter r ''status'' = status" and "status \<noteq> []" and "status \<notin> set statuses"
    and "ap_dump api (error_body ''invalid_request'' (''unknown run status: '' @ status) request_id) = Inl ex"
  shows "run_task api e io io' request_id r s = (Escape ex, s)"
proof -
  have "index_of x xs = None" if "x \<notin> set xs" for x :: string and xs using that by (induction xs) auto
  with assms(5) have "parse_status status = throw invalid (''unknown run status: '' @ status)"
    by (simp add: parse_status_def)
  with assms show ?thesis
    by (simp add: run_task_def handle_def page_size_def number_def service_list_def error_response_def json_response_def)
qed

definition demo_api :: Api where
  "demo_api = \<lparr>ap_token = ''0123456789abcdef'', ap_timing = default_Timing, ap_root = ''artifacts'', ap_cluster = None,
     ap_parse = (\<lambda>_. Inr (reparsed (encode_spec demo_grid_spec))), ap_dump = (\<lambda>_. Inr ''{}''), ap_stamp = (\<lambda>_. []),
     ap_digest = (\<lambda>_. []), ap_get = (\<lambda>_ _ _ d. (Inr (), d))\<rparr>"

definition demo_request :: "Route \<Rightarrow> HttpRequest" where
  "demo_request route = \<lparr>hq_route = route, hq_headers = [(''idempotency-key'', ''key'')],
     hq_parameters = [(''status'', [CHR 0xFF])], hq_body = []\<rparr>"


lemma demo_grid_submission: "validate_submission demo_grid_spec = Inr ()"
  by code_simp

theorem posted_runs_can_be_read_witness:
  "\<exists>reply db' later. handle_json demo_api (demo_env 100 ''r'') PostRun (demo_request PostRun) empty_db = Inr (reply, db') \<and>
     handle_json demo_api (demo_env 200 ''s'') (GetRun ''r'') (demo_request (GetRun ''r'')) db' = Inr (later, db') \<and>
     json_at later ''spec'' = Inr (encode_spec demo_grid_spec)"
proof -
  have decoded: "decode_spec (reparsed (encode_spec demo_grid_spec)) = Inr demo_grid_spec"
    using demo_grid_spec_ok by (intro decode_encode_spec) auto
  have wf: "json_wf (reparsed (encode_spec demo_grid_spec))" by code_simp
  obtain run db' where "submit (demo_env 100 ''r'') demo_grid_spec ''key'' [] empty_db = Inr (run, db')" and rid: "run_id run = ''r''"
    by (simp add: submit_def create_run_def insert_run_def insert_submission_def empty_db_def
        new_run_def demo_eval demo_grid_submission run_of_def)
  then have reply: "handle_json demo_api (demo_env 100 ''r'') PostRun (demo_request PostRun) empty_db = Inr (encode_run (\<lambda>_. []) run, db')"
    by (simp add: decoded request_body_def demo_api_def fingerprint_of_def sha256_def hex_def service_submit_def
        demo_grid_submission check_key_def get_header_def demo_request_def)
  have at: "json_at (encode_run (\<lambda>_. []) run) ''id'' = Inr (JString ''r'')"
    by (simp add: encode_run_def json_at_def json_object_members rid)
  have new: "find_by sub_key (submissions empty_db) key = None" for key by (simp add: empty_db_def)
  from posted_runs_can_be_read[OF reach.reach_init reply _ wf new rtranclp.rtrancl_refl, of "demo_env 200 ''s''" "demo_request (GetRun ''r'')"]
  show ?thesis using reply decoded at by (auto simp: demo_api_def)
qed

definition failing_dump :: "Json \<Rightarrow> string result" where
  "failing_dump j = json_error ''type_error.316''"

theorem unprintable_messages_escape_witness:
  "run_task (demo_api\<lparr>ap_dump := failing_dump\<rparr>) (demo_env 100 ''r'') demo_io demo_io ''q'' (demo_request GetRuns) (empty_db, Map.empty) =
     (Escape (JsonError ''type_error.316''), empty_db, Map.empty)"
  by (rule unprintable_messages_escape[of _ "[CHR 0xFF]"])
    (simp_all add: demo_request_def get_parameter_def statuses_def failing_dump_def)

end
