(* ===== verification/Database_Access.thy ===== *)
theory Database_Access
  imports Crypto "HOL-Library.Multiset"
begin

text \<open>
  \<^verbatim>\<open>src/postgres/pool.cpp\<close> and \<^verbatim>\<open>src/postgres/leadership.cpp\<close>: the pool of connections, the migrations
  and the leader's lock. Connections are opaque (\<open>'c\<close>); whether one is open, and whether opening one
  succeeds, is observed at every step. What PostgreSQL does with the text of a migration is the
  parameter \<open>apply_sql\<close>.
\<close>

section \<open>The pool\<close>

text \<open>\<open>None\<close> is the null pointer that stands for a connection that could not be reopened.\<close>

record 'c ConnectionPool =
  cp_capacity :: nat
  cp_waiting :: nat
  cp_timeouts :: nat
  cp_connections :: "'c option list"

definition new_ConnectionPool :: "'c list \<Rightarrow> 'c ConnectionPool result" where
  "new_ConnectionPool opened =
     (if opened = [] then throw invalid ''database pool must not be empty''
      else Inr \<lparr>cp_capacity = length opened, cp_waiting = 0, cp_timeouts = 0, cp_connections = map Some opened\<rparr>)"

text \<open>
  \<open>acquire\<close> up to \<open>unlock\<close>, in two steps: the caller begins to wait; then it either finds a connection
  or, after five seconds, gives up.
\<close>

definition begin_acquire :: "'c ConnectionPool \<Rightarrow> 'c ConnectionPool" where
  "begin_acquire p = p\<lparr>cp_waiting := cp_waiting p + 1\<rparr>"

definition take_connection :: "'c ConnectionPool \<Rightarrow> 'c option result \<times> 'c ConnectionPool" where
  "take_connection p =
     (if cp_connections p = []
      then (throw unavailable ''database pool is busy'', p\<lparr>cp_waiting := cp_waiting p - 1, cp_timeouts := cp_timeouts p + 1\<rparr>)
      else (Inr (last (cp_connections p)),
            p\<lparr>cp_waiting := cp_waiting p - 1, cp_connections := butlast (cp_connections p)\<rparr>))"

text \<open>
  The rest of \<open>acquire\<close>: a connection that is missing or closed is replaced; \<open>fresh\<close> is what opening a
  new one gives.
\<close>

definition checked_connection :: "('c \<Rightarrow> bool) \<Rightarrow> 'c result \<Rightarrow> 'c option \<Rightarrow> 'c ConnectionPool \<Rightarrow> 'c result \<times> 'c ConnectionPool" where
  "checked_connection is_open fresh connection p =
     (case connection of
        Some c \<Rightarrow>
          if is_open c then (Inr c, p)
          else (case fresh of Inl ex \<Rightarrow> (Inl ex, p\<lparr>cp_connections := cp_connections p @ [None]\<rparr>) | Inr c' \<Rightarrow> (Inr c', p))
      | None \<Rightarrow>
          (case fresh of Inl ex \<Rightarrow> (Inl ex, p\<lparr>cp_connections := cp_connections p @ [None]\<rparr>) | Inr c' \<Rightarrow> (Inr c', p)))"

definition release_connection :: "'c \<Rightarrow> 'c ConnectionPool \<Rightarrow> 'c ConnectionPool" where
  "release_connection c p = p\<lparr>cp_connections := cp_connections p @ [Some c]\<rparr>"

definition pool_in_use :: "'c ConnectionPool \<Rightarrow> int" where
  "pool_in_use p = int (cp_capacity p) - int (length (cp_connections p))"

text \<open>
  The pool and its clients: callers that wait, slots taken out and not yet checked, and leases. A
  new connection is none of those in use or in the pool.
\<close>

record 'c pool_system =
  ps_pool :: "'c ConnectionPool"
  ps_checking :: "'c option list"
  ps_leases :: "'c list"

definition known_connections :: "'c pool_system \<Rightarrow> 'c option list" where
  "known_connections s = filter (\<lambda>c. c \<noteq> None) (cp_connections (ps_pool s) @ ps_checking s) @ map Some (ps_leases s)"

inductive pool_step :: "'c pool_system \<Rightarrow> 'c pool_system \<Rightarrow> bool" where
  waits: "pool_step s (s\<lparr>ps_pool := begin_acquire (ps_pool s)\<rparr>)"
| takes: "0 < cp_waiting (ps_pool s) \<Longrightarrow> take_connection (ps_pool s) = (res, p) \<Longrightarrow>
    pool_step s (s\<lparr>ps_pool := p,
      ps_checking := (case res of Inl _ \<Rightarrow> ps_checking s | Inr c \<Rightarrow> c # ps_checking s)\<rparr>)"
| checks: "ps_checking s = before @ slot # after \<Longrightarrow> (\<forall>c. fresh = Inr c \<longrightarrow> Some c \<notin> set (known_connections s)) \<Longrightarrow>
    checked_connection is_open fresh slot (ps_pool s) = (res, p) \<Longrightarrow>
    pool_step s (s\<lparr>ps_pool := p, ps_checking := before @ after,
      ps_leases := (case res of Inl _ \<Rightarrow> ps_leases s | Inr c \<Rightarrow> c # ps_leases s)\<rparr>)"
| released: "ps_leases s = before @ c # after \<Longrightarrow>
    pool_step s (s\<lparr>ps_pool := release_connection c (ps_pool s), ps_leases := before @ after\<rparr>)"

definition pool_inv :: "nat \<Rightarrow> 'c pool_system \<Rightarrow> bool" where
  "pool_inv n s \<longleftrightarrow> cp_capacity (ps_pool s) = n \<and>
     length (cp_connections (ps_pool s)) + length (ps_checking s) + length (ps_leases s) = n \<and>
     distinct (known_connections s)"

lemma pool_step_inv: "pool_step s s' \<Longrightarrow> pool_inv n s \<Longrightarrow> pool_inv n s'"
proof (induction rule: pool_step.induct)
  case (waits s)
  then show ?case by (simp add: pool_inv_def begin_acquire_def known_connections_def)
next
  case (takes s res p)
  show ?case
  proof (cases "cp_connections (ps_pool s) = []")
    case True
    with takes show ?thesis by (auto simp: pool_inv_def take_connection_def known_connections_def)
  next
    case False
    then obtain cs c where cs: "cp_connections (ps_pool s) = cs @ [c]" by (metis rev_exhaust)
    with takes(2) have "res = Inr c"
      "p = (ps_pool s)\<lparr>cp_waiting := cp_waiting (ps_pool s) - 1, cp_connections := cs\<rparr>"
      by (auto simp: take_connection_def)
    with takes(3) cs show ?thesis by (simp add: pool_inv_def known_connections_def)
  qed
next
  case (checks s before slot after fresh is_open res p)
  show ?case
  proof (cases res)
    case (Inl ex)
    with checks(3) have p: "p = (ps_pool s)\<lparr>cp_connections := cp_connections (ps_pool s) @ [None]\<rparr>"
      by (auto simp: checked_connection_def split: option.splits if_splits sum.splits)
    have "distinct (filter (\<lambda>c. c \<noteq> None) (cp_connections (ps_pool s) @ before @ after) @ map Some (ps_leases s))"
      using checks(1,4) by (cases slot) (auto simp: pool_inv_def known_connections_def)
    with checks(1,4) Inl p show ?thesis by (simp add: pool_inv_def known_connections_def)
  next
    case (Inr c)
    with checks(3) have p: "p = ps_pool s" and c: "slot = Some c \<or> fresh = Inr c"
      by (auto simp: checked_connection_def split: option.splits if_splits sum.splits)
    have "distinct (filter (\<lambda>c. c \<noteq> None) (cp_connections (ps_pool s) @ before @ after) @ Some c # map Some (ps_leases s))"
    proof (cases "slot = Some c")
      case True
      with checks(1,4) show ?thesis by (auto simp: pool_inv_def known_connections_def)
    next
      case False
      with c checks(2) have "Some c \<notin> set (known_connections s)" by blast
      with checks(1,4) show ?thesis by (cases slot) (auto simp: pool_inv_def known_connections_def)
    qed
    with checks(1,4) Inr p show ?thesis by (simp add: pool_inv_def known_connections_def)
  qed
next
  case (released s before c after)
  have "mset (known_connections (s\<lparr>ps_pool := release_connection c (ps_pool s), ps_leases := before @ after\<rparr>)) =
      mset (known_connections s)"
    using released(1) by (simp add: release_connection_def known_connections_def)
  then have "distinct (known_connections (s\<lparr>ps_pool := release_connection c (ps_pool s), ps_leases := before @ after\<rparr>))"
    using released(2) mset_eq_imp_distinct_iff by (auto simp: pool_inv_def)
  with released show ?case by (simp add: pool_inv_def release_connection_def)
qed

text \<open>
  The pool never loses or duplicates a connection. However callers wait, give up, take
  connections, fail to reopen them and release them, the slots in the pool, those being checked and
  the leases together are always the capacity, \<open>database_pool_in_use\<close> counts exactly those that are
  out, no connection is leased twice, and a caller can always be served while no other one holds a slot.
\<close>

theorem pool_slots_are_conserved:
  assumes "new_ConnectionPool opened = Inr p" and "distinct opened"
    and "pool_step\<^sup>*\<^sup>* \<lparr>ps_pool = p, ps_checking = [], ps_leases = []\<rparr> s"
  shows "pool_in_use (ps_pool s) = int (length (ps_checking s) + length (ps_leases s)) \<and>
    length (ps_checking s) + length (ps_leases s) \<le> length opened \<and> distinct (ps_leases s) \<and>
    (ps_checking s = [] \<and> ps_leases s = [] \<longrightarrow> (\<exists>c q. take_connection (ps_pool s) = (Inr c, q)))"
proof -
  have "pool_inv (length opened) \<lparr>ps_pool = p, ps_checking = [], ps_leases = []\<rparr>"
    using assms(1,2) by (auto simp: new_ConnectionPool_def pool_inv_def known_connections_def distinct_map split: if_splits)
  with assms(3) have inv: "pool_inv (length opened) s"
    by (induction rule: rtranclp_induct) (auto intro: pool_step_inv)
  have "opened \<noteq> []" using assms(1) by (auto simp: new_ConnectionPool_def)
  with inv show ?thesis
    by (auto simp: pool_inv_def pool_in_use_def known_connections_def take_connection_def distinct_map)
qed

theorem pool_slots_are_conserved_witness:
  "\<exists>s. pool_step\<^sup>*\<^sup>* \<lparr>ps_pool = \<lparr>cp_capacity = 1, cp_waiting = 0, cp_timeouts = 0, cp_connections = [Some (1::nat)]\<rparr>,
       ps_checking = [], ps_leases = []\<rparr> s \<and> ps_leases s = [2] \<and> pool_in_use (ps_pool s) = 1"
proof -
  define p where "p = \<lparr>cp_capacity = 1, cp_waiting = 0, cp_timeouts = 0, cp_connections = [Some (1::nat)]\<rparr>"
  define s0 where "s0 = \<lparr>ps_pool = p, ps_checking = [], ps_leases = []\<rparr>"
  define s1 where "s1 = s0\<lparr>ps_pool := begin_acquire p\<rparr>"
  define s2 where "s2 = s1\<lparr>ps_pool := p\<lparr>cp_connections := []\<rparr>, ps_checking := [Some 1]\<rparr>"
  define s3 where "s3 = s2\<lparr>ps_checking := [], ps_leases := [2]\<rparr>"
  note defs = p_def s0_def s1_def s2_def s3_def begin_acquire_def take_connection_def checked_connection_def known_connections_def
  have "pool_step s0 s1" using waits[of s0] by (simp add: defs)
  moreover have "pool_step s1 s2"
    using takes[of s1 "Inr (Some 1)" "p\<lparr>cp_connections := []\<rparr>"] by (simp add: defs)
  moreover have "pool_step s2 s3"
    using checks[of s2 "[]" "Some 1" "[]" "Inr 2" "\<lambda>_. False" "Inr 2" "p\<lparr>cp_connections := []\<rparr>"] by (simp add: defs)
  ultimately have run: "pool_step\<^sup>*\<^sup>* s0 s3" by (meson converse_rtranclp_into_rtranclp rtranclp.rtrancl_refl)
  have "new_ConnectionPool [1] = Inr p" by (simp add: new_ConnectionPool_def defs)
  from pool_slots_are_conserved[OF this _ run[unfolded s0_def]] have "pool_in_use (ps_pool s3) = 1"
    by (simp add: s3_def s2_def s1_def s0_def)
  with run show ?thesis unfolding s0_def p_def[symmetric] by (force simp: s3_def)
qed

section \<open>Migrations\<close>

text \<open>The tables are of an opaque type; \<open>md_applied\<close> is the table \<open>schema_migrations\<close>.\<close>

record 'd migration_db =
  md_tables :: 'd
  md_applied :: "(string \<times> string) list"

definition sql_file :: "string \<Rightarrow> bool" where
  "sql_file name \<longleftrightarrow> 4 < length name \<and> drop (length name - 4) name = ''.sql''"

fun migrate_files ::
    "(string \<Rightarrow> byte list) \<Rightarrow> (string \<Rightarrow> 'd \<Rightarrow> 'd result) \<Rightarrow> (string \<times> string) list \<Rightarrow> 'd migration_db \<Rightarrow> 'd migration_db result" where
  "migrate_files digest apply_sql [] db = Inr db"
| "migrate_files digest apply_sql ((name, sql) # files) db =
     (case map_of (md_applied db) name of
        Some checksum \<Rightarrow>
          if checksum \<noteq> sha256 digest sql then throw conflict (''applied migration changed: '' @ name)
          else migrate_files digest apply_sql files db
      | None \<Rightarrow>
          andthen (apply_sql sql (md_tables db)) (\<lambda>tables.
            migrate_files digest apply_sql files
              (db\<lparr>md_tables := tables, md_applied := (name, sha256 digest sql) # md_applied db\<rparr>)))"

text \<open>The listing of the directory comes in any order.\<close>

definition migrate ::
    "(string \<Rightarrow> byte list) \<Rightarrow> (string \<Rightarrow> 'd \<Rightarrow> 'd result) \<Rightarrow> (string \<times> string) list \<Rightarrow> 'd migration_db \<Rightarrow> 'd migration_db result" where
  "migrate digest apply_sql listing db =
     migrate_files digest apply_sql (sort_key fst (filter (\<lambda>(name, sql). sql_file name) listing)) db"

lemma migrate_files_applied:
  "migrate_files digest apply_sql files db = Inr db' \<Longrightarrow>
     (\<forall>(name, sql)\<in>set files. map_of (md_applied db') name = Some (sha256 digest sql)) \<and>
     map_of (md_applied db) \<subseteq>\<^sub>m map_of (md_applied db')"
proof (induction files arbitrary: db)
  case (Cons f files)
  obtain name sql where f: "f = (name, sql)" by (cases f)
  show ?case
  proof (cases "map_of (md_applied db) name")
    case None
    with Cons.prems f obtain tables where rest: "migrate_files digest apply_sql files
        (db\<lparr>md_tables := tables, md_applied := (name, sha256 digest sql) # md_applied db\<rparr>) = Inr db'"
      by (auto simp: ok_simps)
    from Cons.IH[OF this] None f show ?thesis by (auto simp: map_le_def dom_def)
  next
    case (Some checksum)
    with Cons.prems f Cons.IH[of db] show ?thesis by (auto simp: map_le_def dom_def split: if_splits)
  qed
qed simp

lemma migrate_files_again:
  "\<forall>(name, sql)\<in>set files. map_of (md_applied db) name = Some (sha256 digest sql) \<Longrightarrow>
     migrate_files digest apply_sql files db = Inr db"
  by (induction files) auto

lemma migrate_files_changed:
  "\<forall>(n, sql)\<in>set files. n = name \<or> map_of (md_applied db) n = Some (sha256 digest sql) \<Longrightarrow>
   (name, sql') \<in> set files \<Longrightarrow> map_of (md_applied db) name = Some checksum \<Longrightarrow> \<forall>sql. (name, sql) \<in> set files \<longrightarrow> checksum \<noteq> sha256 digest sql \<Longrightarrow>
     migrate_files digest apply_sql files db = throw conflict (''applied migration changed: '' @ name)"
  by (induction files) auto

text \<open>
  Migrations are applied once and never rewritten. After a migration that committed, running it
  again with the same directory, listed in any order, changes nothing; and when one of the
  applied files has another content, it is refused with a conflict that names the file.
\<close>

theorem migrations_apply_once:
  assumes "migrate digest apply_sql listing db = Inr db'"
    and "(name, sql) \<in> set listing" and "sql_file name" and "sha256 digest sql' \<noteq> sha256 digest sql"
    and "mset other = mset listing"
  shows "migrate digest apply_sql other db' = Inr db' \<and>
    migrate digest apply_sql (map (\<lambda>(n, c). (n, if n = name then sql' else c)) listing) db' =
      throw conflict (''applied migration changed: '' @ name)"
proof (rule conjI)
  let ?files = "sort_key fst (filter (\<lambda>(name, sql). sql_file name) listing)"
  from assms(1) have all: "\<forall>(n, c)\<in>set ?files. map_of (md_applied db') n = Some (sha256 digest c)"
    using migrate_files_applied unfolding migrate_def by blast
  have "set other = set listing" using assms(5) by (metis set_mset_mset)
  with all show "migrate digest apply_sql other db' = Inr db'"
    unfolding migrate_def by (intro migrate_files_again) auto
  let ?changed = "sort_key fst (filter (\<lambda>(name, sql). sql_file name) (map (\<lambda>(n, c). (n, if n = name then sql' else c)) listing))"
  have "(name, sql') \<in> set ?changed" using assms(2,3) by force
  moreover have "map_of (md_applied db') name = Some (sha256 digest sql)" using all assms(2,3) by auto
  moreover have "\<forall>(n, c)\<in>set ?changed. n = name \<or> map_of (md_applied db') n = Some (sha256 digest c)"
    using all by (auto split: if_splits)
  moreover have "\<forall>c. (name, c) \<in> set ?changed \<longrightarrow> sha256 digest sql \<noteq> sha256 digest c"
    using assms(4) by (auto split: if_splits)
  ultimately show "migrate digest apply_sql (map (\<lambda>(n, c). (n, if n = name then sql' else c)) listing) db' =
      throw conflict (''applied migration changed: '' @ name)"
    unfolding migrate_def by - (rule migrate_files_changed; assumption)
qed

definition demo_sha :: "string \<Rightarrow> byte list" where
  "demo_sha c = [of_nat (length c)]"

theorem migrations_apply_once_witness:
  "\<exists>db'. migrate demo_sha (\<lambda>sql tables. Inr (tables @ [sql])) [(''2.sql'', ''b''), (''README'', ''x''), (''1.sql'', ''aa'')]
       \<lparr>md_tables = [], md_applied = []\<rparr> = Inr db' \<and> md_tables db' = [''aa'', ''b''] \<and>
     migrate demo_sha (\<lambda>sql tables. Inr (tables @ [sql])) [(''2.sql'', ''changed''), (''README'', ''x''), (''1.sql'', ''aa'')] db' =
       throw conflict ''applied migration changed: 2.sql''"
proof -
  let ?apply = "\<lambda>sql tables. Inr (tables @ [sql])"
  define files where "files = [(''2.sql'', ''b''), (''README'', ''x''), (''1.sql'', ''aa'')]"
  have order: "sort_key fst (filter (\<lambda>(name, sql). sql_file name) files) = [(''1.sql'', ''aa''), (''2.sql'', ''b'')]"
    by (simp add: files_def sql_file_def insort_key_def less_eq_char_def)
  then obtain db' where run: "migrate demo_sha ?apply files \<lparr>md_tables = [], md_applied = []\<rparr> = Inr db'"
    and tables: "md_tables db' = [''aa'', ''b'']"
    by (simp add: migrate_def)
  have "sha256 demo_sha ''changed'' \<noteq> sha256 demo_sha ''b''"
    by (simp add: sha256_def demo_sha_def hex_def hex_pair_def hex_digits_def)
  from migrations_apply_once[OF run _ _ this, of "''2.sql''" files] run tables show ?thesis
    by (simp add: files_def sql_file_def)
qed

section \<open>Leadership\<close>

text \<open>One coordinator's \<open>Leadership\<close>; \<open>'c\<close> is a session of the database.\<close>

record 'c Leadership =
  ld_connection :: "'c option"
  ld_ready :: bool

text \<open>
  \<open>is_open\<close>, \<open>fresh\<close> and \<open>answer\<close> are what the connection's state, opening a connection and the query
  give; the answer to \<open>pg_try_advisory_lock\<close> is a boolean, that to \<open>SELECT 1\<close> is not used.
\<close>

definition refresh :: "('c \<Rightarrow> bool) \<Rightarrow> 'c result \<Rightarrow> bool result \<Rightarrow> 'c Leadership \<Rightarrow> bool \<times> 'c Leadership" where
  "refresh is_open fresh answer l =
     (let failed = (False, \<lparr>ld_connection = None, ld_ready = False\<rparr>);
          opened = (case ld_connection l of
                      Some c \<Rightarrow> if is_open c then Inr l else map_sum (\<lambda>x. x) (\<lambda>c'. \<lparr>ld_connection = Some c', ld_ready = False\<rparr>) fresh
                    | None \<Rightarrow> map_sum (\<lambda>x. x) (\<lambda>c'. \<lparr>ld_connection = Some c', ld_ready = False\<rparr>) fresh)
      in case opened of
           Inl ex \<Rightarrow> failed
         | Inr l' \<Rightarrow>
           (case answer of
              Inl ex \<Rightarrow> failed
            | Inr granted \<Rightarrow> if ld_ready l' then (True, l') else (granted, l'\<lparr>ld_ready := granted\<rparr>)))"

text \<open>
  Coordinators and the database: an advisory lock belongs to one session at a time, is granted when
  it is free or already the session's, and is freed when its session ends. A query is answered only
  in a session that is alive.
\<close>

record 'c cluster =
  cl_leaders :: "nat \<Rightarrow> 'c Leadership"
  cl_alive :: "'c set"
  cl_holder :: "'c option"

definition session_of :: "('c \<Rightarrow> bool) \<Rightarrow> 'c result \<Rightarrow> 'c Leadership \<Rightarrow> 'c result" where
  "session_of is_open fresh l =
     (case ld_connection l of Some c \<Rightarrow> if is_open c then Inr c else fresh | None \<Rightarrow> fresh)"

inductive cluster_step :: "'c cluster \<Rightarrow> 'c cluster \<Rightarrow> bool" where
  reopened: "c \<notin> cl_alive s \<Longrightarrow> (\<forall>j. ld_connection (cl_leaders s j) \<noteq> Some c) \<Longrightarrow> cl_holder s \<noteq> Some c \<Longrightarrow>
    cluster_step s (s\<lparr>cl_alive := insert c (cl_alive s)\<rparr>)"
| refreshed: "(\<forall>c. fresh = Inr c \<longrightarrow> c \<in> cl_alive s \<and> cl_holder s \<noteq> Some c \<and> (\<forall>j. ld_connection (cl_leaders s j) \<noteq> Some c)) \<Longrightarrow>
    (\<forall>g. answer = Inr g \<longrightarrow> (\<exists>c \<in> cl_alive s. session_of is_open fresh (cl_leaders s i) = Inr c \<and>
       g = (cl_holder s = None \<or> cl_holder s = Some c))) \<Longrightarrow>
    refresh is_open fresh answer (cl_leaders s i) = (ready, l) \<Longrightarrow>
    cluster_step s (s\<lparr>cl_leaders := (cl_leaders s)(i := l),
      cl_holder := (if ready then ld_connection l else cl_holder s)\<rparr>)"
| ended: "cluster_step s (s\<lparr>cl_alive := cl_alive s - {c}, cl_holder := (if cl_holder s = Some c then None else cl_holder s)\<rparr>)"

definition cluster_init :: "'c cluster" where
  "cluster_init = \<lparr>cl_leaders = (\<lambda>_. \<lparr>ld_connection = None, ld_ready = False\<rparr>), cl_alive = {}, cl_holder = None\<rparr>"

definition cluster_inv :: "'c cluster \<Rightarrow> bool" where
  "cluster_inv s \<longleftrightarrow>
     (\<forall>i. ld_ready (cl_leaders s i) \<longrightarrow> (\<exists>c. ld_connection (cl_leaders s i) = Some c \<and> (c \<in> cl_alive s \<longrightarrow> cl_holder s = Some c))) \<and>
     (\<forall>i j c. ld_connection (cl_leaders s i) = Some c \<longrightarrow> ld_connection (cl_leaders s j) = Some c \<longrightarrow> i = j)"

text \<open>A refresh that reports ready did so in the session it then has, which was asked and answered.\<close>

lemma refresh_cases:
  assumes "refresh is_open fresh answer l = (ready, l')"
  obtains (failed) "\<not> ready" "l' = \<lparr>ld_connection = None, ld_ready = False\<rparr>"
  | (kept) c g where "ld_connection l = Some c" "session_of is_open fresh l = Inr c" "answer = Inr g"
      "l' = l\<lparr>ld_ready := ready\<rparr>" "ready = (ld_ready l \<or> g)"
  | (fresh) c where "fresh = Inr c" "session_of is_open fresh l = Inr c" "answer = Inr ready"
      "l' = \<lparr>ld_connection = Some c, ld_ready = ready\<rparr>"
  using assms by (cases fresh) (auto simp: refresh_def session_of_def Let_def split: option.splits if_splits sum.splits)

lemma cluster_step_inv: "cluster_step s s' \<Longrightarrow> cluster_inv s \<Longrightarrow> cluster_inv s'"
proof (induction rule: cluster_step.induct)
  case (refreshed new s answer is_open i ready l)
  from refreshed(3) show ?case
  proof (cases rule: refresh_cases)
    case failed
    with refreshed(4) show ?thesis by (auto simp: cluster_inv_def)
  next
    case (kept c g)
    with refreshed(2) have "c \<in> cl_alive s" and g: "g = (cl_holder s = None \<or> cl_holder s = Some c)" by auto
    have "cl_holder s = None \<or> cl_holder s = Some c" if ready
      using that kept(1,5) g refreshed(4) \<open>c \<in> cl_alive s\<close> unfolding cluster_inv_def by (metis option.inject)
    with kept refreshed(4) show ?thesis unfolding cluster_inv_def by simp (metis option.distinct(1) option.inject)
  next
    case (fresh c)
    with refreshed(1,2) have "cl_holder s = None" if ready using that by auto
    with fresh refreshed(1,4) show ?thesis unfolding cluster_inv_def by simp (metis option.distinct(1) option.inject)
  qed
next
  case (reopened c s)
  then show ?case unfolding cluster_inv_def by simp (metis option.inject)
next
  case (ended s c)
  then show ?case unfolding cluster_inv_def by simp (metis option.inject)
qed

lemma cluster_init_inv: "cluster_inv cluster_init"
  by (simp add: cluster_inv_def cluster_init_def)

text \<open>
  C38: there is one leader. In every state that any number of coordinators reach, with sessions that
  begin and end at any time, a coordinator that is ready and whose session still lives holds the
  advisory lock, and no two such coordinators exist.
\<close>

theorem at_most_one_leader:
  assumes "cluster_step\<^sup>*\<^sup>* cluster_init s"
    and "ld_ready (cl_leaders s i)" "ld_connection (cl_leaders s i) = Some c" "c \<in> cl_alive s"
    and "ld_ready (cl_leaders s j)" "ld_connection (cl_leaders s j) = Some d" "d \<in> cl_alive s"
  shows "i = j \<and> cl_holder s = Some c"
proof -
  from assms(1) have "cluster_inv s"
    by (induction rule: rtranclp_induct) (auto intro: cluster_step_inv cluster_init_inv)
  with assms(2-) show ?thesis unfolding cluster_inv_def by (metis option.inject)
qed

text \<open>Coordinator 0 becomes the leader in session 5, coordinator 1 tries in session 6.\<close>

theorem at_most_one_leader_witness:
  "\<exists>s. cluster_step\<^sup>*\<^sup>* cluster_init s \<and> ld_ready (cl_leaders s 0) \<and> \<not> ld_ready (cl_leaders s 1) \<and>
     ld_connection (cl_leaders s 1) = Some (6::nat) \<and> cl_holder s = Some 5"
proof -
  define s1 where "s1 = cluster_init\<lparr>cl_alive := {5::nat}\<rparr>"
  define s2 where "s2 = s1\<lparr>cl_leaders := (cl_leaders s1)(0 := \<lparr>ld_connection = Some 5, ld_ready = True\<rparr>), cl_holder := Some 5\<rparr>"
  define s3 where "s3 = s2\<lparr>cl_alive := {5, 6}\<rparr>"
  define s4 where "s4 = s3\<lparr>cl_leaders := (cl_leaders s3)(1 := \<lparr>ld_connection = Some 6, ld_ready = False\<rparr>)\<rparr>"
  note defs = s1_def s2_def s3_def s4_def cluster_init_def refresh_def session_of_def
  have "cluster_step cluster_init s1" using reopened[of 5 cluster_init] by (simp add: defs)
  moreover have "cluster_step s1 s2"
    using refreshed[of "Inr 5" s1 "Inr True" "\<lambda>_. True" 0 True "\<lparr>ld_connection = Some 5, ld_ready = True\<rparr>"] by (simp add: defs)
  moreover have "cluster_step s2 s3" using reopened[of 6 s2] by (simp add: defs insert_commute)
  moreover have "cluster_step s3 s4"
    using refreshed[of "Inr 6" s3 "Inr False" "\<lambda>_. True" 1 False "\<lparr>ld_connection = Some 6, ld_ready = False\<rparr>"] by (simp add: defs)
  ultimately have run: "cluster_step\<^sup>*\<^sup>* cluster_init s4"
    by (meson converse_rtranclp_into_rtranclp rtranclp.rtrancl_refl)
  from at_most_one_leader[OF run, of 0 5 0 5] have "cl_holder s4 = Some 5" by (simp add: defs)
  with run show ?thesis by (intro exI[of _ s4]) (simp add: defs)
qed

end
