(* ===== verification/Http_Client.thy ===== *)
theory Http_Client
  imports Json
begin

text \<open>
  What the backends do with HTTP: \<^verbatim>\<open>src/support/http_client.cpp\<close>. libcurl is a parameter: a transfer
  is the list of the pieces that it hands to the write function, and its result; \<open>escape\<close> stays
  abstract. Calls change the state \<open>'s\<close> of the outside world and may throw; a sequence of calls is
  written with \<open>then_io\<close>.
\<close>

section \<open>Sequences of calls\<close>

type_synonym ('a, 's) io = "'s \<Rightarrow> 'a result \<times> 's"

definition pure :: "'a result \<Rightarrow> ('a, 's) io" where
  "pure r s = (r, s)"

definition then_io :: "('a, 's) io \<Rightarrow> ('a \<Rightarrow> ('b, 's) io) \<Rightarrow> ('b, 's) io" where
  "then_io m f s = (case m s of (Inl ex, s') \<Rightarrow> (Inl ex, s') | (Inr v, s') \<Rightarrow> f v s')"

lemma pure_eq [simp]: "pure r s = (res, s') \<longleftrightarrow> r = res \<and> s' = s"
  by (auto simp: pure_def)

lemma then_io_ok:
  "then_io m f s = (Inr y, s'') \<longleftrightarrow> (\<exists>v s'. m s = (Inr v, s') \<and> f v s' = (Inr y, s''))"
  by (auto simp: then_io_def split: prod.splits sum.splits)

lemma then_io_result:
  assumes "then_io m f s = (res, s'')"
  obtains (failed) ex where "m s = (Inl ex, s'')" "res = Inl ex"
  | (ok) v s' where "m s = (Inr v, s')" "f v s' = (res, s'')"
  using assms by (auto simp: then_io_def split: prod.splits sum.splits)

section \<open>Responses\<close>

record HttpResult =
  ht_status :: int
  ht_body :: string

text \<open>
  \<open>append\<close>: a piece is taken as long as the response stays within the limit; a piece that is not
  taken whole makes libcurl fail the transfer.
\<close>

record Buffer =
  bf_data :: string
  bf_limit :: nat

definition append_piece :: "string \<Rightarrow> Buffer \<Rightarrow> nat \<times> Buffer" where
  "append_piece bytes b =
     (if length bytes > bf_limit b - length (bf_data b) then (0, b)
      else (length bytes, b\<lparr>bf_data := bf_data b @ bytes\<rparr>))"

text \<open>\<open>write_file\<close>; \<open>written\<close> is what \<open>fwrite\<close> could write of the piece.\<close>

record Download =
  dl_file :: string
  dl_remaining :: nat

definition write_piece :: "string \<Rightarrow> nat \<Rightarrow> Download \<Rightarrow> nat \<times> Download" where
  "write_piece bytes written d =
     (if length bytes > dl_remaining d then (0, d)
      else let n = min written (length bytes)
           in (n, d\<lparr>dl_file := dl_file d @ take n bytes, dl_remaining := dl_remaining d - n\<rparr>))"

text \<open>A transfer: libcurl stops at the first piece that is not taken whole.\<close>

fun transfer :: "('p \<Rightarrow> 'b \<Rightarrow> nat \<times> 'b) \<Rightarrow> ('p \<Rightarrow> nat) \<Rightarrow> 'p list \<Rightarrow> 'b \<Rightarrow> bool \<times> 'b" where
  "transfer write len [] b = (True, b)"
| "transfer write len (p # ps) b =
     (case write p b of (n, b') \<Rightarrow> if n \<noteq> len p then (False, b') else transfer write len ps b')"

definition request_result :: "nat \<Rightarrow> string list \<Rightarrow> bool \<Rightarrow> string \<Rightarrow> int \<Rightarrow> HttpResult result" where
  "request_result limit pieces performed curl_message status =
     (case transfer append_piece length pieces \<lparr>bf_data = [], bf_limit = limit\<rparr> of
        (taken, b) \<Rightarrow>
          if \<not> (taken \<and> performed) then throw unavailable (''HTTP request failed: '' @ curl_message)
          else Inr \<lparr>ht_status = status, ht_body = bf_data b\<rparr>)"

text \<open>\<open>download\<close> after the file was created: the content of the file, and whether it throws.\<close>

definition download_result :: "nat \<Rightarrow> (string \<times> nat) list \<Rightarrow> bool \<Rightarrow> bool \<Rightarrow> unit result \<times> string" where
  "download_result expected_size pieces performed flushed =
     (case transfer (\<lambda>(bytes, written). write_piece bytes written) (\<lambda>(bytes, written). length bytes) pieces
            \<lparr>dl_file = [], dl_remaining = expected_size\<rparr> of
        (taken, d) \<Rightarrow>
          (if \<not> (taken \<and> performed) \<or> dl_remaining d \<noteq> 0 \<or> \<not> flushed
           then throw unavailable ''artifact download incomplete'' else Inr (), dl_file d))"

lemma request_transfer_bounds:
  "transfer append_piece length pieces b = (taken, b') \<Longrightarrow> length (bf_data b) \<le> bf_limit b \<Longrightarrow>
     length (bf_data b') \<le> bf_limit b \<and> bf_limit b' = bf_limit b \<and> (taken \<longrightarrow> bf_data b' = bf_data b @ concat pieces)"
  by (induction append_piece "length :: string \<Rightarrow> nat" pieces b rule: transfer.induct)
    (auto simp: append_piece_def split: if_splits)

lemma download_transfer:
  "transfer (\<lambda>(bytes, written). write_piece bytes written) (\<lambda>(bytes, written). length bytes) pieces d = (taken, d') \<Longrightarrow>
     length (dl_file d') + dl_remaining d' = length (dl_file d) + dl_remaining d \<and>
     (taken \<longrightarrow> dl_file d' = dl_file d @ concat (map fst pieces))"
proof (induction pieces arbitrary: d)
  case (Cons p pieces)
  obtain bytes written where p: "p = (bytes, written)" by (cases p)
  show ?case
  proof (cases "length bytes \<le> dl_remaining d \<and> length bytes \<le> written")
    case True
    define d1 where "d1 = d\<lparr>dl_file := dl_file d @ bytes, dl_remaining := dl_remaining d - length bytes\<rparr>"
    from True have "write_piece bytes written d = (length bytes, d1)" by (simp add: write_piece_def d1_def Let_def)
    with Cons.prems p have "transfer (\<lambda>(bytes, written). write_piece bytes written) (\<lambda>(bytes, written). length bytes) pieces d1 = (taken, d')"
      by simp
    from Cons.IH[OF this] True p show ?thesis by (simp add: d1_def)
  next
    case False
    with Cons.prems p show ?thesis by (auto simp: write_piece_def Let_def min_def split: if_splits)
  qed
qed simp

text \<open>
  A client keeps to the announced sizes. Whatever pieces the server sends, a response is at most
  the limit long and whole when the request succeeds; a downloaded file never exceeds the size that
  the metadata announced, and when the download succeeds it is exactly as long and holds what was sent.
\<close>

theorem transfers_keep_to_size:
  "(\<forall>r. request_result limit pieces performed m status = Inr r \<longrightarrow>
      ht_body r = concat pieces \<and> length (ht_body r) \<le> limit) \<and>
   length (snd (download_result expected parts performed flushed)) \<le> expected \<and>
   (fst (download_result expected parts performed flushed) = Inr () \<longrightarrow>
      snd (download_result expected parts performed flushed) = concat (map fst parts) \<and>
      length (concat (map fst parts)) = expected)"
proof -
  have "ht_body r = concat pieces \<and> length (ht_body r) \<le> limit"
    if "request_result limit pieces performed m status = Inr r" for r
  proof -
    from that obtain b where "transfer append_piece length pieces \<lparr>bf_data = [], bf_limit = limit\<rparr> = (True, b)"
      and "ht_body r = bf_data b" by (auto simp: request_result_def split: prod.splits if_splits)
    with request_transfer_bounds[OF this(1)] show ?thesis by (simp del: length_concat) metis
  qed
  moreover obtain taken d where d: "transfer (\<lambda>(bytes, written). write_piece bytes written)
      (\<lambda>(bytes, written). length bytes) parts \<lparr>dl_file = [], dl_remaining = expected\<rparr> = (taken, d)" by (rule prod.exhaust)
  from download_transfer[OF d] have "length (dl_file d) + dl_remaining d = expected"
    "taken \<longrightarrow> dl_file d = concat (map fst parts)" by simp_all
  ultimately show ?thesis by (auto simp: download_result_def d)
qed

theorem transfers_keep_to_size_witness:
  "fst (download_result 3 [(''ab'', 2), (''c'', 1)] True True) = Inr () \<and>
   snd (download_result 3 [(''ab'', 2), (''c'', 1)] True True) = ''abc''"
  using transfers_keep_to_size[where expected = 3 and parts = "[(''ab'', 2), (''c'', 1)]" and performed = True and flushed = True]
  by (simp add: download_result_def write_piece_def)

section \<open>Lines\<close>

text \<open>\<open>std::getline\<close> until the stream fails: what a delimiter ends, and a rest that is not empty.\<close>

fun getlines_from :: "char \<Rightarrow> string \<Rightarrow> string \<Rightarrow> string list" where
  "getlines_from delimiter line [] = (if line = [] then [] else [line])"
| "getlines_from delimiter line (c # cs) =
     (if c = delimiter then line # getlines_from delimiter [] cs else getlines_from delimiter (line @ [c]) cs)"

definition getlines :: "char \<Rightarrow> string \<Rightarrow> string list" where
  "getlines delimiter stream = getlines_from delimiter [] stream"

end
