(* ===== verification/Execution_Backend.thy ===== *)
theory Execution_Backend
  imports Http_Client Scenario
begin

text \<open>
  \<^verbatim>\<open>include/runyard/execution/backend.hpp\<close>: what the agent and the Kubernetes controller ask of the system
  that runs containers, and the services with which the two backends of the program are built.
\<close>

record Launch =
  ln_assignment :: Assignment
  ln_capability :: string

text \<open>\<open>ExecutionBackend\<close>: its methods act on the outside world \<open>'s\<close> and may throw.\<close>

record 's ExecutionBackend =
  be_inventory :: "(string list, 's) io"
  be_ensure :: "Launch \<Rightarrow> (string, 's) io"
  be_has_stopped :: "string \<Rightarrow> (bool, 's) io"
  be_remove :: "string \<Rightarrow> (unit, 's) io"

text \<open>The HTTP client, URL escaping, and the parser and printer of the JSON library.\<close>

record 's Services =
  sv_http :: "string \<Rightarrow> string \<Rightarrow> string \<Rightarrow> (HttpResult, 's) io"
  sv_escape :: "string \<Rightarrow> string"
  sv_parse :: "string \<Rightarrow> Json result"
  sv_dump :: "Json \<Rightarrow> string result"

text \<open>A log of the calls beside the state of the world.\<close>

type_synonym call = "(string \<times> string \<times> string) \<times> HttpResult result"

definition logged :: "'s Services \<Rightarrow> (call list \<times> 's) Services" where
  "logged sv = \<lparr>sv_http = (\<lambda>m p b (log, s). case sv_http sv m p b s of (r, s') \<Rightarrow> (r, log @ [((m, p, b), r)], s')),
     sv_escape = sv_escape sv, sv_parse = sv_parse sv, sv_dump = sv_dump sv\<rparr>"

lemma logged_http: "sv_http (logged sv) m p b w = (r, w') \<Longrightarrow> fst w' = fst w @ [((m, p, b), r)]"
  by (auto simp: logged_def split: prod.splits)

lemma logged_fields [simp]:
  "sv_parse (logged sv) = sv_parse sv" "sv_escape (logged sv) = sv_escape sv" "sv_dump (logged sv) = sv_dump sv"
  by (simp_all add: logged_def)

end
