(* ===== verification/Docker_Backend.thy ===== *)
theory Docker_Backend
  imports Execution_Backend "HOL-Library.Multiset"
begin

text \<open>
  \<^verbatim>\<open>src/execution/docker.cpp\<close>: the container that is asked for, the test that an existing container is
  the assigned one, and the operations of the backend over Docker's HTTP interface. The engine is the
  parameter \<open>http\<close>; \<open>escape\<close>, \<open>parse\<close> and \<open>dump\<close> are those of the libraries.
\<close>

record DockerConfig =
  dc_socket :: string
  dc_network :: string
  dc_worker :: string
  dc_coordinator :: string
  dc_ca_host_path :: string
  dc_development :: bool

definition endpoint :: "string \<Rightarrow> string" where
  "endpoint path = ''http://localhost/v1.44'' @ path"

definition expect :: "HttpResult \<Rightarrow> int list \<Rightarrow> unit result" where
  "expect response allowed =
     (if ht_status response \<in> set allowed then Inr ()
      else throw unavailable (''Docker operation returned HTTP '' @ show_int (ht_status response)))"

section \<open>The container\<close>

text \<open>The loop that builds the list of visible devices.\<close>

fun visible_devices :: "string \<Rightarrow> string list \<Rightarrow> string result" where
  "visible_devices visible [] = Inr visible"
| "visible_devices visible (gpu # ids) =
     (if \<not> starts_with gpu ''GPU-'' then throw invalid ''invalid assigned GPU UUID''
      else visible_devices ((if visible \<noteq> [] then visible @ '','' else visible) @ gpu) ids)"

definition assigned_uuids :: "Launch \<Rightarrow> string list" where
  "assigned_uuids launch = map (\<lambda>a. gd_uuid (al_device a)) (att_gpu_allocations (asg_attempt (ln_assignment launch)))"

definition device_requests :: "string list \<Rightarrow> Json" where
  "device_requests ids = JArray [json_object [
     (''Driver'', JString ''nvidia''), (''Count'', JInteger 0), (''DeviceIDs'', JArray (map JString ids)),
     (''Capabilities'', JArray [JArray [JString ''gpu'']])]]"

text \<open>What the GPUs add: to the host configuration and to the environment.\<close>

definition gpu_settings :: "Launch \<Rightarrow> ((string \<times> Json) list \<times> string list) result" where
  "gpu_settings launch =
     (let a = asg_attempt (ln_assignment launch); s = asg_spec (ln_assignment launch); ids = assigned_uuids launch in
      if 0 < gpu_count (spec_resources s)
      then if int (length ids) \<noteq> gpu_count (spec_resources s) \<or> length (remdups ids) \<noteq> length ids
           then throw invalid ''assignment requires exact, distinct GPU UUIDs''
           else andthen (visible_devices [] ids) (\<lambda>visible.
             Inr ([(''DeviceRequests'', device_requests ids)],
               [''NVIDIA_VISIBLE_DEVICES='' @ visible, ''NVIDIA_DRIVER_CAPABILITIES=compute,utility'']))
      else if att_gpu_allocations a \<noteq> [] then throw invalid ''CPU assignment contains GPU allocations''
      else Inr ([], [''NVIDIA_VISIBLE_DEVICES=void'']))"

definition docker_container_spec :: "DockerConfig \<Rightarrow> Launch \<Rightarrow> Json result" where
  "docker_container_spec config launch =
     (let a = asg_attempt (ln_assignment launch);
          s = asg_spec (ln_assignment launch);
          environment = [
            ''RUNYARD_ATTEMPT_ID='' @ att_id a,
            ''RUNYARD_RUN_ID='' @ att_run_id a,
            ''RUNYARD_GENERATION='' @ show_int (att_generation a),
            ''RUNYARD_CAPABILITY='' @ ln_capability launch,
            ''RUNYARD_COORDINATOR='' @ dc_coordinator config,
            ''RUNYARD_PROFILE='' @ (if dc_development config then ''development'' else ''production'')];
          host = [
            (''NetworkMode'', JString (dc_network config)),
            (''NanoCpus'', JInteger (cpu_millis (spec_resources s) * 1000000)),
            (''Memory'', JInteger (memory_mib (spec_resources s) * 1024 * 1024)),
            (''MemorySwap'', JInteger (memory_mib (spec_resources s) * 1024 * 1024)),
            (''PidsLimit'', JInteger 256),
            (''Init'', JBool True),
            (''CapDrop'', JArray [JString ''ALL'']),
            (''SecurityOpt'', JArray [JString ''no-new-privileges''])]
      in andthen (gpu_settings launch) (\<lambda>(gpu_host, gpu_environment).
        let certificate = dc_ca_host_path config \<noteq> [];
            binds = (if certificate then [(''Binds'', JArray [JString (dc_ca_host_path config @ '':/runyard-ca.pem:ro'')])] else []);
            tls = (if certificate then [''RUNYARD_TLS_CA=/runyard-ca.pem''] else [])
        in Inr (json_object [
          (''Image'', JString (spec_image s)),
          (''Entrypoint'', JArray [JString ''/usr/local/bin/runyard-runner'']),
          (''Cmd'', JArray []),
          (''Env'', JArray (map JString (environment @ gpu_environment @ tls))),
          (''User'', JString ''10001:10001''),
          (''Labels'', json_object [
             (''runyard.attempt'', JString (att_id a)), (''runyard.worker'', JString (dc_worker config))]),
          (''HostConfig'', json_object (host @ gpu_host @ binds))])))"

text \<open>
  The comparison with an existing container. The parts of the wanted container are written out where
  the code reads them back from \<open>expected\<close>.
\<close>

definition label_of :: "Json \<Rightarrow> string \<Rightarrow> string result" where
  "label_of actual key =
     andthen (json_value get_json actual ''Labels'' (JObject [])) (\<lambda>labels. json_value get_string labels key [])"

definition device_request_matches :: "Json \<Rightarrow> Launch \<Rightarrow> bool result" where
  "device_request_matches found launch =
     andthen (json_value get_string found ''Driver'' []) (\<lambda>driver. if driver \<noteq> ''nvidia'' then Inr False else
     andthen (json_value get_int found ''Count'' (- 1)) (\<lambda>count. if count \<noteq> 0 then Inr False else
     andthen (json_value get_json found ''Capabilities'' JNull) (\<lambda>capabilities.
       if capabilities \<noteq> JArray [JArray [JString ''gpu'']] then Inr False else
     andthen (json_value get_strings found ''DeviceIDs'' []) (\<lambda>ids.
       Inr (sort ids = sort (assigned_uuids launch))))))"

definition docker_container_matches :: "Json \<Rightarrow> DockerConfig \<Rightarrow> Launch \<Rightarrow> bool result" where
  "docker_container_matches container config launch =
     (let a = asg_attempt (ln_assignment launch); s = asg_spec (ln_assignment launch) in
      andthen (docker_container_spec config launch) (\<lambda>expected.
      andthen (json_at container ''Config'') (\<lambda>actual.
      andthen (json_value get_string actual ''Image'' []) (\<lambda>image. if image \<noteq> spec_image s then Inr False else
      andthen (label_of actual ''runyard.attempt'') (\<lambda>attempt. if attempt \<noteq> att_id a then Inr False else
      andthen (label_of actual ''runyard.worker'') (\<lambda>worker. if worker \<noteq> dc_worker config then Inr False else
      andthen (json_value get_json container ''HostConfig'' (JObject [])) (\<lambda>host.
      andthen (json_value get_json host ''DeviceRequests'' JNull) (\<lambda>requests.
        if gpu_count (spec_resources s) = 0 then Inr (requests = JNull \<or> requests = JArray [])
        else case requests of
          JArray [found] \<Rightarrow> device_request_matches found launch
        | _ \<Rightarrow> Inr False))))))))"

section \<open>Operations\<close>

definition no_errors :: "'s Services \<Rightarrow> string \<Rightarrow> unit result" where
  "no_errors sv body =
     for_each (\<lambda>line. if line = [] then Inr () else andthen (sv_parse sv line) (\<lambda>j.
       if json_contains j ''error'' then throw unavailable ''Docker image pull failed'' else Inr ()))
       (getlines (CHR 0x0A) body)"

definition container_path :: "string \<Rightarrow> string" where
  "container_path attempt = ''/containers/runyard-'' @ attempt"

text \<open>\<open>container["State"]\<close>: a member that is missing is inserted as null.\<close>

definition container_status :: "Json \<Rightarrow> string result" where
  "container_status container =
     json_value get_string (case map_of (members container) ''State'' of None \<Rightarrow> JNull | Some v \<Rightarrow> v) ''Status'' []"

text \<open>The branch in which the container does not exist: pull the image if need be, create, look again.\<close>

definition docker_create :: "'s Services \<Rightarrow> DockerConfig \<Rightarrow> Launch \<Rightarrow> (HttpResult, 's) io" where
  "docker_create sv config launch =
     (let attempt = att_id (asg_attempt (ln_assignment launch));
          image = sv_escape sv (spec_image (asg_spec (ln_assignment launch)))
      in
      then_io (sv_http sv ''GET'' (endpoint (''/images/'' @ image @ ''/json'')) []) (\<lambda>local.
      then_io (if ht_status local = 404
               then then_io (sv_http sv ''POST'' (endpoint (''/images/create?fromImage='' @ image)) []) (\<lambda>pull.
                      pure (andthen (expect pull [200]) (\<lambda>_. no_errors sv (ht_body pull))))
               else pure (expect local [200])) (\<lambda>_.
      then_io (pure (andthen (docker_container_spec config launch) (sv_dump sv))) (\<lambda>body.
      then_io (sv_http sv ''POST'' (endpoint (''/containers/create?name=runyard-'' @ attempt)) body) (\<lambda>create.
      then_io (pure (expect create [201, 409])) (\<lambda>_.
      sv_http sv ''GET'' (endpoint (container_path attempt @ ''/json'')) []))))))"

text \<open>What follows once the container has been seen.\<close>

definition docker_settle :: "'s Services \<Rightarrow> DockerConfig \<Rightarrow> Launch \<Rightarrow> HttpResult \<Rightarrow> (string, 's) io" where
  "docker_settle sv config launch existing =
     (let path = container_path (att_id (asg_attempt (ln_assignment launch))) in
      then_io (pure (andthen (expect existing [200]) (\<lambda>_. sv_parse sv (ht_body existing)))) (\<lambda>container.
      then_io (pure (docker_container_matches container config launch)) (\<lambda>ok.
      if \<not> ok then pure (throw conflict ''container identity or GPU allocation does not match assignment'') else
      then_io (pure (container_status container)) (\<lambda>status.
      then_io (if status = ''created''
               then then_io (sv_http sv ''POST'' (endpoint (path @ ''/start'')) []) (\<lambda>r. pure (expect r [204, 304]))
               else pure (Inr ())) (\<lambda>_.
      pure (andthen (json_at container ''Id'') get_string))))))"

definition docker_ensure :: "'s Services \<Rightarrow> DockerConfig \<Rightarrow> Launch \<Rightarrow> (string, 's) io" where
  "docker_ensure sv config launch =
     then_io (sv_http sv ''GET'' (endpoint (container_path (att_id (asg_attempt (ln_assignment launch))) @ ''/json'')) []) (\<lambda>found.
     then_io (if ht_status found = 404 then docker_create sv config launch else pure (Inr found)) (\<lambda>existing.
     docker_settle sv config launch existing))"

definition docker_has_stopped :: "'s Services \<Rightarrow> string \<Rightarrow> (bool, 's) io" where
  "docker_has_stopped sv attempt =
     then_io (sv_http sv ''GET'' (endpoint (container_path attempt @ ''/json'')) []) (\<lambda>response.
     if ht_status response = 404 then pure (Inr True) else
     then_io (pure (expect response [200])) (\<lambda>_.
     pure (andthen (sv_parse sv (ht_body response)) (\<lambda>j. andthen (json_at j ''State'') (\<lambda>state.
       andthen (json_value get_string state ''Status'' []) (\<lambda>status.
         Inr (status = ''exited'' \<or> status = ''dead'')))))))"

definition docker_remove :: "'s Services \<Rightarrow> string \<Rightarrow> (unit, 's) io" where
  "docker_remove sv attempt =
     then_io (sv_http sv ''POST'' (endpoint (container_path attempt @ ''/stop?t=10'')) []) (\<lambda>stopped.
     then_io (pure (expect stopped [204, 304, 404])) (\<lambda>_.
     then_io (sv_http sv ''DELETE'' (endpoint (container_path attempt @ ''?force=true&v=true'')) []) (\<lambda>deleted.
     pure (expect deleted [204, 404]))))"

fun listed_attempts :: "Json list \<Rightarrow> string list result" where
  "listed_attempts [] = Inr []"
| "listed_attempts (container # rest) =
     andthen (json_value get_string
        (case map_of (members container) ''Labels'' of None \<Rightarrow> JNull | Some v \<Rightarrow> v) ''runyard.attempt'' []) (\<lambda>attempt.
     andthen (listed_attempts rest) (\<lambda>ids. Inr (if attempt \<noteq> [] then attempt # ids else ids)))"

definition docker_inventory :: "'s Services \<Rightarrow> DockerConfig \<Rightarrow> (string list, 's) io" where
  "docker_inventory sv config =
     then_io (pure (sv_dump sv (json_object [(''label'', JArray [JString (''runyard.worker='' @ dc_worker config)])]))) (\<lambda>filters.
     then_io (sv_http sv ''GET'' (endpoint (''/containers/json?all=true&filters='' @ sv_escape sv filters)) []) (\<lambda>response.
     then_io (pure (expect response [200])) (\<lambda>_.
     pure (andthen (sv_parse sv (ht_body response)) (\<lambda>j. listed_attempts (elements j))))))"

definition docker_engine_id :: "'s Services \<Rightarrow> (string, 's) io" where
  "docker_engine_id sv =
     then_io (sv_http sv ''GET'' (endpoint ''/info'') []) (\<lambda>response.
     then_io (pure (expect response [200])) (\<lambda>_.
     pure (andthen (sv_parse sv (ht_body response)) (\<lambda>j. andthen (json_value get_string j ''ID'' []) (\<lambda>engine.
       if engine = [] then throw unavailable ''Docker engine identity unavailable'' else Inr engine)))))"

section \<open>Properties\<close>

lemma visible_devices_ok:
  "visible_devices visible ids = Inr v \<Longrightarrow> \<forall>gpu\<in>set ids. starts_with gpu ''GPU-''"
  by (induction visible ids rule: visible_devices.induct) (auto split: if_splits)

lemma docker_container_spec_gpus:
  assumes "docker_container_spec config launch = Inr body" and "0 < gpu_count (spec_resources (asg_spec (ln_assignment launch)))"
  shows "int (length (assigned_uuids launch)) = gpu_count (spec_resources (asg_spec (ln_assignment launch)))"
    and "distinct (assigned_uuids launch)" and "\<forall>gpu\<in>set (assigned_uuids launch). starts_with gpu ''GPU-''"
  using assms visible_devices_ok
  by (auto simp: docker_container_spec_def gpu_settings_def Let_def ok_simps length_remdups_eq split: if_splits)

lemma device_request_ok:
  "device_request_matches found launch = Inr True \<Longrightarrow>
     \<exists>ids. json_value get_strings found ''DeviceIDs'' [] = Inr ids \<and> sort ids = sort (assigned_uuids launch)"
  by (auto simp: device_request_matches_def andthen_ok split: if_splits)

text \<open>
  A container is only taken for an attempt when it is the assigned one. If an existing container
  matches, it runs the specification's image, carries the labels of this attempt and this worker, and
  its devices are exactly the distinct GPUs assigned to the attempt, as many as were asked for, or no
  device was requested at all.
\<close>

theorem matching_containers_hold_the_assigned_gpus:
  assumes "docker_container_matches container config launch = Inr True"
    and "0 \<le> gpu_count (spec_resources (asg_spec (ln_assignment launch)))"
  shows "\<exists>actual host. json_at container ''Config'' = Inr actual \<and>
    json_value get_json container ''HostConfig'' (JObject []) = Inr host \<and>
    json_value get_string actual ''Image'' [] = Inr (spec_image (asg_spec (ln_assignment launch))) \<and>
    label_of actual ''runyard.attempt'' = Inr (att_id (asg_attempt (ln_assignment launch))) \<and>
    label_of actual ''runyard.worker'' = Inr (dc_worker config) \<and>
    (if gpu_count (spec_resources (asg_spec (ln_assignment launch))) = 0
     then json_value get_json host ''DeviceRequests'' JNull \<in> {Inr JNull, Inr (JArray [])}
     else \<exists>found ids. json_value get_json host ''DeviceRequests'' JNull = Inr (JArray [found]) \<and>
       json_value get_strings found ''DeviceIDs'' [] = Inr ids \<and> mset ids = mset (assigned_uuids launch) \<and> distinct ids \<and>
       int (length ids) = gpu_count (spec_resources (asg_spec (ln_assignment launch))))"
proof -
  let ?n = "gpu_count (spec_resources (asg_spec (ln_assignment launch)))"
  from assms(1) obtain expected actual host requests where spec: "docker_container_spec config launch = Inr expected"
    and head: "json_at container ''Config'' = Inr actual" "json_value get_json container ''HostConfig'' (JObject []) = Inr host"
      "json_value get_string actual ''Image'' [] = Inr (spec_image (asg_spec (ln_assignment launch)))"
      "label_of actual ''runyard.attempt'' = Inr (att_id (asg_attempt (ln_assignment launch)))"
      "label_of actual ''runyard.worker'' = Inr (dc_worker config)"
    and req: "json_value get_json host ''DeviceRequests'' JNull = Inr requests"
    and none: "?n = 0 \<longrightarrow> requests = JNull \<or> requests = JArray []"
    and some: "?n \<noteq> 0 \<longrightarrow> (\<exists>found. requests = JArray [found] \<and> device_request_matches found launch = Inr True)"
    by (auto simp: docker_container_matches_def Let_def ok_simps split: if_splits Json.splits list.splits)
  show ?thesis
  proof (cases "?n = 0")
    case True
    with head req none show ?thesis by auto
  next
    case False
    with some obtain found where found: "requests = JArray [found]" "device_request_matches found launch = Inr True" by blast
    from device_request_ok[OF found(2)] obtain ids
      where ids: "json_value get_strings found ''DeviceIDs'' [] = Inr ids" "sort ids = sort (assigned_uuids launch)" by blast
    from ids(2) have "mset ids = mset (assigned_uuids launch)" by (metis mset_sort)
    moreover from this have "distinct ids = distinct (assigned_uuids launch)" "length ids = length (assigned_uuids launch)"
      by (rule mset_eq_imp_distinct_iff, rule mset_eq_length)
    moreover have "0 < ?n" using False assms(2) by simp
    note gpus = docker_container_spec_gpus(1,2)[OF spec this]
    ultimately have "\<exists>found ids. json_value get_json host ''DeviceRequests'' JNull = Inr (JArray [found]) \<and>
       json_value get_strings found ''DeviceIDs'' [] = Inr ids \<and> mset ids = mset (assigned_uuids launch) \<and> distinct ids \<and>
       int (length ids) = ?n"
      using req found(1) ids(1) by metis
    with head False show ?thesis by (intro exI[of _ actual] exI[of _ host]) simp
  qed
qed

definition start_call :: "string \<Rightarrow> string \<times> string \<times> string" where
  "start_call attempt = (''POST'', endpoint (container_path attempt @ ''/start''), [])"

definition look_call :: "string \<Rightarrow> string \<times> string \<times> string" where
  "look_call attempt = (''GET'', endpoint (container_path attempt @ ''/json''), [])"

text \<open>Calls that only add to the log, and never the start of \<open>a\<close>'s container.\<close>

definition quiet :: "string \<Rightarrow> ('a, call list \<times> 's) io \<Rightarrow> bool" where
  "quiet a m \<longleftrightarrow> (\<forall>w res w'. m w = (res, w') \<longrightarrow> (\<exists>calls. fst w' = fst w @ calls \<and> (\<forall>c\<in>set calls. fst c \<noteq> start_call a)))"

lemma not_logged:
  fixes x :: 'k and l :: "('k \<times> 'v) list"
  assumes "\<exists>calls. log = l @ calls \<and> (\<forall>c\<in>set calls. fst c \<noteq> x)" and "x \<notin> fst ` set l"
  shows "x \<notin> fst ` set log"
  using assms by force

lemma quietD: "quiet a m \<Longrightarrow> m w = (res, w') \<Longrightarrow> \<exists>calls. fst w' = fst w @ calls \<and> (\<forall>c\<in>set calls. fst c \<noteq> start_call a)"
  unfolding quiet_def by blast

lemma quiet_pure: "quiet a (pure r)"
  by (simp add: quiet_def pure_def)

lemma quiet_http: "(m, p, b) \<noteq> start_call a \<Longrightarrow> quiet a (sv_http (logged sv) m p b)"
  by (fastforce simp: quiet_def dest: logged_http)

lemma quiet_then:
  assumes "quiet a m" and "\<And>v. quiet a (f v)"
  shows "quiet a (then_io m f)"
  unfolding quiet_def
proof (intro allI impI)
  fix w res w' assume "then_io m f w = (res, w')"
  then show "\<exists>calls. fst w' = fst w @ calls \<and> (\<forall>c\<in>set calls. fst c \<noteq> start_call a)"
  proof (cases rule: then_io_result)
    case (failed ex)
    with assms(1) show ?thesis unfolding quiet_def by metis
  next
    case (ok v w1)
    with assms obtain c1 c2 where "fst w1 = fst w @ c1" "\<forall>c\<in>set c1. fst c \<noteq> start_call a"
      "fst w' = fst w1 @ c2" "\<forall>c\<in>set c2. fst c \<noteq> start_call a" unfolding quiet_def by metis
    then show ?thesis by (intro exI[of _ "c1 @ c2"]) auto
  qed
qed

lemma quiet_if: "quiet a m \<Longrightarrow> quiet a n \<Longrightarrow> quiet a (if c then m else n)"
  by simp

lemma quiet_create: "quiet a (docker_create (logged sv) config launch)"
  unfolding docker_create_def Let_def
  by (intro quiet_then quiet_if quiet_pure quiet_http) (simp_all add: start_call_def endpoint_def container_path_def)

lemma create_looks:
  assumes "docker_create (logged sv) config launch w = (Inr r, w')"
  shows "(look_call (att_id (asg_attempt (ln_assignment launch))), Inr r) \<in> set (fst w')"
  using assms by (auto simp: docker_create_def then_io_ok look_call_def Let_def dest!: logged_http)

lemma look_http:
  "sv_http (logged sv) ''GET'' (endpoint (container_path a @ ''/json'')) [] w = (Inr r, w') \<Longrightarrow>
     (look_call a, Inr r) \<in> set (fst w')"
  by (auto simp: look_call_def dest!: logged_http)

definition seen_assigned :: "'s Services \<Rightarrow> DockerConfig \<Rightarrow> Launch \<Rightarrow> HttpResult \<Rightarrow> Json \<Rightarrow> bool" where
  "seen_assigned sv config launch r container \<longleftrightarrow>
     sv_parse sv (ht_body r) = Inr container \<and> docker_container_matches container config launch = Inr True"

lemma settle_calls:
  assumes "docker_settle (logged sv) config launch r w = (res, w')"
    and "start_call a \<notin> fst ` set (fst w)"
  shows "\<exists>container. set (fst w) \<subseteq> set (fst w') \<and>
    (start_call a \<in> fst ` set (fst w') \<longrightarrow> seen_assigned sv config launch r container \<and> container_status container = Inr ''created'') \<and>
    (\<forall>runtime. res = Inr runtime \<longrightarrow> seen_assigned sv config launch r container \<and> json_at container ''Id'' = Inr (JString runtime))"
  using assms(1) unfolding docker_settle_def Let_def
proof (cases rule: then_io_result)
  case (failed ex)
  with assms(2) show ?thesis by (auto intro!: exI[of _ JNull])
next
  case (ok container w1)
  then have c: "sv_parse sv (ht_body r) = Inr container" "w1 = w" by (auto simp: ok_simps)
  from ok(2) show ?thesis
  proof (cases rule: then_io_result)
    case (failed ex)
    with assms(2) c show ?thesis by auto
  next
    case (ok matches w2)
    show ?thesis
    proof (cases matches)
      case False
      with ok c assms(2) show ?thesis by auto
    next
      case True
      with ok c have m: "seen_assigned sv config launch r container" "w2 = w" by (auto simp: seen_assigned_def)
      from ok(2) True m(2) show ?thesis
        using assms(2) m(1)
        by (auto simp: then_io_def pure_def ok_simps seen_assigned_def split: sum.splits prod.splits if_splits
            dest!: logged_http get_string_ok intro!: exI[of _ container])
    qed
  qed
qed

text \<open>
  C31: an attempt's container is started at most while it is freshly created. Whatever the engine
  answers, \<open>ensure\<close> posts the start of the attempt's container only after a look that showed it
  matching the assignment and in the state \<open>created\<close>, so that a container that has run is never run
  again; and it returns only the id of a container that a look showed to match.
\<close>

theorem containers_are_never_restarted:
  assumes "docker_ensure (logged sv) config launch ([], s) = (res, (log, s'))"
    and "a = att_id (asg_attempt (ln_assignment launch))"
  shows "(start_call a \<in> fst ` set log \<longrightarrow>
      (\<exists>r container. (look_call a, Inr r) \<in> set log \<and> seen_assigned sv config launch r container \<and>
         container_status container = Inr ''created'')) \<and>
    (\<forall>runtime. res = Inr runtime \<longrightarrow>
      (\<exists>r container. (look_call a, Inr r) \<in> set log \<and> seen_assigned sv config launch r container \<and>
         json_at container ''Id'' = Inr (JString runtime)))"
  using assms(1) unfolding docker_ensure_def
proof (cases rule: then_io_result)
  case (failed ex)
  then show ?thesis by (auto simp: start_call_def dest!: logged_http)
next
  case (ok found w1)
  then have w1: "(look_call a, Inr found) \<in> set (fst w1)" "start_call a \<notin> fst ` set (fst w1)"
    using assms(2) by (auto simp: look_call_def start_call_def dest!: logged_http)
  from ok(2) show ?thesis
  proof (cases rule: then_io_result)
    case (failed ex)
    have "\<exists>calls. log = fst w1 @ calls \<and> (\<forall>c\<in>set calls. fst c \<noteq> start_call a)"
    proof (cases "ht_status found = 404")
      case True
      with failed(1) have "docker_create (logged sv) config launch w1 = (Inl ex, (log, s'))" by simp
      from quietD[OF quiet_create this, of a] show ?thesis by simp
    qed (use failed(1) in simp)
    from not_logged[OF this w1(2)] have "start_call a \<notin> fst ` set log" .
    with failed(2) show ?thesis by simp
  next
    case (ok existing w2)
    have "(look_call a, Inr existing) \<in> set (fst w2) \<and> start_call a \<notin> fst ` set (fst w2)"
    proof (cases "ht_status found = 404")
      case True
      with ok(1) have create: "docker_create (logged sv) config launch w1 = (Inr existing, w2)" by simp
      from not_logged[OF quietD[OF quiet_create this, of a] w1(2)] create_looks[OF create] assms(2) show ?thesis by simp
    next
      case False
      with ok(1) w1 show ?thesis by auto
    qed
    with settle_calls[OF ok(2), of a] show ?thesis by auto (blast dest: subsetD)+
  qed
qed

definition demo_launch :: Launch where
  "demo_launch = \<lparr>ln_assignment = \<lparr>
     asg_attempt = \<lparr>att_id = ''a'', att_run_id = ''r'', att_generation = 1, att_worker_id = ''w'', att_instance_id = [],
       att_status = ''STARTING'', att_reason = [], att_exit_code = None, att_runtime_id = [], att_cleanup_status = ''PENDING'',
       att_created_at = None, att_started_at = None, att_finished_at = None, att_acknowledged_sequence = 0, att_gpu_count = 1,
       att_node_name = [], att_gpu_allocations = [\<lparr>al_device = \<lparr>gd_uuid = ''GPU-1'', gd_name = [], gd_memory_mib = 0,
         gd_eligible = True, gd_reason = []\<rparr>, al_allocated_at = None, al_released_at = None\<rparr>]\<rparr>,
     asg_spec = demo_spec\<rparr>, ln_capability = ''c''\<rparr>"

definition demo_docker :: DockerConfig where
  "demo_docker = \<lparr>dc_socket = [], dc_network = ''n'', dc_worker = ''w'', dc_coordinator = ''h'', dc_ca_host_path = [], dc_development = True\<rparr>"

text \<open>The container as the engine shows it, in the given state.\<close>

definition demo_container :: "string \<Rightarrow> Json" where
  "demo_container status = json_object [
     (''Id'', JString ''c1''), (''State'', json_object [(''Status'', JString status)]),
     (''Config'', json_object [(''Image'', JString (spec_image demo_spec)),
        (''Labels'', json_object [(''runyard.attempt'', JString ''a''), (''runyard.worker'', JString ''w'')])]),
     (''HostConfig'', json_object [(''DeviceRequests'', device_requests [''GPU-1''])])]"

definition scripted :: "(string \<Rightarrow> Json) \<Rightarrow> (string \<times> string \<Rightarrow> HttpResult) \<Rightarrow> unit Services" where
  "scripted texts answers = \<lparr>sv_http = (\<lambda>m p b s. (Inr (answers (m, p)), s)), sv_escape = (\<lambda>t. t),
     sv_parse = (\<lambda>t. Inr (texts t)), sv_dump = (\<lambda>j. Inr ''{}'')\<rparr>"

lemma demo_container_matches: "docker_container_matches (demo_container status) demo_docker demo_launch = Inr True"
  by code_simp

theorem matching_containers_hold_the_assigned_gpus_witness:
  "\<exists>host found. json_value get_json (demo_container ''created'') ''HostConfig'' (JObject []) = Inr host \<and>
     json_value get_json host ''DeviceRequests'' JNull = Inr (JArray [found]) \<and>
     json_value get_strings found ''DeviceIDs'' [] = Inr [''GPU-1'']"
proof -
  have "gpu_count (spec_resources (asg_spec (ln_assignment demo_launch))) = 1" "assigned_uuids demo_launch = [''GPU-1'']"
    by (simp_all add: demo_launch_def demo_spec_def assigned_uuids_def)
  with matching_containers_hold_the_assigned_gpus[OF demo_container_matches[of "''created''"]]
  show ?thesis by (auto simp: mset_single_iff)
qed

text \<open>A container that exists and was created is started; one that has exited is not.\<close>

theorem containers_are_never_restarted_witness:
  "\<exists>log log'. docker_ensure (logged (scripted (\<lambda>_. demo_container ''created'') (\<lambda>call. \<lparr>ht_status = (if fst call = ''GET'' then 200 else 204), ht_body = []\<rparr>)))
       demo_docker demo_launch ([], ()) = (Inr ''c1'', (log, ())) \<and> start_call ''a'' \<in> fst ` set log \<and>
     docker_ensure (logged (scripted (\<lambda>_. demo_container ''exited'') (\<lambda>call. \<lparr>ht_status = 200, ht_body = []\<rparr>)))
       demo_docker demo_launch ([], ()) = (Inr ''c1'', (log', ())) \<and> start_call ''a'' \<notin> fst ` set log'"
proof -
  let ?created = "scripted (\<lambda>_. demo_container ''created'') (\<lambda>call. \<lparr>ht_status = (if fst call = ''GET'' then 200 else 204), ht_body = []\<rparr>)"
    and ?exited = "scripted (\<lambda>_. demo_container ''exited'') (\<lambda>call. \<lparr>ht_status = 200, ht_body = []\<rparr>)"
  have status: "container_status (demo_container s) = Inr s" "json_at (demo_container s) ''Id'' = Inr (JString ''c1'')" for s
    by (simp_all add: container_status_def demo_container_def json_object_members json_value_def json_at_def)
  have attempt: "att_id (asg_attempt (ln_assignment demo_launch)) = ''a''" by (simp add: demo_launch_def)
  note run = docker_ensure_def docker_settle_def then_io_def pure_def logged_def scripted_def expect_def attempt status
    demo_container_matches start_call_def
  obtain log where run1: "docker_ensure (logged ?created) demo_docker demo_launch ([], ()) = (Inr ''c1'', (log, ()))"
    and log: "start_call ''a'' \<in> fst ` set log"
    by (simp add: run)
  obtain log' where run2: "docker_ensure (logged ?exited) demo_docker demo_launch ([], ()) = (Inr ''c1'', (log', ()))"
    by (simp add: run)
  have texts: "seen_assigned ?exited demo_docker demo_launch r container \<Longrightarrow> container = demo_container ''exited''" for r container
    by (simp add: seen_assigned_def scripted_def)
  have "start_call ''a'' \<notin> fst ` set log'"
  proof
    assume "start_call ''a'' \<in> fst ` set log'"
    with containers_are_never_restarted[OF run2 attempt[symmetric]] obtain r container
      where "seen_assigned ?exited demo_docker demo_launch r container" "container_status container = Inr ''created''" by blast
    with texts status(1)[of "''exited''"] show False by fastforce
  qed
  with run1 log run2 show ?thesis by blast
qed

end
