(* ===== verification/Kubernetes_Backend.thy ===== *)
theory Kubernetes_Backend
  imports Execution_Backend Config
begin

text \<open>
  \<^verbatim>\<open>src/execution/kubernetes.cpp\<close>: the Job of an attempt, the test that an existing Job is the
  assigned one, and the operations of the backend over the Kubernetes API. \<open>client\<close> is the HTTP client
  for a bearer token, with URL escaping and the JSON library's parser and printer.
\<close>

record KubernetesConfig =
  kc_api :: string
  kc_name_space :: string
  kc_token_path :: string
  kc_token_file :: "string option"
  kc_api_ca :: string
  kc_coordinator :: string
  kc_runner_ca_configmap :: string
  kc_development :: bool
  kc_gpu_runtime_class :: string

fun json_path :: "Json \<Rightarrow> string list \<Rightarrow> Json result" where
  "json_path j [] = Inr j"
| "json_path j (k # ks) = andthen (json_at j k) (\<lambda>v. json_path v ks)"

section \<open>The Job\<close>

definition finished_condition :: "Json \<Rightarrow> bool result" where
  "finished_condition condition =
     andthen (json_value get_string condition ''type'' []) (\<lambda>kind.
       if kind = ''Failed'' \<or> kind = ''Complete''
       then andthen (json_value get_string condition ''status'' []) (\<lambda>status. Inr (status = ''True''))
       else Inr False)"

fun any_finished :: "Json list \<Rightarrow> bool result" where
  "any_finished [] = Inr False"
| "any_finished (c # cs) = andthen (finished_condition c) (\<lambda>found. if found then Inr True else any_finished cs)"

definition kubernetes_job_finished :: "Json \<Rightarrow> bool result" where
  "kubernetes_job_finished job =
     andthen (json_value get_json job ''status'' (JObject [])) (\<lambda>status.
     andthen (json_value get_json status ''conditions'' (JArray [])) (\<lambda>conditions.
       any_finished (elements conditions)))"

definition env_entry :: "string \<Rightarrow> string \<Rightarrow> Json" where
  "env_entry key v = json_object [(''name'', JString key), (''value'', JString v)]"

definition job_environment :: "KubernetesConfig \<Rightarrow> Launch \<Rightarrow> Json list" where
  "job_environment config launch =
     (let a = asg_attempt (ln_assignment launch); s = asg_spec (ln_assignment launch) in
      [env_entry ''RUNYARD_ATTEMPT_ID'' (att_id a),
       env_entry ''RUNYARD_RUN_ID'' (att_run_id a),
       env_entry ''RUNYARD_GENERATION'' (show_int (att_generation a)),
       env_entry ''RUNYARD_CAPABILITY'' (ln_capability launch),
       env_entry ''RUNYARD_COORDINATOR'' (kc_coordinator config)] @
      (if kc_development config then [env_entry ''RUNYARD_PROFILE'' ''development''] else []) @
      [json_object [(''name'', JString ''RUNYARD_NODE_NAME''),
         (''valueFrom'', json_object [(''fieldRef'', json_object [(''fieldPath'', JString ''spec.nodeName'')])])]] @
      (if gpu_count (spec_resources s) = 0 then [env_entry ''NVIDIA_VISIBLE_DEVICES'' ''void''] else []) @
      (if kc_runner_ca_configmap config \<noteq> [] then [env_entry ''RUNYARD_TLS_CA'' ''/etc/runyard/ca/ca.crt''] else []))"

definition job_resources :: "Resources \<Rightarrow> Json" where
  "job_resources r = json_object
     ([(''cpu'', JString (show_int (cpu_millis r) @ ''m'')), (''memory'', JString (show_int (memory_mib r) @ ''Mi''))] @
      (if 0 < gpu_count r then [(''nvidia.com/gpu'', JString (show_int (gpu_count r)))] else []))"

definition job_container :: "KubernetesConfig \<Rightarrow> Launch \<Rightarrow> Json" where
  "job_container config launch =
     (let s = asg_spec (ln_assignment launch); resources = job_resources (spec_resources s) in
      json_object ([
        (''name'', JString ''experiment''),
        (''image'', JString (spec_image s)),
        (''imagePullPolicy'', JString ''IfNotPresent''),
        (''command'', JArray [JString ''/usr/local/bin/runyard-runner'']),
        (''env'', JArray (job_environment config launch)),
        (''resources'', json_object [(''requests'', resources), (''limits'', resources)]),
        (''securityContext'', json_object [
           (''allowPrivilegeEscalation'', JBool False),
           (''capabilities'', json_object [(''drop'', JArray [JString ''ALL''])])])] @
       (if kc_runner_ca_configmap config \<noteq> []
        then [(''volumeMounts'', JArray [json_object [(''name'', JString ''ca''), (''mountPath'', JString ''/etc/runyard/ca''),
                (''readOnly'', JBool True)]])] else [])))"

definition job_pod :: "KubernetesConfig \<Rightarrow> Launch \<Rightarrow> Json" where
  "job_pod config launch =
     json_object ([
       (''restartPolicy'', JString ''Never''),
       (''automountServiceAccountToken'', JBool False),
       (''serviceAccountName'', JString ''workload''),
       (''terminationGracePeriodSeconds'', JInteger 15),
       (''securityContext'', json_object [
          (''runAsNonRoot'', JBool True), (''runAsUser'', JInteger 10001), (''runAsGroup'', JInteger 10001),
          (''seccompProfile'', json_object [(''type'', JString ''RuntimeDefault'')])])] @
      (if 0 < gpu_count (spec_resources (asg_spec (ln_assignment launch)))
       then [(''nodeSelector'', json_object [(''runyard.io/gpu-mode'', JString ''exclusive'')]),
             (''tolerations'', JArray [json_object [(''key'', JString ''nvidia.com/gpu''), (''operator'', JString ''Exists''),
                (''effect'', JString ''NoSchedule'')]])] @
            (if kc_gpu_runtime_class config \<noteq> [] then [(''runtimeClassName'', JString (kc_gpu_runtime_class config))] else [])
       else []) @
      (if kc_runner_ca_configmap config \<noteq> []
       then [(''volumes'', JArray [json_object [(''name'', JString ''ca''),
               (''configMap'', json_object [(''name'', JString (kc_runner_ca_configmap config))])]])] else []) @
      [(''containers'', JArray [job_container config launch])])"

definition kubernetes_job :: "KubernetesConfig \<Rightarrow> Launch \<Rightarrow> Json" where
  "kubernetes_job config launch =
     (let a = asg_attempt (ln_assignment launch);
          labels = json_object [
            (''app.kubernetes.io/managed-by'', JString ''runyard''),
            (''runyard.attempt'', JString (att_id a)),
            (''runyard.run'', JString (att_run_id a))]
      in json_object [
        (''apiVersion'', JString ''batch/v1''),
        (''kind'', JString ''Job''),
        (''metadata'', json_object [
           (''name'', JString (''runyard-'' @ att_id a)), (''namespace'', JString (kc_name_space config)), (''labels'', labels)]),
        (''spec'', json_object [
           (''completions'', JInteger 1), (''parallelism'', JInteger 1), (''backoffLimit'', JInteger 0),
           (''template'', json_object [
              (''metadata'', json_object [(''labels'', labels)]), (''spec'', job_pod config launch)])])])"

section \<open>Calls\<close>

definition jobs_path :: "(string \<Rightarrow> string) \<Rightarrow> KubernetesConfig \<Rightarrow> string" where
  "jobs_path escape config = ''/apis/batch/v1/namespaces/'' @ escape (kc_name_space config) @ ''/jobs''"

definition trimmed :: "string \<Rightarrow> string" where
  "trimmed token = rev (dropWhile is_space (rev token))"

definition kubernetes_request ::
    "(string \<Rightarrow> 's Services) \<Rightarrow> KubernetesConfig \<Rightarrow> string \<Rightarrow> string \<Rightarrow> Json \<Rightarrow> (HttpResult, 's) io" where
  "kubernetes_request client config m path body =
     (case kc_token_file config of
        None \<Rightarrow> pure (throw invalid (''cannot read file: '' @ kc_token_path config))
      | Some content \<Rightarrow>
          (let sv = client (trimmed content) in
           then_io (pure (if body = JNull then Inr [] else sv_dump sv body)) (\<lambda>printed.
           then_io (sv_http sv m (kc_api config @ path) printed) (\<lambda>r.
             pure (if ht_status r \<ge> 500 \<or> ht_status r = 429 then throw unavailable ''Kubernetes API unavailable''
                   else Inr r)))))"

text \<open>The functions of the libraries do not depend on the token.\<close>

abbreviation sv_any :: "(string \<Rightarrow> 's Services) \<Rightarrow> 's Services" where
  "sv_any client \<equiv> client []"

fun page_attempts :: "Json list \<Rightarrow> string list result" where
  "page_attempts [] = Inr []"
| "page_attempts (job # rest) =
     andthen (andthen (json_path job [''metadata'', ''labels'', ''runyard.attempt'']) get_string) (\<lambda>attempt.
     andthen (page_attempts rest) (\<lambda>ids. Inr (attempt # ids)))"

text \<open>One page of the listing: its attempts and the cursor of the next page.\<close>

definition inventory_page :: "(string \<Rightarrow> 's Services) \<Rightarrow> KubernetesConfig \<Rightarrow> string \<Rightarrow> (string list \<times> string, 's) io" where
  "inventory_page client config cursor =
     (let sv = sv_any client in
      then_io (kubernetes_request client config ''GET'' (jobs_path (sv_escape sv) config @
         ''?labelSelector=app.kubernetes.io%2Fmanaged-by%3Drunyard&limit=100&continue='' @ sv_escape sv cursor) JNull) (\<lambda>response.
      if ht_status response \<noteq> 200 then pure (throw unavailable ''cannot list Kubernetes Jobs'')
      else pure (andthen (sv_parse sv (ht_body response)) (\<lambda>body.
        andthen (json_at body ''items'') (\<lambda>items.
        andthen (page_attempts (elements items)) (\<lambda>ids.
        andthen (json_at body ''metadata'') (\<lambda>metadata.
        andthen (json_value get_string metadata ''continue'' []) (\<lambda>next_cursor. Inr (ids, next_cursor)))))))))"

text \<open>The loop over the pages; \<open>None\<close>: the API never stops giving a cursor.\<close>

partial_function (option) inventory_from ::
    "(string \<Rightarrow> 's Services) \<Rightarrow> KubernetesConfig \<Rightarrow> string \<Rightarrow> string list \<Rightarrow> 's \<Rightarrow> (string list result \<times> 's) option" where
  "inventory_from client config cursor acc s =
     (case inventory_page client config cursor s of
        (Inl ex, s') \<Rightarrow> Some (Inl ex, s')
      | (Inr (ids, next_cursor), s') \<Rightarrow>
          if next_cursor = [] then Some (Inr (acc @ ids), s')
          else inventory_from client config next_cursor (acc @ ids) s')"

definition kubernetes_inventory :: "(string \<Rightarrow> 's Services) \<Rightarrow> KubernetesConfig \<Rightarrow> 's \<Rightarrow> (string list result \<times> 's) option" where
  "kubernetes_inventory client config s = inventory_from client config [] [] s"

text \<open>The checks of \<open>ensure\<close> on the Job it was shown.\<close>

definition gpu_quantity_matches :: "Json \<Rightarrow> string \<Rightarrow> int \<Rightarrow> bool result" where
  "gpu_quantity_matches resources kind gpus =
     andthen (json_value get_json resources kind (JObject [])) (\<lambda>part.
     andthen (json_value get_json part ''nvidia.com/gpu'' (JString ''0'')) (\<lambda>quantity.
       Inr (quantity = JString (show_int gpus) \<or> json_equal_integer quantity gpus)))"

definition kubernetes_accept :: "Launch \<Rightarrow> Json \<Rightarrow> string result" where
  "kubernetes_accept launch job =
     (let a = asg_attempt (ln_assignment launch); s = asg_spec (ln_assignment launch); gpus = gpu_count (spec_resources s) in
      andthen (json_path job [''metadata'', ''labels'']) (\<lambda>labels.
      andthen (json_value get_string labels ''runyard.attempt'' []) (\<lambda>attempt.
      if attempt \<noteq> att_id a then throw conflict ''Kubernetes Job name belongs to another resource'' else
      andthen (json_path job [''spec'', ''template'', ''spec'']) (\<lambda>pod.
      andthen (andthen (json_at pod ''containers'') (\<lambda>cs. json_index cs 0)) (\<lambda>container.
      andthen (andthen (json_at container ''image'') get_string) (\<lambda>image.
      if image \<noteq> spec_image s then throw conflict ''Kubernetes Job name belongs to another resource'' else
      andthen (json_at container ''resources'') (\<lambda>resources.
      andthen (gpu_quantity_matches resources ''requests'' gpus) (\<lambda>requested.
      if \<not> requested then throw conflict ''Kubernetes GPU request does not match assignment'' else
      andthen (gpu_quantity_matches resources ''limits'' gpus) (\<lambda>limited.
      if \<not> limited then throw conflict ''Kubernetes GPU request does not match assignment'' else
      andthen (if 0 < gpus
               then andthen (json_value get_json pod ''nodeSelector'' (JObject [])) (\<lambda>selector.
                      json_value get_string selector ''runyard.io/gpu-mode'' [])
               else Inr ''exclusive'') (\<lambda>mode.
      if mode \<noteq> ''exclusive'' then throw conflict ''Kubernetes GPU placement does not match assignment'' else
      andthen (json_path job [''metadata'', ''uid'']) get_string))))))))))"

definition kubernetes_ensure :: "(string \<Rightarrow> 's Services) \<Rightarrow> KubernetesConfig \<Rightarrow> Launch \<Rightarrow> (string, 's) io" where
  "kubernetes_ensure client config launch =
     (let jobs = jobs_path (sv_escape (sv_any client)) config;
          path = jobs @ ''/runyard-'' @ att_id (asg_attempt (ln_assignment launch))
      in
      then_io (kubernetes_request client config ''GET'' path JNull) (\<lambda>found.
      then_io (if ht_status found = 404
               then then_io (kubernetes_request client config ''POST'' jobs (kubernetes_job config launch)) (\<lambda>created.
                      if ht_status created = 409 then kubernetes_request client config ''GET'' path JNull
                      else pure (Inr created))
               else pure (Inr found)) (\<lambda>response.
      if ht_status response \<noteq> 200 \<and> ht_status response \<noteq> 201
      then pure (throw unavailable ''cannot reconcile Kubernetes Job'')
      else pure (andthen (sv_parse (sv_any client) (ht_body response)) (kubernetes_accept launch)))))"

definition kubernetes_has_stopped :: "(string \<Rightarrow> 's Services) \<Rightarrow> KubernetesConfig \<Rightarrow> string \<Rightarrow> (bool, 's) io" where
  "kubernetes_has_stopped client config attempt =
     then_io (kubernetes_request client config ''GET''
        (jobs_path (sv_escape (sv_any client)) config @ ''/runyard-'' @ attempt) JNull) (\<lambda>response.
     if ht_status response = 404 then pure (Inr True)
     else if ht_status response \<noteq> 200 then pure (throw unavailable ''cannot observe Kubernetes Job'')
     else pure (andthen (sv_parse (sv_any client) (ht_body response)) kubernetes_job_finished))"

definition kubernetes_remove :: "(string \<Rightarrow> 's Services) \<Rightarrow> KubernetesConfig \<Rightarrow> string \<Rightarrow> (unit, 's) io" where
  "kubernetes_remove client config attempt =
     (let escape = sv_escape (sv_any client); path = jobs_path escape config @ ''/runyard-'' @ attempt in
      then_io (kubernetes_request client config ''DELETE'' path (json_object [(''apiVersion'', JString ''v1''),
         (''kind'', JString ''DeleteOptions''), (''propagationPolicy'', JString ''Foreground'')])) (\<lambda>response.
      if ht_status response \<noteq> 200 \<and> ht_status response \<noteq> 202 \<and> ht_status response \<noteq> 404
      then pure (throw unavailable ''cannot delete Kubernetes Job'') else
      then_io (kubernetes_request client config ''GET'' path JNull) (\<lambda>found.
      if ht_status found \<noteq> 404 then pure (throw unavailable ''Kubernetes cleanup pending'') else
      then_io (kubernetes_request client config ''GET'' (''/api/v1/namespaces/'' @ escape (kc_name_space config) @
         ''/pods?labelSelector=runyard.attempt%3D'' @ escape attempt) JNull) (\<lambda>pods.
      if ht_status pods \<noteq> 200 then pure (throw unavailable ''Kubernetes Pod cleanup pending'')
      else pure (andthen (sv_parse (sv_any client) (ht_body pods)) (\<lambda>j. andthen (json_at j ''items'') (\<lambda>items.
        if elements items \<noteq> [] then throw unavailable ''Kubernetes Pod cleanup pending'' else Inr ())))))))"

section \<open>Properties\<close>

lemma show_int_0: "show_int 0 = ''0''"
  by code_simp

lemma job_resources_member:
  "is_object (job_resources r)"
  "map_of (members (job_resources r)) ''nvidia.com/gpu'' =
     (if 0 < gpu_count r then Some (JString (show_int (gpu_count r))) else None)"
  by (simp_all add: job_resources_def json_object_members)

lemma created_quantities:
  assumes "0 \<le> gpu_count r"
  shows "gpu_quantity_matches (reparsed (json_object [(''requests'', job_resources r), (''limits'', job_resources r)]))
      ''requests'' (gpu_count r) = Inr True"
    and "gpu_quantity_matches (reparsed (json_object [(''requests'', job_resources r), (''limits'', job_resources r)]))
      ''limits'' (gpu_count r) = Inr True"
proof -
  have "gpu_count r = 0" if "\<not> 0 < gpu_count r"
    using that assms by simp
  then show "gpu_quantity_matches (reparsed (json_object [(''requests'', job_resources r), (''limits'', job_resources r)]))
      ''requests'' (gpu_count r) = Inr True"
    and "gpu_quantity_matches (reparsed (json_object [(''requests'', job_resources r), (''limits'', job_resources r)]))
      ''limits'' (gpu_count r) = Inr True"
    by (auto simp: gpu_quantity_matches_def json_value_def json_object_members reparsed_members get_json_def
        job_resources_member show_int_0 split: option.splits)
qed

lemma job_lookups:
  "json_path (reparsed (kubernetes_job config launch)) [''metadata'', ''labels''] = Inr (reparsed (json_object [
     (''app.kubernetes.io/managed-by'', JString ''runyard''),
     (''runyard.attempt'', JString (att_id (asg_attempt (ln_assignment launch)))),
     (''runyard.run'', JString (att_run_id (asg_attempt (ln_assignment launch))))]))"
  "json_path (reparsed (kubernetes_job config launch)) [''spec'', ''template'', ''spec''] = Inr (reparsed (job_pod config launch))"
  by (simp_all add: kubernetes_job_def json_at_def json_object_members Let_def)

lemma pod_members:
  "is_object (job_pod config launch)"
  "map_of (members (job_pod config launch)) ''containers'' = Some (JArray [job_container config launch])"
  "0 < gpu_count (spec_resources (asg_spec (ln_assignment launch))) \<Longrightarrow>
     map_of (members (job_pod config launch)) ''nodeSelector'' = Some (json_object [(''runyard.io/gpu-mode'', JString ''exclusive'')])"
  by (simp_all add: job_pod_def json_object_members)

lemma container_members:
  "is_object (job_container config launch)"
  "map_of (members (job_container config launch)) ''image'' = Some (JString (spec_image (asg_spec (ln_assignment launch))))"
  "map_of (members (job_container config launch)) ''resources'' = Some (json_object [
     (''requests'', job_resources (spec_resources (asg_spec (ln_assignment launch)))),
     (''limits'', job_resources (spec_resources (asg_spec (ln_assignment launch))))])"
  by (simp_all add: job_container_def json_object_members Let_def)

lemma pod_lookups:
  "json_at (reparsed (job_pod config launch)) ''containers'' = Inr (JArray [reparsed (job_container config launch)])"
  "0 < gpu_count (spec_resources (asg_spec (ln_assignment launch))) \<Longrightarrow>
     andthen (json_value get_json (reparsed (job_pod config launch)) ''nodeSelector'' (JObject []))
       (\<lambda>selector. json_value get_string selector ''runyard.io/gpu-mode'' []) = Inr ''exclusive''"
  "json_at (reparsed (job_container config launch)) ''image'' = Inr (JString (spec_image (asg_spec (ln_assignment launch))))"
  "json_at (reparsed (job_container config launch)) ''resources'' = Inr (reparsed (json_object [
     (''requests'', job_resources (spec_resources (asg_spec (ln_assignment launch)))),
     (''limits'', job_resources (spec_resources (asg_spec (ln_assignment launch))))]))"
  by (simp_all add: json_at_def json_value_def get_json_def pod_members container_members json_object_members)

lemma accepted_jobs:
  assumes "kubernetes_accept launch job = Inr uid"
  shows "\<exists>labels pod container resources. json_path job [''metadata'', ''labels''] = Inr labels \<and>
      json_value get_string labels ''runyard.attempt'' [] = Inr (att_id (asg_attempt (ln_assignment launch))) \<and>
      json_path job [''spec'', ''template'', ''spec''] = Inr pod \<and>
      andthen (json_at pod ''containers'') (\<lambda>cs. json_index cs 0) = Inr container \<and>
      json_at container ''image'' = Inr (JString (spec_image (asg_spec (ln_assignment launch)))) \<and>
      json_at container ''resources'' = Inr resources \<and>
      gpu_quantity_matches resources ''requests'' (gpu_count (spec_resources (asg_spec (ln_assignment launch)))) = Inr True \<and>
      gpu_quantity_matches resources ''limits'' (gpu_count (spec_resources (asg_spec (ln_assignment launch)))) = Inr True \<and>
      (0 < gpu_count (spec_resources (asg_spec (ln_assignment launch))) \<longrightarrow>
         andthen (json_value get_json pod ''nodeSelector'' (JObject []))
           (\<lambda>selector. json_value get_string selector ''runyard.io/gpu-mode'' []) = Inr ''exclusive'')"
  using assms unfolding kubernetes_accept_def Let_def andthen_ok
  by (auto simp: ok_simps split: if_splits dest!: get_string_ok simp del: json_path.simps)

text \<open>
  The backend recognises its own Jobs. When the API shows the Job of an attempt with the labels
  and the pod with which it was created, \<open>ensure\<close> accepts it and returns its uid, whatever else the
  API has added to the object; so that a controller that restarts takes up the Jobs it had created.
\<close>

theorem jobs_are_recognised:
  assumes "0 \<le> gpu_count (spec_resources (asg_spec (ln_assignment launch)))"
    and "json_path shown [''metadata'', ''labels''] = json_path (reparsed (kubernetes_job config launch)) [''metadata'', ''labels'']"
    and "json_path shown [''spec'', ''template'', ''spec''] = json_path (reparsed (kubernetes_job config launch)) [''spec'', ''template'', ''spec'']"
    and "json_path shown [''metadata'', ''uid''] = Inr (JString uid)"
  shows "kubernetes_accept launch shown = Inr uid"
  unfolding kubernetes_accept_def Let_def assms(2,3,4) job_lookups
  using pod_lookups(2)[of launch config] assms(1)
  by (simp add: pod_lookups(1,3,4) json_index_def json_value_def json_object_members created_quantities)

lemma kubernetes_request_logged:
  assumes "kubernetes_request (\<lambda>t. logged (client t)) config m path JNull w = (Inr r, w')"
  shows "fst w' = fst w @ [((m, kc_api config @ path, []), Inr r)]"
  using assms by (auto simp: kubernetes_request_def then_io_ok Let_def ok_simps split: option.splits if_splits dest!: logged_http)

lemma kubernetes_request_logged_body:
  assumes "kubernetes_request (\<lambda>t. logged (client t)) config m path body w = (Inr r, w')"
  shows "\<exists>b. fst w' = fst w @ [((m, kc_api config @ path, b), Inr r)]"
  using assms by (auto simp: kubernetes_request_def then_io_ok Let_def ok_simps split: option.splits if_splits dest!: logged_http)

text \<open>
  C32: the cleanup of an attempt is reported only when the API has confirmed it. If \<open>remove\<close> returns,
  it has asked for the deletion of the Job, then has looked and been told that the Job does not exist,
  then has listed the attempt's pods and been shown none, with no other call; in every other case it
  throws, and the attempt's cleanup stays pending.
\<close>

theorem cleanup_is_confirmed:
  assumes "kubernetes_remove (\<lambda>t. logged (client t)) config attempt ([], s) = (Inr v, (log, s'))"
    and "job = kc_api config @ jobs_path (sv_escape (client [])) config @ ''/runyard-'' @ attempt"
  shows "\<exists>body deleted found pods j items. log =
      [((''DELETE'', job, body), Inr deleted), ((''GET'', job, []), Inr found),
       ((''GET'', kc_api config @ ''/api/v1/namespaces/'' @ sv_escape (client []) (kc_name_space config) @
           ''/pods?labelSelector=runyard.attempt%3D'' @ sv_escape (client []) attempt, []), Inr pods)] \<and>
    ht_status deleted \<in> {200, 202, 404} \<and> ht_status found = 404 \<and> ht_status pods = 200 \<and>
    sv_parse (client []) (ht_body pods) = Inr j \<and> json_at j ''items'' = Inr items \<and> elements items = []"
proof -
  from assms(1) obtain deleted found pods w1 w2 j items where
      c1: "kubernetes_request (\<lambda>t. logged (client t)) config ''DELETE'' (jobs_path (sv_escape (client [])) config @ ''/runyard-'' @ attempt)
        (json_object [(''apiVersion'', JString ''v1''), (''kind'', JString ''DeleteOptions''), (''propagationPolicy'', JString ''Foreground'')])
        ([], s) = (Inr deleted, w1)"
    and c2: "kubernetes_request (\<lambda>t. logged (client t)) config ''GET'' (jobs_path (sv_escape (client [])) config @ ''/runyard-'' @ attempt)
        JNull w1 = (Inr found, w2)"
    and c3: "kubernetes_request (\<lambda>t. logged (client t)) config ''GET'' (''/api/v1/namespaces/'' @ sv_escape (client []) (kc_name_space config) @
         ''/pods?labelSelector=runyard.attempt%3D'' @ sv_escape (client []) attempt) JNull w2 = (Inr pods, (log, s'))"
    and statuses: "ht_status deleted \<in> {200, 202, 404}" "ht_status found = 404" "ht_status pods = 200"
    and items: "sv_parse (client []) (ht_body pods) = Inr j" "json_at j ''items'' = Inr items" "elements items = []"
    unfolding kubernetes_remove_def Let_def
    by (auto simp: then_io_ok ok_simps split: if_splits)
  from kubernetes_request_logged_body[OF c1] kubernetes_request_logged[OF c2] kubernetes_request_logged[OF c3] obtain body
    where "log = [((''DELETE'', job, body), Inr deleted), ((''GET'', job, []), Inr found),
       ((''GET'', kc_api config @ ''/api/v1/namespaces/'' @ sv_escape (client []) (kc_name_space config) @
           ''/pods?labelSelector=runyard.attempt%3D'' @ sv_escape (client []) attempt, []), Inr pods)]"
    using assms(2) by auto
  with statuses items show ?thesis by blast
qed

definition demo_kubernetes :: KubernetesConfig where
  "demo_kubernetes = \<lparr>kc_api = ''k'', kc_name_space = ''n'', kc_token_path = ''t'', kc_token_file = Some ''secret '', kc_api_ca = [],
     kc_coordinator = ''h'', kc_runner_ca_configmap = [], kc_development = True, kc_gpu_runtime_class = []\<rparr>"

definition demo_job_launch :: Launch where
  "demo_job_launch = \<lparr>ln_assignment = \<lparr>
     asg_attempt = \<lparr>att_id = ''a'', att_run_id = ''r'', att_generation = 1, att_worker_id = [], att_instance_id = [],
       att_status = ''STARTING'', att_reason = [], att_exit_code = None, att_runtime_id = [], att_cleanup_status = ''PENDING'',
       att_created_at = None, att_started_at = None, att_finished_at = None, att_acknowledged_sequence = 0, att_gpu_count = 1,
       att_node_name = [], att_gpu_allocations = []\<rparr>,
     asg_spec = demo_spec\<rparr>, ln_capability = ''c''\<rparr>"

text \<open>The Job as the API shows it: the created one, and a uid.\<close>

definition demo_shown :: Json where
  "demo_shown = json_object [
     (''metadata'', json_object [
        (''labels'', reparsed (json_object [
           (''app.kubernetes.io/managed-by'', JString ''runyard''), (''runyard.attempt'', JString ''a''), (''runyard.run'', JString ''r'')])),
        (''uid'', JString ''u1'')]),
     (''spec'', json_object [(''template'', json_object [(''spec'', reparsed (job_pod demo_kubernetes demo_job_launch))])]),
     (''status'', json_object [(''active'', JInteger 1)])]"

theorem jobs_are_recognised_witness: "kubernetes_accept demo_job_launch demo_shown = Inr ''u1''"
proof (rule jobs_are_recognised)
  show "0 \<le> gpu_count (spec_resources (asg_spec (ln_assignment demo_job_launch)))"
    by (simp add: demo_job_launch_def demo_spec_def)
  show "json_path demo_shown [''metadata'', ''labels''] =
      json_path (reparsed (kubernetes_job demo_kubernetes demo_job_launch)) [''metadata'', ''labels'']"
    unfolding job_lookups by (simp add: demo_shown_def json_at_def json_object_members demo_job_launch_def)
  show "json_path demo_shown [''spec'', ''template'', ''spec''] =
      json_path (reparsed (kubernetes_job demo_kubernetes demo_job_launch)) [''spec'', ''template'', ''spec'']"
    unfolding job_lookups by (simp add: demo_shown_def json_at_def json_object_members)
  show "json_path demo_shown [''metadata'', ''uid''] = Inr (JString ''u1'')"
    by (simp add: demo_shown_def json_at_def json_object_members)
qed

text \<open>An API that has nothing left of the attempt.\<close>

definition gone_services :: "string \<Rightarrow> unit Services" where
  "gone_services token = \<lparr>sv_http = (\<lambda>m p b s. (Inr (if m = ''GET'' \<and> starts_with p ''k/api/''
      then \<lparr>ht_status = 200, ht_body = []\<rparr> else \<lparr>ht_status = 404, ht_body = []\<rparr>), s)),
     sv_escape = (\<lambda>t. t), sv_parse = (\<lambda>t. Inr (JObject [(''items'', JArray [])])), sv_dump = (\<lambda>j. Inr ''{}'')\<rparr>"

lemma gone_run:
  "\<exists>log. kubernetes_remove (\<lambda>t. logged (gone_services t)) demo_kubernetes ''a'' ([], ()) = (Inr (), (log, ()))"
  by (simp add: kubernetes_remove_def kubernetes_request_def then_io_def pure_def Let_def logged_def gone_services_def
      demo_kubernetes_def jobs_path_def json_at_def json_object_def starts_with_def)

theorem cleanup_is_confirmed_witness:
  "\<exists>log. kubernetes_remove (\<lambda>t. logged (gone_services t)) demo_kubernetes ''a'' ([], ()) = (Inr (), (log, ())) \<and>
     map (fst \<circ> fst) log = [''DELETE'', ''GET'', ''GET'']"
proof -
  from gone_run obtain log
    where run: "kubernetes_remove (\<lambda>t. logged (gone_services t)) demo_kubernetes ''a'' ([], ()) = (Inr (), (log, ()))"
    by blast
  with cleanup_is_confirmed[OF run refl] show ?thesis by auto
qed

end
