(* ===== verification/Kubernetes_Capacity.thy ===== *)
theory Kubernetes_Capacity
  imports Http_Client Run_Service "HOL-Library.Multiset"
begin

text \<open>
  \<^verbatim>\<open>src/execution/kubernetes_resources.cpp\<close> and \<^verbatim>\<open>src/execution/kubernetes_capacity.cpp\<close>: the GPU
  requests of pods, the capacity of nodes, and the scan of the cluster. The request of one container is
  at most 10^12, so the 64-bit sums of the code are exact for fewer than nine million containers.
\<close>

section \<open>Resources\<close>

text \<open>
  A quantity in text: \<open>as_number\<close> is the regular expression, the conversion to \<open>long double\<close> and the
  test that the scaled value is an integer.
\<close>

definition gpu_quantity :: "(string \<Rightarrow> int option) \<Rightarrow> Json \<Rightarrow> int result" where
  "gpu_quantity as_number quantity =
     (let whole = (if is_number_integer quantity then Some (signed_take_bit 63 (integer_value quantity))
                   else case quantity of JString t \<Rightarrow> if length t \<le> 64 then as_number t else None | _ \<Rightarrow> None)
      in case whole of
           Some v \<Rightarrow> if 0 \<le> v \<and> v \<le> 1000000000000 then Inr v else throw invalid ''invalid whole-GPU resource quantity''
         | None \<Rightarrow> throw invalid ''invalid whole-GPU resource quantity'')"

definition requested :: "(string \<Rightarrow> int option) \<Rightarrow> Json \<Rightarrow> int result" where
  "requested as_number container =
     andthen (json_value get_json container ''resources'' (JObject [])) (\<lambda>resources.
     andthen (json_value get_json resources ''requests'' (JObject [])) (\<lambda>requests.
     andthen (json_value get_json resources ''limits'' (JObject [])) (\<lambda>limits.
     andthen (json_value get_json limits ''nvidia.com/gpu'' (JInteger 0)) (\<lambda>limit.
     andthen (json_value get_json requests ''nvidia.com/gpu'' limit) (gpu_quantity as_number)))))"

fun add_containers :: "(string \<Rightarrow> int option) \<Rightarrow> int \<Rightarrow> Json list \<Rightarrow> int result" where
  "add_containers as_number application [] = Inr application"
| "add_containers as_number application (c # cs) =
     andthen (requested as_number c) (\<lambda>n. add_containers as_number (application + n) cs)"

text \<open>The loop over the init containers, with the sidecars started so far and the peak.\<close>

fun add_init_containers :: "(string \<Rightarrow> int option) \<Rightarrow> int \<Rightarrow> int \<Rightarrow> Json list \<Rightarrow> (int \<times> int) result" where
  "add_init_containers as_number sidecars initialization [] = Inr (sidecars, initialization)"
| "add_init_containers as_number sidecars initialization (c # cs) =
     andthen (requested as_number c) (\<lambda>n.
     andthen (json_value get_string c ''restartPolicy'' []) (\<lambda>policy.
       if policy = ''Always'' then add_init_containers as_number (sidecars + n) (max initialization (sidecars + n)) cs
       else add_init_containers as_number sidecars (max initialization (sidecars + n)) cs))"

definition pod_gpu_request :: "(string \<Rightarrow> int option) \<Rightarrow> Json \<Rightarrow> int result" where
  "pod_gpu_request as_number pod =
     andthen (json_at pod ''spec'') (\<lambda>spec.
     andthen (json_value get_json spec ''containers'' (JArray [])) (\<lambda>containers.
     andthen (add_containers as_number 0 (elements containers)) (\<lambda>application.
     andthen (json_value get_json spec ''initContainers'' (JArray [])) (\<lambda>inits.
     andthen (add_init_containers as_number 0 0 (elements inits)) (\<lambda>(sidecars, initialization).
     andthen (json_value get_json spec ''overhead'' (JObject [])) (\<lambda>part.
     andthen (json_value get_json part ''nvidia.com/gpu'' (JInteger 0)) (\<lambda>quantity.
     andthen (gpu_quantity as_number quantity) (\<lambda>overhead.
       Inr (max (application + sidecars) initialization + overhead)))))))))"

text \<open>The last condition of type \<open>Ready\<close> decides.\<close>

fun node_ready :: "bool \<Rightarrow> Json list \<Rightarrow> bool result" where
  "node_ready ready [] = Inr ready"
| "node_ready ready (c # cs) =
     andthen (json_value get_string c ''type'' []) (\<lambda>kind.
       if kind = ''Ready'' then andthen (json_value get_string c ''status'' []) (\<lambda>status. node_ready (status = ''True'') cs)
       else node_ready ready cs)"

definition gpu_node_capacity :: "(string \<Rightarrow> int option) \<Rightarrow> Json \<Rightarrow> GpuNodeCapacity result" where
  "gpu_node_capacity as_number node =
     andthen (json_at node ''metadata'') (\<lambda>metadata.
     andthen (andthen (json_at metadata ''name'') get_string) (\<lambda>name.
     andthen (json_value get_json node ''status'' (JObject [])) (\<lambda>status.
     andthen (andthen (json_value get_json status ''capacity'' (JObject [])) (\<lambda>part.
       andthen (json_value get_json part ''nvidia.com/gpu'' (JInteger 0)) (gpu_quantity as_number))) (\<lambda>capacity.
     andthen (andthen (json_value get_json status ''allocatable'' (JObject [])) (\<lambda>part.
       andthen (json_value get_json part ''nvidia.com/gpu'' (JInteger 0)) (gpu_quantity as_number))) (\<lambda>allocatable.
     andthen (json_value get_json status ''conditions'' (JArray [])) (\<lambda>conditions.
     andthen (node_ready False (elements conditions)) (\<lambda>ready.
     andthen (andthen (json_value get_json node ''spec'' (JObject [])) (\<lambda>spec.
       json_value get_bool spec ''unschedulable'' False)) (\<lambda>unschedulable.
     andthen (if ready \<and> \<not> unschedulable
              then andthen (json_value get_json metadata ''labels'' (JObject [])) (\<lambda>labels.
                     andthen (json_value get_string labels ''runyard.io/gpu-mode'' []) (\<lambda>mode. Inr (mode = ''exclusive'')))
              else Inr False) (\<lambda>eligible.
       Inr \<lparr>gn_name = name, gn_capacity = capacity, gn_allocatable = allocatable, gn_reserved = 0,
         gn_ready = ready, gn_schedulable = \<not> unschedulable, gn_eligible = eligible\<rparr>)))))))))"

section \<open>The scan\<close>

text \<open>
  What the scan asks of the world: the fetch function, and whether the stop was requested or the
  deadline has passed. Escaping and parsing are those of the libraries.
\<close>

record 's CapacityScan =
  sc_fetch :: "string \<Rightarrow> (HttpResult, 's) io"
  sc_interrupted :: "(bool, 's) io"
  sc_escape :: "string \<Rightarrow> string"
  sc_parse :: "string \<Rightarrow> Json result"
  sc_number :: "string \<Rightarrow> int option"

fun consume_items :: "(Json \<Rightarrow> 'a \<Rightarrow> 'a result) \<Rightarrow> nat \<Rightarrow> 'a \<Rightarrow> Json list \<Rightarrow> (nat \<times> 'a) result" where
  "consume_items consume seen acc [] = Inr (seen, acc)"
| "consume_items consume seen acc (item # items) =
     (if 10000 < Suc seen then throw exhausted ''cluster capacity inventory exceeds 10000 resources''
      else andthen (consume item acc) (\<lambda>acc'. consume_items consume (Suc seen) acc' items))"

text \<open>One turn of the loop: the cursor of the next page, the items so far and what was made of them.\<close>

definition scan_page ::
    "'s CapacityScan \<Rightarrow> string \<Rightarrow> (Json \<Rightarrow> 'a \<Rightarrow> 'a result) \<Rightarrow> string \<Rightarrow> nat \<Rightarrow> 'a \<Rightarrow> (string \<times> nat \<times> 'a, 's) io" where
  "scan_page scan resource consume cursor seen acc =
     then_io (sc_interrupted scan) (\<lambda>interrupted.
     if interrupted then pure (throw unavailable ''capacity scan interrupted or timed out'') else
     then_io (sc_fetch scan (resource @ ''?limit=100&continue='' @ sc_escape scan cursor)) (\<lambda>response.
     if ht_status response \<noteq> 200 then pure (throw unavailable ''cluster capacity listing unavailable'')
     else pure (andthen (sc_parse scan (ht_body response)) (\<lambda>page.
       andthen (json_at page ''items'') (\<lambda>items.
       andthen (consume_items consume seen acc (elements items)) (\<lambda>(seen', acc').
       andthen (json_at page ''metadata'') (\<lambda>metadata.
       andthen (json_value get_string metadata ''continue'' []) (\<lambda>next_cursor.
         Inr (next_cursor, seen', acc')))))))))"

text \<open>\<open>None\<close>: neither the pages nor the time ever end.\<close>

partial_function (option) each_page_from ::
    "'s CapacityScan \<Rightarrow> string \<Rightarrow> (Json \<Rightarrow> 'a \<Rightarrow> 'a result) \<Rightarrow> string set \<Rightarrow> string \<Rightarrow> nat \<Rightarrow> 'a \<Rightarrow> 's \<Rightarrow> ('a result \<times> 's) option" where
  "each_page_from scan resource consume cursors cursor seen acc s =
     (case scan_page scan resource consume cursor seen acc s of
        (Inl ex, s') \<Rightarrow> Some (Inl ex, s')
      | (Inr (next_cursor, seen', acc'), s') \<Rightarrow>
          if next_cursor = [] then Some (Inr acc', s')
          else if next_cursor \<in> cursors
          then Some (throw unavailable ''cluster capacity pagination repeated a cursor'', s')
          else each_page_from scan resource consume (insert next_cursor cursors) next_cursor seen' acc' s')"

definition each_page ::
    "'s CapacityScan \<Rightarrow> string \<Rightarrow> (Json \<Rightarrow> 'a \<Rightarrow> 'a result) \<Rightarrow> 'a \<Rightarrow> 's \<Rightarrow> ('a result \<times> 's) option" where
  "each_page scan resource consume acc s = each_page_from scan resource consume {} [] 0 acc s"

record KubernetesCapacity =
  kp_last :: ClusterGpuSnapshot
  kp_observed :: int
  kp_successful :: bool

definition new_KubernetesCapacity :: KubernetesCapacity where
  "new_KubernetesCapacity = \<lparr>kp_last = \<lparr>cs_nodes = [], cs_pending = 0, cs_observed_at = None, cs_age_seconds = None,
     cs_fresh = False\<rparr>, kp_observed = 0, kp_successful = False\<rparr>"

definition consume_node :: "(string \<Rightarrow> int option) \<Rightarrow> Json \<Rightarrow> GpuNodeCapacity list \<Rightarrow> GpuNodeCapacity list result" where
  "consume_node as_number node nodes = andthen (gpu_node_capacity as_number node) (\<lambda>n. Inr (nodes @ [n]))"

definition reservation :: "(string, int) stdmap \<Rightarrow> string \<Rightarrow> int" where
  "reservation m node = (case map_of m node of None \<Rightarrow> 0 | Some n \<Rightarrow> n)"

definition consume_pod ::
    "(string \<Rightarrow> int option) \<Rightarrow> Json \<Rightarrow> int \<times> (string, int) stdmap \<Rightarrow> (int \<times> (string, int) stdmap) result" where
  "consume_pod as_number pod acc =
     (case acc of (waiting, reservations) \<Rightarrow>
      andthen (json_value get_json pod ''status'' (JObject [])) (\<lambda>status.
      andthen (json_value get_string status ''phase'' []) (\<lambda>phase.
      if phase = ''Succeeded'' \<or> phase = ''Failed'' then Inr acc else
      andthen (pod_gpu_request as_number pod) (\<lambda>n.
      andthen (andthen (json_at pod ''spec'') (\<lambda>spec. json_value get_string spec ''nodeName'' [])) (\<lambda>node.
        if node = [] then Inr (waiting + n, reservations)
        else Inr (waiting, map_put node (reservation reservations node + n) reservations))))))"

text \<open>
  \<open>refresh\<close>: the snapshot is replaced only at the end of a scan that met no error. \<open>stamp\<close> is
  \<open>timestamp()\<close>, \<open>now\<close> the steady clock in nanoseconds, both read after the scan.
\<close>

definition refresh_capacity ::
    "'s CapacityScan \<Rightarrow> int \<Rightarrow> int \<Rightarrow> KubernetesCapacity \<Rightarrow> 's \<Rightarrow> (unit result \<times> KubernetesCapacity \<times> 's) option" where
  "refresh_capacity scan stamp now k s =
     (case each_page scan ''/api/v1/nodes'' (consume_node (sc_number scan)) [] s of
        None \<Rightarrow> None
      | Some (Inl ex, s1) \<Rightarrow> Some (Inl ex, k\<lparr>kp_successful := False\<rparr>, s1)
      | Some (Inr nodes, s1) \<Rightarrow>
          (case each_page scan ''/api/v1/pods'' (consume_pod (sc_number scan)) (0, []) s1 of
             None \<Rightarrow> None
           | Some (Inl ex, s2) \<Rightarrow> Some (Inl ex, k\<lparr>kp_successful := False\<rparr>, s2)
           | Some (Inr (waiting, reservations), s2) \<Rightarrow>
               Some (Inr (), \<lparr>kp_last = \<lparr>
                   cs_nodes = sort_by (\<lambda>a b. gn_name a \<le> gn_name b)
                     (map (\<lambda>n. n\<lparr>gn_reserved := reservation reservations (gn_name n)\<rparr>) nodes),
                   cs_pending = waiting, cs_observed_at = Some stamp, cs_age_seconds = None, cs_fresh = False\<rparr>,
                 kp_observed = now, kp_successful = True\<rparr>, s2)))"

definition capacity_snapshot :: "int \<Rightarrow> KubernetesCapacity \<Rightarrow> ClusterGpuSnapshot" where
  "capacity_snapshot now k =
     (if cs_observed_at (kp_last k) = None then kp_last k
      else let age = max 0 ((now - kp_observed k) div 1000000000)
           in (kp_last k)\<lparr>cs_age_seconds := Some age, cs_fresh := kp_successful k \<and> age < 45\<rparr>)"

section \<open>Requests\<close>

text \<open>
  The reference: what runs together. Every init container runs beside the sidecars started before it;
  at the end all sidecars run beside the application containers.
\<close>

definition init_step :: "(string \<Rightarrow> int option) \<Rightarrow> Json \<Rightarrow> (int \<times> bool) result" where
  "init_step as_number c =
     andthen (requested as_number c) (\<lambda>n. andthen (json_value get_string c ''restartPolicy'' []) (\<lambda>policy.
       Inr (n, policy = ''Always'')))"

fun init_phases :: "int list \<Rightarrow> (int \<times> bool) list \<Rightarrow> int list list" where
  "init_phases sidecars [] = []"
| "init_phases sidecars ((n, stays) # steps) =
     (sidecars @ [n]) # init_phases (if stays then sidecars @ [n] else sidecars) steps"

definition pod_phases :: "int list \<Rightarrow> (int \<times> bool) list \<Rightarrow> int list list" where
  "pod_phases application steps = (application @ map fst (filter snd steps)) # init_phases [] steps"

definition peak_request :: "(string \<Rightarrow> int option) \<Rightarrow> Json \<Rightarrow> int result" where
  "peak_request as_number pod =
     andthen (json_at pod ''spec'') (\<lambda>spec.
     andthen (json_value get_json spec ''containers'' (JArray [])) (\<lambda>containers.
     andthen (map_result (requested as_number) (elements containers)) (\<lambda>application.
     andthen (json_value get_json spec ''initContainers'' (JArray [])) (\<lambda>inits.
     andthen (map_result (init_step as_number) (elements inits)) (\<lambda>steps.
     andthen (json_value get_json spec ''overhead'' (JObject [])) (\<lambda>part.
     andthen (json_value get_json part ''nvidia.com/gpu'' (JInteger 0)) (\<lambda>quantity.
     andthen (gpu_quantity as_number quantity) (\<lambda>overhead.
       Inr (Max (sum_list ` set (pod_phases application steps)) + overhead)))))))))"

lemma map_result_Cons: "map_result f (x # xs) = andthen (f x) (\<lambda>y. andthen (map_result f xs) (\<lambda>ys. Inr (y # ys)))"
  by (simp add: andthen_def split: sum.splits)

lemma andthen_assoc: "andthen (andthen r f) g = andthen r (\<lambda>v. andthen (f v) g)"
  by (cases r) simp_all

lemma andthen_cong: "(\<And>v. r = Inr v \<Longrightarrow> f v = g v) \<Longrightarrow> andthen r f = andthen r g"
  by (cases r) simp_all

lemma requested_nonneg: "requested as_number c = Inr n \<Longrightarrow> 0 \<le> n"
  by (auto simp: requested_def gpu_quantity_def andthen_ok Let_def split: option.splits if_splits)

lemma add_containers_sum:
  "add_containers as_number a cs = andthen (map_result (requested as_number) cs) (\<lambda>ns. Inr (a + sum_list ns))"
proof (induction cs arbitrary: a)
  case (Cons c cs)
  then show ?case by (simp add: map_result_Cons andthen_assoc add.assoc del: map_result.simps)
qed simp

lemma add_init_containers_phases:
  "add_init_containers as_number (sum_list beside) peak cs =
     andthen (map_result (init_step as_number) cs) (\<lambda>steps.
       Inr (sum_list beside + sum_list (map fst (filter snd steps)), fold max (map sum_list (init_phases beside steps)) peak))"
proof (induction cs arbitrary: beside peak)
  case (Cons c cs)
  have *: "add_init_containers as_number (sum_list beside + n) peak cs =
      andthen (map_result (init_step as_number) cs) (\<lambda>steps. Inr (sum_list beside + n + sum_list (map fst (filter snd steps)),
        fold max (map sum_list (init_phases (beside @ [n]) steps)) peak))" for n peak
    using Cons.IH[of "beside @ [n]" peak] by simp
  have step: "init_step as_number c = andthen (requested as_number c) (\<lambda>n.
      andthen (json_value get_string c ''restartPolicy'' []) (\<lambda>policy. Inr (n, policy = ''Always'')))"
    by (simp add: init_step_def)
  show ?case
    by (simp add: map_result_Cons step andthen_assoc * Cons.IH cong: if_cong del: map_result.simps)
      (auto intro!: andthen_cong simp: add.assoc max.commute)
qed simp

lemma max_fold_max: "max a (fold max xs (b :: int)) = fold max xs (max a b)"
  by (induction xs arbitrary: b) (simp_all add: ac_simps)

lemma requests_nonneg: "map_result (requested as_number) cs = Inr ns \<Longrightarrow> 0 \<le> sum_list ns"
proof (induction cs arbitrary: ns)
  case (Cons c cs)
  then show ?case using requested_nonneg by (fastforce simp: map_result_Cons andthen_ok simp del: map_result.simps)
qed simp

lemma steps_nonneg: "map_result (init_step as_number) cs = Inr steps \<Longrightarrow> 0 \<le> sum_list (map fst (filter snd steps))"
proof (induction cs arbitrary: steps)
  case (Cons c cs)
  from Cons.prems obtain n stays rest where "requested as_number c = Inr n" "steps = (n, stays) # rest"
    "map_result (init_step as_number) cs = Inr rest"
    unfolding map_result_Cons by (auto simp: andthen_ok init_step_def)
  with Cons.IH requested_nonneg show ?case by fastforce
qed simp

text \<open>
  The GPU request of a pod is the peak of what its containers hold at the same time. Over every
  pod, malformed ones included, the running sums of the code agree with the reference that lists the
  phases of the pod's life, adds up each and takes the largest, plus the overhead.
\<close>

theorem pod_requests_are_the_peak: "pod_gpu_request as_number pod = peak_request as_number pod"
proof -
  have peak: "max (a + sum_list (map fst (filter snd steps))) (fold max (map sum_list (init_phases [] steps)) 0) =
      Max (sum_list ` set (pod_phases application steps))"
    if "a = sum_list application" "0 \<le> sum_list application" "0 \<le> sum_list (map fst (filter snd steps))" for a application steps
  proof -
    have "sum_list ` set (pod_phases application steps) =
        set ((sum_list application + sum_list (map fst (filter snd steps))) # map sum_list (init_phases [] steps))"
      by (simp add: pod_phases_def)
    with that show ?thesis by (simp only: Max.set_eq_fold max_fold_max) simp
  qed
  show ?thesis
    unfolding pod_gpu_request_def peak_request_def add_containers_sum add_init_containers_phases[of _ "[]", simplified]
    by (simp add: andthen_assoc) (auto intro!: andthen_cong simp: peak[OF refl requests_nonneg steps_nonneg])
qed

section \<open>Scans\<close>

text \<open>Collecting the items of the pages, and consuming a list of items.\<close>

definition gather :: "Json \<Rightarrow> Json list \<Rightarrow> Json list result" where
  "gather item acc = Inr (acc @ [item])"

fun consume_all :: "(Json \<Rightarrow> 'a \<Rightarrow> 'a result) \<Rightarrow> Json list \<Rightarrow> 'a \<Rightarrow> 'a result" where
  "consume_all consume [] acc = Inr acc"
| "consume_all consume (item # items) acc = andthen (consume item acc) (consume_all consume items)"

lemma consume_items_all:
  "consume_items consume seen acc items = Inr (seen', acc') \<Longrightarrow> consume_all consume items acc = Inr acc' \<and>
     seen' = seen + length items \<and> consume_items gather seen pre items = Inr (seen', pre @ items)"
proof (induction items arbitrary: seen acc pre)
  case (Cons item items)
  from Cons.prems obtain acc1 where "\<not> 10000 < Suc seen" "consume item acc = Inr acc1"
    "consume_items consume (Suc seen) acc1 items = Inr (seen', acc')"
    by (auto simp: andthen_ok split: if_splits)
  with Cons.IH[OF this(3), of "pre @ [item]"] show ?case by (simp add: gather_def)
qed simp

lemma consume_all_append:
  "consume_all consume (xs @ ys) acc = andthen (consume_all consume xs acc) (consume_all consume ys)"
  by (induction xs arbitrary: acc) (auto simp: andthen_assoc intro!: andthen_cong)

lemma scan_page_items:
  assumes "scan_page scan resource consume cursor seen acc s = (Inr (next_cursor, seen', acc'), s')"
  shows "\<exists>items. consume_all consume items acc = Inr acc' \<and>
    (\<forall>pre. scan_page scan resource gather cursor seen pre s = (Inr (next_cursor, seen', pre @ items), s'))"
proof -
  from assms obtain s1 response page items metadata where
      "sc_interrupted scan s = (Inr False, s1)"
      "sc_fetch scan (resource @ ''?limit=100&continue='' @ sc_escape scan cursor) s1 = (Inr response, s')"
      "ht_status response = 200" "sc_parse scan (ht_body response) = Inr page" "json_at page ''items'' = Inr items"
      "consume_items consume seen acc (elements items) = Inr (seen', acc')"
      "json_at page ''metadata'' = Inr metadata" "json_value get_string metadata ''continue'' [] = Inr next_cursor"
    unfolding scan_page_def by (auto simp: then_io_ok andthen_ok split: if_splits)
  with consume_items_all[of consume seen acc "elements items" seen' acc']
  show ?thesis by (intro exI[of _ "elements items"]) (auto simp: scan_page_def then_io_def pure_def)
qed

lemma each_page_from_gathers:
  assumes "each_page_from scan resource consume cursors cursor seen acc s = Some (Inr acc', s')"
  shows "\<exists>items. consume_all consume items acc = Inr acc' \<and>
    (\<forall>pre. each_page_from scan resource gather cursors cursor seen pre s = Some (Inr (pre @ items), s'))"
proof -
  have "each_page_from scan resource consume cursors cursor seen acc s = Some r \<Longrightarrow> r = (Inr acc', s') \<Longrightarrow> ?thesis" for r
  proof (induction scan resource consume cursors cursor seen acc s r rule: each_page_from.raw_induct[rotated, consumes 1, case_names step])
    case (step rec scan resource consume cursors cursor seen acc s r)
    from step(2,3) obtain next_cursor seen' acc1 s1 where
        page: "scan_page scan resource consume cursor seen acc s = (Inr (next_cursor, seen', acc1), s1)"
      by (auto split: prod.splits sum.splits)
    from scan_page_items[OF this] obtain items where items: "consume_all consume items acc = Inr acc1"
      and gathered: "\<And>pre. scan_page scan resource gather cursor seen pre s = (Inr (next_cursor, seen', pre @ items), s1)"
      by blast
    show ?case
    proof (cases "next_cursor = []")
      case True
      with step(2,3) page items gathered show ?thesis
        by (auto intro!: exI[of _ items] simp: each_page_from.simps[of scan resource gather])
    next
      case False
      with step(2,3) page have new: "next_cursor \<notin> cursors"
        and rest: "rec scan resource consume (insert next_cursor cursors) next_cursor seen' acc1 s1 = Some (Inr acc', s')"
        by (auto split: if_splits)
      from step(1)[OF rest refl] obtain more where "consume_all consume more acc1 = Inr acc'"
        "\<And>pre. each_page_from scan resource gather (insert next_cursor cursors) next_cursor seen' pre s1 = Some (Inr (pre @ more), s')"
        by blast
      with items gathered False new show ?thesis
        by (intro exI[of _ "items @ more"])
          (auto simp: consume_all_append each_page_from.simps[of scan resource gather cursors])
    qed
  qed
  with assms show ?thesis by blast
qed

lemma each_page_gathers:
  assumes "each_page scan resource consume acc s = Some (Inr acc', s')"
  shows "\<exists>items. consume_all consume items acc = Inr acc' \<and> each_page scan resource gather [] s = Some (Inr items, s')"
  using each_page_from_gathers[OF assms[unfolded each_page_def]] unfolding each_page_def by (metis append_Nil)

section \<open>The snapshot\<close>

text \<open>Where an active pod's request goes: its node, or none yet; \<open>None\<close> for a pod that has finished.\<close>

definition pod_placement :: "(string \<Rightarrow> int option) \<Rightarrow> Json \<Rightarrow> (string \<times> int) option result" where
  "pod_placement as_number pod =
     andthen (json_value get_json pod ''status'' (JObject [])) (\<lambda>status.
     andthen (json_value get_string status ''phase'' []) (\<lambda>phase.
     if phase = ''Succeeded'' \<or> phase = ''Failed'' then Inr None else
     andthen (pod_gpu_request as_number pod) (\<lambda>n.
     andthen (andthen (json_at pod ''spec'') (\<lambda>spec. json_value get_string spec ''nodeName'' [])) (\<lambda>node.
       Inr (Some (node, n))))))"

definition placed :: "(string \<times> int) option list \<Rightarrow> string \<Rightarrow> int" where
  "placed placements node = sum_list (map snd (filter (\<lambda>p. fst p = node) (List.map_filter (\<lambda>p. p) placements)))"

lemma placed_simps [simp]:
  "placed [] node = 0" "placed (None # ps) node = placed ps node"
  "placed (Some (k, n) # ps) node = (if k = node then n else 0) + placed ps node"
  by (simp_all add: placed_def map_filter_def)

lemma consume_pod_placement:
  "consume_pod as_number pod (waiting, m) = andthen (pod_placement as_number pod) (\<lambda>p.
     Inr (case p of None \<Rightarrow> (waiting, m)
       | Some (node, n) \<Rightarrow> if node = [] then (waiting + n, m) else (waiting, map_put node (reservation m node + n) m)))"
  by (simp add: consume_pod_def pod_placement_def andthen_assoc) (auto intro!: andthen_cong simp: andthen_assoc)

lemma reservation_put: "map_wf m \<Longrightarrow> reservation (map_put k n m) node = (if node = k then n else reservation m node)"
  by (simp add: reservation_def)

lemma consume_pods:
  assumes "consume_all (consume_pod as_number) pods (waiting, m) = Inr (waiting', m')" and "map_wf m"
  shows "\<exists>placements. map_result (pod_placement as_number) pods = Inr placements \<and> waiting' = waiting + placed placements [] \<and>
    (\<forall>node. node \<noteq> [] \<longrightarrow> reservation m' node = reservation m node + placed placements node)"
  using assms
proof (induction pods arbitrary: waiting m)
  case (Cons pod pods)
  from Cons.prems(1) obtain p where p: "pod_placement as_number pod = Inr p"
    by (auto simp: consume_pod_placement andthen_ok)
  define acc where "acc = (case p of None \<Rightarrow> (waiting, m)
       | Some (node, n) \<Rightarrow> if node = [] then (waiting + n, m) else (waiting, map_put node (reservation m node + n) m))"
  from Cons.prems(1) p have rest: "consume_all (consume_pod as_number) pods (fst acc, snd acc) = Inr (waiting', m')"
    by (simp add: consume_pod_placement acc_def)
  have "map_wf (snd acc)" using Cons.prems(2) by (simp add: acc_def split: option.splits prod.splits)
  from Cons.IH[OF rest this] obtain placements where "map_result (pod_placement as_number) pods = Inr placements"
    "waiting' = fst acc + placed placements []"
    "\<And>node. node \<noteq> [] \<Longrightarrow> reservation m' node = reservation (snd acc) node + placed placements node" by blast
  with p Cons.prems(2) show ?case
    by (intro exI[of _ "p # placements"])
      (auto simp: acc_def map_result_Cons reservation_put split: option.splits simp del: map_result.simps)
qed simp

lemma consume_node_Cons:
  "consume_all (consume_node as_number) (item # items) nodes =
     andthen (gpu_node_capacity as_number item) (\<lambda>n. consume_all (consume_node as_number) items (nodes @ [n]))"
  by (cases "gpu_node_capacity as_number item") (simp_all add: consume_node_def)

lemma consume_nodes:
  "consume_all (consume_node as_number) items nodes = Inr nodes' \<Longrightarrow>
     \<exists>new. map_result (gpu_node_capacity as_number) items = Inr new \<and> nodes' = nodes @ new"
proof (induction items arbitrary: nodes)
  case (Cons item items)
  from Cons.prems obtain n where n: "gpu_node_capacity as_number item = Inr n"
    and rest: "consume_all (consume_node as_number) items (nodes @ [n]) = Inr nodes'"
    by (auto simp: consume_node_Cons andthen_ok simp del: consume_all.simps)
  from Cons.IH[OF rest] n show ?case by (auto simp: map_result_Cons simp del: map_result.simps)
qed simp

lemma node_name_of: "gpu_node_capacity as_number node = Inr n \<Longrightarrow>
    \<exists>metadata. json_at node ''metadata'' = Inr metadata \<and> json_at metadata ''name'' = Inr (JString (gn_name n))"
  by (auto simp: gpu_node_capacity_def andthen_ok dest!: get_string_ok)

lemma mset_insert_by [simp]: "mset (insert_by le x ys) = add_mset x (mset ys)"
  by (induction ys) auto

lemma mset_sort_by [simp]: "mset (sort_by le xs) = mset xs"
  by (induction xs) auto

text \<open>
  The snapshot accounts for every pod. When a refresh succeeds, its nodes are the capacities of
  all nodes on all pages, ordered by name, and each named node's reservation is the sum of the requests of
  all the pods on all pages that are assigned to it and have not finished; the pending amount is the sum
  of those that have no node yet.
\<close>

theorem refresh_accounts_for_every_pod:
  assumes "refresh_capacity scan stamp now k s = Some (Inr (), k', s')"
  shows "\<exists>items pods s1 nodes placements.
    each_page scan ''/api/v1/nodes'' gather [] s = Some (Inr items, s1) \<and>
    each_page scan ''/api/v1/pods'' gather [] s1 = Some (Inr pods, s') \<and>
    map_result (gpu_node_capacity (sc_number scan)) items = Inr nodes \<and>
    map_result (pod_placement (sc_number scan)) pods = Inr placements \<and>
    sorted (map gn_name (cs_nodes (kp_last k'))) \<and>
    mset (map (\<lambda>n. n\<lparr>gn_reserved := 0\<rparr>) (cs_nodes (kp_last k'))) = mset (map (\<lambda>n. n\<lparr>gn_reserved := 0\<rparr>) nodes) \<and>
    (\<forall>n\<in>set (cs_nodes (kp_last k')). gn_name n \<noteq> [] \<longrightarrow> gn_reserved n = placed placements (gn_name n)) \<and>
    cs_pending (kp_last k') = placed placements []"
proof -
  from assms obtain nodes s1 waiting m where
      scan1: "each_page scan ''/api/v1/nodes'' (consume_node (sc_number scan)) [] s = Some (Inr nodes, s1)"
    and scan2: "each_page scan ''/api/v1/pods'' (consume_pod (sc_number scan)) (0, []) s1 = Some (Inr (waiting, m), s')"
    and k': "cs_nodes (kp_last k') = sort_by (\<lambda>a b. gn_name a \<le> gn_name b)
        (map (\<lambda>n. n\<lparr>gn_reserved := reservation m (gn_name n)\<rparr>) nodes)" "cs_pending (kp_last k') = waiting"
    unfolding refresh_capacity_def by (auto split: option.splits prod.splits sum.splits)
  from each_page_gathers[OF scan1] obtain items
    where items: "consume_all (consume_node (sc_number scan)) items [] = Inr nodes"
      "each_page scan ''/api/v1/nodes'' gather [] s = Some (Inr items, s1)" by blast
  from each_page_gathers[OF scan2] obtain pods
    where pods: "consume_all (consume_pod (sc_number scan)) pods (0, []) = Inr (waiting, m)"
      "each_page scan ''/api/v1/pods'' gather [] s1 = Some (Inr pods, s')" by blast
  from consume_pods[OF pods(1)] obtain placements
    where placements: "map_result (pod_placement (sc_number scan)) pods = Inr placements" "waiting = placed placements []"
      and amounts: "\<And>node. node \<noteq> [] \<Longrightarrow> reservation m node = placed placements node"
    by (auto simp: reservation_def)
  from consume_nodes[OF items(1)] have nodes: "map_result (gpu_node_capacity (sc_number scan)) items = Inr nodes" by simp
  have "sorted_wrt (\<lambda>a b. gn_name a \<le> gn_name b) (cs_nodes (kp_last k'))"
    unfolding k'(1) by (rule sorted_wrt_sort_by) auto
  then have "sorted (map gn_name (cs_nodes (kp_last k')))" by (simp add: sorted_wrt_map)
  moreover have "mset (map (\<lambda>n. n\<lparr>gn_reserved := 0\<rparr>) (cs_nodes (kp_last k'))) = mset (map (\<lambda>n. n\<lparr>gn_reserved := 0\<rparr>) nodes)"
    by (simp add: k'(1) image_mset.compositionality comp_def)
  moreover have "gn_reserved n = placed placements (gn_name n)"
    if "n \<in> set (cs_nodes (kp_last k'))" "gn_name n \<noteq> []" for n
    using that amounts by (auto simp: k'(1))
  ultimately show ?thesis using items(2) pods(2) nodes placements k'(2) by blast
qed

text \<open>Every state of the object; a refresh may end in any way.\<close>

definition capacity_step :: "'s CapacityScan \<Rightarrow> KubernetesCapacity \<Rightarrow> KubernetesCapacity \<Rightarrow> bool" where
  "capacity_step scan k k' \<longleftrightarrow> (\<exists>stamp now s r s'. refresh_capacity scan stamp now k s = Some (r, k', s'))"

lemma capacity_refresh_cases:
  assumes "refresh_capacity scan stamp now k s = Some (res, k', s')"
  obtains (failed) ex where "res = Inl ex" "k' = k\<lparr>kp_successful := False\<rparr>"
  | (good) "res = Inr ()" "cs_observed_at (kp_last k') = Some stamp" "\<not> cs_fresh (kp_last k')" "kp_observed k' = now"
      "kp_successful k'"
proof -
  from assms have "(\<exists>ex. res = Inl ex \<and> k' = k\<lparr>kp_successful := False\<rparr>) \<or>
      res = Inr () \<and> cs_observed_at (kp_last k') = Some stamp \<and> \<not> cs_fresh (kp_last k') \<and> kp_observed k' = now \<and> kp_successful k'"
    unfolding refresh_capacity_def by (auto split: option.split_asm prod.split_asm sum.split_asm)
  then show ?thesis using failed good by blast
qed

interpretation capacity: invariant_machine new_KubernetesCapacity "capacity_step scan"
    "\<lambda>k. \<not> cs_fresh (kp_last k) \<and> (cs_observed_at (kp_last k) = None \<longrightarrow> \<not> kp_successful k)" for scan
  by unfold_locales (auto simp: new_KubernetesCapacity_def capacity_step_def elim!: capacity_refresh_cases)

text \<open>
  Old capacity is never presented as current. After any history of refreshes, a snapshot is fresh
  exactly when the last refresh has succeeded and less than 45 seconds have passed since; a refresh that
  fails keeps the nodes of the last good scan but not their freshness.
\<close>

theorem stale_capacity_is_not_fresh:
  assumes "reach new_KubernetesCapacity (capacity_step scan) k"
    and "refresh_capacity scan stamp now k s = Some (res, k', s')" and "now \<le> later"
  shows "(cs_fresh (capacity_snapshot later k') \<longleftrightarrow> res = Inr () \<and> later - now < 45 * 1000000000) \<and>
    (res \<noteq> Inr () \<longrightarrow> cs_nodes (capacity_snapshot later k') = cs_nodes (kp_last k))"
  using assms(2)
proof (cases rule: capacity_refresh_cases)
  case (failed ex)
  with capacity.reachable_inv[OF assms(1)] show ?thesis by (simp add: capacity_snapshot_def Let_def)
next
  case good
  then have "cs_fresh (capacity_snapshot later k') \<longleftrightarrow> (later - now) div 1000000000 < 45"
    by (simp add: capacity_snapshot_def Let_def)
  also have "\<dots> \<longleftrightarrow> later - now < 45 * 1000000000"
    using div_mult_mod_eq[of "later - now" 1000000000] pos_mod_bound[of 1000000000 "later - now"]
      pos_mod_sign[of 1000000000 "later - now"] by linarith
  finally show ?thesis using good by simp
qed

text \<open>The time left to the deadline: it never grows, and a page takes some of it.\<close>

definition time_runs :: "'s CapacityScan \<Rightarrow> ('s \<Rightarrow> nat) \<Rightarrow> bool" where
  "time_runs scan left \<longleftrightarrow>
     (\<forall>s r s'. sc_interrupted scan s = (r, s') \<longrightarrow> left s' \<le> left s \<and> (r = Inr False \<longrightarrow> 0 < left s')) \<and>
     (\<forall>path s r s'. sc_fetch scan path s = (r, s') \<longrightarrow> 0 < left s \<longrightarrow> left s' < left s)"

lemma scan_page_time:
  assumes "time_runs scan left" and "scan_page scan resource consume cursor seen acc s = (Inr v, s')"
  shows "left s' < left s"
proof -
  from assms(2) obtain s1 response where 1: "sc_interrupted scan s = (Inr False, s1)"
    and 2: "sc_fetch scan (resource @ ''?limit=100&continue='' @ sc_escape scan cursor) s1 = (Inr response, s')"
    unfolding scan_page_def by (auto simp: then_io_ok split: if_splits)
  from assms(1) 1 have "left s1 \<le> left s" "0 < left s1" unfolding time_runs_def by blast+
  moreover from assms(1) 2 \<open>0 < left s1\<close> have "left s' < left s1" unfolding time_runs_def by blast
  ultimately show ?thesis by simp
qed

lemma each_page_ends:
  assumes "time_runs scan left"
  shows "\<exists>r. each_page_from scan resource consume cursors cursor seen acc s = Some r"
proof (induction "left s" arbitrary: s cursors cursor seen acc rule: less_induct)
  case less
  obtain r s' where run: "scan_page scan resource consume cursor seen acc s = (r, s')" by fastforce
  show ?case
  proof (cases r)
    case (Inl ex)
    with run show ?thesis by (simp add: each_page_from.simps[of _ _ _ _ _ _ _ s])
  next
    case (Inr v)
    obtain c n a where v: "v = (c, n, a)" by (cases v)
    from scan_page_time[OF assms run[unfolded Inr]] have "left s' < left s" .
    from less[OF this] run Inr v show ?thesis
      by (subst each_page_from.simps) auto
  qed
qed

text \<open>
  A scan ends. If the time left to the deadline never grows and every page takes some of it, a
  refresh returns, with a snapshot or with an error, even when the API never stops giving new cursors.
\<close>

theorem capacity_scans_end:
  assumes "time_runs scan left"
  shows "\<exists>res k' s'. refresh_capacity scan stamp now k s = Some (res, k', s')"
proof -
  have "\<exists>r s'. each_page scan resource consume acc s = Some (r, s')" for resource s
    and consume :: "Json \<Rightarrow> GpuNodeCapacity list \<Rightarrow> GpuNodeCapacity list result" and acc
    using each_page_ends[OF assms] unfolding each_page_def by (metis surj_pair)
  moreover have "\<exists>r s'. each_page scan resource consume acc s = Some (r, s')" for resource s
    and consume :: "Json \<Rightarrow> int \<times> (string, int) stdmap \<Rightarrow> (int \<times> (string, int) stdmap) result" and acc
    using each_page_ends[OF assms] unfolding each_page_def by (metis surj_pair)
  ultimately obtain r1 s1 r2 s2 where
    "each_page scan ''/api/v1/nodes'' (consume_node (sc_number scan)) [] s = Some (r1, s1)"
    "each_page scan ''/api/v1/pods'' (consume_pod (sc_number scan)) (0, []) s1 = Some (r2, s2)"
    by metis
  then show ?thesis
    unfolding refresh_capacity_def by (cases r1; cases r2) (auto split: prod.splits)
qed

section \<open>A cluster\<close>

definition demo_gpus :: "int \<Rightarrow> Json" where
  "demo_gpus n = json_object [(''nvidia.com/gpu'', JInteger n)]"

definition demo_node_json :: Json where
  "demo_node_json = json_object [(''metadata'', json_object [(''name'', JString ''a'')]),
     (''status'', json_object [(''capacity'', demo_gpus 4), (''allocatable'', demo_gpus 4)])]"

definition demo_pod_json :: "string \<Rightarrow> Json" where
  "demo_pod_json node = json_object [(''spec'', json_object [(''nodeName'', JString node),
     (''containers'', JArray [json_object [(''resources'', json_object [(''requests'', demo_gpus 2)])]]),
     (''initContainers'', JArray [json_object [(''resources'', json_object [(''limits'', demo_gpus 3)])]])])]"

definition demo_page :: "Json list \<Rightarrow> Json" where
  "demo_page items = json_object [(''items'', JArray items), (''metadata'', json_object [])]"

text \<open>The world is the number of calls left before the deadline.\<close>

definition demo_scan :: "nat CapacityScan" where
  "demo_scan = \<lparr>sc_fetch = (\<lambda>path s. (Inr \<lparr>ht_status = 200, ht_body = path\<rparr>, s - 1)),
     sc_interrupted = (\<lambda>s. (Inr (s = 0), s)), sc_escape = (\<lambda>t. t),
     sc_parse = (\<lambda>path. Inr (if path ! 8 = CHR ''n'' then demo_page [demo_node_json]
       else demo_page [demo_pod_json ''a'', demo_pod_json []])), sc_number = (\<lambda>t. None)\<rparr>"

lemma demo_reads:
  "gpu_node_capacity f demo_node_json = Inr \<lparr>gn_name = ''a'', gn_capacity = 4, gn_allocatable = 4, gn_reserved = 0,
     gn_ready = False, gn_schedulable = True, gn_eligible = False\<rparr>"
  "pod_gpu_request f (demo_pod_json node) = Inr 3"
  "json_at (demo_page items) ''items'' = Inr (JArray items)" "json_at (demo_page items) ''metadata'' = Inr (json_object [])"
  by (simp_all add: gpu_node_capacity_def demo_node_json_def pod_gpu_request_def demo_pod_json_def requested_def gpu_quantity_def
      demo_gpus_def demo_page_def json_at_def json_value_def get_json_def json_object_members)

definition demo_capacity :: "GpuNodeCapacity" where
  "demo_capacity = \<lparr>gn_name = ''a'', gn_capacity = 4, gn_allocatable = 4, gn_reserved = 3,
     gn_ready = False, gn_schedulable = True, gn_eligible = False\<rparr>"

definition demo_state :: KubernetesCapacity where
  "demo_state = \<lparr>kp_last = \<lparr>cs_nodes = [demo_capacity], cs_pending = 3, cs_observed_at = Some 7, cs_age_seconds = None,
     cs_fresh = False\<rparr>, kp_observed = 0, kp_successful = True\<rparr>"

lemma demo_page_end: "json_value get_string (json_object []) ''continue'' [] = Inr []"
  by (simp add: json_value_def json_object_members)

lemma demo_pod_phases: "consume_pod f (demo_pod_json node) (waiting, m) =
    Inr (if node = [] then (waiting + 3, m) else (waiting, map_put node (reservation m node + 3) m))"
proof -
  have "pod_placement f (demo_pod_json node) = Inr (Some (node, 3))"
    unfolding pod_placement_def demo_reads(2)
    by (simp add: demo_pod_json_def json_at_def json_value_def get_json_def json_object_members)
  then show ?thesis by (simp add: consume_pod_placement)
qed

lemma demo_refresh: "refresh_capacity demo_scan 7 0 k 5 = Some (Inr (), demo_state, 3)"
proof -
  have nodes: "each_page demo_scan ''/api/v1/nodes'' (consume_node (sc_number demo_scan)) [] 5 = Some (Inr [demo_capacity\<lparr>gn_reserved := 0\<rparr>], 4)"
    unfolding each_page_def
    by (subst each_page_from.simps) (simp add: scan_page_def then_io_def pure_def demo_scan_def demo_reads consume_node_def
        demo_capacity_def demo_page_end)
  have pods: "each_page demo_scan ''/api/v1/pods'' (consume_pod (sc_number demo_scan)) (0, []) 4 = Some (Inr (3, [(''a'', 3)]), 3)"
    unfolding each_page_def
    by (subst each_page_from.simps) (simp add: scan_page_def then_io_def pure_def demo_scan_def demo_reads demo_pod_phases
        reservation_def demo_page_end)
  show ?thesis
    by (simp add: refresh_capacity_def nodes pods demo_state_def demo_capacity_def reservation_def)
qed

theorem refresh_accounts_for_every_pod_witness:
  "refresh_capacity demo_scan 7 0 new_KubernetesCapacity 5 = Some (Inr (), demo_state, 3) \<and>
     (\<exists>placements. placed placements ''a'' = 3 \<and> placed placements [] = 3)"
  using refresh_accounts_for_every_pod[OF demo_refresh[of new_KubernetesCapacity]] demo_refresh[of new_KubernetesCapacity]
  by (auto simp: demo_state_def demo_capacity_def)

theorem stale_capacity_is_not_fresh_witness:
  "cs_fresh (capacity_snapshot 44999999999 demo_state) \<and> \<not> cs_fresh (capacity_snapshot 45000000000 demo_state)"
  using stale_capacity_is_not_fresh[OF reach.reach_init[of new_KubernetesCapacity "capacity_step demo_scan"] demo_refresh, of 44999999999]
    stale_capacity_is_not_fresh[OF reach.reach_init[of new_KubernetesCapacity "capacity_step demo_scan"] demo_refresh, of 45000000000]
  by simp

text \<open>An API that always gives a new cursor.\<close>

definition endless_scan :: "nat CapacityScan" where
  "endless_scan = demo_scan\<lparr>sc_fetch := \<lambda>path s. (Inr \<lparr>ht_status = 200, ht_body = path\<rparr>, s - 1),
     sc_parse := \<lambda>path. Inr (json_object [(''items'', JArray []), (''metadata'', json_object [(''continue'', JString path)])])\<rparr>"

theorem capacity_scans_end_witness:
  "\<exists>res k' s'. refresh_capacity endless_scan 7 0 new_KubernetesCapacity 5 = Some (res, k', s')"
proof -
  have "time_runs endless_scan (\<lambda>s. s)"
    by (auto simp: time_runs_def endless_scan_def demo_scan_def)
  then show ?thesis by (rule capacity_scans_end)
qed

end
