(* ===== verification/Orchestration.thy ===== *)
theory Orchestration
  imports Execution_Backend Store_System
begin

text \<open>
  What the Kubernetes controller and the agent have in common: each alternates calls of a container
  backend with transactions of the coordinator's database. Between two of its transactions other
  clients may commit theirs, and the connection may be lost, before or after a transaction has
  committed. The log keeps the calls with their results, for the properties.
\<close>

text \<open>What happens at the n-th transaction: its clock and ids, the others before it, and a lost
  connection with whether the transaction has committed.\<close>

record Outside =
  os_env :: "nat \<Rightarrow> env"
  os_others :: "nat \<Rightarrow> db \<Rightarrow> db"
  os_outage :: "nat \<Rightarrow> (exn \<times> bool) option"

record ('l, 's) Cluster =
  cl_db :: db
  cl_calls :: nat
  cl_log :: "'l list"
  cl_world :: 's

definition backend_call :: "('a result \<Rightarrow> 'l) \<Rightarrow> ('a, 's) io \<Rightarrow> ('a, ('l, 's) Cluster) io" where
  "backend_call entry m w =
     (case m (cl_world w) of (r, s') \<Rightarrow> (r, w\<lparr>cl_world := s', cl_log := cl_log w @ [entry r]\<rparr>))"

definition store_call ::
    "Outside \<Rightarrow> ('a result \<Rightarrow> 'l) \<Rightarrow> (env \<Rightarrow> db \<Rightarrow> ('a \<times> db) result) \<Rightarrow> ('a, ('l, 's) Cluster) io" where
  "store_call out entry operation w =
     (let n = cl_calls w; db = os_others out n (cl_db w);
          (r, db') = (case operation (os_env out n) db of
             Inl ex \<Rightarrow> (Inl ex, db)
           | Inr (v, db') \<Rightarrow> (case os_outage out n of
                None \<Rightarrow> (Inr v, db')
              | Some (ex, after) \<Rightarrow> (Inl ex, if after then db' else db)))
      in (r, w\<lparr>cl_db := db', cl_calls := Suc n, cl_log := cl_log w @ [entry r]\<rparr>))"

text \<open>A handler that catches every exception and logs it.\<close>

definition caught :: "(unit, 's) io \<Rightarrow> (unit, 's) io" where
  "caught m s = (case m s of (Inl ex, s') \<Rightarrow> (Inr (), s') | (Inr v, s') \<Rightarrow> (Inr v, s'))"

fun each :: "('a \<Rightarrow> (unit, 's) io) \<Rightarrow> 'a list \<Rightarrow> (unit, 's) io" where
  "each f [] = pure (Inr ())"
| "each f (x # xs) = then_io (f x) (\<lambda>_. each f xs)"

section \<open>Invariants\<close>

text \<open>
  \<open>keeps R m\<close>: whatever \<open>m\<close> does relates the state before to the state after, also when it throws.
  For a preorder \<open>R\<close> it is enough to look at the single calls.
\<close>

definition keeps :: "('s \<Rightarrow> 's \<Rightarrow> bool) \<Rightarrow> ('a, 's) io \<Rightarrow> bool" where
  "keeps R m \<longleftrightarrow> (\<forall>s. R s (snd (m s)))"

lemma keepsD: "keeps R m \<Longrightarrow> m s = (r, s') \<Longrightarrow> R s s'"
  unfolding keeps_def by (metis snd_conv)

lemma keeps_pure: "reflp R \<Longrightarrow> keeps R (pure r)"
  by (simp add: keeps_def pure_def reflpD)

lemma keeps_then:
  assumes "transp R" and "keeps R m" and "\<And>v. keeps R (f v)"
  shows "keeps R (then_io m f)"
  unfolding keeps_def
proof
  fix s
  obtain r s' where m: "m s = (r, s')" by fastforce
  show "R s (snd (then_io m f s))"
  proof (cases r)
    case (Inl ex)
    with m show ?thesis using keepsD[OF assms(2) m] by (simp add: then_io_def)
  next
    case (Inr v)
    obtain r2 s2 where f: "f v s' = (r2, s2)" by fastforce
    with m Inr show ?thesis
      using keepsD[OF assms(2) m] keepsD[OF assms(3) f] transpD[OF assms(1)] by (simp add: then_io_def)
  qed
qed

lemma keeps_caught: "keeps R m \<Longrightarrow> keeps R (caught m)"
  unfolding keeps_def caught_def by (auto split: prod.splits sum.splits) (metis snd_conv)+

lemma keeps_each:
  assumes "reflp R" and "transp R" and "\<And>x. x \<in> set xs \<Longrightarrow> keeps R (f x)"
  shows "keeps R (each f xs)"
  using assms(3) by (induction xs) (auto intro!: keeps_pure keeps_then assms(1,2))

lemma keeps_if: "keeps R m \<Longrightarrow> keeps R n \<Longrightarrow> keeps R (if c then m else n)"
  by simp

lemma keeps_option: "keeps R m \<Longrightarrow> (\<And>v. keeps R (f v)) \<Longrightarrow> keeps R (case x of None \<Rightarrow> m | Some v \<Rightarrow> f v)"
  by (cases x) simp_all

text \<open>The database moves by committed transactions only.\<close>

definition commits :: "Timing \<Rightarrow> ('l, 's) Cluster \<Rightarrow> ('l, 's) Cluster \<Rightarrow> bool" where
  "commits timing w w' \<longleftrightarrow> (store_step timing)\<^sup>*\<^sup>* (cl_db w) (cl_db w')"

definition others_commit :: "Timing \<Rightarrow> Outside \<Rightarrow> bool" where
  "others_commit timing out \<longleftrightarrow> (\<forall>n db. (store_step timing)\<^sup>*\<^sup>* db (os_others out n db))"

lemma commits_order: "reflp (commits timing)" "transp (commits timing)"
  by (auto simp: commits_def intro!: reflpI transpI)

lemma backend_commits: "keeps (commits timing) (backend_call entry m)"
  by (simp add: keeps_def commits_def backend_call_def split: prod.splits)

lemma store_commits:
  assumes "others_commit timing out"
    and "\<And>e db v db'. operation e db = Inr (v, db') \<Longrightarrow> (store_step timing)\<^sup>*\<^sup>* db db'"
  shows "keeps (commits timing) (store_call out entry operation :: ('a, ('l, 's) Cluster) io)"
  unfolding keeps_def commits_def
proof
  fix w :: "('l, 's) Cluster"
  have o: "(store_step timing)\<^sup>*\<^sup>* (cl_db w) (os_others out (cl_calls w) (cl_db w))"
    using assms(1) by (simp add: others_commit_def)
  then show "(store_step timing)\<^sup>*\<^sup>* (cl_db w) (cl_db (snd (store_call out entry operation w)))"
    using rtranclp_trans[OF o assms(2)]
    by (auto simp: store_call_def Let_def split: option.splits sum.splits prod.splits)
qed

lemma commits_reachable:
  assumes "reachable timing (cl_db w)" and "commits timing w w'"
  shows "reachable timing (cl_db w')" and "store_inv (cl_db w')"
proof -
  have "(store_step timing)\<^sup>*\<^sup>* db db' \<Longrightarrow> reachable timing db \<Longrightarrow> reachable timing db'" for db db'
    by (induction rule: rtranclp_induct) (auto intro: reach.intros)
  with assms show "reachable timing (cl_db w')" unfolding commits_def by blast
  then show "store_inv (cl_db w')" by (rule store.reachable_inv)
qed

lemmas commits_intros = keeps_pure[OF commits_order(1)] keeps_then[OF commits_order(2)] keeps_caught
  keeps_each[OF commits_order] keeps_if keeps_option backend_commits

text \<open>The log only grows, by entries that satisfy \<open>P\<close>.\<close>

definition appends :: "('l \<Rightarrow> bool) \<Rightarrow> ('l, 's) Cluster \<Rightarrow> ('l, 's) Cluster \<Rightarrow> bool" where
  "appends P w w' \<longleftrightarrow> (\<exists>entries. cl_log w' = cl_log w @ entries \<and> (\<forall>x\<in>set entries. P x))"

lemma appends_order: "reflp (appends P)" "transp (appends P)"
proof -
  show "reflp (appends P)" by (rule reflpI) (simp add: appends_def)
  show "transp (appends P)"
  proof (rule transpI)
    fix u v w
    assume "appends P u v" "appends P v w"
    then obtain a b where "cl_log v = cl_log u @ a" "\<forall>x\<in>set a. P x" "cl_log w = cl_log v @ b" "\<forall>x\<in>set b. P x"
      by (auto simp: appends_def)
    then show "appends P u w" by (auto simp: appends_def intro!: exI[of _ "a @ b"])
  qed
qed

lemma backend_appends: "(\<And>r. P (entry r)) \<Longrightarrow> keeps (appends P) (backend_call entry m)"
  by (simp add: keeps_def appends_def backend_call_def split: prod.splits)

lemma store_appends: "(\<And>r. P (entry r)) \<Longrightarrow> keeps (appends P) (store_call out entry operation)"
  by (simp add: keeps_def appends_def store_call_def Let_def split: prod.splits)

lemmas appends_intros = keeps_pure[OF appends_order(1)] keeps_then[OF appends_order(2)] keeps_caught
  keeps_each[OF appends_order] keeps_if keeps_option backend_appends store_appends

lemma backend_call_ok:
  "backend_call entry m w = (r, w') \<Longrightarrow>
     cl_db w' = cl_db w \<and> cl_log w' = cl_log w @ [entry r] \<and> m (cl_world w) = (r, cl_world w')"
  by (auto simp: backend_call_def split: prod.splits)

lemma store_call_log: "store_call out entry operation w = (r, w') \<Longrightarrow> cl_log w' = cl_log w @ [entry r]"
  by (auto simp: store_call_def Let_def split: prod.splits)

text \<open>The log grows by calls in which every entry that needs another comes directly after it.\<close>

definition follows :: "('l \<Rightarrow> 'l option) \<Rightarrow> 'l list \<Rightarrow> bool" where
  "follows needs calls \<longleftrightarrow>
     (\<forall>i<length calls. \<forall>x. needs (calls ! i) = Some x \<longrightarrow> 0 < i \<and> calls ! (i - 1) = x)"

definition confirms :: "('l \<Rightarrow> 'l option) \<Rightarrow> ('l, 's) Cluster \<Rightarrow> ('l, 's) Cluster \<Rightarrow> bool" where
  "confirms needs w w' \<longleftrightarrow> (\<exists>calls. cl_log w' = cl_log w @ calls \<and> follows needs calls)"

lemma follows_append:
  assumes "follows needs xs" and "follows needs ys"
  shows "follows needs (xs @ ys)"
  unfolding follows_def
proof (intro allI impI)
  fix i x
  assume i: "i < length (xs @ ys)" "needs ((xs @ ys) ! i) = Some x"
  show "0 < i \<and> (xs @ ys) ! (i - 1) = x"
  proof (cases "i < length xs")
    case True
    with i assms(1) show ?thesis by (auto simp: follows_def nth_append)
  next
    case False
    with i have "i - length xs < length ys" "needs (ys ! (i - length xs)) = Some x"
      by (auto simp: nth_append)
    with assms(2) have "0 < i - length xs" "ys ! (i - length xs - 1) = x"
      unfolding follows_def by blast+
    with False show ?thesis by (auto simp: nth_append)
  qed
qed

lemma confirms_order: "reflp (confirms needs)" "transp (confirms needs)"
proof -
  show "reflp (confirms needs)" by (rule reflpI) (simp add: confirms_def follows_def)
  show "transp (confirms needs)"
  proof (rule transpI)
    fix u v w
    assume "confirms needs u v" "confirms needs v w"
    then obtain a b where "cl_log v = cl_log u @ a" "follows needs a" "cl_log w = cl_log v @ b" "follows needs b"
      by (auto simp: confirms_def)
    then show "confirms needs u w" by (auto simp: confirms_def intro!: exI[of _ "a @ b"] follows_append)
  qed
qed

lemma backend_confirms: "(\<And>r. needs (entry r) = None) \<Longrightarrow> keeps (confirms needs) (backend_call entry m)"
  by (simp add: keeps_def confirms_def backend_call_def follows_def split: prod.splits)

lemma store_confirms: "(\<And>r. needs (entry r) = None) \<Longrightarrow> keeps (confirms needs) (store_call out entry operation)"
  by (simp add: keeps_def confirms_def store_call_def Let_def follows_def split: prod.splits)

lemma pair_confirms:
  assumes "\<And>r. needs (entry r) = None" and "\<And>r. needs (entry2 r) = Some (entry (Inr ()))"
    and "\<And>w r w'. m2 w = (r, w') \<Longrightarrow> cl_log w' = cl_log w @ [entry2 r]"
  shows "keeps (confirms needs) (then_io (backend_call entry m) (\<lambda>u. m2))"
proof -
  have "confirms needs w (snd (then_io (backend_call entry m) (\<lambda>u. m2) w))" for w
  proof -
    obtain r w1 where 1: "backend_call entry m w = (r, w1)" by fastforce
    obtain r2 w2 where 2: "m2 w1 = (r2, w2)" by fastforce
    show ?thesis
      using 1 2 backend_call_ok[OF 1] assms(3)[OF 2] assms(1,2)
      by (cases r) (auto simp: then_io_def confirms_def follows_def nth_Cons')
  qed
  then show ?thesis by (simp add: keeps_def)
qed

lemmas confirms_intros = keeps_pure[OF confirms_order(1)] keeps_then[OF confirms_order(2)] keeps_caught
  keeps_each[OF confirms_order] keeps_if keeps_option backend_confirms store_confirms

end
