(* ===== verification/Kubernetes_Controller.thy ===== *)
theory Kubernetes_Controller
  imports Orchestration Rpc
begin

text \<open>
  \<^verbatim>\<open>src/application/kubernetes.cpp\<close>: the controller that makes the Jobs of the cluster agree with the
  attempts of the database, over any container backend.
\<close>

datatype ControllerCall =
    Listed "Assignment list result"
  | Inventoried "string list result"
  | Removed string "unit result"
  | Ensured Launch "string result"
  | Observed string "bool result"
  | Recorded string string bool "unit result"
  | MarkedStopped string "unit result"
  | Admitted "Assignment option result"

type_synonym 's Controlled = "(ControllerCall, 's) Cluster"

record 's KubernetesController =
  kk_backend :: "'s ExecutionBackend"
  kk_hmac :: "string \<Rightarrow> string \<Rightarrow> byte list"
  kk_signing_key :: string
  kk_max_active :: int
  kk_timing :: Timing

definition record_runtime :: "Outside \<Rightarrow> string \<Rightarrow> string \<Rightarrow> bool \<Rightarrow> (unit, 's Controlled) io" where
  "record_runtime out aid runtime removed =
     store_call out (Recorded aid runtime removed) (\<lambda>e. kubernetes_runtime e aid runtime removed)"

definition controller_remove :: "'s KubernetesController \<Rightarrow> string \<Rightarrow> (unit, 's Controlled) io" where
  "controller_remove c aid = backend_call (Removed aid) (be_remove (kk_backend c) aid)"

definition controller_launch :: "Outside \<Rightarrow> 's KubernetesController \<Rightarrow> Assignment \<Rightarrow> (unit, 's Controlled) io" where
  "controller_launch out c a =
     (let attempt = asg_attempt a;
          capability = attempt_capability (kk_hmac c) (kk_signing_key c) (att_id attempt) (att_generation attempt);
          launch = \<lparr>ln_assignment = a, ln_capability = capability\<rparr>
      in then_io (backend_call (Ensured launch) (be_ensure (kk_backend c) launch)) (\<lambda>runtime.
         record_runtime out (att_id attempt) runtime False))"

definition remove_unknown :: "'s KubernetesController \<Rightarrow> string set \<Rightarrow> string \<Rightarrow> (unit, 's Controlled) io" where
  "remove_unknown c known aid = (if aid \<in> known then pure (Inr ()) else controller_remove c aid)"

definition manage :: "Outside \<Rightarrow> 's KubernetesController \<Rightarrow> Assignment \<Rightarrow> (unit, 's Controlled) io" where
  "manage out c a =
     (let attempt = asg_attempt a; aid = att_id attempt in
      if att_status attempt \<noteq> ''STARTING'' \<and> att_status attempt \<noteq> ''RUNNING'' \<and> att_status attempt \<noteq> ''FINALIZING''
      then then_io (controller_remove c aid) (\<lambda>_. record_runtime out aid [] True)
      else if att_runtime_id attempt = [] then controller_launch out c a
      else then_io (backend_call (Observed aid) (be_has_stopped (kk_backend c) aid)) (\<lambda>stopped.
             if stopped then store_call out (MarkedStopped aid) (\<lambda>e. kubernetes_stopped (kk_timing c) e aid)
             else pure (Inr ())))"

fun admissions :: "Outside \<Rightarrow> 's KubernetesController \<Rightarrow> nat \<Rightarrow> (unit, 's Controlled) io" where
  "admissions out c 0 = pure (Inr ())"
| "admissions out c (Suc n) =
     then_io (store_call out Admitted (\<lambda>e. admit_kubernetes (kk_timing c) e (kk_max_active c))) (\<lambda>assignment.
       case assignment of None \<Rightarrow> pure (Inr ())
       | Some a \<Rightarrow> then_io (controller_launch out c a) (\<lambda>_. admissions out c n))"

definition controller_tick :: "Outside \<Rightarrow> 's KubernetesController \<Rightarrow> (unit, 's Controlled) io" where
  "controller_tick out c =
     then_io (store_call out Listed (\<lambda>e db. Inr (kubernetes_attempts db, db))) (\<lambda>attempts.
     let known = (att_id \<circ> asg_attempt) ` set attempts in
     then_io (backend_call Inventoried (be_inventory (kk_backend c))) (\<lambda>ids.
     then_io (each (remove_unknown c known) ids) (\<lambda>_.
     then_io (each (\<lambda>a. caught (manage out c a)) attempts) (\<lambda>_.
     admissions out c 4))))"

section \<open>Transactions\<close>

lemma record_runtime_commits: "others_commit timing out \<Longrightarrow> keeps (commits timing) (record_runtime out aid runtime removed)"
  unfolding record_runtime_def by (blast intro: store_commits store_step.intros)

lemma launch_commits: "others_commit timing out \<Longrightarrow> keeps (commits timing) (controller_launch out c a)"
  unfolding controller_launch_def Let_def by (intro commits_intros record_runtime_commits)

lemma manage_commits:
  assumes "others_commit (kk_timing c) out"
  shows "keeps (commits (kk_timing c)) (manage out c a)"
proof -
  have "keeps (commits (kk_timing c)) (store_call out (MarkedStopped aid) (\<lambda>e. kubernetes_stopped (kk_timing c) e aid))" for aid
    using assms by (blast intro: store_commits store_step.intros)
  with assms show ?thesis
    unfolding manage_def Let_def controller_remove_def
    by (intro commits_intros record_runtime_commits launch_commits)
qed

lemma admissions_commits:
  assumes "others_commit (kk_timing c) out"
  shows "keeps (commits (kk_timing c)) (admissions out c n)"
proof (induction n)
  case (Suc n)
  have "keeps (commits (kk_timing c)) (store_call out Admitted (\<lambda>e. admit_kubernetes (kk_timing c) e (kk_max_active c)))"
    using assms by (blast intro: store_commits store_step.intros)
  with Suc assms show ?case
    by (simp only: admissions.simps) (intro commits_intros launch_commits)
qed (simp add: commits_intros)

lemma tick_commits:
  assumes "others_commit (kk_timing c) out"
  shows "keeps (commits (kk_timing c)) (controller_tick out c)"
proof -
  have "keeps (commits (kk_timing c)) (store_call out Listed (\<lambda>e db. Inr (kubernetes_attempts db, db)))"
    using assms by (rule store_commits) auto
  with assms show ?thesis
    unfolding controller_tick_def Let_def remove_unknown_def controller_remove_def
    by (intro commits_intros manage_commits admissions_commits)
qed

text \<open>
  The controller keeps the coordinator's invariants. However a tick ends, with whatever answers of
  the backend, lost connections and transactions of other clients in between, the database is one that
  committed operations of the store can reach, so that all its invariants hold.
\<close>

theorem controller_keeps_the_store:
  assumes "others_commit (kk_timing c) out"
    and "reachable (kk_timing c) (cl_db w)"
    and "controller_tick out c w = (res, w')"
  shows "reachable (kk_timing c) (cl_db w') \<and> store_inv (cl_db w')"
  using commits_reachable[OF assms(2) keepsD[OF tick_commits[OF assms(1)] assms(3)]] by blast

section \<open>Calls\<close>

text \<open>What the listing shows of an attempt is what its row holds.\<close>

lemma kubernetes_attempts_rows:
  assumes "store_keys db" and "a \<in> set (kubernetes_attempts db)"
  shows "\<exists>row. attempt_row db (att_id (asg_attempt a)) = Some row \<and> att_status (asg_attempt a) = a_status row \<and>
    row \<in> set (pending_attempts db ''@kubernetes'')"
proof -
  from assms(2) obtain row where row: "row \<in> set (pending_attempts db ''@kubernetes'')" "asg_attempt a = attempt_of row"
    by (auto simp: kubernetes_attempts_def map_filter_def split: option.splits)
  then have "row \<in> set (attempts db)" by (simp add: pending_attempts_def)
  from attempt_row_of_mem[OF assms(1) this] row show ?thesis by (auto simp: attempt_of_def)
qed

lemma pending_attempts_listed:
  assumes "references_ok db" and "row \<in> set (pending_attempts db ''@kubernetes'')"
  shows "a_id row \<in> (att_id \<circ> asg_attempt) ` set (kubernetes_attempts db)"
proof -
  have "row \<in> set (attempts db)" using assms(2) by (simp add: pending_attempts_def)
  with assms(1) have "a_run_id row \<in> r_id ` set (runs db)" by (auto simp: references_ok_def)
  then obtain r where "run_row db (a_run_id row) = Some r"
    by (metis find_by_None not_None_eq run_row_def)
  with assms(2) have "\<lparr>asg_attempt = attempt_of row, asg_spec = r_spec r\<rparr> \<in> set (kubernetes_attempts db)"
    by (auto simp: kubernetes_attempts_def map_filter_def intro!: image_eqI[of _ _ row])
  then show ?thesis by (force simp: attempt_of_def)
qed

lemma live_attempts_pending:
  assumes "store_inv db" and "attempt_row db aid = Some row" and "a_worker_id row = ''@kubernetes''" and "live (a_status row)"
  shows "row \<in> set (pending_attempts db ''@kubernetes'')" and "a_id row = aid"
proof -
  note inv = store_invD[OF assms(1)]
  have mem: "row \<in> set (attempts db)" "a_id row = aid"
    using assms(2) by (auto simp: attempt_row_def dest: find_by_mem find_by_key)
  have "\<not> lt_cleaned (life_attempt_of row)"
    using life_inv_attemptD[OF inv(2), of aid "life_attempt_of row"] assms(2,4)
    by (auto simp: life_of_def attempt_ok_def life_attempt_of_def executing_def live_def)
  then have "a_cleanup_status row = ''PENDING''"
    using inv(8) assms(2) by (auto simp: accounts_ok_def account_ok_def life_attempt_of_def)
  with mem assms(3) show "row \<in> set (pending_attempts db ''@kubernetes'')" "a_id row = aid"
    by (simp_all add: pending_attempts_def)
qed

text \<open>The database that a tick lists.\<close>

abbreviation listing_db :: "Outside \<Rightarrow> 's Controlled \<Rightarrow> db" where
  "listing_db out w \<equiv> os_others out (cl_calls w) (cl_db w)"

lemma tick_cases:
  assumes "controller_tick out c w = (res, w')"
  obtains (unlisted) ex where "cl_log w' = cl_log w @ [Listed (Inl ex)]"
  | (listed) attempts w1 where "attempts = kubernetes_attempts (listing_db out w)"
      "cl_log w1 = cl_log w @ [Listed (Inr attempts)]"
      "then_io (backend_call Inventoried (be_inventory (kk_backend c))) (\<lambda>ids.
         then_io (each (remove_unknown c ((att_id \<circ> asg_attempt) ` set attempts)) ids) (\<lambda>_.
         then_io (each (\<lambda>a. caught (manage out c a)) attempts) (\<lambda>_. admissions out c 4))) w1 = (res, w')"
proof -
  obtain r w1 where list: "store_call out Listed (\<lambda>e db. Inr (kubernetes_attempts db, db)) w = (r, w1)" by fastforce
  show ?thesis
  proof (cases r)
    case (Inl ex)
    with assms list show ?thesis
      by (intro unlisted[of ex]) (auto simp: controller_tick_def then_io_def dest!: store_call_log)
  next
    case (Inr attempts)
    with list have "attempts = kubernetes_attempts (listing_db out w)"
      by (auto simp: store_call_def Let_def split: option.splits)
    with assms list Inr show ?thesis
      by (intro listed[of attempts w1]) (auto simp: controller_tick_def then_io_def Let_def dest!: store_call_log)
  qed
qed

fun removes :: "string \<Rightarrow> ControllerCall \<Rightarrow> bool" where
  "removes aid (Removed aid' r) \<longleftrightarrow> aid' = aid"
| "removes aid call \<longleftrightarrow> False"

lemma launch_removes: "keeps (appends (\<lambda>x. \<not> removes aid x)) (controller_launch out c a)"
  unfolding controller_launch_def record_runtime_def Let_def by (intro appends_intros) simp_all

lemma admissions_removes: "keeps (appends (\<lambda>x. \<not> removes aid x)) (admissions out c n)"
proof (induction n)
  case (Suc n)
  then show ?case
    by (simp only: admissions.simps) (intro appends_intros launch_removes, simp_all)
qed (simp add: appends_intros)

lemma manage_removes:
  assumes "live (att_status (asg_attempt a)) \<or> att_id (asg_attempt a) \<noteq> aid"
  shows "keeps (appends (\<lambda>x. \<not> removes aid x)) (manage out c a)"
  using assms unfolding manage_def controller_remove_def record_runtime_def Let_def live_def
  by (auto intro!: appends_intros launch_removes)


text \<open>A record of a finished cleanup needs the removal that succeeded.\<close>

fun needs_removal :: "ControllerCall \<Rightarrow> ControllerCall option" where
  "needs_removal (Recorded aid runtime True r) = Some (Removed aid (Inr ()))"
| "needs_removal call = None"

lemma needs_removal_Recorded [simp]:
  "needs_removal (Recorded aid runtime removed r) = (if removed then Some (Removed aid (Inr ())) else None)"
  by (cases removed) simp_all

lemma launch_confirms: "keeps (confirms needs_removal) (controller_launch out c a)"
  unfolding controller_launch_def record_runtime_def Let_def by (intro confirms_intros) simp_all

lemma admissions_confirms: "keeps (confirms needs_removal) (admissions out c n)"
proof (induction n)
  case (Suc n)
  then show ?case
    by (simp only: admissions.simps) (intro confirms_intros launch_confirms, simp_all)
qed (simp add: confirms_intros)

text \<open>
  An attempt on the cluster counts as cleaned up only when its Job is gone. Every time a tick
  records that an attempt's runtime was removed, its last call before was the backend's removal of that
  very attempt, and it returned without an error.
\<close>

theorem cleanups_follow_removals:
  assumes "controller_tick out c w = (res, w')"
  shows "\<exists>calls. cl_log w' = cl_log w @ calls \<and>
    (\<forall>i<length calls. \<forall>aid runtime r. calls ! i = Recorded aid runtime True r \<longrightarrow>
       0 < i \<and> calls ! (i - 1) = Removed aid (Inr ()))"
proof -
  have "keeps (confirms needs_removal) (controller_tick out c)"
    unfolding controller_tick_def manage_def remove_unknown_def Let_def
    unfolding controller_remove_def record_runtime_def
    by (intro confirms_intros pair_confirms launch_confirms admissions_confirms store_call_log) simp_all
  from keepsD[OF this assms] show ?thesis by (fastforce simp: confirms_def follows_def)
qed

section \<open>A cluster\<close>

text \<open>A backend whose world is the list of its Jobs.\<close>

definition demo_backend :: "string list ExecutionBackend" where
  "demo_backend = \<lparr>be_inventory = (\<lambda>jobs. (Inr jobs, jobs)),
     be_ensure = (\<lambda>l jobs. (Inr ''u1'', jobs @ [att_id (asg_attempt (ln_assignment l))])),
     be_has_stopped = (\<lambda>aid jobs. (Inr (aid \<notin> set jobs), jobs)),
     be_remove = (\<lambda>aid jobs. (Inr (), filter (\<lambda>j. j \<noteq> aid) jobs))\<rparr>"

definition demo_controller :: "string list KubernetesController" where
  "demo_controller = \<lparr>kk_backend = demo_backend, kk_hmac = (\<lambda>k m. []), kk_signing_key = ''key'', kk_max_active = 1,
     kk_timing = default_Timing\<rparr>"

definition demo_outside :: Outside where
  "demo_outside = \<lparr>os_env = (\<lambda>n. demo_env (500 + int n) ''b''), os_others = (\<lambda>n db. db), os_outage = (\<lambda>n. None)\<rparr>"

definition demo_admitted :: db where
  "demo_admitted = committed (admit_kubernetes default_Timing (demo_env 400 ''a'') 1 demo_ready) demo_ready"

definition demo_withdrawn :: db where
  "demo_withdrawn = committed (cancel (demo_env 450 ''-'') ''r'' demo_admitted) demo_admitted"

definition demo_cluster :: "db \<Rightarrow> string list Controlled" where
  "demo_cluster db = \<lparr>cl_db = db, cl_calls = 0, cl_log = [], cl_world = [''x'', ''a'']\<rparr>"

definition demo_row :: attempts_row where
  "demo_row = \<lparr>a_id = ''a'', a_run_id = ''r'', a_generation = 1, a_worker_id = ''@kubernetes'',
     a_instance_id = None, a_status = ''STARTING'', a_reason = None, a_exit_code = None,
     a_runtime_id = None, a_cleanup_status = ''PENDING'', a_ack_sequence = 0,
     a_launch_deadline = 300000401, a_lease_until = None, a_execution_deadline = None,
     a_finalization_deadline = None, a_created_at = 401, a_started_at = None, a_finished_at = None,
     a_gpu_count = 1, a_node_name = []\<rparr>"

lemma demo_admitted_eq:
  "demo_admitted = demo_ready\<lparr>runs := [demo_run starting 1 (Some ''a'') 2 100 402],
     attempts := [demo_row],
     events := events demo_ready @ [demo_event 2 ''assigned'' ''attempt 1 admitted to Kubernetes'' 403]\<rparr>"
  by (simp add: demo_admitted_def demo_ready_eq demo_submitted_eq empty_db_def admit_kubernetes_def
      pending_attempts_def as_int_def next_run_def claim_run_def insert_attempt_def new_attempt_def
      show_int_1 demo_row_def demo_eval)

lemma demo_withdrawn_eq:
  "demo_withdrawn = demo_admitted\<lparr>runs := [demo_run cancelled 1 (Some ''a'') 3 100 451],
     attempts := [demo_row\<lparr>a_status := ''CANCELLED'', a_reason := Some ''USER_CANCELLED'',
       a_lease_until := Some 450, a_finished_at := Some 450\<rparr>],
     events := events demo_admitted @ [demo_event 3 ''cancelled''
       ''results fenced; remote cleanup may still be pending'' 452]\<rparr>"
  by (simp add: demo_withdrawn_def demo_admitted_eq demo_states cancel_def terminal_def live_def demo_row_def demo_eval)

lemma demo_k8s_reachable: "reachable default_Timing demo_admitted" "reachable default_Timing demo_withdrawn"
proof -
  show "reachable default_Timing demo_admitted"
    unfolding demo_admitted_def by (rule committed_reachable[OF demo_reachable(3)]) (blast intro: store_step.intros)
  then show "reachable default_Timing demo_withdrawn"
    unfolding demo_withdrawn_def by (rule committed_reachable) (blast intro: store_step.intros)
qed

lemma demo_others: "others_commit (kk_timing demo_controller) demo_outside"
  by (simp add: others_commit_def demo_outside_def)

lemma demo_withdrawn_tick:
  "tl (cl_log (snd (controller_tick demo_outside demo_controller (demo_cluster demo_withdrawn)))) =
     [Inventoried (Inr [''x'', ''a'']), Removed ''x'' (Inr ()),
       Removed ''a'' (Inr ()), Recorded ''a'' [] True (Inr ()), Admitted (Inr None)]"
proof -
  let ?a = "\<lparr>asg_attempt = attempt_of (hd (attempts demo_withdrawn)), asg_spec = demo_spec\<rparr>"
  let ?db = "upd_attempt ''a'' (\<lambda>x. x\<lparr>a_cleanup_status := ''DONE''\<rparr>) demo_withdrawn"
  have listed: "kubernetes_attempts demo_withdrawn = [?a]"
    by (simp add: kubernetes_attempts_def demo_withdrawn_eq demo_admitted_eq demo_states pending_attempts_def map_filter_def
        demo_row_def demo_eval)
  have a: "att_id (asg_attempt ?a) = ''a''" "att_status (asg_attempt ?a) = ''CANCELLED''"
    by (simp_all add: demo_withdrawn_eq demo_row_def attempt_of_def)
  have cleaned: "kubernetes_runtime (demo_env 501 ''b'') ''a'' [] True demo_withdrawn = Inr ((), ?db)"
    by (simp add: kubernetes_runtime_def live_def demo_withdrawn_eq demo_admitted_eq demo_states demo_row_def demo_eval)
  have idle: "admit_kubernetes default_Timing (demo_env 502 ''b'') 1 ?db = Inr (None, ?db)"
    by (simp add: admit_kubernetes_def pending_attempts_def as_int_def next_run_def demo_withdrawn_eq demo_admitted_eq
        demo_states demo_row_def demo_eval)
  have four: "admissions out c 4 = then_io (store_call out Admitted (\<lambda>e. admit_kubernetes (kk_timing c) e (kk_max_active c)))
      (\<lambda>assignment. case assignment of None \<Rightarrow> pure (Inr ())
       | Some x \<Rightarrow> then_io (controller_launch out c x) (\<lambda>_. admissions out c 3))"
    for out and c :: "string list KubernetesController"
    using admissions.simps(2)[of out c 3] by simp
  show ?thesis
    unfolding controller_tick_def four
    by (simp add: listed a cleaned idle then_io_def pure_def store_call_def backend_call_def Let_def caught_def
        remove_unknown_def controller_remove_def manage_def record_runtime_def demo_cluster_def demo_outside_def
        demo_controller_def demo_backend_def del: Assignment.simps)
qed

theorem controller_keeps_the_store_witness:
  "\<exists>res w'. controller_tick demo_outside demo_controller (demo_cluster demo_admitted) = (res, w') \<and> store_inv (cl_db w')"
proof -
  obtain res w' where tick: "controller_tick demo_outside demo_controller (demo_cluster demo_admitted) = (res, w')"
    by fastforce
  moreover have "reachable (kk_timing demo_controller) (cl_db (demo_cluster demo_admitted))"
    using demo_k8s_reachable(1) by (simp add: demo_controller_def demo_cluster_def)
  ultimately show ?thesis using controller_keeps_the_store[OF demo_others] by blast
qed


theorem cleanups_follow_removals_witness:
  "\<exists>w'. snd (controller_tick demo_outside demo_controller (demo_cluster demo_withdrawn)) = w' \<and>
     cl_log w' ! 4 = Recorded ''a'' [] True (Inr ()) \<and> cl_log w' ! 3 = Removed ''a'' (Inr ())"
proof -
  obtain res w' where tick: "controller_tick demo_outside demo_controller (demo_cluster demo_withdrawn) = (res, w')"
    by fastforce
  with demo_withdrawn_tick have log: "tl (cl_log w') = [Inventoried (Inr [''x'', ''a'']), Removed ''x'' (Inr ()),
       Removed ''a'' (Inr ()), Recorded ''a'' [] True (Inr ()), Admitted (Inr None)]"
    by simp
  then obtain l where l: "cl_log w' = l # tl (cl_log w')" by (cases "cl_log w'") auto
  from l log have "cl_log w' ! 4 = Recorded ''a'' [] True (Inr ())" "4 < length (cl_log w')"
    by (auto simp: nth_Cons' dest!: arg_cong[of _ _ length])
  moreover have "cl_log w' ! (4 - 1) = Removed ''a'' (Inr ())"
    using cleanups_follow_removals[OF tick] calculation by (auto simp: demo_cluster_def)
  ultimately show ?thesis using tick by auto
qed

end
