(* ===== verification/Agent.thy ===== *)
theory Agent
  imports Orchestration Rpc Store_Contents
begin

text \<open>
  \<^verbatim>\<open>src/agent/agent.cpp\<close> and \<^verbatim>\<open>src/agent/gpus.cpp\<close>: the agent of a worker, which makes the containers of
  its machine agree with the coordinator through remote calls. The threads for heartbeats and GPU
  reports are what they send and learn.
\<close>

datatype AgentCall =
    Inspected "string list result"
  | Asked AgentRequest "AgentReply result"
  | Dropped string "unit result"
  | Launched Launch "string result"

type_synonym 's Agency = "(AgentCall, 's) Cluster"

text \<open>The coordinator as the agent reaches it; \<open>co_ready\<close> says of each call whether it is ready.\<close>

record Coordinator =
  co_hmac :: "string \<Rightarrow> string \<Rightarrow> byte list"
  co_config :: ServerConfig
  co_ready :: "nat \<Rightarrow> bool"

record 's Agent =
  ag_identity :: WorkerIdentity
  ag_token :: string
  ag_backend :: "'s ExecutionBackend"

text \<open>A remote call: the handler's transaction, its status, and \<open>check_rpc\<close>.\<close>

definition agent_answer ::
    "Coordinator \<Rightarrow> string \<Rightarrow> bool \<Rightarrow> AgentRequest \<Rightarrow> env \<Rightarrow> db \<Rightarrow> (AgentReply \<times> db) result" where
  "agent_answer co token ready request e db =
     (case agent_rpc (co_hmac co) (co_config co) e \<lparr>sc_authorization = Some (''Bearer '' @ token), sc_cancelled = False\<rparr>
         ready request db of
        (st, reply, db') \<Rightarrow>
          (case check_rpc st of
             Inl ex \<Rightarrow> Inl ex
           | Inr _ \<Rightarrow> Inr (case reply of None \<Rightarrow> Empty | Some r \<Rightarrow> r, db')))"

definition agent_call :: "Outside \<Rightarrow> Coordinator \<Rightarrow> 's Agent \<Rightarrow> AgentRequest \<Rightarrow> (AgentReply, 's Agency) io" where
  "agent_call out co agent request w =
     store_call out (Asked request) (agent_answer co (ag_token agent) (co_ready co (cl_calls w)) request) w"

fun decided :: "AgentReply \<Rightarrow> string list" where
  "decided (Decisions ids) = ids"
| "decided reply = []"

fun to_clean :: "AgentReply \<Rightarrow> string list" where
  "to_clean (WorkReply work ids) = ids"
| "to_clean reply = []"

fun to_launch :: "AgentReply \<Rightarrow> WorkAssignment option" where
  "to_launch (WorkReply work ids) = work"
| "to_launch reply = None"

definition agent_remove :: "'s Agent \<Rightarrow> string \<Rightarrow> (unit, 's Agency) io" where
  "agent_remove agent aid = backend_call (Dropped aid) (be_remove (ag_backend agent) aid)"

definition agent_report ::
    "Outside \<Rightarrow> Coordinator \<Rightarrow> 's Agent \<Rightarrow> string \<Rightarrow> string \<Rightarrow> bool \<Rightarrow> (AgentReply, 's Agency) io" where
  "agent_report out co agent attempt runtime stopped =
     agent_call out co agent (ReportRuntime (ag_identity agent) attempt runtime stopped)"

definition agent_clean :: "Outside \<Rightarrow> Coordinator \<Rightarrow> 's Agent \<Rightarrow> string \<Rightarrow> (unit, 's Agency) io" where
  "agent_clean out co agent aid =
     then_io (then_io (agent_remove agent aid) (\<lambda>_. agent_report out co agent aid [] True)) (\<lambda>_. pure (Inr ()))"

text \<open>The launch that is built from the message: a default attempt with the fields that were sent.\<close>

definition work_launch :: "WorkAssignment \<Rightarrow> Launch" where
  "work_launch a = \<lparr>ln_assignment = \<lparr>
      asg_attempt = \<lparr>att_id = wa_attempt_id a, att_run_id = wa_run_id a, att_generation = wa_generation a,
        att_worker_id = [], att_instance_id = [], att_status = [], att_reason = [], att_exit_code = None,
        att_runtime_id = [], att_cleanup_status = [], att_created_at = None, att_started_at = None,
        att_finished_at = None, att_acknowledged_sequence = 0, att_gpu_count = 0, att_node_name = [],
        att_gpu_allocations = map (\<lambda>uuid. \<lparr>al_device = \<lparr>gd_uuid = uuid, gd_name = [], gd_memory_mib = 0,
          gd_eligible = True, gd_reason = []\<rparr>, al_allocated_at = None, al_released_at = None\<rparr>) (wa_gpu_uuids a)\<rparr>,
      asg_spec = wa_specification a\<rparr>, ln_capability = wa_capability a\<rparr>"

definition agent_launch :: "Outside \<Rightarrow> Coordinator \<Rightarrow> 's Agent \<Rightarrow> WorkAssignment \<Rightarrow> (unit, 's Agency) io" where
  "agent_launch out co agent a =
     then_io (backend_call (Launched (work_launch a)) (be_ensure (ag_backend agent) (work_launch a))) (\<lambda>runtime.
     then_io (agent_report out co agent (wa_attempt_id a) runtime False) (\<lambda>_. pure (Inr ())))"

definition agent_round :: "Outside \<Rightarrow> Coordinator \<Rightarrow> 's Agent \<Rightarrow> (unit, 's Agency) io" where
  "agent_round out co agent =
     then_io (backend_call Inspected (be_inventory (ag_backend agent))) (\<lambda>ids.
     then_io (agent_call out co agent (Reconcile (ag_identity agent) ids)) (\<lambda>decisions.
     then_io (each (agent_remove agent) (decided decisions)) (\<lambda>_.
     then_io (agent_call out co agent (Poll (ag_identity agent))) (\<lambda>reply.
     then_io (each (agent_clean out co agent) (to_clean reply)) (\<lambda>_.
     case to_launch reply of None \<Rightarrow> pure (Inr ()) | Some a \<Rightarrow> agent_launch out co agent a)))))"

text \<open>One turn of the loop: only a stale session ends it.\<close>

definition agent_turn :: "Outside \<Rightarrow> Coordinator \<Rightarrow> 's Agent \<Rightarrow> (unit, 's Agency) io" where
  "agent_turn out co agent w =
     (case agent_round out co agent w of
        (Inl ex, w') \<Rightarrow> if exn_code ex = Some stale then (Inl ex, w') else (Inr (), w')
      | (Inr v, w') \<Rightarrow> (Inr v, w'))"

text \<open>
  The loop, over what it observes before each turn: the request to stop, and \<open>stale\<close>, which the
  heartbeat thread sets. \<open>None\<close>: it is still running.
\<close>

fun agent_loop ::
    "Outside \<Rightarrow> Coordinator \<Rightarrow> 's Agent \<Rightarrow> (bool \<times> bool) list \<Rightarrow> 's Agency \<Rightarrow> unit result option \<times> 's Agency" where
  "agent_loop out co agent [] w = (None, w)"
| "agent_loop out co agent ((stop, replaced) # rest) w =
     (if replaced then (Some (throw stale ''another agent replaced this session''), w)
      else if stop then (Some (Inr ()), w)
      else case agent_turn out co agent w of
        (Inl ex, w') \<Rightarrow> (Some (Inl ex), w')
      | (Inr _, w') \<Rightarrow> agent_loop out co agent rest w')"

text \<open>The registration, over the requests to stop and the statuses of the calls.\<close>

fun register_loop :: "(bool \<times> status) list \<Rightarrow> unit result option" where
  "register_loop [] = None"
| "register_loop ((stop, st) # rest) =
     (if stop \<or> fst st = OK then Some (Inr ())
      else if fst st \<noteq> UNAVAILABLE then Some (check_rpc st)
      else register_loop rest)"

text \<open>The heartbeat thread: whether it sets \<open>stale\<close>.\<close>

fun heartbeats :: "(bool \<times> status) list \<Rightarrow> bool" where
  "heartbeats [] = False"
| "heartbeats ((stop, st) # rest) =
     (if stop then False else if fst st = FAILED_PRECONDITION then True else heartbeats rest)"

text \<open>\<open>report_gpus\<close>: its requests, over the stop requests, \<open>reconciled\<close> and what \<open>discover\<close> returns or throws.\<close>

definition gpu_request :: "int \<Rightarrow> GpuDevice list result \<Rightarrow> GpuSnapshot" where
  "gpu_request sequence discovered =
     (case discovered of
        Inr devices \<Rightarrow> \<lparr>snap_sequence = sequence, snap_ready = True, snap_devices = devices\<rparr>
      | Inl ex \<Rightarrow> \<lparr>snap_sequence = sequence, snap_ready = False, snap_devices = []\<rparr>)"

fun report_gpus :: "int \<Rightarrow> (bool \<times> bool \<times> GpuDevice list result) list \<Rightarrow> GpuSnapshot list" where
  "report_gpus sequence [] = []"
| "report_gpus sequence ((stop, reconciled, discovered) # rest) =
     (if stop then []
      else if \<not> reconciled then report_gpus sequence rest
      else gpu_request (sequence + 1) discovered # report_gpus (sequence + 1) rest)"

section \<open>Transactions\<close>

lemma exception_not_ok: "fst (exception_status ex) \<noteq> OK"
  by (cases ex rule: exception_status.cases; simp) (metis StatusCode.distinct error_status.simps ErrorCode.exhaust)

lemma check_rpc_ok: "check_rpc st = Inr u \<longleftrightarrow> fst st = OK"
  by (simp add: check_rpc_def)

lemma agent_answer_ok:
  assumes "agent_answer co token ready request e db = Inr (r, db')"
  shows "agent_work (co_hmac co) (co_config co) e request db = Inr (r, db')"
proof -
  let ?caller = "\<lparr>sc_authorization = Some (''Bearer '' @ token), sc_cancelled = False\<rparr>"
  obtain work where work: "work = (case agent_authorize (co_config co) ?caller ready of
      Inl ex \<Rightarrow> Inl ex | Inr _ \<Rightarrow> agent_work (co_hmac co) (co_config co) e request db)" by simp
  have "agent_rpc (co_hmac co) (co_config co) e ?caller ready request db = protect work db"
    by (simp add: agent_rpc_def work)
  with assms have "work = Inr (r, db')"
    by (cases work) (auto simp: agent_answer_def protect_def check_rpc_ok exception_not_ok split: sum.splits)
  with work show ?thesis by (auto split: sum.splits)
qed

lemma agent_work_steps:
  "agent_work hmac config e request db = Inr (r, db') \<Longrightarrow> (store_step (cf_timing config))\<^sup>*\<^sup>* db db'"
  by (cases request) (auto split: sum.splits if_splits intro: store_step.intros)

lemma agent_call_keeps:
  "(\<And>token ready. keeps R (store_call out (Asked request) (agent_answer co token ready request))) \<Longrightarrow>
     keeps R (agent_call out co agent request)"
  by (simp add: keeps_def agent_call_def)

lemma agent_call_commits:
  "others_commit (cf_timing (co_config co)) out \<Longrightarrow> keeps (commits (cf_timing (co_config co))) (agent_call out co agent request)"
  using agent_answer_ok agent_work_steps by (blast intro: agent_call_keeps store_commits)

lemma agent_launch_commits:
  "others_commit (cf_timing (co_config co)) out \<Longrightarrow> keeps (commits (cf_timing (co_config co))) (agent_launch out co agent a)"
  unfolding agent_launch_def agent_report_def by (intro commits_intros agent_call_commits)

lemma agent_clean_commits:
  "others_commit (cf_timing (co_config co)) out \<Longrightarrow> keeps (commits (cf_timing (co_config co))) (agent_clean out co agent aid)"
  unfolding agent_clean_def agent_report_def agent_remove_def by (intro commits_intros agent_call_commits)

lemma agent_round_commits:
  "others_commit (cf_timing (co_config co)) out \<Longrightarrow> keeps (commits (cf_timing (co_config co))) (agent_round out co agent)"
  unfolding agent_round_def agent_remove_def
  by (intro commits_intros agent_call_commits agent_launch_commits agent_clean_commits)

lemma agent_turn_cases:
  "agent_turn out co agent w = (res, w') \<Longrightarrow> \<exists>r. agent_round out co agent w = (r, w')"
  by (auto simp: agent_turn_def split: prod.splits sum.splits if_splits)

text \<open>
  The agents keep the coordinator's invariants. However long an agent runs, and whatever its
  containers, the network and the other clients do in between, the database stays one that committed
  operations of the store can reach.
\<close>

theorem agent_keeps_the_store:
  assumes "others_commit (cf_timing (co_config co)) out"
    and "reachable (cf_timing (co_config co)) (cl_db w)"
    and "agent_loop out co agent turns w = (res, w')"
  shows "reachable (cf_timing (co_config co)) (cl_db w') \<and> store_inv (cl_db w')"
proof -
  have "keeps (commits (cf_timing (co_config co))) (agent_turn out co agent)"
    using agent_turn_cases keepsD[OF agent_round_commits[OF assms(1)]] unfolding keeps_def by (metis prod.collapse)
  from keepsD[OF this] have turn: "agent_turn out co agent v = (r, v') \<Longrightarrow> commits (cf_timing (co_config co)) v v'" for v r v' .
  have "agent_loop out co agent turns v = (res, v') \<Longrightarrow> commits (cf_timing (co_config co)) v v'" for v v'
  proof (induction turns arbitrary: v)
    case Nil
    then show ?case using reflpD[OF commits_order(1)] by simp
  next
    case (Cons t turns)
    obtain stop replaced where t: "t = (stop, replaced)" by fastforce
    obtain r v1 where run: "agent_turn out co agent v = (r, v1)" by fastforce
    from Cons.prems t run turn[OF run] Cons.IH[of v1] show ?case
      using reflpD[OF commits_order(1)] transpD[OF commits_order(2)] by (auto split: if_splits sum.splits)
  qed
  from commits_reachable[OF assms(2) this[OF assms(3)]] show ?thesis by blast
qed

section \<open>Calls\<close>

text \<open>An attempt that is over stays over.\<close>

lemma life_step_dead:
  assumes "life_step s s'" and "l_attempts s a = Some t" and "\<not> executing (lt_status t)"
  shows "\<exists>t'. l_attempts s' a = Some t' \<and> \<not> executing (lt_status t')"
  using assms by (induction rule: life_step.induct) (auto simp: move_def current_def executing_def fence_attempt_def)

lemma dead_stays_dead:
  assumes "store_inv db" and "(store_step timing)\<^sup>*\<^sup>* db db'" and "attempt_row db aid = Some a" and "\<not> live (a_status a)"
  shows "\<not> live_attempt db' aid"
proof -
  have "life_step\<^sup>*\<^sup>* s s' \<Longrightarrow> l_attempts s aid = Some t \<Longrightarrow> \<not> executing (lt_status t) \<Longrightarrow>
      \<exists>t'. l_attempts s' aid = Some t' \<and> \<not> executing (lt_status t')" for s s' t
    by (induction rule: rtranclp_induct) (auto dest: life_step_dead)
  from this[OF store.steps_abs[OF assms(2,1)], of "life_attempt_of a"] assms(3,4)
  show ?thesis by (auto simp: live_attempt_def life_of_def)
qed

lemma agent_call_log: "agent_call out co agent request w = (r, w') \<Longrightarrow> cl_log w' = cl_log w @ [Asked request r]"
  unfolding agent_call_def by (rule store_call_log)

lemma agent_call_ok:
  assumes "agent_call out co agent request w = (Inr r, w')"
  shows "\<exists>db'. agent_work (co_hmac co) (co_config co) (os_env out (cl_calls w)) request (os_others out (cl_calls w) (cl_db w)) = Inr (r, db') \<and>
    cl_db w' = db'"
  using assms unfolding agent_call_def store_call_def Let_def
  by (auto split: sum.splits option.splits prod.splits if_splits dest!: agent_answer_ok)

fun drops :: "string \<Rightarrow> AgentCall \<Rightarrow> bool" where
  "drops aid (Dropped aid' r) \<longleftrightarrow> aid' = aid"
| "drops aid call \<longleftrightarrow> False"

lemma agent_call_drops: "keeps (appends (\<lambda>x. \<not> drops aid x)) (agent_call out co agent request)"
  by (rule agent_call_keeps) (simp add: store_appends)

lemma agent_clean_drops: "aid' \<noteq> aid \<Longrightarrow> keeps (appends (\<lambda>x. \<not> drops aid x)) (agent_clean out co agent aid')"
  unfolding agent_clean_def agent_remove_def agent_report_def by (intro appends_intros agent_call_drops) simp

lemma agent_launch_drops: "keeps (appends (\<lambda>x. \<not> drops aid x)) (agent_launch out co agent a)"
  unfolding agent_launch_def agent_report_def by (intro appends_intros agent_call_drops) simp

lemma agent_remove_drops: "aid' \<noteq> aid \<Longrightarrow> keeps (appends (\<lambda>x. \<not> drops aid x)) (agent_remove agent aid')"
  unfolding agent_remove_def by (intro appends_intros) simp

text \<open>What the coordinator orders to clean up is over when the answer is given.\<close>

lemma polled_dead:
  assumes "agent_work hmac config e (Poll w) db = Inr (reply, db')" and "aid \<in> set (to_clean reply)" and "store_inv db"
  shows "\<exists>a. attempt_row db aid = Some a \<and> \<not> live (a_status a)"
proof -
  from assms(1,2) obtain finished where "cleanup (wi_id w) (wi_session w) db = Inr finished" "aid \<in> att_id ` set finished"
    by (auto split: sum.splits)
  then obtain a where a: "a \<in> set (attempts db)" "a_id a = aid" "\<not> live (a_status a)"
    by (auto simp: cleanup_def pending_attempts_def attempt_of_def split: sum.splits)
  with attempt_row_of_mem[OF store_invD(9)[OF assms(3)] a(1)] show ?thesis by auto
qed

text \<open>
  C29: an agent never removes the container of an attempt that is alive. If the coordinator finds the
  attempt alive when it reconciles the inventory, and it is still alive after the round, no call of the
  round removes its container, whatever the inventory holds and whatever the other clients do meanwhile.
\<close>

theorem live_containers_are_kept:
  assumes "others_commit (cf_timing (co_config co)) out" and "reachable (cf_timing (co_config co)) (cl_db w)"
    and "live_attempt (os_others out (cl_calls w) (cl_db w)) aid"
    and "agent_round out co agent w = (res, w')" and "live_attempt (cl_db w') aid"
  shows "\<exists>calls. cl_log w' = cl_log w @ calls \<and> (\<forall>r. Dropped aid r \<notin> set calls)"
proof -
  let ?P = "\<lambda>x. \<not> drops aid x"
  define rest where "rest reply = then_io (each (agent_clean out co agent) (to_clean reply))
      (\<lambda>_. case to_launch reply of None \<Rightarrow> pure (Inr ()) | Some a \<Rightarrow> agent_launch out co agent a)" for reply
  define after where "after decisions = then_io (each (agent_remove agent) (decided decisions)) (\<lambda>_.
      then_io (agent_call out co agent (Poll (ag_identity agent))) rest)" for decisions
  note appends_trans = transpD[OF appends_order(2)]
  have rest_commits: "keeps (commits (cf_timing (co_config co))) (rest reply)" for reply
    unfolding rest_def by (intro commits_intros agent_call_commits agent_launch_commits agent_clean_commits assms(1))
  have tail: "appends ?P w1 w'" if run: "after decisions w1 = (res, w')" and decided: "aid \<notin> set (decided decisions)"
    and reach1: "reachable (cf_timing (co_config co)) (cl_db w1)" for decisions w1
  proof -
    have removes: "keeps (appends ?P) (each (agent_remove agent) (decided decisions))"
      using decided by (intro appends_intros agent_remove_drops) auto
    have commits: "keeps (commits (cf_timing (co_config co))) (each (agent_remove agent) (decided decisions))"
      unfolding agent_remove_def by (intro commits_intros)
    from run[unfolded after_def] show ?thesis
    proof (cases rule: then_io_result)
      case (failed ex)
      then show ?thesis using keepsD[OF removes] by blast
    next
      case (ok v w2)
      note first = keepsD[OF removes ok(1)] and reach2 = commits_reachable[OF reach1 keepsD[OF commits ok(1)]]
      from ok(2) show ?thesis
      proof (cases rule: then_io_result)
        case (failed ex)
        with first appends_trans keepsD[OF agent_call_drops] show ?thesis by blast
      next
        case (ok reply w3)
        have "aid \<notin> set (to_clean reply)"
        proof
          assume "aid \<in> set (to_clean reply)"
          moreover from agent_call_ok[OF ok(1)] obtain e pdb where
              work: "agent_work (co_hmac co) (co_config co) e (Poll (ag_identity agent)) pdb = Inr (reply, cl_db w3)"
            and pdb: "pdb = os_others out (cl_calls w2) (cl_db w2)" by blast
          moreover have "store_inv pdb"
            using store.steps_inv[OF _ reach2(2)] assms(1) unfolding pdb others_commit_def by blast
          ultimately obtain a where a: "attempt_row pdb aid = Some a" "\<not> live (a_status a)" using polled_dead by blast
          have "(store_step (cf_timing (co_config co)))\<^sup>*\<^sup>* pdb (cl_db w')"
            using agent_work_steps[OF work] keepsD[OF rest_commits ok(2)] unfolding commits_def by (rule rtranclp_trans)
          from dead_stays_dead[OF \<open>store_inv pdb\<close> this a] assms(5) show False by blast
        qed
        then have "keeps (appends ?P) (rest reply)"
          unfolding rest_def by (intro appends_intros agent_clean_drops agent_launch_drops) auto
        from keepsD[OF this ok(2)] keepsD[OF agent_call_drops ok(1)] first appends_trans show ?thesis by blast
      qed
    qed
  qed
  have inspect: "keeps (appends ?P) (backend_call Inspected (be_inventory (ag_backend agent)))"
    by (intro appends_intros) simp
  have "agent_round out co agent = then_io (backend_call Inspected (be_inventory (ag_backend agent))) (\<lambda>ids.
      then_io (agent_call out co agent (Reconcile (ag_identity agent) ids)) after)"
    unfolding agent_round_def after_def rest_def ..
  from assms(4)[unfolded this] have "appends ?P w w'"
  proof (cases rule: then_io_result)
    case (failed ex)
    then show ?thesis using keepsD[OF inspect] by blast
  next
    case (ok ids w1)
    note first = keepsD[OF inspect ok(1)]
    have same: "cl_db w1 = cl_db w" "cl_calls w1 = cl_calls w"
      using ok(1) by (auto simp: backend_call_def split: prod.splits)
    from ok(2) show ?thesis
    proof (cases rule: then_io_result)
      case (failed ex)
      with first appends_trans keepsD[OF agent_call_drops] show ?thesis by blast
    next
      case (ok decisions w2)
      from agent_call_ok[OF ok(1)] obtain stop where stop: "decisions = Decisions stop"
        "reconcile (wi_id (ag_identity agent)) (wi_session (ag_identity agent)) ids (os_others out (cl_calls w) (cl_db w)) = Inr stop"
        by (auto simp: same split: sum.splits)
      have "store_inv (os_others out (cl_calls w) (cl_db w))"
        using store.steps_inv[OF _ store.reachable_inv[OF assms(2)]] assms(1) unfolding others_commit_def by blast
      moreover have "reconcile_loop (wi_id (ag_identity agent)) (os_others out (cl_calls w) (cl_db w)) [] ids = Inr stop"
        using stop(2) by (auto simp: reconcile_def split: if_splits sum.splits)
      ultimately have "stop = [] @ filter (\<lambda>aid. \<not> live_attempt (os_others out (cl_calls w) (cl_db w)) aid) ids"
        by (rule reconcile_loop_filter)
      with assms(3) have "aid \<notin> set stop" by simp
      moreover have "reachable (cf_timing (co_config co)) (cl_db w2)"
        using commits_reachable(1)[OF _ keepsD[OF agent_call_commits[OF assms(1)] ok(1)]] assms(2) same by simp
      ultimately have "appends ?P w2 w'" using tail[OF ok(2)] stop(1) by simp
      with first appends_trans keepsD[OF agent_call_drops ok(1)] show ?thesis by blast
    qed
  qed
  then obtain calls where "cl_log w' = cl_log w @ calls" "\<forall>x\<in>set calls. \<not> drops aid x"
    by (auto simp: appends_def)
  then show ?thesis by (intro exI[of _ calls]) auto
qed

fun needs_drop :: "AgentCall \<Rightarrow> AgentCall option" where
  "needs_drop (Asked (ReportRuntime w aid runtime stopped) r) = (if stopped then Some (Dropped aid (Inr ())) else None)"
| "needs_drop call = None"

text \<open>
  An attempt is reported as stopped only when its container is gone. In every round, the call that
  reports it comes directly after the removal of that very container by the backend, which returned
  without an error.
\<close>

theorem stop_reports_follow_removals:
  assumes "agent_round out co agent w = (res, w')"
  shows "\<exists>calls. cl_log w' = cl_log w @ calls \<and>
    (\<forall>i<length calls. \<forall>identity aid runtime r. calls ! i = Asked (ReportRuntime identity aid runtime True) r \<longrightarrow>
       0 < i \<and> calls ! (i - 1) = Dropped aid (Inr ()))"
proof -
  have call: "keeps (confirms needs_drop) (agent_call out co agent request)" if "\<And>r. needs_drop (Asked request r) = None" for request
    using that by (intro agent_call_keeps store_confirms)
  have pair: "keeps (confirms needs_drop) (then_io (agent_remove agent aid) (\<lambda>_. agent_report out co agent aid [] True))" for aid
    unfolding agent_remove_def agent_report_def by (rule pair_confirms[OF _ _ agent_call_log]) simp_all
  have clean: "keeps (confirms needs_drop) (agent_clean out co agent aid)" for aid
    unfolding agent_clean_def by (rule keeps_then[OF confirms_order(2) pair]) (intro confirms_intros)
  have "keeps (confirms needs_drop) (agent_round out co agent)"
    unfolding agent_round_def agent_launch_def agent_remove_def agent_report_def
    by (intro confirms_intros call clean) simp_all
  from keepsD[OF this assms] show ?thesis by (fastforce simp: confirms_def follows_def)
qed

section \<open>A machine\<close>

text \<open>A backend whose world is the list of its containers.\<close>

definition demo_machine :: "string list ExecutionBackend" where
  "demo_machine = \<lparr>be_inventory = (\<lambda>present. (Inr present, present)),
     be_ensure = (\<lambda>l present. (Inr ''c1'', present @ [att_id (asg_attempt (ln_assignment l))])),
     be_has_stopped = (\<lambda>aid present. (Inr (aid \<notin> set present), present)),
     be_remove = (\<lambda>aid present. (Inr (), filter (\<lambda>j. j \<noteq> aid) present))\<rparr>"

definition demo_agent :: "string list Agent" where
  "demo_agent = \<lparr>ag_identity = \<lparr>wi_id = ''w'', wi_session = ''s''\<rparr>, ag_token = ''worker'', ag_backend = demo_machine\<rparr>"

definition demo_coordinator :: Coordinator where
  "demo_coordinator = \<lparr>co_hmac = demo_hmac, co_config = demo_config, co_ready = (\<lambda>n. True)\<rparr>"

definition quiet_outside :: Outside where
  "quiet_outside = \<lparr>os_env = (\<lambda>n. demo_env (1000 + int n) ''b''), os_others = (\<lambda>n db. db), os_outage = (\<lambda>n. None)\<rparr>"

definition demo_agency :: "string list \<Rightarrow> db \<Rightarrow> string list Agency" where
  "demo_agency present db = \<lparr>cl_db = db, cl_calls = 0, cl_log = [], cl_world = present\<rparr>"

lemma quiet_others: "others_commit timing quiet_outside"
  by (simp add: others_commit_def quiet_outside_def)

lemma demo_answer:
  "agent_answer demo_coordinator ''worker'' True request e db =
     (case agent_work demo_hmac demo_config e request db of
        Inl ex \<Rightarrow> (case check_rpc (exception_status ex) of Inl ex' \<Rightarrow> Inl ex' | Inr _ \<Rightarrow> Inr (Empty, db))
      | Inr v \<Rightarrow> Inr v)"
  by (auto simp: agent_answer_def agent_rpc_def agent_authorize_def authenticate_def demo_coordinator_def demo_config_def
      protect_def check_rpc_ok check_rpc_def split: sum.splits)

lemma demo_call:
  assumes "agent_work demo_hmac demo_config (demo_env (1000 + int (cl_calls w)) ''b'') request (cl_db w) = Inr (r, db')"
  shows "agent_call quiet_outside demo_coordinator demo_agent request w =
     (Inr r, w\<lparr>cl_db := db', cl_calls := Suc (cl_calls w), cl_log := cl_log w @ [Asked request (Inr r)]\<rparr>)"
  using assms demo_answer[of request "demo_env (1000 + int (cl_calls w)) ''b''" "cl_db w"]
  by (simp add: agent_call_def store_call_def quiet_outside_def Let_def demo_agent_def) (simp add: demo_coordinator_def)

lemma demo_agent_simps:
  "ag_identity demo_agent = \<lparr>wi_id = ''w'', wi_session = ''s''\<rparr>" "ag_backend demo_agent = demo_machine"
  "be_inventory demo_machine present = (Inr present, present)"
  "be_remove demo_machine aid present = (Inr (), filter (\<lambda>j. j \<noteq> aid) present)"
  by (simp_all add: demo_agent_def demo_machine_def)

lemma started_round:
  "\<exists>w'. agent_round quiet_outside demo_coordinator demo_agent (demo_agency [''ghost'', ''a''] demo_started) = (Inr (), w') \<and>
     cl_db w' = demo_started \<and> cl_world w' = [''a'']"
proof -
  have decide: "agent_work demo_hmac demo_config (demo_env 1000 ''b'') (Reconcile \<lparr>wi_id = ''w'', wi_session = ''s''\<rparr> [''ghost'', ''a'']) demo_started =
      Inr (Decisions [''ghost''], demo_started)"
    by (simp add: reconcile_def attempt_with_run_def live_def demo_all)
  have poll: "agent_work demo_hmac demo_config (demo_env 1001 ''b'') (Poll \<lparr>wi_id = ''w'', wi_session = ''s''\<rparr>) demo_started =
      Inr (WorkReply None [], demo_started)"
    by (simp add: cleanup_def assign_def worker_available_def gpu_observed_fresh_def pending_launch_def reserved_sum_def
        pending_attempts_def as_int_def free_gpus_def device_free_def next_run_def live_def unreleased_def demo_config_def demo_all)
  show ?thesis
    by (simp add: agent_round_def then_io_def pure_def backend_call_def demo_call decide poll agent_remove_def
        demo_agency_def demo_agent_simps del: agent_work.simps)
qed

lemma finished_round:
  "\<exists>w'. agent_round quiet_outside demo_coordinator demo_agent (demo_agency [''a''] demo_finished) = (Inr (), w') \<and>
     cl_log w' ! 5 = Asked (ReportRuntime \<lparr>wi_id = ''w'', wi_session = ''s''\<rparr> ''a'' [] True) (Inr Empty) \<and> length (cl_log w') = 6"
proof -
  have decide: "agent_work demo_hmac demo_config (demo_env 1000 ''b'') (Reconcile \<lparr>wi_id = ''w'', wi_session = ''s''\<rparr> [''a'']) demo_finished =
      Inr (Decisions [''a''], demo_finished)"
    by (simp add: reconcile_def attempt_with_run_def live_def demo_all)
  have poll: "agent_work demo_hmac demo_config (demo_env 1001 ''b'') (Poll \<lparr>wi_id = ''w'', wi_session = ''s''\<rparr>) demo_finished =
      Inr (WorkReply None [''a''], demo_finished)"
    by (simp add: cleanup_def assign_def worker_available_def gpu_observed_fresh_def pending_launch_def reserved_sum_def
        pending_attempts_def as_int_def free_gpus_def device_free_def next_run_def live_def unreleased_def demo_config_def demo_all)
  obtain db' where report: "agent_work demo_hmac demo_config (demo_env 1002 ''b'')
      (ReportRuntime \<lparr>wi_id = ''w'', wi_session = ''s''\<rparr> ''a'' [] True) demo_finished = Inr (Empty, db')"
    by (simp add: runtime_report_def live_def demo_all)
  show ?thesis
    by (simp add: agent_round_def then_io_def pure_def backend_call_def demo_call decide poll report agent_remove_def
        agent_clean_def agent_report_def demo_agency_def demo_agent_simps del: agent_work.simps)
qed

theorem agent_keeps_the_store_witness:
  "\<exists>res w'. agent_loop quiet_outside demo_coordinator demo_agent [(False, False), (False, False)] (demo_agency [''a''] demo_finished) =
     (res, w') \<and> store_inv (cl_db w')"
proof -
  obtain res w' where run: "agent_loop quiet_outside demo_coordinator demo_agent [(False, False), (False, False)]
      (demo_agency [''a''] demo_finished) = (res, w')" by fastforce
  have "reachable (cf_timing (co_config demo_coordinator)) (cl_db (demo_agency [''a''] demo_finished))"
    using demo_reachable by (simp add: demo_coordinator_def demo_config_def demo_agency_def)
  from agent_keeps_the_store[OF quiet_others this run] run show ?thesis by blast
qed

theorem live_containers_are_kept_witness:
  "\<exists>w'. agent_round quiet_outside demo_coordinator demo_agent (demo_agency [''ghost'', ''a''] demo_started) = (Inr (), w') \<and>
     cl_world w' = [''a''] \<and> Dropped ''a'' (Inr ()) \<notin> set (cl_log w')"
proof -
  from started_round obtain w' where
      run: "agent_round quiet_outside demo_coordinator demo_agent (demo_agency [''ghost'', ''a''] demo_started) = (Inr (), w')"
    and w': "cl_db w' = demo_started" "cl_world w' = [''a'']" by blast
  have alive: "live_attempt demo_started ''a''"
    by (simp add: live_attempt_def live_def demo_all)
  have "reachable (cf_timing (co_config demo_coordinator)) (cl_db (demo_agency [''ghost'', ''a''] demo_started))"
    using demo_reachable by (simp add: demo_coordinator_def demo_config_def demo_agency_def)
  moreover have "live_attempt (os_others quiet_outside (cl_calls (demo_agency [''ghost'', ''a''] demo_started))
      (cl_db (demo_agency [''ghost'', ''a''] demo_started))) ''a''"
    using alive by (simp add: quiet_outside_def demo_agency_def)
  ultimately obtain calls where "cl_log w' = cl_log (demo_agency [''ghost'', ''a''] demo_started) @ calls"
      "\<forall>r. Dropped ''a'' r \<notin> set calls"
    using live_containers_are_kept[OF quiet_others _ _ run] alive w' by auto
  with run w' show ?thesis by (auto simp: demo_agency_def)
qed

theorem stop_reports_follow_removals_witness:
  "\<exists>w'. agent_round quiet_outside demo_coordinator demo_agent (demo_agency [''a''] demo_finished) = (Inr (), w') \<and>
     cl_log w' ! 5 = Asked (ReportRuntime \<lparr>wi_id = ''w'', wi_session = ''s''\<rparr> ''a'' [] True) (Inr Empty) \<and>
     cl_log w' ! 4 = Dropped ''a'' (Inr ())"
proof -
  from finished_round obtain w' where
      run: "agent_round quiet_outside demo_coordinator demo_agent (demo_agency [''a''] demo_finished) = (Inr (), w')"
    and log: "cl_log w' ! 5 = Asked (ReportRuntime \<lparr>wi_id = ''w'', wi_session = ''s''\<rparr> ''a'' [] True) (Inr Empty)"
      "length (cl_log w') = 6" by blast
  from stop_reports_follow_removals[OF run] obtain calls where calls: "cl_log w' = calls"
    and needed: "\<forall>i<length calls. \<forall>identity aid runtime r. calls ! i = Asked (ReportRuntime identity aid runtime True) r \<longrightarrow>
       0 < i \<and> calls ! (i - 1) = Dropped aid (Inr ())"
    by (auto simp: demo_agency_def)
  have "5 < length calls" using log calls by simp
  with needed log(1)[unfolded calls] have "calls ! (5 - 1) = Dropped ''a'' (Inr ())" by blast
  with run log calls show ?thesis by auto
qed

end
