(* ===== verification/Gpu_Inventory.thy ===== *)
theory Gpu_Inventory
  imports Domain Http_Client "HOL-Library.Multiset"
begin

text \<open>
  \<^verbatim>\<open>src/nvidia/inventory.cpp\<close>: the allowlist of devices and the discovery through NVML. The library is a
  parameter: what it has, and what it answers for each index.
\<close>

section \<open>The allowlist\<close>

text \<open>A \<open>std::set\<close> of names is the increasing list of its elements. The loop over the fields:\<close>

definition allowlist_id :: "string \<Rightarrow> bool" where
  "allowlist_id u \<longleftrightarrow> starts_with u ''GPU-'' \<and> length u \<le> 100 \<and>
     CHR '' '' \<notin> set u \<and> CHR 0x09 \<notin> set u \<and> CHR 0x0A \<notin> set u"

fun insert_ids :: "string list \<Rightarrow> string list \<Rightarrow> string list result" where
  "insert_ids [] result = Inr result"
| "insert_ids (u # ids) result =
     (if \<not> allowlist_id u \<or> u \<in> set result
      then throw invalid ''GPU allowlist requires distinct comma-separated UUIDs''
      else insert_ids ids (insort u result))"

definition gpu_allowlist :: "string \<Rightarrow> string list result" where
  "gpu_allowlist v =
     (if v = [] then Inr []
      else andthen (insert_ids (getlines (CHR '','') v) []) (\<lambda>result.
        if last v = CHR '','' \<or> 64 < length result then throw invalid ''invalid GPU allowlist'' else Inr result))"

section \<open>Discovery\<close>

text \<open>What NVML answers for one index. After a failed call the buffers are as the call left them.\<close>

datatype mig_answer = MigMode int int | MigNotSupported | MigFailed

record NvmlDevice =
  nd_uuid :: "string option"
  nd_named :: bool
  nd_name :: string
  nd_measured :: bool
  nd_memory :: uint64
  nd_mig :: mig_answer

record Nvml =
  nv_opens :: bool
  nv_symbol :: "string \<Rightarrow> bool"
  nv_init :: bool
  nv_count :: "nat option"
  nv_device :: "nat \<Rightarrow> NvmlDevice"

text \<open>The body of the loop, for one index.\<close>

definition discover_device :: "string list \<Rightarrow> NvmlDevice \<Rightarrow> GpuDevice option" where
  "discover_device allowed d =
     (case nd_uuid d of
        None \<Rightarrow> None
      | Some uuid \<Rightarrow>
        (if \<not> starts_with uuid ''GPU-'' \<or> (allowed \<noteq> [] \<and> uuid \<notin> set allowed) then None
         else
           let memory = (if nd_named d then nd_memory d else 0);
               verdict = (if \<not> nd_named d \<or> \<not> nd_measured d then (False, ''device metadata unavailable'')
                          else case nd_mig d of
                            MigFailed \<Rightarrow> (False, ''whole-device mode unavailable'')
                          | MigNotSupported \<Rightarrow> (True, [])
                          | MigMode current pending \<Rightarrow>
                              if current \<noteq> 0 \<or> pending \<noteq> 0 then (False, ''whole-device mode unavailable'') else (True, []))
           in Some \<lparr>gd_uuid = uuid, gd_name = nd_name d, gd_memory_mib = memory div (1024 * 1024),
                     gd_eligible = fst verdict, gd_reason = snd verdict\<rparr>))"

definition discover_devices :: "string list \<Rightarrow> Nvml \<Rightarrow> GpuDevice list result" where
  "discover_devices allowed nvml =
     (case nv_count nvml of
        None \<Rightarrow> throw unavailable ''NVML device enumeration failed''
      | Some n \<Rightarrow>
        (if 64 < n then throw unavailable ''NVML device enumeration failed''
         else
           let devices = sort_by (\<lambda>a b. gd_uuid a \<le> gd_uuid b)
                 (List.map_filter (discover_device allowed \<circ> nv_device nvml) [0..<n])
           in case find (\<lambda>u. u \<notin> gd_uuid ` set devices) allowed of
                Some u \<Rightarrow> throw unavailable (''allowlisted GPU was not discovered: '' @ u)
              | None \<Rightarrow> Inr devices))"

text \<open>The library and the session around it: what is opened is closed, in the reverse order.\<close>

datatype nvml_effect = LibraryOpened | Initialized | ShutDown | LibraryClosed

definition nvml_symbols :: "string list" where
  "nvml_symbols = [''nvmlDeviceGetCount_v2'', ''nvmlDeviceGetHandleByIndex_v2'', ''nvmlDeviceGetUUID'',
     ''nvmlDeviceGetName'', ''nvmlDeviceGetMemoryInfo'', ''nvmlDeviceGetMigMode'']"

definition nvml_entry :: "Nvml \<Rightarrow> string \<Rightarrow> unit result" where
  "nvml_entry nvml name =
     (if nv_symbol nvml name then Inr () else throw unavailable (''NVML entrypoint unavailable: '' @ name))"

definition in_session :: "Nvml \<Rightarrow> 'a result \<Rightarrow> 'a result \<times> nvml_effect list" where
  "in_session nvml work =
     (case andthen (nvml_entry nvml ''nvmlShutdown'') (\<lambda>_. nvml_entry nvml ''nvmlInit_v2'') of
        Inl ex \<Rightarrow> (Inl ex, [])
      | Inr _ \<Rightarrow>
        (if \<not> nv_init nvml then (throw unavailable ''NVML initialization failed'', [])
         else (work, [Initialized, ShutDown])))"

definition discover :: "string list \<Rightarrow> Nvml \<Rightarrow> GpuDevice list result \<times> nvml_effect list" where
  "discover allowed nvml =
     (if \<not> nv_opens nvml then (throw unavailable ''NVML library unavailable'', [])
      else case in_session nvml
          (andthen (for_each (nvml_entry nvml) nvml_symbols) (\<lambda>_. discover_devices allowed nvml)) of
        (r, effects) \<Rightarrow> (r, [LibraryOpened] @ effects @ [LibraryClosed]))"

section \<open>Properties\<close>

lemma insert_ids_result:
  "insert_ids ids acc = Inr result \<Longrightarrow> sorted acc \<Longrightarrow> distinct acc \<Longrightarrow>
   sorted result \<and> distinct result \<and> mset result = mset ids + mset acc \<and> list_all allowlist_id ids"
proof (induction ids acc rule: insert_ids.induct)
  case (2 u ids acc)
  then show ?case
    by (auto split: if_splits simp: distinct_insort sorted_insort mset_insort)
qed auto

lemma insert_ids_complete:
  "list_all allowlist_id ids \<Longrightarrow> distinct ids \<Longrightarrow> set ids \<inter> set acc = {} \<Longrightarrow> \<exists>result. insert_ids ids acc = Inr result"
  by (induction ids acc rule: insert_ids.induct) (auto simp: set_insort_key)

lemma insert_ids_invalid: "insert_ids ids acc = Inl ex \<Longrightarrow> ex = Error invalid ''GPU allowlist requires distinct comma-separated UUIDs''"
  by (induction ids acc rule: insert_ids.induct) (auto split: if_splits)

lemma insert_ids_iff:
  "insert_ids ids [] = Inr result \<longleftrightarrow> list_all allowlist_id ids \<and> distinct ids \<and> result = sort ids"
proof -
  have r: "sorted r \<and> distinct r \<and> mset r = mset ids \<and> list_all allowlist_id ids" if "insert_ids ids [] = Inr r" for r
    using insert_ids_result[OF that] by simp
  have s: "r = sort ids \<and> distinct ids" if "insert_ids ids [] = Inr r" for r
  proof -
    from r[OF that] have "sort ids = r" by (intro properties_for_sort) auto
    moreover from r[OF that] have "distinct ids" by (metis mset_eq_imp_distinct_iff)
    ultimately show ?thesis by simp
  qed
  have "\<exists>r. insert_ids ids [] = Inr r" if "list_all allowlist_id ids" "distinct ids"
    using insert_ids_complete[of ids "[]"] that by simp
  then show ?thesis
    using r s by blast
qed

text \<open>
  An allowlist is accepted exactly when it is empty or a list of at most 64 distinct well-formed UUIDs
  with one comma between two of them and none at the end; then the result is those UUIDs in increasing
  order. Everything else is an error that blames the configuration.
\<close>

theorem allowlists_are_read_exactly:
  "gpu_allowlist v = Inr ids \<longleftrightarrow>
     (let fields = getlines (CHR '','') v in
      list_all allowlist_id fields \<and> distinct fields \<and> length fields \<le> 64 \<and> (v = [] \<or> last v \<noteq> CHR '','') \<and>
      ids = sort fields)"
proof (cases "v = []")
  case True
  then show ?thesis by (auto simp: gpu_allowlist_def getlines_def)
next
  case False
  then show ?thesis
    by (auto simp: gpu_allowlist_def Let_def insert_ids_iff andthen_ok)
qed

lemma uuid_order: "sorted (map gd_uuid (sort_by (\<lambda>a b. gd_uuid a \<le> gd_uuid b) ds))"
  unfolding sorted_map by (rule sorted_wrt_sort_by) auto

lemma discovered_device:
  assumes "discover_device allowed d = Some g"
  shows "nd_uuid d = Some (gd_uuid g) \<and> starts_with (gd_uuid g) ''GPU-'' \<and> (allowed = [] \<or> gd_uuid g \<in> set allowed) \<and>
    (gd_eligible g \<longleftrightarrow> nd_named d \<and> nd_measured d \<and> (nd_mig d = MigNotSupported \<or> nd_mig d = MigMode 0 0)) \<and>
    (gd_eligible g \<longrightarrow> gd_name g = nd_name d \<and> gd_memory_mib g = nd_memory d div (1024 * 1024)) \<and>
    (gd_eligible g \<longleftrightarrow> gd_reason g = [])"
  using assms by (auto simp: discover_device_def Let_def split: option.splits if_splits mig_answer.splits)

lemma discover_Inr:
  assumes "fst (discover allowed nvml) = Inr devices"
  shows "discover_devices allowed nvml = Inr devices \<and> snd (discover allowed nvml) = [LibraryOpened, Initialized, ShutDown, LibraryClosed]"
proof -
  have opened: "nv_opens nvml"
    using assms by (auto simp: discover_def split: if_splits)
  obtain r effects where s: "in_session nvml
      (andthen (for_each (nvml_entry nvml) nvml_symbols) (\<lambda>_. discover_devices allowed nvml)) = (r, effects)"
    by (metis prod.exhaust)
  have r: "r = Inr devices"
    using assms opened s by (simp add: discover_def)
  then have "andthen (for_each (nvml_entry nvml) nvml_symbols) (\<lambda>_. discover_devices allowed nvml) = Inr devices"
    and e: "effects = [Initialized, ShutDown]"
    using s by (auto simp: in_session_def split: sum.splits if_splits)
  then have "discover_devices allowed nvml = Inr devices"
    by (auto simp: andthen_def split: sum.splits)
  with opened s r e show ?thesis by (simp add: discover_def)
qed

lemma discover_devices_Inr:
  assumes "discover_devices allowed nvml = Inr devices"
  obtains n where "nv_count nvml = Some n" "n \<le> 64"
    and "devices = sort_by (\<lambda>a b. gd_uuid a \<le> gd_uuid b) (List.map_filter (discover_device allowed \<circ> nv_device nvml) [0..<n])"
    and "set allowed \<subseteq> gd_uuid ` set devices"
  using assms by (auto simp: discover_devices_def Let_def find_None_iff split: option.splits if_splits)

text \<open>
  C33. A discovery that succeeds lists the devices in the order of their UUIDs, at most 64 of them, each one
  answered by the driver; with an allowlist the devices are exactly the allowed ones. A device is eligible
  only if its metadata was read and it is a whole device (MIG unsupported, or neither on nor pending).
  Whatever happens, the library and the session are released.
\<close>

theorem discovery_lists_the_allowed_devices:
  assumes "fst (discover allowed nvml) = Inr devices"
  shows "sorted (map gd_uuid devices) \<and> length devices \<le> 64 \<and>
    (allowed \<noteq> [] \<longrightarrow> gd_uuid ` set devices = set allowed) \<and>
    (\<forall>g\<in>set devices. \<exists>i. nd_uuid (nv_device nvml i) = Some (gd_uuid g) \<and>
       (gd_eligible g \<longleftrightarrow> nd_named (nv_device nvml i) \<and> nd_measured (nv_device nvml i) \<and>
          (nd_mig (nv_device nvml i) = MigNotSupported \<or> nd_mig (nv_device nvml i) = MigMode 0 0))) \<and>
    snd (discover allowed nvml) = [LibraryOpened, Initialized, ShutDown, LibraryClosed]"
proof -
  from discover_Inr[OF assms] have d: "discover_devices allowed nvml = Inr devices"
    and e: "snd (discover allowed nvml) = [LibraryOpened, Initialized, ShutDown, LibraryClosed]" by auto
  from d obtain n where n: "nv_count nvml = Some n" "n \<le> 64"
    and devices: "devices = sort_by (\<lambda>a b. gd_uuid a \<le> gd_uuid b) (List.map_filter (discover_device allowed \<circ> nv_device nvml) [0..<n])"
    and all: "set allowed \<subseteq> gd_uuid ` set devices"
    by (rule discover_devices_Inr)
  have found: "\<exists>i. discover_device allowed (nv_device nvml i) = Some g" if "g \<in> set devices" for g
    using that by (auto simp: devices List.map_filter_def)
  have "length devices \<le> n"
    using length_filter_le[of _ "[0..<n]"] by (simp add: devices List.map_filter_def)
  moreover have "gd_uuid ` set devices \<subseteq> set allowed" if "allowed \<noteq> []"
    using that found discovered_device by fastforce
  moreover have "\<exists>i. nd_uuid (nv_device nvml i) = Some (gd_uuid g) \<and>
       (gd_eligible g \<longleftrightarrow> nd_named (nv_device nvml i) \<and> nd_measured (nv_device nvml i) \<and>
          (nd_mig (nv_device nvml i) = MigNotSupported \<or> nd_mig (nv_device nvml i) = MigMode 0 0))"
    if "g \<in> set devices" for g
    using found[OF that] discovered_device by blast
  ultimately show ?thesis
    using n all e uuid_order by (auto simp: devices)
qed

definition demo_nvml :: Nvml where
  "demo_nvml = \<lparr>nv_opens = True, nv_symbol = (\<lambda>_. True), nv_init = True, nv_count = Some 2,
     nv_device = (\<lambda>i. \<lparr>nd_uuid = Some (if i = 0 then ''GPU-b'' else ''GPU-a''), nd_named = True, nd_name = ''A100'',
       nd_measured = True, nd_memory = 1048576, nd_mig = (if i = 0 then MigMode 1 0 else MigNotSupported)\<rparr>)\<rparr>"

lemma demo_discovery:
  "discover [''GPU-a'', ''GPU-b''] demo_nvml = (Inr [
     \<lparr>gd_uuid = ''GPU-a'', gd_name = ''A100'', gd_memory_mib = 1, gd_eligible = True, gd_reason = []\<rparr>,
     \<lparr>gd_uuid = ''GPU-b'', gd_name = ''A100'', gd_memory_mib = 1, gd_eligible = False,
       gd_reason = ''whole-device mode unavailable''\<rparr>], [LibraryOpened, Initialized, ShutDown, LibraryClosed])"
  by code_simp

theorem discovery_lists_the_allowed_devices_witness:
  "gd_uuid ` set (case discover [''GPU-a'', ''GPU-b''] demo_nvml of (Inr ds, _) \<Rightarrow> ds | _ \<Rightarrow> []) = {''GPU-a'', ''GPU-b''}"
  using discovery_lists_the_allowed_devices[of "[''GPU-a'', ''GPU-b'']" demo_nvml]
  by (simp add: demo_discovery)

end
