(* ===== verification/Processes.thy ===== *)
theory Processes
  imports Agent Docker_Backend Kubernetes_Backend Gpu_Inventory
begin

text \<open>
  \<^verbatim>\<open>apps/runner.cpp\<close> and \<^verbatim>\<open>apps/agent.cpp\<close>: the settings that the two processes read from their
  environment, and their exit codes. The signal handlers are the answers to \<open>stop_requested\<close> elsewhere.
\<close>

section \<open>The runner\<close>

record RunnerConfig =
  rn_attempt_id :: string
  rn_run_id :: string
  rn_generation :: int
  rn_endpoint :: string
  rn_capability :: string
  rn_ca_file :: string
  rn_directory :: string
  rn_development :: bool
  rn_node_name :: string

definition runner_config :: "environment \<Rightarrow> RunnerConfig result" where
  "runner_config vars =
     andthen (env_int vars ''RUNYARD_GENERATION'' 1) (\<lambda>generation.
       let config = \<lparr>rn_attempt_id = env_or vars ''RUNYARD_ATTEMPT_ID'' [],
                     rn_run_id = env_or vars ''RUNYARD_RUN_ID'' [],
                     rn_generation = generation,
                     rn_endpoint = env_or vars ''RUNYARD_COORDINATOR'' ''localhost:9090'',
                     rn_capability = env_or vars ''RUNYARD_CAPABILITY'' [],
                     rn_ca_file = env_or vars ''RUNYARD_TLS_CA'' [],
                     rn_directory = env_or vars ''RUNYARD_WORK_ROOT'' ''/tmp/runyard'',
                     rn_development = (env_or vars ''RUNYARD_PROFILE'' [] = ''development''),
                     rn_node_name = env_or vars ''RUNYARD_NODE_NAME'' []\<rparr>
       in if rn_attempt_id config = [] \<or> rn_capability config = []
          then Inl (StdError ''attempt identity and capability required'') else Inr config)"

text \<open>The exit code; an exception is printed.\<close>

definition runner_main :: "environment \<Rightarrow> (RunnerConfig \<Rightarrow> (int, 's) io) \<Rightarrow> 's \<Rightarrow> int \<times> 's" where
  "runner_main vars run s =
     (case then_io (pure (runner_config vars)) run s of (r, s') \<Rightarrow> (case r of Inl ex \<Rightarrow> 1 | Inr code \<Rightarrow> code, s'))"

section \<open>The agent\<close>

record AgentConfig =
  ac_id :: string
  ac_endpoint :: string
  ac_token :: string
  ac_ca_file :: string
  ac_capacity :: Resources
  ac_development :: bool
  ac_gpu :: GpuRegistration

definition agent_config :: "environment \<Rightarrow> AgentConfig result" where
  "agent_config vars =
     andthen (env_int vars ''RUNYARD_CPU_MILLIS'' 4000) (\<lambda>cpu.
     andthen (env_int vars ''RUNYARD_MEMORY_MIB'' 4096) (\<lambda>memory.
       let config = \<lparr>ac_id = env_or vars ''RUNYARD_WORKER_ID'' [],
                     ac_endpoint = env_or vars ''RUNYARD_COORDINATOR'' ''localhost:9090'',
                     ac_token = env_or vars ''RUNYARD_WORKER_TOKEN'' [],
                     ac_ca_file = env_or vars ''RUNYARD_TLS_CA'' [],
                     ac_capacity = \<lparr>cpu_millis = cpu, memory_mib = memory, gpu_count = 0\<rparr>,
                     ac_development = (env_or vars ''RUNYARD_PROFILE'' [] = ''development''),
                     ac_gpu = \<lparr>reg_engine_id = [], reg_capable = False\<rparr>\<rparr>
       in if ac_id config = [] \<or> ac_token config = []
          then Inl (StdError ''worker identity and token required'') else Inr config))"

definition docker_settings :: "environment \<Rightarrow> AgentConfig \<Rightarrow> DockerConfig" where
  "docker_settings vars config =
     \<lparr>dc_socket = env_or vars ''RUNYARD_DOCKER_SOCKET'' ''/var/run/docker.sock'',
      dc_network = env_or vars ''RUNYARD_DOCKER_NETWORK'' ''runyard'',
      dc_worker = ac_id config,
      dc_coordinator = env_or vars ''RUNYARD_RUNNER_COORDINATOR'' (ac_endpoint config),
      dc_ca_host_path = env_or vars ''RUNYARD_DOCKER_CA_HOST_PATH'' [],
      dc_development = ac_development config\<rparr>"

text \<open>The GPU mode: the registration with the engine's identity, and the allowlist of the inventory.\<close>

definition gpu_mode ::
    "environment \<Rightarrow> (DockerConfig \<Rightarrow> (string, 's) io) \<Rightarrow> AgentConfig \<Rightarrow> (AgentConfig \<times> string list option, 's) io" where
  "gpu_mode vars engine_id config =
     (let mode = env_or vars ''RUNYARD_GPU_MODE'' ''disabled'' in
      if mode \<noteq> ''disabled'' \<and> mode \<noteq> ''nvidia'' then pure (Inl (StdError ''RUNYARD_GPU_MODE must be disabled or nvidia''))
      else if mode = ''nvidia'' then
        then_io (pure (gpu_allowlist (env_or vars ''RUNYARD_GPU_UUIDS'' []))) (\<lambda>allowed.
        then_io (engine_id (docker_settings vars config)) (\<lambda>engine.
          pure (Inr (config\<lparr>ac_gpu := \<lparr>reg_engine_id = engine, reg_capable = True\<rparr>\<rparr>, Some allowed))))
      else pure (Inr (config, None)))"

text \<open>\<open>run\<close> stands for \<open>run_agent\<close>, which the theory \<open>Agent\<close> has in its parts.\<close>

definition agent_main ::
    "environment \<Rightarrow> (DockerConfig \<Rightarrow> (string, 's) io) \<Rightarrow>
     (AgentConfig \<Rightarrow> DockerConfig \<Rightarrow> string list option \<Rightarrow> (unit, 's) io) \<Rightarrow> 's \<Rightarrow> int \<times> 's" where
  "agent_main vars engine_id run s =
     (case then_io (pure (agent_config vars)) (\<lambda>config.
           then_io (gpu_mode vars engine_id config) (\<lambda>(config', allowed).
             run config' (docker_settings vars config) allowed)) s of
        (r, s') \<Rightarrow> (case r of Inl ex \<Rightarrow> 1 | Inr _ \<Rightarrow> 0, s'))"

section \<open>What a container is started with\<close>

text \<open>
  An entry \<open>NAME=value\<close> of \<open>Env\<close>, and what the engine promises of the process it starts: every entry
  of \<open>Env\<close> is in its environment. The rest of the environment comes from the image.
\<close>

definition setting_of :: "string \<Rightarrow> string \<times> string" where
  "setting_of entry = (takeWhile (\<lambda>ch. ch \<noteq> CHR ''='') entry, drop 1 (dropWhile (\<lambda>ch. ch \<noteq> CHR ''='') entry))"

definition given :: "environment \<Rightarrow> string \<times> string \<Rightarrow> bool" where
  "given vars setting \<longleftrightarrow> vars (fst setting) = Some (snd setting)"

definition started_with :: "Json \<Rightarrow> environment \<Rightarrow> bool" where
  "started_with container vars \<longleftrightarrow>
     (case json_at container ''Env'' of
        Inr (JArray entries) \<Rightarrow> list_all (\<lambda>entry. case entry of JString str \<Rightarrow> given vars (setting_of str) | _ \<Rightarrow> False) entries
      | _ \<Rightarrow> False)"

text \<open>An entry of a Job: a value, or the name of the node, which is the only field that is referred to.\<close>

definition job_entry_given :: "environment \<Rightarrow> string \<Rightarrow> Json \<Rightarrow> bool" where
  "job_entry_given vars node entry \<longleftrightarrow>
     (case (json_at entry ''name'', json_at entry ''value'') of
        (Inr (JString name), Inr (JString value)) \<Rightarrow> given vars (name, value)
      | (Inr (JString name), Inl _) \<Rightarrow> given vars (name, node)
      | _ \<Rightarrow> False)"

definition job_started_with :: "Json \<Rightarrow> string \<Rightarrow> environment \<Rightarrow> bool" where
  "job_started_with job node vars \<longleftrightarrow>
     (case json_path job [''spec'', ''template'', ''spec'', ''containers''] of
        Inr (JArray [container]) \<Rightarrow>
          (case json_at container ''env'' of Inr (JArray entries) \<Rightarrow> list_all (job_entry_given vars node) entries | _ \<Rightarrow> False)
      | _ \<Rightarrow> False)"

section \<open>Properties\<close>

text \<open>The runner reads back what names its attempt.\<close>

lemma runner_config_given:
  assumes "vars ''RUNYARD_ATTEMPT_ID'' = Some aid" "vars ''RUNYARD_RUN_ID'' = Some rid"
    "vars ''RUNYARD_GENERATION'' = Some (show_int generation)" "vars ''RUNYARD_CAPABILITY'' = Some capability"
    "vars ''RUNYARD_COORDINATOR'' = Some address"
    and "aid \<noteq> []" "capability \<noteq> []" "1 \<le> generation" "generation \<le> INT_MAX"
  shows "\<exists>rc. runner_config vars = Inr rc \<and> rn_attempt_id rc = aid \<and> rn_run_id rc = rid \<and> rn_generation rc = generation \<and>
    rn_capability rc = capability \<and> rn_endpoint rc = address \<and>
    rn_development rc = (env_or vars ''RUNYARD_PROFILE'' [] = ''development'') \<and> rn_node_name rc = env_or vars ''RUNYARD_NODE_NAME'' []"
  using assms by (simp add: runner_config_def env_int_show Let_def env_or_def)

lemma setting_of_named: "CHR ''='' \<notin> set name \<Longrightarrow> setting_of (name @ CHR ''='' # v) = (name, v)"
  by (simp add: setting_of_def takeWhile_append dropWhile_append)

lemma docker_variables:
  assumes "docker_container_spec config launch = Inr container" and "started_with container vars"
  defines "a \<equiv> asg_attempt (ln_assignment launch)"
  shows "vars ''RUNYARD_ATTEMPT_ID'' = Some (att_id a)" "vars ''RUNYARD_RUN_ID'' = Some (att_run_id a)"
    "vars ''RUNYARD_GENERATION'' = Some (show_int (att_generation a))" "vars ''RUNYARD_CAPABILITY'' = Some (ln_capability launch)"
    "vars ''RUNYARD_COORDINATOR'' = Some (dc_coordinator config)"
    "vars ''RUNYARD_PROFILE'' = Some (if dc_development config then ''development'' else ''production'')"
  using assms(1,2) setting_of_named[of "''RUNYARD_ATTEMPT_ID''"] setting_of_named[of "''RUNYARD_RUN_ID''"]
    setting_of_named[of "''RUNYARD_GENERATION''"] setting_of_named[of "''RUNYARD_CAPABILITY''"]
    setting_of_named[of "''RUNYARD_COORDINATOR''"] setting_of_named[of "''RUNYARD_PROFILE''"]
  by (auto simp: docker_container_spec_def Let_def ok_simps a_def started_with_def json_at_def json_object_members given_def)

lemma job_variables:
  assumes "job_started_with (kubernetes_job config launch) node vars"
  defines "a \<equiv> asg_attempt (ln_assignment launch)"
  shows "vars ''RUNYARD_ATTEMPT_ID'' = Some (att_id a)" "vars ''RUNYARD_RUN_ID'' = Some (att_run_id a)"
    "vars ''RUNYARD_GENERATION'' = Some (show_int (att_generation a))" "vars ''RUNYARD_CAPABILITY'' = Some (ln_capability launch)"
    "vars ''RUNYARD_COORDINATOR'' = Some (kc_coordinator config)" "vars ''RUNYARD_NODE_NAME'' = Some node"
    "kc_development config \<Longrightarrow> vars ''RUNYARD_PROFILE'' = Some ''development''"
proof -
  have "json_path (kubernetes_job config launch) [''spec'', ''template'', ''spec'', ''containers''] = Inr (JArray [job_container config launch])"
    by (simp add: kubernetes_job_def job_pod_def json_at_def json_object_members Let_def)
  moreover have "json_at (job_container config launch) ''env'' = Inr (JArray (job_environment config launch))"
    by (simp add: job_container_def json_at_def json_object_members Let_def)
  ultimately have all: "list_all (job_entry_given vars node) (job_environment config launch)"
    using assms(1) by (simp add: job_started_with_def)
  have given_value: "job_entry_given vars node (env_entry name v) \<longleftrightarrow> vars name = Some v" for name v
    by (simp add: job_entry_given_def env_entry_def json_at_def json_object_members given_def)
  show "vars ''RUNYARD_ATTEMPT_ID'' = Some (att_id a)" "vars ''RUNYARD_RUN_ID'' = Some (att_run_id a)"
    "vars ''RUNYARD_GENERATION'' = Some (show_int (att_generation a))" "vars ''RUNYARD_CAPABILITY'' = Some (ln_capability launch)"
    "vars ''RUNYARD_COORDINATOR'' = Some (kc_coordinator config)"
    "kc_development config \<Longrightarrow> vars ''RUNYARD_PROFILE'' = Some ''development''"
    using all by (simp_all add: job_environment_def Let_def given_value a_def)
  show "vars ''RUNYARD_NODE_NAME'' = Some node"
    using all by (simp add: job_environment_def Let_def job_entry_given_def json_at_def json_object_members given_def)
qed


definition demo_runner_launch :: Launch where
  "demo_runner_launch = demo_launch\<lparr>ln_capability := attempt_capability demo_hmac ''key'' ''a'' 1\<rparr>"

definition demo_runner_vars :: environment where
  "demo_runner_vars = map_of [(''RUNYARD_ATTEMPT_ID'', ''a''), (''RUNYARD_RUN_ID'', ''r''), (''RUNYARD_GENERATION'', ''1''),
     (''RUNYARD_CAPABILITY'', attempt_capability demo_hmac ''key'' ''a'' 1), (''RUNYARD_COORDINATOR'', ''h''),
     (''RUNYARD_PROFILE'', ''development''), (''NVIDIA_VISIBLE_DEVICES'', ''GPU-1''),
     (''NVIDIA_DRIVER_CAPABILITIES'', ''compute,utility'')]"


end
