(* ===== verification/Coordinator.thy ===== *)
theory Coordinator
  imports Kubernetes_Controller Kubernetes_Backend Kubernetes_Capacity Database_Access Config Store_Properties
begin

text \<open>
  \<^verbatim>\<open>src/apps/server.cpp\<close>: the coordinator process. Three threads take turns with pauses: the monitor
  refreshes the leadership and lets the store recover, the dispatcher ticks the Kubernetes controller,
  and the inventory scans the cluster. What the other threads, the remote procedures and the HTTP
  interface do to the database between two transactions is the \<open>Outside\<close> of each thread. The metrics that
  a turn of the monitor publishes are left out: they only read.
\<close>

section \<open>Settings\<close>

definition default_KubernetesConfig :: KubernetesConfig where
  "default_KubernetesConfig = \<lparr>kc_api = ''https://kubernetes.default.svc'', kc_name_space = ''runyard'',
     kc_token_path = ''/var/run/secrets/kubernetes.io/serviceaccount/token'', kc_token_file = None,
     kc_api_ca = ''/var/run/secrets/kubernetes.io/serviceaccount/ca.crt'', kc_coordinator = ''server:9090'',
     kc_runner_ca_configmap = [], kc_development = False, kc_gpu_runtime_class = []\<rparr>"

definition kubernetes_settings :: "environment \<Rightarrow> ServerConfig \<Rightarrow> KubernetesConfig" where
  "kubernetes_settings ev config =
     (let k = default_KubernetesConfig in
      k\<lparr>kc_api := env_or ev ''RUNYARD_KUBERNETES_API'' (kc_api k),
        kc_name_space := env_or ev ''RUNYARD_KUBERNETES_NAMESPACE'' (kc_name_space k),
        kc_coordinator := env_or ev ''RUNYARD_RUNNER_COORDINATOR'' (kc_coordinator k),
        kc_development := cf_development config,
        kc_gpu_runtime_class := env_or ev ''RUNYARD_KUBERNETES_GPU_RUNTIME_CLASS'' [],
        kc_runner_ca_configmap := env_or ev ''RUNYARD_RUNNER_CA_CONFIGMAP'' []\<rparr>)"

datatype Storage = S3Storage string string string bool | FileStorage string

definition storage_settings :: "environment \<Rightarrow> ServerConfig \<Rightarrow> Storage result" where
  "storage_settings ev config =
     (let storage = env_or ev ''RUNYARD_STORAGE'' ''filesystem'' in
      if storage = ''s3''
      then Inr (S3Storage (env_or ev ''RUNYARD_S3_BUCKET'' []) (env_or ev ''AWS_REGION'' ''us-east-1'')
             (env_or ev ''RUNYARD_S3_ENDPOINT'' []) (cf_development config))
      else if storage = ''filesystem'' then Inr (FileStorage (cf_artifacts config @ ''/objects''))
      else Inl (StdError ''storage must be filesystem or s3''))"

section \<open>The monitor\<close>

datatype monitor_event =
    Requeued "unit result"
  | Scanned "string list result"
  | Recovered string "unit result"

type_synonym Monitored = "(monitor_event, unit) Cluster"

text \<open>\<open>PostgresStore::recover\<close> (\<^verbatim>\<open>src/postgres/recovery.cpp\<close>), its transactions one by one.\<close>

definition store_recover :: "Outside \<Rightarrow> Timing \<Rightarrow> (unit, Monitored) io" where
  "store_recover out timing =
     then_io (store_call out Requeued recover_requeue) (\<lambda>_.
     then_io (store_call out Scanned (\<lambda>e db. Inr (recover_candidates e db, db))) (\<lambda>candidates.
     each (\<lambda>aid. store_call out (Recovered aid) (\<lambda>e. recover_attempt timing e aid)) candidates))"

text \<open>A turn: what the connection's state, a new connection and the query give; then the recovery.\<close>

type_synonym 'c refresh_input = "('c \<Rightarrow> bool) \<times> 'c result \<times> bool result"

definition monitor_turn ::
    "Outside \<Rightarrow> Timing \<Rightarrow> 'c refresh_input \<Rightarrow> 'c Leadership \<times> Monitored \<Rightarrow> 'c Leadership \<times> Monitored" where
  "monitor_turn out timing input s =
     (case input of (is_open, opened, answer) \<Rightarrow>
      case refresh is_open opened answer (fst s) of (ready, l) \<Rightarrow>
        (l, if ready then snd (caught (store_recover out timing) (snd s)) else snd s))"

fun monitor_loop ::
    "Outside \<Rightarrow> Timing \<Rightarrow> 'c refresh_input list \<Rightarrow> 'c Leadership \<times> Monitored \<Rightarrow> 'c Leadership \<times> Monitored" where
  "monitor_loop out timing [] s = s"
| "monitor_loop out timing (input # inputs) s = monitor_loop out timing inputs (monitor_turn out timing input s)"

section \<open>The dispatcher and the inventory\<close>

text \<open>What the turns find \<open>ready\<close>; in the mode without Kubernetes there is no controller.\<close>

definition dispatch_turn :: "Outside \<Rightarrow> 's KubernetesController option \<Rightarrow> bool \<Rightarrow> 's Controlled \<Rightarrow> 's Controlled" where
  "dispatch_turn out controller ready w =
     (case controller of
        None \<Rightarrow> w
      | Some c \<Rightarrow> if ready then snd (caught (controller_tick out c) w) else w)"

fun dispatch_loop :: "Outside \<Rightarrow> 's KubernetesController option \<Rightarrow> bool list \<Rightarrow> 's Controlled \<Rightarrow> 's Controlled" where
  "dispatch_loop out controller [] w = w"
| "dispatch_loop out controller (ready # turns) w =
     dispatch_loop out controller turns (dispatch_turn out controller ready w)"

definition inventory_turn ::
    "'s CapacityScan \<Rightarrow> int \<Rightarrow> int \<Rightarrow> KubernetesCapacity \<Rightarrow> 's \<Rightarrow> (KubernetesCapacity \<times> 's) option" where
  "inventory_turn scan stamp now k s = map_option snd (refresh_capacity scan stamp now k s)"

section \<open>Transactions\<close>

lemma store_recover_commits: "others_commit timing out \<Longrightarrow> keeps (commits timing) (store_recover out timing)"
proof -
  assume o: "others_commit timing out"
  have "keeps (commits timing) (store_call out Requeued recover_requeue :: (unit, Monitored) io)"
    using o by (blast intro: store_commits store_step.intros)
  moreover have "keeps (commits timing) (store_call out Scanned (\<lambda>e db. Inr (recover_candidates e db, db)) :: (string list, Monitored) io)"
    using o by (rule store_commits) auto
  moreover have "keeps (commits timing) (store_call out (Recovered aid) (\<lambda>e. recover_attempt timing e aid) :: (unit, Monitored) io)" for aid
    using o by (blast intro: store_commits store_step.intros)
  ultimately show ?thesis
    unfolding store_recover_def by (intro commits_intros)
qed

lemma monitor_turn_commits:
  assumes "others_commit timing out"
  shows "commits timing (snd s) (snd (monitor_turn out timing input s))"
proof -
  have "keeps (commits timing) (caught (store_recover out timing))"
    using assms by (intro commits_intros store_recover_commits)
  then show ?thesis
    by (auto simp: monitor_turn_def keeps_def commits_def split: prod.splits)
qed

lemma dispatch_turn_commits:
  assumes "others_commit (kk_timing c) out"
  shows "commits (kk_timing c) w (dispatch_turn out (Some c) ready w)"
proof -
  have "keeps (commits (kk_timing c)) (caught (controller_tick out c))"
    using assms by (intro commits_intros tick_commits)
  then show ?thesis
    by (auto simp: dispatch_turn_def keeps_def commits_def)
qed

lemma monitor_loop_commits:
  "others_commit timing out \<Longrightarrow> commits timing (snd s) (snd (monitor_loop out timing inputs s))"
proof (induction inputs arbitrary: s)
  case Nil
  then show ?case by (simp add: commits_def)
next
  case (Cons input inputs)
  from Cons.IH[OF Cons.prems, of "monitor_turn out timing input s"] monitor_turn_commits[OF Cons.prems, of s input]
  show ?case by (auto simp: commits_def)
qed

lemma dispatch_loop_commits:
  "others_commit (kk_timing c) out \<Longrightarrow> commits (kk_timing c) w (dispatch_loop out (Some c) turns w)"
proof (induction turns arbitrary: w)
  case Nil
  then show ?case by (simp add: commits_def)
next
  case (Cons ready turns)
  from Cons.IH[OF Cons.prems, of "dispatch_turn out (Some c) ready w"] dispatch_turn_commits[OF Cons.prems, of w ready]
  show ?case by (auto simp: commits_def)
qed

text \<open>
  A coordinator that is not the leader does nothing: whatever the loops go through, as long as no
  refresh reports ready, not a transaction and not a call of the backend is made.
\<close>

fun refreshes :: "'c refresh_input list \<Rightarrow> 'c Leadership \<Rightarrow> bool list" where
  "refreshes [] l = []"
| "refreshes ((is_open, opened, answer) # inputs) l =
     fst (refresh is_open opened answer l) # refreshes inputs (snd (refresh is_open opened answer l))"

lemma standby_does_nothing:
  "True \<notin> set (refreshes inputs (fst s)) \<Longrightarrow> snd (monitor_loop out timing inputs s) = snd s"
proof (induction inputs arbitrary: s)
  case (Cons input inputs)
  obtain is_open opened answer where i: "input = (is_open, opened, answer)" by (cases input)
  obtain ready l where r: "refresh is_open opened answer (fst s) = (ready, l)" by (metis prod.exhaust)
  with Cons.prems i have "monitor_turn out timing input s = (l, snd s)"
    by (simp add: monitor_turn_def)
  moreover from Cons.prems i r have "True \<notin> set (refreshes inputs l)" by simp
  ultimately show ?case using Cons.IH[of "(l, snd s)"] by simp
qed simp

lemma dispatch_standby: "\<forall>ready\<in>set turns. \<not> ready \<Longrightarrow> dispatch_loop out controller turns w = w"
  by (induction turns arbitrary: w) (auto simp: dispatch_turn_def split: option.splits)

text \<open>
  C39. The loops of the coordinator keep the store: whatever the connection to the database does, however
  the leadership comes and goes, and whatever other clients commit in between, after any number of turns
  of both threads the database is reachable and its invariants hold; and the turns that did not find
  the leadership have changed nothing.
\<close>

theorem coordinator_loops_keep_the_store:
  assumes "reachable (kk_timing c) (cl_db (snd s))" and "reachable (kk_timing c) (cl_db w)"
    and "others_commit (kk_timing c) out"
  shows "store_inv (cl_db (snd (monitor_loop out (kk_timing c) inputs s))) \<and>
    reachable (kk_timing c) (cl_db (snd (monitor_loop out (kk_timing c) inputs s))) \<and>
    store_inv (cl_db (dispatch_loop out (Some c) turns w)) \<and>
    reachable (kk_timing c) (cl_db (dispatch_loop out (Some c) turns w)) \<and>
    (True \<notin> set turns \<longrightarrow> dispatch_loop out (Some c) turns w = w) \<and>
    (True \<notin> set (refreshes inputs (fst s)) \<longrightarrow>
      snd (monitor_loop out (kk_timing c) inputs s) = snd s)"
proof -
  note m = monitor_loop_commits[OF assms(3), of s inputs] and d = dispatch_loop_commits[OF assms(3), of w turns]
  from commits_reachable[OF assms(1) m] commits_reachable[OF assms(2) d]
  show ?thesis
    using standby_does_nothing[of inputs s out "kk_timing c"] dispatch_standby[of turns out "Some c" w]
    by (metis (full_types))
qed

section \<open>Recovery\<close>

text \<open>A turn without interference: nobody else commits and the connection holds.\<close>

definition undisturbed :: "Outside \<Rightarrow> bool" where
  "undisturbed out \<longleftrightarrow> (\<forall>n db. os_others out n db = db) \<and> (\<forall>n. os_outage out n = None)"

lemma undisturbed_call:
  assumes "undisturbed out" and "operation (os_env out (cl_calls w)) (cl_db w) = Inr (v, db')"
  shows "store_call out entry operation w =
    (Inr v, w\<lparr>cl_db := db', cl_calls := Suc (cl_calls w), cl_log := cl_log w @ [entry (Inr v)]\<rparr>)"
  using assms by (simp add: store_call_def undisturbed_def Let_def)

lemma requeue_events_total:
  "events_ok db \<Longrightarrow> \<forall>rid\<in>set rids. run_row db rid \<noteq> None \<Longrightarrow>
   \<exists>db'. requeue_events e k rids db = Inr db' \<and> attempts db' = attempts db"
proof (induction rids arbitrary: k db)
  case (Cons rid rids)
  then obtain r where r: "run_row db rid = Some r" by auto
  obtain db1 where ev: "event (clk e k) (clk e (k + 1)) rid ''requeued'' ''retry delay elapsed'' db = Inr db1"
    using event_total[OF Cons.prems(1) r] by blast
  have "attempts db1 = attempts db" and "\<forall>rid\<in>set rids. run_row db1 rid \<noteq> None"
    using ev Cons.prems(2) by (auto simp: event_ok row_simps)
  with Cons.IH[of db1 "k + 2"] events.event_I[OF Cons.prems(1) ev] ev show ?case by auto
qed simp

lemma requeue_total:
  assumes "store_inv db"
  shows "\<exists>db'. recover_requeue e db = Inr ((), db') \<and> attempts db' = attempts db"
proof -
  define db1 where "db1 = db\<lparr>runs := upd_where (due (clk e 0)) (\<lambda>r. r\<lparr>r_status := queued\<rparr>) (runs db)\<rparr>"
  have "events_ok db1"
    unfolding db1_def using store_invD(4)[OF assms] by (rule events.runs_I) (simp add: keeps_run_def)
  moreover have "run_row db1 rid \<noteq> None" if "rid \<in> set (map r_id (filter (due (clk e 0)) (runs db)))" for rid
    using that by (auto simp: db1_def run_row_def find_by_upd_where find_by_None)
  ultimately obtain db2 where "requeue_events e 1 (map r_id (filter (due (clk e 0)) (runs db))) db1 = Inr db2"
    "attempts db2 = attempts db1"
    using requeue_events_total[of db1 "map r_id (filter (due (clk e 0)) (runs db))" e 1] by blast
  then show ?thesis
    by (simp add: recover_requeue_def Let_def db1_def)
qed

lemma expired_later: "expired now a \<Longrightarrow> now \<le> now' \<Longrightarrow> expired now' a"
  by (auto simp: expired_def passed_def split: option.splits)

text \<open>One recovery fails its attempt and leaves the other attempts alone.\<close>

lemma recover_attempt_frame:
  assumes "store_inv db" and "attempt_row db aid = Some a" and "expired (clk e 0) a"
  obtains db' a' where "recover_attempt timing e aid db = Inr ((), db')" "attempt_row db' aid = Some a'"
    "a_status a' = ''FAILED''" "\<forall>i. i \<noteq> aid \<longrightarrow> attempt_row db' i = attempt_row db i"
proof -
  let ?f = "if a_status a = ''RUNNING'' \<and> \<not> deadline_valid (clk e 0) a then timeout else infrastructure"
  obtain r reason where r: "run_row db (a_run_id a) = Some r"
    and rec: "recover_attempt timing e aid db =
      (case fail timing (\<lambda>k. clk e (1 + k)) (locked (clk e 0) a r) ?f reason None db of
         Inl ex \<Rightarrow> Inl ex | Inr db' \<Rightarrow> Inr ((), db'))"
    using recover_attempt_expired[OF assms] by blast
  have "run_row db (r_id r) = Some r" using r run_row_key[OF r] by simp
  from fail_total[OF assms(1) this] obtain db' where
    ok: "fail timing (\<lambda>k. clk e (1 + k)) (locked (clk e 0) a r) ?f reason None db = Inr db'" by blast
  have "attempt_row db' i = attempt_row db i" if "i \<noteq> aid" for i
    using ok that attempt_row_key[OF assms(2)] by (auto simp: fail_def Let_def event_ok row_simps)
  with fail_rows(1)[OF assms(2) r ok] rec ok show thesis by (intro that) auto
qed

lemma recoveries_fail_attempts:
  fixes w :: Monitored
  assumes "undisturbed out" and "reachable timing (cl_db w)" and "distinct aids"
    and "\<forall>aid\<in>set aids. \<exists>a. attempt_row (cl_db w) aid = Some a \<and> expired now a"
    and "\<forall>n\<ge>cl_calls w. now \<le> clk (os_env out n) 0"
  shows "\<exists>w'. each (\<lambda>aid. store_call out (Recovered aid) (\<lambda>e. recover_attempt timing e aid)) aids w = (Inr (), w') \<and>
    (\<forall>aid\<in>set aids. \<exists>a. attempt_row (cl_db w') aid = Some a \<and> a_status a = ''FAILED'') \<and>
    (\<forall>i. i \<notin> set aids \<longrightarrow> attempt_row (cl_db w') i = attempt_row (cl_db w) i)"
  using assms(2-)
proof (induction aids arbitrary: w)
  case Nil
  then show ?case by (simp add: pure_def)
next
  case (Cons aid aids)
  let ?e = "os_env out (cl_calls w)"
  from Cons.prems(3,4) obtain a where a: "attempt_row (cl_db w) aid = Some a" "expired (clk ?e 0) a"
    by (auto intro: expired_later)
  from recover_attempt_frame[OF store.reachable_inv[OF Cons.prems(1)] a, of timing] obtain db' a' where
    rec: "recover_attempt timing ?e aid (cl_db w) = Inr ((), db')" and a': "attempt_row db' aid = Some a'" "a_status a' = ''FAILED''"
    and frame: "\<forall>i. i \<noteq> aid \<longrightarrow> attempt_row db' i = attempt_row (cl_db w) i" by blast
  define w1 where "w1 = w\<lparr>cl_db := db', cl_calls := Suc (cl_calls w), cl_log := cl_log w @ [Recovered aid (Inr ())]\<rparr>"
  have call: "store_call out (Recovered aid) (\<lambda>e. recover_attempt timing e aid) w = (Inr (), w1)"
    using undisturbed_call[OF assms(1), of "\<lambda>e. recover_attempt timing e aid" w "()" db'] rec by (simp add: w1_def)
  have "reachable timing (cl_db w1)"
    using Cons.prems(1) rec by (auto simp: w1_def intro: reach.reach_step store_step.intros)
  from Cons.IH[OF this] Cons.prems(2-4) frame obtain w' where
    w': "each (\<lambda>aid. store_call out (Recovered aid) (\<lambda>e. recover_attempt timing e aid)) aids w1 = (Inr (), w')"
    "\<forall>aid\<in>set aids. \<exists>a. attempt_row (cl_db w') aid = Some a \<and> a_status a = ''FAILED''"
    "\<forall>i. i \<notin> set aids \<longrightarrow> attempt_row (cl_db w') i = attempt_row (cl_db w1) i"
    by (force simp: w1_def)
  with call Cons.prems(2) a' frame show ?case
    by (intro exI[of _ w']) (auto simp: then_io_def w1_def)
qed

text \<open>The scan finds every expired attempt, up to its limit, and the requeuing before it changes no attempt.\<close>

lemma candidates_found:
  assumes "a \<in> set (attempts db)" and "expired (clk e 0) a" and "length (filter (expired (clk e 0)) (attempts db)) \<le> 100"
  shows "a_id a \<in> set (recover_candidates e db)"
  using assms by (auto simp: recover_candidates_def)

lemma candidates_expired:
  assumes "store_inv db"
  shows "distinct (recover_candidates e db) \<and>
    (\<forall>aid\<in>set (recover_candidates e db). \<exists>a. attempt_row db aid = Some a \<and> expired (clk e 0) a)"
proof -
  have d: "distinct (map a_id (attempts db))"
    using store_invD(9)[OF assms] by (simp add: store_keys_def)
  then have "distinct (map a_id (sort_by (\<lambda>a b. a_created_at a \<le> a_created_at b) (filter (expired (clk e 0)) (attempts db))))"
    by (simp add: distinct_map_filter)
  then have "distinct (recover_candidates e db)"
    unfolding recover_candidates_def take_map[symmetric] by (rule distinct_take)
  moreover have "\<exists>a. attempt_row db aid = Some a \<and> expired (clk e 0) a" if "aid \<in> set (recover_candidates e db)" for aid
  proof -
    from that obtain a where "a \<in> set (attempts db)" "expired (clk e 0) a" "aid = a_id a"
      by (auto simp: recover_candidates_def dest!: in_set_takeD)
    then show ?thesis using find_by_of_mem[OF d] by (auto simp: attempt_row_def)
  qed
  ultimately show ?thesis by blast
qed


section \<open>Concrete turns\<close>

definition demo_monitor :: "db \<Rightarrow> Monitored" where
  "demo_monitor db = \<lparr>cl_db = db, cl_calls = 0, cl_log = [], cl_world = ()\<rparr>"

definition still_outside :: Outside where
  "still_outside = \<lparr>os_env = (\<lambda>n. demo_late), os_others = (\<lambda>n db. db), os_outage = (\<lambda>n. None)\<rparr>"

definition demo_leader :: "nat Leadership" where
  "demo_leader = \<lparr>ld_connection = Some 5, ld_ready = True\<rparr>"

lemma demo_monitor_refresh: "refresh (\<lambda>c. True) (Inl (StdError [])) (Inr True) demo_leader = (True, demo_leader)"
  by (simp add: refresh_def demo_leader_def)


theorem coordinator_loops_keep_the_store_witness:
  "store_inv (cl_db (snd (monitor_loop still_outside default_Timing [(\<lambda>c. True, Inl (StdError []), Inr True)]
     (demo_leader, demo_monitor demo_reported))))"
proof -
  have o: "others_commit (kk_timing demo_controller) still_outside"
    by (simp add: others_commit_def still_outside_def)
  have t: "kk_timing demo_controller = default_Timing" by (simp add: demo_controller_def)
  have r: "reachable (kk_timing demo_controller) (cl_db (snd (demo_leader, demo_monitor demo_reported)))"
    and r': "reachable (kk_timing demo_controller) (cl_db (demo_cluster demo_reported))"
    using demo_reachable(6) by (simp_all add: demo_monitor_def demo_cluster_def t)
  from coordinator_loops_keep_the_store[OF r r' o] show ?thesis unfolding t by blast
qed

end
