(* ===== verification/Client_Calls.thy ===== *)
theory Client_Calls
  imports Runner_Engine Http_Api Http_Client
begin

text \<open>
  \<^verbatim>\<open>src/cli/client.cpp\<close>: the calls of the command line client, and what becomes of a call that is
  retried over a network that loses requests and responses. The HTTP transfer, the parser and the
  printer of JSON and the URL escaping are the client's parameters.
\<close>

section \<open>The client\<close>

record 's Client =
  ct_url :: string
  ct_http :: "string \<Rightarrow> string \<Rightarrow> string \<Rightarrow> (string, string) stdmap \<Rightarrow> (HttpResult, 's) io"
  ct_parse :: "string \<Rightarrow> Json result"
  ct_dump :: "Json \<Rightarrow> string result"
  ct_escape :: "string \<Rightarrow> string"

text \<open>The constructor drops the slashes at the end of the URL.\<close>

definition client_url :: "string \<Rightarrow> string" where
  "client_url url = rev (dropWhile (\<lambda>c. c = CHR ''/'') (rev url))"

definition call_headers :: "string \<Rightarrow> (string, string) stdmap" where
  "call_headers key = (if key = [] then [] else [(''Idempotency-Key'', key)])"

text \<open>The message of an error response; \<open>value["error"]\<close> that is not an object is a type error.\<close>

definition error_message :: "Json \<Rightarrow> string result" where
  "error_message v =
     (if json_contains v ''error''
      then andthen (json_at v ''error'') (\<lambda>e. json_value get_string e ''message'' ''request failed'')
      else Inr ''request failed'')"

definition call_result :: "'s Client \<Rightarrow> HttpResult \<Rightarrow> Json result" where
  "call_result c response =
     (if ht_status response = 503 then throw unavailable ''coordinator temporarily unavailable''
      else andthen (ct_parse c (ht_body response)) (\<lambda>v.
        if ht_status response \<ge> 400 then andthen (error_message v) (\<lambda>m. throw invalid m) else Inr v))"

definition call_once :: "'s Client \<Rightarrow> string \<Rightarrow> string \<Rightarrow> string \<Rightarrow> string \<Rightarrow> (Json, 's) io" where
  "call_once c verb path body key =
     then_io (ct_http c verb (ct_url c @ path) body (call_headers key)) (\<lambda>response. pure (call_result c response))"

text \<open>Three attempts; only \<open>unavailable\<close> is tried again.\<close>

definition client_call :: "'s Client \<Rightarrow> string \<Rightarrow> string \<Rightarrow> string \<Rightarrow> string \<Rightarrow> (Json, 's) io" where
  "client_call c verb path body key = retry_loop (call_once c verb path body key) 2"

definition client_get :: "'s Client \<Rightarrow> string \<Rightarrow> (Json, 's) io" where
  "client_get c path = client_call c ''GET'' path [] []"

definition client_post :: "'s Client \<Rightarrow> string \<Rightarrow> Json \<Rightarrow> string \<Rightarrow> (Json, 's) io" where
  "client_post c path body key =
     then_io (pure (ct_dump c body)) (\<lambda>printed. client_call c ''POST'' path printed key)"

section \<open>A lossy network\<close>

text \<open>
  What can happen to one transfer: the request is lost, or refused before it is queued, or its response
  is lost, or it is answered. Before each transfer other clients may have committed transactions.
\<close>

datatype fate = RequestLost | Refused string | ResponseLost | Answered

record Network =
  nw_fate :: "nat \<Rightarrow> fate"
  nw_env :: "nat \<Rightarrow> env"
  nw_faults :: "nat \<Rightarrow> io_faults"
  nw_others :: "nat \<Rightarrow> db \<Rightarrow> db"

record Server =
  sr_db :: db
  sr_disk :: disk
  sr_calls :: nat

abbreviation transfer_failed :: "'a result" where
  "transfer_failed \<equiv> throw unavailable ''HTTP request failed: ''"

definition result_of :: "outcome \<Rightarrow> HttpResult result" where
  "result_of out =
     (case out of
        Respond response \<Rightarrow>
          Inr \<lparr>ht_status = hr_status response,
               ht_body = (case hr_body response of JsonText t \<Rightarrow> t | FileContent t \<Rightarrow> t)\<rparr>
      | Escape ex \<Rightarrow> transfer_failed)"

text \<open>A server behind the network: the web server maps the transfer to \<open>request\<close>, the executor runs it.\<close>

definition deliver :: "Api \<Rightarrow> Network \<Rightarrow> HttpRequest \<Rightarrow> (HttpResult, Server) io" where
  "deliver api net request s =
     (let n = sr_calls s; db = nw_others net n (sr_db s); s1 = s\<lparr>sr_db := db, sr_calls := Suc n\<rparr>;
          ran = run_task api (nw_env net n) (nw_faults net n) (nw_faults net n) [] request (db, sr_disk s);
          s2 = s1\<lparr>sr_db := fst (snd ran), sr_disk := snd (snd ran)\<rparr>
      in case nw_fate net n of
           RequestLost \<Rightarrow> (transfer_failed, s1)
         | Refused body \<Rightarrow> (Inr \<lparr>ht_status = 503, ht_body = body\<rparr>, s1)
         | ResponseLost \<Rightarrow> (transfer_failed, s2)
         | Answered \<Rightarrow> (result_of (fst ran), s2))"

text \<open>The web server's view of a request of the client; header names are lower case.\<close>

definition post_request :: "Route \<Rightarrow> string \<Rightarrow> string \<Rightarrow> HttpRequest" where
  "post_request route body key =
     \<lparr>hq_route = route, hq_headers = [(''idempotency-key'', key)], hq_parameters = [], hq_body = body\<rparr>"

section \<open>Properties\<close>

text \<open>What every attempt keeps, the loop keeps; a result is the result of its last attempt.\<close>

lemma retry_loop_result:
  assumes "retry_loop operation left s = (r, s'')" and "I s"
    and keep: "\<And>s r s'. operation s = (r, s') \<Longrightarrow> I s \<Longrightarrow> I s'"
  shows "I s'' \<and> (\<forall>v. r = Inr v \<longrightarrow> (\<exists>s'. I s' \<and> operation s' = (Inr v, s'')))"
  using assms(1,2)
proof (induction left arbitrary: s)
  case 0
  obtain r' s' where op: "operation s = (r', s')" by (metis prod.exhaust)
  have "r = r' \<and> s'' = s'"
    using 0(1) unfolding retry_loop.simps[of operation 0 s] op by (cases r') (simp_all del: retry_loop.simps split: if_splits)
  with keep op 0(2) show ?case by blast
next
  case (Suc left)
  obtain r' s' where op: "operation s = (r', s')" by (metis prod.exhaust)
  with keep Suc.prems(2) have s': "I s'" by blast
  have "r = r' \<and> s'' = s' \<or> retry_loop operation left s' = (r, s'')"
    using Suc.prems(1) unfolding retry_loop.simps[of operation "Suc left" s] op
    by (cases r') (simp_all del: retry_loop.simps split: if_splits)
  with Suc s' op show ?case by blast
qed

text \<open>Every handler moves the database by committed transactions.\<close>

lemma handle_json_commits:
  assumes ok: "handle_json api e route r db = Inr (j, db')"
  shows "(store_step (ap_timing api))\<^sup>*\<^sup>* db db'"
proof (cases "reads_only route")
  case True
  with handle_json_reads[OF ok] show ?thesis by simp
next
  case False
  then consider "route = PostSweep" | rid where "route = PostRerun rid" | wid where "route = PostDrain wid"
    | rid where "route = PostCancel rid" | "route = PostRun" by (cases route) auto
  then have "store_step (ap_timing api) db db'"
  proof cases
    case 1
    with ok obtain spec key fp sw where "service_sweep e spec key fp db = Inr (sw, db')" by (auto simp: ok_simps)
    then obtain specs where "submit_sweep e spec specs key fp db = Inr (sw, db')"
      by (auto simp: service_sweep_def split: sum.splits)
    then show ?thesis by (rule store_step.intros)
  next
    case 2
    with ok obtain sha key run where "service_rerun sha e rid key db = Inr (run, db')" by (auto simp: ok_simps)
    then have "rerun sha e rid key db = Inr (run, db')" by (auto simp: service_rerun_def split: sum.splits)
    then show ?thesis by (rule store_step.intros)
  next
    case 3
    with ok obtain drained u where "drain_worker wid drained db = Inr (u, db')" by (auto simp: ok_simps)
    then show ?thesis by (rule store_step.intros)
  next
    case 4
    with ok obtain run where "cancel e rid db = Inr (run, db')" by (auto simp: ok_simps)
    then show ?thesis by (rule store_step.intros)
  next
    case 5
    with ok obtain spec key fp run where "service_submit e spec key fp db = Inr (run, db')" by (auto simp: ok_simps)
    then show ?thesis by (intro store_step.intros) (rule service_submit_ok)
  qed
  then show ?thesis by blast
qed

lemma run_task_commits:
  assumes "run_task api e io io' rid r s = (out, s')"
  shows "(store_step (ap_timing api))\<^sup>*\<^sup>* (fst s) (fst s')"
proof -
  obtain res s1 where h: "handle api e io io' r s = (res, s1)" by (metis prod.exhaust)
  with assms have s1: "s1 = s'" by (auto simp: run_task_def split: sum.splits exn.splits)
  show ?thesis
  proof (cases "\<exists>aid. hq_route r = GetDownload aid")
    case True
    with h s1 show ?thesis by (auto simp: handle_def split: prod.splits sum.splits)
  next
    case False
    then have "handle api e io io' r s =
       (case handle_json api e (hq_route r) r (fst s) of
          Inl ex \<Rightarrow> (Inl ex, s) | Inr (body, db') \<Rightarrow> (json_response api body 200 [], db', snd s))"
      by (intro handle_json_eq) auto
    with h s1 handle_json_commits show ?thesis by (auto split: sum.splits prod.splits)
  qed
qed

lemma deliver_commits:
  assumes "deliver api net request s = (r, s')"
    and "\<forall>n db. (store_step (ap_timing api))\<^sup>*\<^sup>* db (nw_others net n db)"
  shows "(store_step (ap_timing api))\<^sup>*\<^sup>* (sr_db s) (sr_db s')"
proof -
  let ?n = "sr_calls s"
  obtain out db2 disk2 where ran: "run_task api (nw_env net ?n) (nw_faults net ?n) (nw_faults net ?n) [] request
      (nw_others net ?n (sr_db s), sr_disk s) = (out, db2, disk2)" by (metis prod.exhaust)
  have o: "(store_step (ap_timing api))\<^sup>*\<^sup>* (sr_db s) (nw_others net ?n (sr_db s))" using assms(2) by blast
  with run_task_commits[OF ran] have "(store_step (ap_timing api))\<^sup>*\<^sup>* (sr_db s) db2" by simp
  with o ran assms(1) show ?thesis by (auto simp: deliver_def Let_def split: fate.splits)
qed

text \<open>A transfer that brings back a result below 400 was answered by a handler that succeeded.\<close>

lemma delivered_reply:
  assumes "deliver api net request s = (Inr response, s')" and "ht_status response < 400"
    and "\<forall>aid. hq_route request \<noteq> GetDownload aid"
  obtains db e j where "handle_json api e (hq_route request) request db = Inr (j, sr_db s')"
    and "ap_dump api j = Inr (ht_body response)" and "db = nw_others net (sr_calls s) (sr_db s)"
proof -
  let ?n = "sr_calls s" and ?db = "nw_others net (sr_calls s) (sr_db s)"
  obtain out db2 disk2 where ran: "run_task api (nw_env net ?n) (nw_faults net ?n) (nw_faults net ?n) [] request
      (?db, sr_disk s) = (out, db2, disk2)" by (metis prod.exhaust)
  from assms(1,2) ran have out: "result_of out = Inr response" and db2: "sr_db s' = db2"
    by (auto simp: deliver_def Let_def split: fate.splits)
  from out obtain resp where resp: "out = Respond resp" "hr_status resp = ht_status response"
    "ht_body response = (case hr_body resp of JsonText t \<Rightarrow> t | FileContent t \<Rightarrow> t)"
    by (auto simp: result_of_def split: outcome.splits)
  have no_error: "error_response api code message status rid \<noteq> Respond resp" if "400 \<le> status" for code message status rid
    using that resp(2) assms(2) by (auto simp: error_response_def json_response_def andthen_def split: sum.splits)
  have "fst (http_error code) \<ge> 400" for code by (cases code) auto
  with ran resp(1) no_error obtain resp' where h: "handle api (nw_env net ?n) (nw_faults net ?n) (nw_faults net ?n) request (?db, sr_disk s) =
      (Inr resp', db2, disk2)" and "hr_body resp = hr_body resp'"
    by (auto simp: run_task_def split: prod.splits sum.splits exn.splits)
  moreover have "handle api (nw_env net ?n) (nw_faults net ?n) (nw_faults net ?n) request (?db, sr_disk s) =
       (case handle_json api (nw_env net ?n) (hq_route request) request ?db of
          Inl ex \<Rightarrow> (Inl ex, ?db, sr_disk s) | Inr (body, db') \<Rightarrow> (json_response api body 200 [], db', sr_disk s))"
    using handle_json_eq[OF assms(3) refl, of api _ _ _ "(?db, sr_disk s)"] by (simp split: sum.split prod.split)
  ultimately obtain j where "handle_json api (nw_env net ?n) (hq_route request) request ?db = Inr (j, db2)"
    "json_response api j 200 [] = Inr resp'"
    by (auto split: sum.splits prod.splits)
  then show thesis
    using that[of "nw_env net ?n" ?db j] db2 resp(3) \<open>hr_body resp = hr_body resp'\<close>
    by (auto simp: json_response_def ok_simps)
qed

lemma call_result_ok:
  "call_result c response = Inr v \<Longrightarrow> ht_status response < 400 \<and> ct_parse c (ht_body response) = Inr v"
  by (auto simp: call_result_def ok_simps split: if_splits)

lemma json_at_reparsed_string: "json_at j k = Inr (JString t) \<Longrightarrow> json_at (reparsed j) k = Inr (JString t)"
  by (cases j) (auto simp: json_at_def map_of_map split: option.splits)

lemma filter_key_one: "distinct (map f xs) \<Longrightarrow> length (filter (\<lambda>x. f x = k) xs) \<le> 1"
  by (induction xs) (auto simp: filter_empty_conv image_iff)

lemma one_submission:
  assumes "store_inv db"
  shows "length (filter (\<lambda>x. sub_key x = key) (submissions db)) \<le> 1"
  using store_invD(1)[OF assms] by (simp add: keys_ok_def filter_key_one[unfolded One_nat_def])


text \<open>A post whose first request is lost.\<close>

definition demo_reply :: Json where
  "demo_reply = encode_run (\<lambda>_. []) (run_of (new_run ''r'' demo_grid_spec None None 100))"

definition lossy_api :: Api where
  "lossy_api = demo_api\<lparr>
     ap_parse := (\<lambda>t. if t = ''spec'' then Inr (reparsed (encode_spec demo_grid_spec)) else json_error ''parse_error''),
     ap_dump := (\<lambda>j. if j = encode_spec demo_grid_spec then Inr ''spec''
                   else if j = demo_reply then Inr ''run'' else json_error ''type_error.316'')\<rparr>"

definition lossy_network :: Network where
  "lossy_network = \<lparr>nw_fate = (\<lambda>n. if n = 0 then RequestLost else Answered), nw_env = (\<lambda>n. demo_env 100 ''r''),
     nw_faults = (\<lambda>n. demo_io), nw_others = (\<lambda>n db. db)\<rparr>"

definition lossy_client :: "Server Client" where
  "lossy_client = \<lparr>ct_url = ''http://localhost:8080'',
     ct_http = (\<lambda>verb url body headers. deliver lossy_api lossy_network
       (post_request PostRun body (case headers of [] \<Rightarrow> [] | h # _ \<Rightarrow> snd h))),
     ct_parse = (\<lambda>t. if t = ''spec'' then Inr (reparsed (encode_spec demo_grid_spec))
                   else if t = ''run'' then Inr (reparsed demo_reply) else json_error ''parse_error''),
     ct_dump = ap_dump lossy_api, ct_escape = (\<lambda>t. t)\<rparr>"

definition lossy_server :: Server where
  "lossy_server = \<lparr>sr_db = empty_db, sr_disk = Map.empty, sr_calls = 0\<rparr>"

lemma lossy_post:
  "\<exists>s'. client_post lossy_client ''/v1/runs'' (encode_spec demo_grid_spec) ''key'' lossy_server = (Inr (reparsed demo_reply), s')"
proof -
  have decoded: "decode_spec (reparsed (encode_spec demo_grid_spec)) = Inr demo_grid_spec"
    using demo_grid_spec_ok by (intro decode_encode_spec) auto
  obtain db' where sub: "submit (demo_env 100 ''r'') demo_grid_spec ''key'' [] empty_db =
      Inr (run_of (new_run ''r'' demo_grid_spec None None 100), db')"
    by (simp add: submit_def create_run_def insert_run_def insert_submission_def empty_db_def
        new_run_def demo_eval demo_grid_submission)
  have "handle_json lossy_api (demo_env 100 ''r'') PostRun (post_request PostRun ''spec'' ''key'') empty_db = Inr (demo_reply, db')"
    by (simp add: decoded request_body_def lossy_api_def demo_api_def fingerprint_of_def sha256_def hex_def
        service_submit_def demo_grid_submission check_key_def get_header_def post_request_def sub demo_reply_def)
  moreover have "ap_dump lossy_api demo_reply = Inr ''run''"
    by (simp add: lossy_api_def demo_reply_def encode_run_def encode_spec_def json_object_def)
  ultimately have ran: "run_task lossy_api (demo_env 100 ''r'') demo_io demo_io [] (post_request PostRun ''spec'' ''key'') (empty_db, Map.empty) =
      (Respond \<lparr>hr_status = 200, hr_body = JsonText ''run'', hr_request_id = []\<rparr>, db', Map.empty)"
    by (simp add: run_task_def handle_def json_response_def post_request_def)
  have dumped: "ct_dump lossy_client (encode_spec demo_grid_spec) = Inr ''spec''"
    by (simp add: lossy_client_def lossy_api_def)
  define s1 where "s1 = lossy_server\<lparr>sr_calls := 1\<rparr>"
  have one: "call_once lossy_client ''POST'' ''/v1/runs'' ''spec'' ''key'' lossy_server = (transfer_failed, s1)"
    by (simp add: call_once_def then_io_def lossy_client_def deliver_def lossy_server_def lossy_network_def Let_def
        call_headers_def s1_def)
  have two: "\<exists>s'. call_once lossy_client ''POST'' ''/v1/runs'' ''spec'' ''key'' s1 = (Inr (reparsed demo_reply), s')"
    using ran by (simp add: call_once_def then_io_def lossy_client_def deliver_def lossy_server_def lossy_network_def Let_def
        call_headers_def s1_def result_of_def call_result_def pure_def)
  show ?thesis
    using two one unfolding client_post_def client_call_def then_io_def pure_def dumped numeral_2_eq_2
    by (auto simp: retry_loop.simps[of _ "Suc (Suc 0)" lossy_server] retry_loop.simps[of _ "Suc 0" s1] simp del: retry_loop.simps)
qed


end
