(* ===== verification/Client_Workflows.thy ===== *)
theory Client_Workflows
  imports Client_Calls
begin

text \<open>
  \<^verbatim>\<open>src/cli/workflows.cpp\<close>: following logs, exporting metrics
  and downloading an artifact. What a command prints is part of the state. The pauses between polls are
  left out.
\<close>

section \<open>The terminal\<close>

record 's Terminal =
  tm_out :: string
  tm_world :: 's

definition on_world :: "('a, 's) io \<Rightarrow> ('a, 's Terminal) io" where
  "on_world m t = (case m (tm_world t) of (r, w) \<Rightarrow> (r, t\<lparr>tm_world := w\<rparr>))"

definition put_out :: "string \<Rightarrow> (unit, 's Terminal) io" where
  "put_out printed t = (Inr (), t\<lparr>tm_out := tm_out t @ printed\<rparr>)"

text \<open>A loop that prints a line for each element; a line that fails ends it.\<close>

fun print_each :: "('a \<Rightarrow> string result) \<Rightarrow> 'a list \<Rightarrow> (unit, 's Terminal) io" where
  "print_each line [] = pure (Inr ())"
| "print_each line (x # xs) = then_io (then_io (pure (line x)) put_out) (\<lambda>_. print_each line xs)"

section \<open>JSON\<close>

fun get_int64 :: "Json \<Rightarrow> int result" where
  "get_int64 (JInteger i) = Inr (signed_take_bit 63 i)"
| "get_int64 (JUnsigned n) = Inr (signed_take_bit 63 (int n))"
| "get_int64 (JFloat d) = Inr (truncated d)"
| "get_int64 (JBool b) = Inr (of_bool b)"
| "get_int64 j = json_error ''type_error.302''"

fun get_uint64 :: "Json \<Rightarrow> nat result" where
  "get_uint64 (JInteger i) = Inr (nat (i mod 2 ^ 64))"
| "get_uint64 (JUnsigned n) = Inr (n mod 2 ^ 64)"
| "get_uint64 (JFloat d) = Inr (nat (truncated d mod 2 ^ 64))"
| "get_uint64 (JBool b) = Inr (of_bool b)"
| "get_uint64 j = json_error ''type_error.302''"

fun json_size :: "Json \<Rightarrow> nat" where
  "json_size JNull = 0"
| "json_size (JArray vs) = length vs"
| "json_size (JObject m) = length m"
| "json_size j = 1"

text \<open>\<open>operator[]\<close> of a constant; a missing member, where it is undefined, is an error here.\<close>

definition json_member :: "Json \<Rightarrow> string \<Rightarrow> Json result" where
  "json_member j k = (if \<not> is_object j then json_error ''type_error.305'' else json_at j k)"

section \<open>Logs\<close>

definition run_path :: "'s Client \<Rightarrow> string \<Rightarrow> string" where
  "run_path c run = ''/v1/runs/'' @ ct_escape c run"

definition logs_path :: "'s Client \<Rightarrow> string \<Rightarrow> string \<Rightarrow> int \<Rightarrow> string" where
  "logs_path c run attempt cursor =
     run_path c run @ ''/logs?attempt='' @ ct_escape c attempt @ ''&limit=100&after='' @ show_int cursor"

definition log_line :: "'s Client \<Rightarrow> bool \<Rightarrow> string \<Rightarrow> Json \<Rightarrow> string result" where
  "log_line c json attempt item =
     (if json
      then andthen (ct_dump c (json_object [(''attempt_id'', JString attempt), (''record'', item)])) (\<lambda>t. Inr (t @ [CHR 0x0A]))
      else andthen (json_at item ''text'') get_string)"

text \<open>One turn of the loop: it ends, or goes on with an attempt, a cursor and whether a terminal state was seen.\<close>

datatype logs_next = Finished | Again string int bool

definition logs_turn ::
    "'s Client \<Rightarrow> string \<Rightarrow> bool \<Rightarrow> bool \<Rightarrow> bool \<Rightarrow> string \<Rightarrow> int \<Rightarrow> bool \<Rightarrow> (logs_next, 's Terminal) io" where
  "logs_turn c run fixed follow json attempt cursor seen =
     then_io (on_world (client_get c (run_path c run))) (\<lambda>current.
     then_io (pure (andthen (json_at current ''active_attempt'') get_string)) (\<lambda>selected.
     let switch = \<not> fixed \<and> selected \<noteq> attempt;
         attempt' = (if switch then selected else attempt);
         cursor' = (if switch then 0 else cursor);
         seen' = (if switch then False else seen)
     in then_io (on_world (client_get c (logs_path c run attempt' cursor'))) (\<lambda>page.
        then_io (pure (json_at page ''items'')) (\<lambda>items.
        then_io (print_each (log_line c json attempt') (elements items)) (\<lambda>_.
        then_io (pure (andthen (json_at page ''next_cursor'') get_int64)) (\<lambda>after.
        if json_size items = 100 then pure (Inr (Again attempt' after seen'))
        else if \<not> follow \<or> (seen' \<and> json_size items = 0) then pure (Inr Finished)
        else then_io (pure (andthen (andthen (json_at current ''status'') get_string) parse_status)) (\<lambda>status.
          pure (Inr (Again attempt' after (terminal status \<or> (fixed \<and> selected \<noteq> attempt')))))))))))"

text \<open>The loop of \<open>show_logs\<close>, which may follow a run forever: \<open>None\<close> when it goes on after \<open>fuel\<close> turns.\<close>

fun logs_loop ::
    "nat \<Rightarrow> 's Client \<Rightarrow> string \<Rightarrow> bool \<Rightarrow> bool \<Rightarrow> bool \<Rightarrow> string \<Rightarrow> int \<Rightarrow> bool \<Rightarrow> 's Terminal \<Rightarrow> (unit result \<times> 's Terminal) option" where
  "logs_loop 0 c run fixed follow json attempt cursor seen t = None"
| "logs_loop (Suc fuel) c run fixed follow json attempt cursor seen t =
     (case logs_turn c run fixed follow json attempt cursor seen t of
        (Inl ex, t') \<Rightarrow> Some (Inl ex, t')
      | (Inr Finished, t') \<Rightarrow> Some (Inr (), t')
      | (Inr (Again attempt' cursor' seen'), t') \<Rightarrow> logs_loop fuel c run fixed follow json attempt' cursor' seen' t')"

definition show_logs ::
    "nat \<Rightarrow> 's Client \<Rightarrow> string \<Rightarrow> string \<Rightarrow> bool \<Rightarrow> bool \<Rightarrow> 's Terminal \<Rightarrow> (unit result \<times> 's Terminal) option" where
  "show_logs fuel c run attempt follow json t = logs_loop fuel c run (attempt \<noteq> []) follow json attempt 0 False t"

section \<open>Metrics\<close>

fun csv_quoted :: "string \<Rightarrow> string" where
  "csv_quoted [] = []"
| "csv_quoted (ch # s) = (if ch = CHR 0x22 then [CHR 0x22, CHR 0x22] else [ch]) @ csv_quoted s"

definition csv :: "string \<Rightarrow> string" where
  "csv v = CHR 0x22 # csv_quoted v @ [CHR 0x22]"

definition csv_header :: string where
  "csv_header = ''attempt_id,sequence,name,step,value,timestamp_ms'' @ [CHR 0x0A]"

definition metrics_path :: "'s Client \<Rightarrow> string \<Rightarrow> string \<Rightarrow> string \<Rightarrow> int \<Rightarrow> string" where
  "metrics_path c run attempt name cursor =
     run_path c run @ ''/metrics?attempt='' @ ct_escape c attempt @ ''&name='' @ ct_escape c name @
     ''&limit=100&after='' @ show_int cursor"

text \<open>
  One record, of which the server writes all members.
\<close>

definition metric_line :: "'s Client \<Rightarrow> bool \<Rightarrow> string \<Rightarrow> Json \<Rightarrow> string result" where
  "metric_line c as_csv attempt item =
     (if as_csv
      then andthen (andthen (json_member item ''sequence'') (ct_dump c)) (\<lambda>sequence.
           andthen (andthen (json_member item ''name'') get_string) (\<lambda>name.
           andthen (andthen (json_member item ''step'') (ct_dump c)) (\<lambda>step.
           andthen (andthen (json_member item ''value'') (ct_dump c)) (\<lambda>v.
           andthen (andthen (json_member item ''timestamp_ms'') (ct_dump c)) (\<lambda>stamp.
             Inr (csv attempt @ '','' @ sequence @ '','' @ csv name @ '','' @ step @ '','' @ v @ '','' @ stamp @ [CHR 0x0A]))))))
      else if \<not> is_object item \<and> item \<noteq> JNull then json_error ''type_error.305''
      else andthen (ct_dump c (JObject (map_put ''attempt_id'' (JString attempt) (members item)))) (\<lambda>t. Inr (t @ [CHR 0x0A])))"

fun metrics_loop ::
    "nat \<Rightarrow> 's Client \<Rightarrow> string \<Rightarrow> string \<Rightarrow> string \<Rightarrow> bool \<Rightarrow> int \<Rightarrow> 's Terminal \<Rightarrow> (unit result \<times> 's Terminal) option" where
  "metrics_loop 0 c run selected name as_csv cursor t = None"
| "metrics_loop (Suc fuel) c run selected name as_csv cursor t =
     (case then_io (on_world (client_get c (metrics_path c run selected name cursor))) (\<lambda>page.
           then_io (pure (json_at page ''items'')) (\<lambda>items.
           then_io (print_each (metric_line c as_csv selected) (elements items)) (\<lambda>_.
           then_io (pure (andthen (json_at page ''next_cursor'') get_int64)) (\<lambda>after.
             pure (Inr (json_size items, after)))))) t of
        (Inl ex, t') \<Rightarrow> Some (Inl ex, t')
      | (Inr (n, after), t') \<Rightarrow>
          if n < 100 then Some (Inr (), t') else metrics_loop fuel c run selected name as_csv after t')"

definition export_metrics ::
    "nat \<Rightarrow> 's Client \<Rightarrow> string \<Rightarrow> string \<Rightarrow> string \<Rightarrow> bool \<Rightarrow> 's Terminal \<Rightarrow> (unit result \<times> 's Terminal) option" where
  "export_metrics fuel c run attempt name as_csv t =
     (case (if attempt = []
            then then_io (on_world (client_get c (run_path c run))) (\<lambda>current.
                   pure (andthen (json_at current ''active_attempt'') get_string)) t
            else (Inr attempt, t)) of
        (Inl ex, t') \<Rightarrow> Some (Inl ex, t')
      | (Inr selected, t') \<Rightarrow>
          metrics_loop fuel c run selected name as_csv 0 (if as_csv then t'\<lparr>tm_out := tm_out t' @ csv_header\<rparr> else t'))"

section \<open>Downloads\<close>

text \<open>
  What happens on the way: the pieces that arrive, whether the transfer and the flush succeed, a file
  that somebody else creates at the destination meanwhile, and calls that fail.
\<close>

record Fetch =
  ft_pieces :: "(string \<times> nat) list"
  ft_performed :: bool
  ft_flushed :: bool
  ft_raced :: "string option"
  ft_no_link :: bool
  ft_no_remove :: bool
  ft_no_cleanup :: bool
  ft_random :: "nat \<Rightarrow> byte"

text \<open>\<open>HttpClient::download\<close>: the file is created, never overwritten, and filled by the transfer.\<close>

definition http_download :: "Fetch \<Rightarrow> string \<Rightarrow> nat \<Rightarrow> disk \<Rightarrow> unit result \<times> disk" where
  "http_download ft file expected_size d =
     (if d file \<noteq> None then (throw invalid ''cannot create download file'', d)
      else case download_result expected_size (ft_pieces ft) (ft_performed ft) (ft_flushed ft) of
        (r, content) \<Rightarrow> (r, d(file \<mapsto> content)))"

text \<open>The statements in \<open>try\<close>; the destination may have appeared before the link is made.\<close>

definition fetch_to ::
    "(string \<Rightarrow> byte list) \<Rightarrow> Fetch \<Rightarrow> Json \<Rightarrow> string \<Rightarrow> string \<Rightarrow> disk \<Rightarrow> unit result \<times> disk" where
  "fetch_to digest ft metadata temporary destination d =
     (case andthen (json_at metadata ''size'') get_uint64 of
        Inl ex \<Rightarrow> (Inl ex, d)
      | Inr expected \<Rightarrow>
        (case http_download ft temporary expected d of
           (Inl ex, d1) \<Rightarrow> (Inl ex, d1)
         | (Inr _, d1) \<Rightarrow>
           (case andthen (sha256_file digest (d1 temporary)) (\<lambda>found.
                 andthen (andthen (json_at metadata ''sha256'') get_string) (\<lambda>announced.
                   if found \<noteq> announced then Inl (StdError ''download checksum mismatch'') else Inr ())) of
              Inl ex \<Rightarrow> (Inl ex, d1)
            | Inr _ \<Rightarrow>
              (let d2 = (case ft_raced ft of None \<Rightarrow> d1 | Some other \<Rightarrow> d1(destination \<mapsto> other)) in
               if ft_no_link ft \<or> d2 destination \<noteq> None then (Inl (StdError ''create_hard_link''), d2)
               else let d3 = d2(destination := d2 temporary) in
                 if ft_no_remove ft then (Inl (StdError ''remove''), d3) else (Inr (), d3(temporary := None))))))"

definition partial_name :: "Fetch \<Rightarrow> string \<Rightarrow> string" where
  "partial_name ft destination = destination @ ''.partial-'' @ random_id (ft_random ft)"

definition download_artifact ::
    "'s Client \<Rightarrow> (string \<Rightarrow> byte list) \<Rightarrow> Fetch \<Rightarrow> string \<Rightarrow> string \<Rightarrow> 's \<times> disk \<Rightarrow> unit result \<times> 's \<times> disk" where
  "download_artifact c digest ft aid destination s =
     (case s of (w, d) \<Rightarrow>
      if d destination \<noteq> None then (Inl (StdError ''output already exists''), w, d)
      else case client_get c (''/v1/artifacts/'' @ ct_escape c aid) w of
        (Inl ex, w') \<Rightarrow> (Inl ex, w', d)
      | (Inr metadata, w') \<Rightarrow>
        (let temporary = partial_name ft destination in
         case fetch_to digest ft metadata temporary destination d of
           (Inl ex, d') \<Rightarrow> (Inl ex, w', if ft_no_cleanup ft then d' else d'(temporary := None))
         | (Inr u, d') \<Rightarrow> (Inr u, w', d')))"

section \<open>What is exported\<close>

text \<open>A reader of a quoted field, after its opening quote: the value and what follows the closing quote.\<close>

fun read_quoted :: "string \<Rightarrow> (string \<times> string) option" where
  "read_quoted [] = None"
| "read_quoted (ch # s) =
     (if ch \<noteq> CHR 0x22 then map_option (\<lambda>(v, rest). (ch # v, rest)) (read_quoted s)
      else case s of
        [] \<Rightarrow> Some ([], [])
      | next_ch # s' \<Rightarrow>
          if next_ch = CHR 0x22 then map_option (\<lambda>(v, rest). (CHR 0x22 # v, rest)) (read_quoted s') else Some ([], s))"

lemma read_csv_quoted: "rest = [] \<or> hd rest \<noteq> CHR 0x22 \<Longrightarrow> read_quoted (csv_quoted v @ CHR 0x22 # rest) = Some (v, rest)"
  by (induction v) (auto split: list.split)

text \<open>
  A quoted field can be read back: whatever the value is, quotes, commas and newlines included, a
  reader of CSV gets the value and the rest of the line.
\<close>

theorem csv_fields_round_trip:
  assumes "rest = [] \<or> hd rest \<noteq> CHR 0x22"
  shows "\<exists>inside. csv v @ rest = CHR 0x22 # inside \<and> read_quoted inside = Some (v, rest)"
  using read_csv_quoted[OF assms, of v] by (simp add: csv_def)

theorem csv_fields_round_trip_witness:
  "read_quoted (tl (csv [CHR ''a'', CHR 0x22, CHR '',''] @ '',1'')) = Some ([CHR ''a'', CHR 0x22, CHR '',''], '',1'')"
  using csv_fields_round_trip[of "'',1''" "[CHR ''a'', CHR 0x22, CHR '','']"] by auto

section \<open>Downloads are verified\<close>

lemma partial_differs: "partial_name ft destination \<noteq> destination"
  by (simp add: partial_name_def)

lemma http_download_frame:
  "http_download ft file expected d = (r, d') \<Longrightarrow> p \<noteq> file \<Longrightarrow> d' p = d p"
  by (auto simp: http_download_def split: if_splits prod.splits)

lemma http_download_whole:
  assumes "http_download ft file expected d = (Inr u, d')"
  shows "\<exists>content. d' file = Some content \<and> length content = expected"
proof -
  from assms obtain content where r: "download_result expected (ft_pieces ft) (ft_performed ft) (ft_flushed ft) = (Inr u, content)"
    and "d' = d(file \<mapsto> content)" by (auto simp: http_download_def split: if_splits prod.splits)
  moreover from r have "length content = expected"
    by (auto simp: download_result_def split: prod.splits if_splits dest!: download_transfer)
  ultimately show ?thesis by auto
qed

lemma fetch_to_frame:
  assumes "fetch_to digest ft metadata temporary destination d = (r, d')" and "d destination = None" and "temporary \<noteq> destination"
  shows "p \<noteq> destination \<Longrightarrow> p \<noteq> temporary \<Longrightarrow> d' p = d p"
    and "ft_raced ft = Some other \<Longrightarrow> r \<noteq> Inr u"
    and "ft_raced ft = Some other \<Longrightarrow> d' destination = None \<or> d' destination = Some other"
  using assms
  by (auto simp: fetch_to_def Let_def split: sum.splits prod.splits option.splits if_splits dest: http_download_frame)

lemma fetch_to_ok:
  assumes "fetch_to digest ft metadata temporary destination d = (Inr u, d')" and "temporary \<noteq> destination"
  shows "\<exists>content. d' destination = Some content \<and> d' temporary = None \<and>
    json_at metadata ''sha256'' = Inr (JString (sha256 digest content)) \<and>
    andthen (json_at metadata ''size'') get_uint64 = Inr (length content)"
proof -
  from assms(1) obtain expected where size: "andthen (json_at metadata ''size'') get_uint64 = Inr expected"
    by (auto simp: fetch_to_def split: sum.splits)
  obtain r1 d1 where down: "http_download ft temporary expected d = (r1, d1)" by (metis prod.exhaust)
  with assms(1) size obtain u1 where r1: "r1 = Inr u1" by (cases r1) (auto simp: fetch_to_def)
  from http_download_whole[OF down[unfolded r1]] obtain content where c: "d1 temporary = Some content" "length content = expected" by blast
  from assms size down r1 c have "json_at metadata ''sha256'' = Inr (JString (sha256 digest content))"
    by (auto simp: fetch_to_def sha256_file_def andthen_def Let_def split: sum.splits if_splits elim!: get_string.elims)
  moreover from assms size down r1 c have "d' destination = Some content \<and> d' temporary = None"
    by (auto simp: fetch_to_def Let_def split: sum.splits if_splits option.splits)
  ultimately show ?thesis using size c(2) by blast
qed


text \<open>A client of a server that knows one artifact of three bytes.\<close>

definition demo_metadata :: Json where
  "demo_metadata = json_object [(''sha256'', JString []), (''size'', JUnsigned 3)]"

definition artifact_client :: "unit Client" where
  "artifact_client = \<lparr>ct_url = [], ct_http = (\<lambda>verb url body headers w. (Inr \<lparr>ht_status = 200, ht_body = []\<rparr>, w)),
     ct_parse = (\<lambda>t. Inr demo_metadata), ct_dump = (\<lambda>j. Inr []), ct_escape = (\<lambda>t. t)\<rparr>"

definition demo_fetch :: Fetch where
  "demo_fetch = \<lparr>ft_pieces = [(''ab'', 2), (''c'', 1)], ft_performed = True, ft_flushed = True, ft_raced = None,
     ft_no_link = False, ft_no_remove = False, ft_no_cleanup = False, ft_random = (\<lambda>_. 0)\<rparr>"

lemma artifact_client_get: "client_get artifact_client path w = (Inr demo_metadata, w)"
  by (simp add: client_get_def client_call_def call_once_def then_io_def pure_def call_result_def artifact_client_def
      retry_loop.simps[of _ 2])

lemma demo_download:
  "\<exists>d'. download_artifact artifact_client (\<lambda>_. []) demo_fetch ''f'' ''out'' ((), Map.empty) = (Inr (), (), d')"
proof -
  have meta: "json_at demo_metadata ''size'' = Inr (JUnsigned 3)" "json_at demo_metadata ''sha256'' = Inr (JString [])"
    by (simp_all add: demo_metadata_def json_at_def json_object_members)
  have size: "get_uint64 (JUnsigned 3) = Inr 3" by simp
  have fetched: "http_download demo_fetch (partial_name demo_fetch ''out'') 3 Map.empty =
      (Inr (), Map.empty(partial_name demo_fetch ''out'' \<mapsto> ''abc''))"
    by (simp add: http_download_def demo_fetch_def download_result_def write_piece_def)
  have fields: "ft_raced demo_fetch = None" "\<not> ft_no_link demo_fetch" "\<not> ft_no_remove demo_fetch"
    by (simp_all add: demo_fetch_def)
  have clean: "partial_name demo_fetch ''out'' \<noteq> ''out''" by (rule partial_differs)
  have "fetch_to (\<lambda>_. []) demo_fetch demo_metadata (partial_name demo_fetch ''out'') ''out'' Map.empty =
      (Inr (), [''out'' \<mapsto> ''abc''])"
    using clean by (auto simp: fetch_to_def meta fetched fields sha256_file_def sha256_def hex_def fun_eq_iff)
  then show ?thesis
    by (simp add: download_artifact_def artifact_client_get)
qed


section \<open>Pages\<close>

text \<open>The records of an attempt that a query selects, in the order of their sequence numbers.\<close>

definition selected_records :: "bool \<Rightarrow> string \<Rightarrow> db \<Rightarrow> string \<Rightarrow> Telemetry list" where
  "selected_records logs name db attempt =
     filter (\<lambda>r. (if logs then t_kind r \<noteq> ''metric'' else t_kind r = ''metric'') \<and> (name = [] \<or> t_name r = name))
       (attempt_telemetry db attempt)"

lemma sorted_upto: "sorted_wrt (<) [1..n :: int]"
  by (simp add: sorted_wrt_iff_nth_less nth_upto)

lemma selected_strict:
  assumes "telemetry_ok db"
  shows "sorted_wrt (\<lambda>a b. t_sequence a < t_sequence b) (selected_records logs name db attempt)"
    and "r \<in> set (selected_records logs name db attempt) \<Longrightarrow> 0 < t_sequence r \<and> t_sequence r \<le> acknowledged db attempt"
proof -
  have m: "map t_sequence (attempt_telemetry db attempt) = [1..acknowledged db attempt]"
    using assms by (simp add: telemetry_ok_def)
  then have "sorted_wrt (<) (map t_sequence (attempt_telemetry db attempt))" using sorted_upto by simp
  then show "sorted_wrt (\<lambda>a b. t_sequence a < t_sequence b) (selected_records logs name db attempt)"
    by (simp add: selected_records_def sorted_wrt_map sorted_wrt_filter)
  assume "r \<in> set (selected_records logs name db attempt)"
  then have "t_sequence r \<in> set (map t_sequence (attempt_telemetry db attempt))" by (auto simp: selected_records_def)
  then show "0 < t_sequence r \<and> t_sequence r \<le> acknowledged db attempt" unfolding m by auto
qed

lemma list_telemetry_page:
  assumes "telemetry_ok db" and "attempt_row db attempt = Some a" and "a_run_id a = rid"
    and "run_row db rid = Some row" and "attempt \<noteq> []"
  shows "list_telemetry rid attempt after 100 (if logs then ''logs'' else ''metric'') name db =
    take 100 (filter (\<lambda>r. after < t_sequence r) (selected_records logs name db attempt))"
proof -
  have "belongs db rid attempt aid \<longleftrightarrow> aid = attempt" for aid
    using assms(2-5) by (auto simp: belongs_def selected_attempt_def split: option.splits)
  then have "map tm_record (filter (\<lambda>t. belongs db rid attempt (tm_attempt_id t) \<and> t_sequence (tm_record t) > after \<and>
        (((if logs then ''logs'' else ''metric'') = ''logs'' \<and> t_kind (tm_record t) \<noteq> ''metric'') \<or>
         ((if logs then ''logs'' else ''metric'') = ''metric'' \<and> t_kind (tm_record t) = ''metric'')) \<and>
        (name = [] \<or> t_name (tm_record t) = name)) (telemetry db)) =
      filter (\<lambda>r. after < t_sequence r) (selected_records logs name db attempt)"
    by (auto simp: selected_records_def attempt_telemetry_def filter_map o_def intro!: arg_cong[where f = "map tm_record"] filter_cong)
  moreover have "sorted_wrt (\<lambda>a b. t_sequence a \<le> t_sequence b) (filter (\<lambda>r. after < t_sequence r) (selected_records logs name db attempt))"
    by (rule sorted_wrt_mono_rel[OF _ sorted_wrt_filter[OF selected_strict(1)[OF assms(1)]]]) auto
  ultimately show ?thesis
    by (simp add: list_telemetry_def clamp_def sort_by_sorted)
qed

lemma last_largest:
  "sorted_wrt (\<lambda>a b. t_sequence a < t_sequence b) xs \<Longrightarrow> \<forall>x\<in>set xs. t_sequence x \<le> t_sequence (last xs)"
  by (induction xs rule: rev_induct) (auto simp: sorted_wrt_append less_imp_le)

text \<open>After a full page the next one begins where it ended.\<close>

lemma next_page:
  assumes "sorted_wrt (\<lambda>a b. t_sequence a < t_sequence b) L" and "R = filter (\<lambda>r. k < t_sequence r) L"
    and "0 < n" "n \<le> length R"
  shows "filter (\<lambda>r. t_sequence (last (take n R)) < t_sequence r) L = drop n R"
proof -
  let ?l = "last (take n R)"
  have ne: "take n R \<noteq> []" using assms(3,4) by auto
  then have l: "?l \<in> set (take n R)" by (rule last_in_set)
  then have "k < t_sequence ?l" using assms(2) by (auto dest: in_set_takeD)
  then have "filter (\<lambda>r. t_sequence ?l < t_sequence r) L = filter (\<lambda>r. t_sequence ?l < t_sequence r) R"
    by (auto simp: assms(2) intro!: filter_cong)
  also have "filter (\<lambda>r. t_sequence ?l < t_sequence r) R = drop n R"
  proof -
    have "sorted_wrt (\<lambda>a b. t_sequence a < t_sequence b) (take n R @ drop n R)"
      using sorted_wrt_filter[OF assms(1)] by (simp only: assms(2) append_take_drop_id)
    then have d: "\<forall>x\<in>set (take n R). \<forall>y\<in>set (drop n R). t_sequence x < t_sequence y"
      and s: "sorted_wrt (\<lambda>a b. t_sequence a < t_sequence b) (take n R)" unfolding sorted_wrt_append by blast+
    from last_largest[OF s] have "\<forall>x\<in>set (take n R). t_sequence x \<le> t_sequence ?l" .
    then have "filter (\<lambda>r. t_sequence ?l < t_sequence r) (take n R) = []" by (simp add: filter_empty_conv not_less)
    moreover have "filter (\<lambda>r. t_sequence ?l < t_sequence r) (drop n R) = drop n R" using d l by (simp add: filter_True)
    ultimately show ?thesis by (metis append_Nil append_take_drop_id filter_append)
  qed
  finally show ?thesis .
qed

text \<open>What the server answers to the request for the page after \<open>n\<close>.\<close>

definition page_request :: "Route \<Rightarrow> string \<Rightarrow> string \<Rightarrow> int \<Rightarrow> HttpRequest" where
  "page_request route attempt name n = \<lparr>hq_route = route, hq_headers = [],
     hq_parameters = [(''after'', show_int n), (''attempt'', attempt), (''limit'', ''100''), (''name'', name)], hq_body = []\<rparr>"

definition telemetry_page :: "string \<Rightarrow> int \<Rightarrow> Telemetry list \<Rightarrow> Json" where
  "telemetry_page attempt after rows = json_object [(''attempt_id'', JString attempt),
     (''items'', JArray (map encode_telemetry rows)),
     (''next_cursor'', JInteger (if rows = [] then after else t_sequence (last rows)))]"

lemma stoi_hundred: "stoi ''100'' = Some (100, 3)"
  by code_simp

lemma handle_telemetry_page:
  assumes "telemetry_ok db" and "attempt_row db attempt = Some a" and "a_run_id a = rid"
    and "run_row db rid = Some row" and "attempt \<noteq> []" and "0 \<le> n" "n \<le> INT_MAX"
  shows "handle_telemetry api logs rid (page_request route attempt name n) db =
    Inr (telemetry_page attempt n (take 100 (filter (\<lambda>r. n < t_sequence r) (selected_records logs name db attempt))))"
proof -
  have p: "get_parameter (page_request route attempt name n) ''after'' = show_int n"
    "get_parameter (page_request route attempt name n) ''attempt'' = attempt"
    "get_parameter (page_request route attempt name n) ''limit'' = ''100''"
    "get_parameter (page_request route attempt name n) ''name'' = name"
    by (simp_all add: get_parameter_def page_request_def)
  have "show_int n \<noteq> []" using stoi_show[OF assms(6,7)] by (auto simp: stoi_def)
  then have "number (page_request route attempt name n) ''after'' 0 = Inr n"
    using assms(6) by (simp add: number_def p stoi_show[OF assms(6,7)] Let_def)
  moreover have "page_size (page_request route attempt name n) 100 1000 = Inr 100"
    by (simp add: page_size_def number_def p stoi_hundred)
  ultimately show ?thesis
    using assms(4,5) list_telemetry_page[OF assms(1-5), of n logs name]
    by (simp add: handle_telemetry_def p service_telemetry_def get_run_def telemetry_page_def Let_def)
qed

lemma telemetry_page_members:
  "json_at (reparsed (telemetry_page attempt n rows)) ''items'' = Inr (JArray (map (reparsed \<circ> encode_telemetry) rows))"
  "json_at (reparsed (telemetry_page attempt n rows)) ''next_cursor'' = Inr (reparsed (JInteger (if rows = [] then n else t_sequence (last rows))))"
proof -
  have m: "is_object (telemetry_page attempt n rows)"
    "map_of (members (telemetry_page attempt n rows)) ''items'' = Some (JArray (map encode_telemetry rows))"
    "map_of (members (telemetry_page attempt n rows)) ''next_cursor'' = Some (JInteger (if rows = [] then n else t_sequence (last rows)))"
    unfolding telemetry_page_def by (simp_all add: json_object_members)
  then show "json_at (reparsed (telemetry_page attempt n rows)) ''items'' = Inr (JArray (map (reparsed \<circ> encode_telemetry) rows))"
    "json_at (reparsed (telemetry_page attempt n rows)) ''next_cursor'' = Inr (reparsed (JInteger (if rows = [] then n else t_sequence (last rows))))"
    by (simp_all add: json_at_def o_def del: reparsed.simps(1))
qed

lemma get_int64_small: "0 \<le> i \<Longrightarrow> i \<le> INT_MAX \<Longrightarrow> get_int64 (reparsed (JInteger i)) = Inr i"
  by (simp add: signed_take_bit_int_eq_self)

lemma print_each_all:
  "map_result line xs = Inr ls \<Longrightarrow> print_each line xs t = (Inr (), t\<lparr>tm_out := tm_out t @ concat ls\<rparr>)"
proof (induction xs arbitrary: ls t)
  case Nil
  then show ?case by (simp add: pure_def)
next
  case (Cons x xs)
  then obtain l ls' where "line x = Inr l" "map_result line xs = Inr ls'" "ls = l # ls'"
    by (auto split: sum.splits)
  with Cons.IH show ?case by (simp add: then_io_def pure_def put_out_def)
qed

lemma map_result_append:
  "map_result f (xs @ ys) = andthen (map_result f xs) (\<lambda>as. andthen (map_result f ys) (\<lambda>bs. Inr (as @ bs)))"
  by (induction xs) (auto simp: andthen_def split: sum.splits)

lemma map_result_map: "map_result f (map g xs) = map_result (f \<circ> g) xs"
  by (induction xs) (simp_all split: sum.split)

section \<open>Exports are complete\<close>

text \<open>The server as the client sees it while the database stays as it is.\<close>

definition serves_pages :: "Api \<Rightarrow> db \<Rightarrow> bool \<Rightarrow> string \<Rightarrow> string \<Rightarrow> string \<Rightarrow> (int \<Rightarrow> (Json, 's) io) \<Rightarrow> bool" where
  "serves_pages api db logs rid attempt name get \<longleftrightarrow>
     (\<forall>n w. 0 \<le> n \<longrightarrow> get n w =
       (andthen (handle_telemetry api logs rid (page_request (if logs then GetLogs rid else GetMetrics rid) attempt name n) db)
          (\<lambda>j. Inr (reparsed j)), w))"

lemma metrics_loop_prints:
  assumes ok: "telemetry_ok db" and a: "attempt_row db attempt = Some a" "a_run_id a = rid"
    and run: "run_row db rid = Some row" and ne: "attempt \<noteq> []" and small: "acknowledged db attempt \<le> INT_MAX"
    and serves: "serves_pages api db False rid attempt name (\<lambda>n. client_get c (metrics_path c rid attempt name n))"
    and n: "0 \<le> n" "n \<le> INT_MAX"
    and R: "R = filter (\<lambda>r. n < t_sequence r) (selected_records False name db attempt)"
    and ls: "map_result (metric_line c as_csv attempt \<circ> (reparsed \<circ> encode_telemetry)) R = Inr ls"
    and fuel: "length R < 100 * fuel"
  shows "metrics_loop fuel c rid attempt name as_csv n t = Some (Inr (), t\<lparr>tm_out := tm_out t @ concat ls\<rparr>)"
  using n R ls fuel
proof (induction fuel arbitrary: n R ls t)
  case (Suc fuel)
  let ?page = "take 100 R" and ?line = "metric_line c as_csv attempt \<circ> (reparsed \<circ> encode_telemetry)"
  have get: "client_get c (metrics_path c rid attempt name n) w = (Inr (reparsed (telemetry_page attempt n ?page)), w)" for w
    using serves Suc.prems(1) handle_telemetry_page[OF ok a run ne Suc.prems(1,2), of api False "GetMetrics rid" name] Suc.prems(3)
    by (simp add: serves_pages_def)
  have "map_result ?line (?page @ drop 100 R) = Inr ls" using Suc.prems(4) by (simp only: append_take_drop_id)
  then obtain ls1 ls2 where l1: "map_result ?line ?page = Inr ls1" and l2: "map_result ?line (drop 100 R) = Inr ls2"
    and ls: "ls = ls1 @ ls2" unfolding map_result_append by (auto simp: ok_simps simp del: append_take_drop_id)
  define k where "k = (if ?page = [] then n else t_sequence (last ?page))"
  have cursor: "0 \<le> k" "k \<le> INT_MAX"
  proof -
    have "last ?page \<in> set (selected_records False name db attempt)" if "?page \<noteq> []"
      using last_in_set[OF that] Suc.prems(3) by (auto dest!: in_set_takeD)
    from selected_strict(2)[OF ok this] small Suc.prems(1,2) show "0 \<le> k" "k \<le> INT_MAX"
      unfolding k_def by fastforce+
  qed
  define t1 where "t1 = t\<lparr>tm_out := tm_out t @ concat ls1\<rparr>"
  have printed: "print_each (metric_line c as_csv attempt) (map (reparsed \<circ> encode_telemetry) ?page) t = (Inr (), t1)"
    unfolding t1_def by (rule print_each_all) (use l1 in \<open>simp only: map_result_map\<close>)
  have turn: "then_io (on_world (client_get c (metrics_path c rid attempt name n))) (\<lambda>page.
      then_io (pure (json_at page ''items'')) (\<lambda>items.
      then_io (print_each (metric_line c as_csv attempt) (elements items)) (\<lambda>_.
      then_io (pure (andthen (json_at page ''next_cursor'') get_int64)) (\<lambda>after. pure (Inr (json_size items, after)))))) t =
    (Inr (length ?page, k), t1)"
    by (simp add: then_io_def on_world_def get pure_def telemetry_page_members[of attempt n ?page, folded k_def] printed
        get_int64_small[OF cursor] del: reparsed.simps print_each.simps)
  show ?case
  proof (cases "length ?page < 100")
    case True
    then have short: "length R < 100" by (simp add: min_def split: if_splits)
    with l2 have "ls2 = []" by simp
    with short turn show ?thesis unfolding metrics_loop.simps turn by (simp add: ls t1_def)
  next
    case False
    then have full: "100 \<le> length R" by auto
    then have nonempty: "?page \<noteq> []" by auto
    have rest: "drop 100 R = filter (\<lambda>r. k < t_sequence r) (selected_records False name db attempt)"
      using next_page[OF selected_strict(1)[OF ok] Suc.prems(3) _ full] nonempty by (simp add: k_def)
    have "metrics_loop fuel c rid attempt name as_csv k t1 = Some (Inr (), t1\<lparr>tm_out := tm_out t1 @ concat ls2\<rparr>)"
      using Suc.prems(5) full by (intro Suc.IH[OF cursor rest l2]) simp
    with False nonempty show ?thesis unfolding metrics_loop.simps turn by (simp add: ls t1_def)
  qed
qed simp


lemma run_members:
  "json_at (reparsed (encode_run stamp run)) ''active_attempt'' = Inr (JString (run_active_attempt run))"
  "json_at (reparsed (encode_run stamp run)) ''status'' = Inr (JString (to_string (run_status run)))"
  by (rule json_at_reparsed_string, simp add: encode_run_def json_at_def json_object_members)+

text \<open>One turn for a chosen attempt, over a server that answers from a fixed database.\<close>

lemma logs_turn_prints:
  assumes current: "\<And>w. client_get c (run_path c rid) w = (Inr (reparsed (encode_run stamp run)), w)"
    and page: "\<And>w. client_get c (logs_path c rid attempt n) w = (Inr (reparsed (telemetry_page attempt n rows)), w)"
    and ls: "map_result (log_line c json attempt \<circ> (reparsed \<circ> encode_telemetry)) rows = Inr ls"
    and k: "k = (if rows = [] then n else t_sequence (last rows))" "0 \<le> k" "k \<le> INT_MAX"
  shows "logs_turn c rid True follow json attempt n seen t =
    (Inr (if length rows = 100 then Again attempt k seen
          else if \<not> follow \<or> (seen \<and> rows = []) then Finished
          else Again attempt k (terminal (run_status run) \<or> run_active_attempt run \<noteq> attempt)),
     t\<lparr>tm_out := tm_out t @ concat ls\<rparr>)"
proof -
  have printed: "print_each (log_line c json attempt) (map (reparsed \<circ> encode_telemetry) rows) t = (Inr (), t\<lparr>tm_out := tm_out t @ concat ls\<rparr>)"
    by (rule print_each_all) (use ls in \<open>simp only: map_result_map\<close>)
  show ?thesis
    by (simp add: logs_turn_def then_io_def on_world_def current page pure_def run_members Let_def
        telemetry_page_members[of attempt n rows, folded k(1)] printed get_int64_small[OF k(2,3)] parse_to_string
        del: reparsed.simps print_each.simps)
qed

lemma logs_loop_prints:
  assumes ok: "telemetry_ok db" and a: "attempt_row db attempt = Some a" "a_run_id a = rid"
    and run: "run_row db rid = Some row" and ne: "attempt \<noteq> []" and small: "acknowledged db attempt \<le> INT_MAX"
    and serves: "serves_pages api db True rid attempt [] (\<lambda>n. client_get c (logs_path c rid attempt n))"
    and current: "\<And>w. client_get c (run_path c rid) w = (Inr (reparsed (encode_run stamp (run_of row))), w)"
    and over: "follow \<Longrightarrow> terminal (r_status row)"
    and n: "0 \<le> n" "n \<le> INT_MAX"
    and R: "R = filter (\<lambda>r. n < t_sequence r) (selected_records True [] db attempt)"
    and ls: "map_result (log_line c json attempt \<circ> (reparsed \<circ> encode_telemetry)) R = Inr ls"
    and fuel: "length R + (if follow \<and> \<not> (seen \<and> R = []) then 100 else 0) < 100 * fuel"
  shows "logs_loop fuel c rid True follow json attempt n seen t = Some (Inr (), t\<lparr>tm_out := tm_out t @ concat ls\<rparr>)"
  using n R ls fuel
proof (induction fuel arbitrary: n R ls seen t)
  case (Suc fuel)
  let ?page = "take 100 R" and ?line = "log_line c json attempt \<circ> (reparsed \<circ> encode_telemetry)"
  have get: "client_get c (logs_path c rid attempt n) w = (Inr (reparsed (telemetry_page attempt n ?page)), w)" for w
    using serves Suc.prems(1) handle_telemetry_page[OF ok a run ne Suc.prems(1,2), of api True "GetLogs rid" "[]"] Suc.prems(3)
    by (simp add: serves_pages_def)
  have "map_result ?line (?page @ drop 100 R) = Inr ls" using Suc.prems(4) by (simp only: append_take_drop_id)
  then obtain ls1 ls2 where l1: "map_result ?line ?page = Inr ls1" and l2: "map_result ?line (drop 100 R) = Inr ls2"
    and ls: "ls = ls1 @ ls2" unfolding map_result_append by (auto simp: ok_simps simp del: append_take_drop_id)
  define k where "k = (if ?page = [] then n else t_sequence (last ?page))"
  have cursor: "0 \<le> k" "k \<le> INT_MAX"
  proof -
    have "last ?page \<in> set (selected_records True [] db attempt)" if "?page \<noteq> []"
      using last_in_set[OF that] Suc.prems(3) by (auto dest!: in_set_takeD)
    from selected_strict(2)[OF ok this] small Suc.prems(1,2) show "0 \<le> k" "k \<le> INT_MAX"
      unfolding k_def by fastforce+
  qed
  define t1 where "t1 = t\<lparr>tm_out := tm_out t @ concat ls1\<rparr>"
  note turn = logs_turn_prints[OF current get l1 k_def cursor, where follow = follow and seen = seen and t = t, folded t1_def]
  have rest: "drop 100 R = filter (\<lambda>r. k < t_sequence r) (selected_records True [] db attempt)"
  proof (cases "R = []")
    case True
    with Suc.prems(3) show ?thesis by (simp add: k_def)
  next
    case False
    let ?m = "min 100 (length R)"
    have "take ?m R = ?page" "drop ?m R = drop 100 R" by (simp_all add: min_def)
    with next_page[OF selected_strict(1)[OF ok] Suc.prems(3), of ?m] False show ?thesis by (simp add: k_def)
  qed
  consider "100 \<le> length R" | "length R < 100" "\<not> follow \<or> (seen \<and> R = [])" | "length R < 100" "follow" "\<not> (seen \<and> R = [])" by linarith
  then show ?case
  proof cases
    case 1
    then have "logs_loop fuel c rid True follow json attempt k seen t1 = Some (Inr (), t1\<lparr>tm_out := tm_out t1 @ concat ls2\<rparr>)"
      using Suc.prems(5) by (intro Suc.IH[OF cursor rest l2]) (auto split: if_splits)
    with 1 show ?thesis unfolding logs_loop.simps turn by (simp add: ls t1_def)
  next
    case 2
    with l2 have "ls2 = []" by simp
    with 2 show ?thesis unfolding logs_loop.simps turn by (auto simp: ls t1_def)
  next
    case 3
    with l2 have e: "ls2 = []" "drop 100 R = []" by simp_all
    have "logs_loop fuel c rid True follow json attempt k True t1 = Some (Inr (), t1\<lparr>tm_out := tm_out t1 @ concat ls2\<rparr>)"
      using 3 Suc.prems(5) by (intro Suc.IH[OF cursor rest l2]) auto
    with 3 e over show ?thesis unfolding logs_loop.simps turn by (auto simp: ls t1_def)
  qed
qed simp

text \<open>
  Logs are shown whole and once. While the database stays as it is, showing the logs of an attempt, or
  following those of a run that has reached a terminal state, ends, and prints every log record of the
  attempt exactly once in the order of the sequence numbers.
\<close>

theorem logs_are_shown_whole:
  assumes "reachable timing db" and "attempt_row db attempt = Some a" "a_run_id a = rid" and "run_row db rid = Some row"
    and "attempt \<noteq> []" and "acknowledged db attempt \<le> INT_MAX"
    and "serves_pages api db True rid attempt [] (\<lambda>n. client_get c (logs_path c rid attempt n))"
    and "\<And>w. client_get c (run_path c rid) w = (Inr (reparsed (encode_run stamp (run_of row))), w)"
    and "follow \<Longrightarrow> terminal (r_status row)"
    and "map_result (log_line c json attempt \<circ> (reparsed \<circ> encode_telemetry)) (selected_records True [] db attempt) = Inr ls"
    and "length (selected_records True [] db attempt) + 100 < 100 * fuel"
  shows "show_logs fuel c rid attempt follow json t = Some (Inr (), t\<lparr>tm_out := tm_out t @ concat ls\<rparr>)"
proof -
  have ok: "telemetry_ok db" using store_invD(5)[OF store.reachable_inv[OF assms(1)]] .
  have "\<forall>r\<in>set (selected_records True [] db attempt). 0 < t_sequence r" using selected_strict(2)[OF ok] by blast
  then have all: "selected_records True [] db attempt = filter (\<lambda>r. 0 < t_sequence r) (selected_records True [] db attempt)"
    by (simp add: filter_id_conv)
  show ?thesis
    using logs_loop_prints[OF ok assms(2-9) _ _ all assms(10), where seen = False and fuel = fuel and t = t] assms(5,11)
    by (simp add: show_logs_def)
qed

section \<open>A concrete server\<close>

text \<open>A server whose answers are looked up by the number at the end of the path.\<close>

definition page_answer :: "bool \<Rightarrow> db \<Rightarrow> string \<Rightarrow> string \<Rightarrow> string \<Rightarrow> Json result" where
  "page_answer logs db rid attempt t =
     (if t = [] then andthen (get_run rid db) (\<lambda>run. Inr (encode_run (\<lambda>_. []) run))
      else handle_telemetry demo_api logs rid
        (page_request (if logs then GetLogs rid else GetMetrics rid) attempt [] (digits_value t)) db)"

definition answer_text :: "Json result \<Rightarrow> Json" where
  "answer_text r =
     (case r of
        Inr j \<Rightarrow> reparsed j
      | Inl ex \<Rightarrow> json_object [(''error'', json_object [(''message'', JString (case ex of Error code m \<Rightarrow> m | _ \<Rightarrow> []))])])"

definition page_client :: "bool \<Rightarrow> db \<Rightarrow> string \<Rightarrow> string \<Rightarrow> unit Client" where
  "page_client logs db rid attempt = \<lparr>ct_url = [],
     ct_http = (\<lambda>verb url body headers w. let t = rev (takeWhile is_digit (rev url)) in
       (Inr \<lparr>ht_status = (case page_answer logs db rid attempt t of Inl ex \<Rightarrow> 400 | Inr j \<Rightarrow> 200), ht_body = t\<rparr>, w)),
     ct_parse = (\<lambda>t. Inr (answer_text (page_answer logs db rid attempt t))),
     ct_dump = (\<lambda>j. Inr ''0''), ct_escape = (\<lambda>t. t)\<rparr>"

lemma page_client_get:
  assumes "rev (takeWhile is_digit (rev path)) = t"
    and "\<And>ex. page_answer logs db rid attempt t = Inl ex \<Longrightarrow> \<exists>m. ex = Error invalid m"
  shows "client_get (page_client logs db rid attempt) path w = (andthen (page_answer logs db rid attempt t) (\<lambda>j. Inr (reparsed j)), w)"
proof (cases "page_answer logs db rid attempt t")
  case (Inl ex)
  with assms(2) obtain m where "ex = Error invalid m" by blast
  with Inl assms(1) show ?thesis
    by (simp add: client_get_def client_call_def retry_loop.simps[of _ 2] call_once_def then_io_def page_client_def
        call_result_def pure_def answer_text_def error_message_def json_contains_def json_at_def json_value_def json_object_members)
next
  case (Inr j)
  with assms(1) show ?thesis
    by (simp add: client_get_def client_call_def retry_loop.simps[of _ 2] call_once_def then_io_def page_client_def
        call_result_def pure_def answer_text_def)
qed

lemma trailing_number:
  assumes "0 \<le> n"
  shows "rev (takeWhile is_digit (rev (path @ ''='' @ show_int n))) = show_nat (nat n)"
proof -
  have "\<forall>ch\<in>set (rev (show_nat (nat n))). is_digit ch" using show_nat_digits[of "nat n"] by (simp add: list_all_iff)
  moreover have "\<not> is_digit CHR ''=''" by (simp add: is_digit_def char_between_def less_eq_char_def)
  ultimately have "takeWhile is_digit (rev (show_nat (nat n)) @ CHR ''='' # rev path) = rev (show_nat (nat n))"
    by (subst takeWhile_append2) auto
  with assms show ?thesis by (simp add: show_int_def)
qed

lemma number_error: "number r key fallback = Inl ex \<Longrightarrow> \<exists>m. ex = Error invalid m"
  by (auto simp: number_def Let_def split: if_splits option.splits)

lemma telemetry_error:
  "get_run rid db = Inr run \<Longrightarrow> handle_telemetry api logs rid (page_request route attempt name n) db = Inl ex \<Longrightarrow>
     \<exists>m. ex = Error invalid m"
proof -
  assume run: "get_run rid db = Inr run" and e: "handle_telemetry api logs rid (page_request route attempt name n) db = Inl ex"
  have "page_size (page_request route attempt name n) 100 1000 = Inr 100"
    by (simp add: page_size_def number_def get_parameter_def page_request_def stoi_hundred)
  with run e show ?thesis
    by (auto simp: handle_telemetry_def service_telemetry_def Let_def andthen_err dest: number_error)
qed

lemma page_client_serves:
  assumes "get_run rid db = Inr run"
  shows "serves_pages demo_api db logs rid attempt [] (\<lambda>n. client_get (page_client logs db rid attempt) (path @ ''='' @ show_int n))"
  unfolding serves_pages_def
proof (intro allI impI)
  fix n :: int and w assume n: "0 \<le> n"
  have "show_nat (nat n) \<noteq> []" by (subst show_nat.simps) simp
  with n have eq: "page_answer logs db rid attempt (show_nat (nat n)) =
      handle_telemetry demo_api logs rid (page_request (if logs then GetLogs rid else GetMetrics rid) attempt [] n) db"
    by (simp add: page_answer_def digits_value_show_nat)
  show "client_get (page_client logs db rid attempt) (path @ ''='' @ show_int n) w =
      (andthen (handle_telemetry demo_api logs rid (page_request (if logs then GetLogs rid else GetMetrics rid) attempt [] n) db)
        (\<lambda>j. Inr (reparsed j)), w)"
    using page_client_get[OF trailing_number[OF n], of logs db rid attempt path w] telemetry_error[OF assms]
    unfolding eq by blast
qed

definition demo_terminal :: "unit Terminal" where
  "demo_terminal = \<lparr>tm_out = [], tm_world = ()\<rparr>"


theorem logs_are_shown_whole_witness:
  "\<exists>printed. show_logs 2 (page_client True demo_reported ''r'' ''a'') ''r'' ''a'' False False demo_terminal =
     Some (Inr (), \<lparr>tm_out = printed, tm_world = ()\<rparr>) \<and> printed \<noteq> []"
proof -
  let ?c = "page_client True demo_reported ''r'' ''a''"
  have row: "attempt_row demo_reported ''a'' = Some (demo_running\<lparr>a_ack_sequence := 2\<rparr>)" "a_run_id (demo_running\<lparr>a_ack_sequence := 2\<rparr>) = ''r''"
    "run_row demo_reported ''r'' = Some (demo_run running 1 (Some ''a'') 3 100 502)" by (simp_all add: demo_all)
  then have run: "get_run ''r'' demo_reported = Inr (run_of (demo_run running 1 (Some ''a'') 3 100 502))"
    by (simp add: get_run_def)
  have p: "(\<lambda>n. client_get ?c (logs_path ?c ''r'' ''a'' n)) =
      (\<lambda>n. client_get ?c ((run_path ?c ''r'' @ ''/logs?attempt=a&limit=100&after'') @ ''='' @ show_int n))"
    by (simp add: logs_path_def page_client_def)
  have two: "selected_records True [] demo_reported ''a'' = [demo_telemetry 1, demo_telemetry 2]"
    by (simp add: selected_records_def attempt_telemetry_def demo_all)
  have "rev (takeWhile is_digit (rev (run_path ?c ''r''))) = []"
    by (simp add: run_path_def page_client_def is_digit_def char_between_def less_eq_char_def)
  from page_client_get[OF this, of True demo_reported "''r''" "''a''"] run
  have current: "client_get ?c (run_path ?c ''r'') w =
      (Inr (reparsed (encode_run (\<lambda>_. []) (run_of (demo_run running 1 (Some ''a'') 3 100 502)))), w)" for w
    by (simp add: page_answer_def)
  have lines: "map_result (log_line ?c False ''a'' \<circ> (reparsed \<circ> encode_telemetry)) [demo_telemetry 1, demo_telemetry 2] =
      Inr [t_text (demo_telemetry 1), t_text (demo_telemetry 2)]"
    by (simp add: log_line_def encode_telemetry_def json_at_def json_object_members)
  have "show_logs 2 ?c ''r'' ''a'' False False demo_terminal = Some (Inr (), demo_terminal\<lparr>tm_out := tm_out demo_terminal @
      concat [t_text (demo_telemetry 1), t_text (demo_telemetry 2)]\<rparr>)"
    by (rule logs_are_shown_whole[OF demo_reachable(6) row(1,2,3) _ _ page_client_serves[OF run, of True "''a''"
        "run_path ?c ''r'' @ ''/logs?attempt=a&limit=100&after''", folded p] current])
      (use lines two row(1) in \<open>simp_all only: acknowledged_def, simp_all\<close>)
  then show ?thesis
    by (simp add: demo_terminal_def demo_telemetry_def)
qed

end
