(* ===== verification/Client_Display.thy ===== *)
theory Client_Display
  imports Client_Workflows
begin

text \<open>
  \<^verbatim>\<open>src/cli/display.cpp\<close>: how the client shows a reply. What is written before a member turns out to be
  missing or of another type stays written, so a display is the sequence of its pieces, and the first
  one that is an exception ends it. \<open>dump\<close> prints a value on one line, \<open>pretty\<close> with an indentation of two.
\<close>

section \<open>Pieces\<close>

type_synonym pieces = "string result list"

definition newline :: string where
  "newline = [CHR 0x0A]"

definition with_value :: "'a result \<Rightarrow> ('a \<Rightarrow> pieces) \<Rightarrow> pieces" where
  "with_value r f = (case r of Inl ex \<Rightarrow> [Inl ex] | Inr v \<Rightarrow> f v)"

definition value_text :: "(Json \<Rightarrow> string result) \<Rightarrow> Json result \<Rightarrow> string result" where
  "value_text dump r = andthen r dump"

definition string_at :: "Json \<Rightarrow> string \<Rightarrow> string result" where
  "string_at j k = andthen (json_at j k) get_string"

definition string_member :: "Json \<Rightarrow> string \<Rightarrow> string result" where
  "string_member j k = andthen (json_member j k) get_string"

definition or_unknown :: "(Json \<Rightarrow> string result) \<Rightarrow> Json result \<Rightarrow> string result" where
  "or_unknown dump r = andthen r (\<lambda>v. if v = JNull then Inr ''unknown'' else dump v)"

section \<open>What is shown\<close>

text \<open>The head of a capacity page, and its nodes.\<close>

definition capacity_head :: "(Json \<Rightarrow> string result) \<Rightarrow> Json \<Rightarrow> Json \<Rightarrow> pieces" where
  "capacity_head dump j g =
     [string_at j ''backend'', Inr '' GPU capacity: '', value_text dump (json_at g ''capacity''),
      Inr ''  reserved: '', value_text dump (json_at g ''reserved''),
      Inr ''  available: '', or_unknown dump (json_at g ''available_estimate''),
      Inr ''  pending: '', value_text dump (json_at g ''pending''), Inr newline] @
     with_value (andthen (json_at g ''fresh'') get_bool) (\<lambda>fresh.
       if fresh then [] else [Inr (''Inventory is stale or unavailable.'' @ newline)])"

definition node_line :: "(Json \<Rightarrow> string result) \<Rightarrow> Json \<Rightarrow> pieces" where
  "node_line dump node =
     [string_at node ''name'', Inr ''  GPUs='', value_text dump (json_at node ''allocatable''),
      Inr ''  reserved='', value_text dump (json_at node ''reserved''),
      Inr ''  available='', or_unknown dump (json_at node ''available_estimate''), Inr newline]"

definition capacity_tail :: "(Json \<Rightarrow> string result) \<Rightarrow> Json \<Rightarrow> pieces" where
  "capacity_tail dump j =
     with_value (json_at j ''nodes'') (\<lambda>nodes. concat (map (node_line dump) (elements nodes))) @
     with_value (string_at j ''next_cursor'') (\<lambda>cursor.
       if cursor = [] then [] else [Inr ''Next cursor: '', Inr cursor, Inr newline])"

text \<open>A worker with its devices.\<close>

definition device_line :: "(Json \<Rightarrow> string result) \<Rightarrow> Json \<Rightarrow> pieces" where
  "device_line dump device =
     [Inr ''  '', string_at device ''uuid'', Inr ''  '', string_at device ''name'', Inr ''  '',
      value_text dump (json_at device ''memory_mib''), Inr ''MiB  eligible='',
      value_text dump (json_at device ''eligible''), Inr newline]"

definition worker_lines :: "(Json \<Rightarrow> string result) \<Rightarrow> Json \<Rightarrow> pieces" where
  "worker_lines dump j =
     with_value (json_at j ''gpu_inventory'') (\<lambda>inventory.
       [string_at j ''id'',
        Inr ''  CPU='', value_text dump (andthen (json_member j ''capacity'') (\<lambda>c. json_member c ''cpu_millis'')),
        Inr ''m  memory='', value_text dump (andthen (json_member j ''capacity'') (\<lambda>c. json_member c ''memory_mib'')),
        Inr ''MiB  GPUs='', value_text dump (andthen (json_member j ''capacity'') (\<lambda>c. json_member c ''gpu_count'')),
        Inr ''  reserved='', value_text dump (andthen (json_member j ''reserved'') (\<lambda>c. json_member c ''gpu_count'')),
        Inr ''  available='', or_unknown dump (json_at inventory ''available_estimate''),
        Inr ''  fresh='', value_text dump (json_at inventory ''fresh''),
        Inr ''  drained='', value_text dump (json_member j ''drained''), Inr newline] @
       with_value (json_at inventory ''devices'') (\<lambda>devices. concat (map (device_line dump) (elements devices))))"

text \<open>The end of a page, and the line of a run or an attempt.\<close>

definition page_tail :: "Json \<Rightarrow> Json \<Rightarrow> pieces" where
  "page_tail j items =
     (if json_size items = 0 then [Inr (''No items.'' @ newline)] else []) @
     (case json_at j ''next_cursor'' of
        Inr (JString cursor) \<Rightarrow> if cursor = [] then [] else [Inr ''Next cursor: '', Inr cursor, Inr newline]
      | _ \<Rightarrow> [])"

definition allocation_text :: "Json \<Rightarrow> pieces" where
  "allocation_text allocation =
     [Inr ''  '', andthen (json_member allocation ''device'') (\<lambda>d. string_member d ''uuid''),
      andthen (string_member allocation ''released_at'') (\<lambda>at.
        Inr (if at = [] then '' (reserved)'' else '' (released)''))]"

definition status_line :: "(Json \<Rightarrow> string result) \<Rightarrow> Json \<Rightarrow> pieces" where
  "status_line dump j =
     [string_member j ''id'', Inr ''  '', string_member j ''status''] @
     (if json_contains j ''spec''
      then [Inr ''  '', andthen (json_member j ''spec'') (\<lambda>spec. string_member spec ''name''), Inr ''  GPUs='',
            andthen (andthen (json_member j ''spec'') (\<lambda>spec. json_member spec ''resources''))
              (\<lambda>r. andthen (json_value get_int r ''gpu_count'' 0) (\<lambda>n. Inr (show_int n)))]
      else []) @
     (if json_contains j ''gpu_count'' then [Inr ''  GPUs='', value_text dump (json_member j ''gpu_count'')] else []) @
     (if json_contains j ''gpu_allocations''
      then with_value (json_member j ''gpu_allocations'') (\<lambda>as. concat (map allocation_text (elements as))) else []) @
     (if json_contains j ''node_name''
      then with_value (string_member j ''node_name'') (\<lambda>node. if node = [] then [] else [Inr ''  node='', Inr node])
      else []) @ [Inr newline]"

text \<open>
  A page of workers or of items shows its parts in turn; anything else is shown as it is. The parts are
  smaller values, so that the recursion ends for every reply.
\<close>

lemma member_smaller: "map_of m k = Some v \<Longrightarrow> size v < size (JObject m)"
proof (induction m)
  case (Cons p m)
  then show ?case by (cases p) (auto split: if_splits)
qed simp

lemma element_smaller: "x \<in> set (elements j) \<Longrightarrow> size x \<le> size j"
proof (cases j)
  case (JArray vs)
  moreover assume "x \<in> set (elements j)"
  ultimately show ?thesis using size_list_estimation'[of x vs "size x" size] by simp
next
  case (JObject m)
  moreover assume "x \<in> set (elements j)"
  ultimately obtain k where kx: "(k, x) \<in> set m" by auto
  then have "size x \<le> size_list (size_prod (\<lambda>_. 0) size) m" by (rule size_list_estimation') simp
  then show ?thesis using JObject by simp
qed auto

lemma part_smaller: "json_at j k = Inr v \<Longrightarrow> x \<in> set (elements v) \<Longrightarrow> size x < size j"
  by (cases j) (auto simp: json_at_def dest!: element_smaller member_smaller split: option.splits if_splits)

function display :: "(Json \<Rightarrow> string result) \<Rightarrow> (Json \<Rightarrow> string result) \<Rightarrow> Json \<Rightarrow> pieces" where
  "display dump pretty j =
     (if json_contains j ''backend'' \<and> json_contains j ''gpu''
      then (case json_at j ''gpu'' of
              Inl ex \<Rightarrow> [Inl ex]
            | Inr g \<Rightarrow> capacity_head dump j g @
                (case json_at j ''workers'' of
                   Inl ex \<Rightarrow> [Inl ex]
                 | Inr ws \<Rightarrow> concat (map (display dump pretty) (elements ws))) @
                capacity_tail dump j)
      else if json_contains j ''gpu_inventory'' then worker_lines dump j
      else if json_contains j ''items''
      then (case json_at j ''items'' of
              Inl ex \<Rightarrow> [Inl ex]
            | Inr items \<Rightarrow> concat (map (display dump pretty) (elements items)) @ page_tail j items)
      else if json_contains j ''id'' \<and> json_contains j ''status'' then status_line dump j
      else [pretty j, Inr newline])"
  by pat_completeness auto
termination
  by (relation "measure (\<lambda>(dump, pretty, j). size j)") (auto dest: part_smaller)

declare display.simps [simp del]

definition print_result :: "(Json \<Rightarrow> string result) \<Rightarrow> (Json \<Rightarrow> string result) \<Rightarrow> Json \<Rightarrow> bool \<Rightarrow> (unit, 's Terminal) io" where
  "print_result dump pretty j json =
     print_each (\<lambda>p. p) (if json then [pretty j, Inr newline] else display dump pretty j)"

section \<open>The server's replies\<close>

definition shown :: "pieces \<Rightarrow> bool" where
  "shown ps \<longleftrightarrow> list_all (\<lambda>p. \<exists>t. p = Inr t) ps"

lemma shown_simps [simp]:
  "shown []" "shown (p # ps) \<longleftrightarrow> (\<exists>t. p = Inr t) \<and> shown ps" "shown (ps @ qs) \<longleftrightarrow> shown ps \<and> shown qs"
  "shown (concat pss) \<longleftrightarrow> (\<forall>ps\<in>set pss. shown ps)"
  by (auto simp: shown_def list_all_iff)

lemma print_shown:
  "shown ps \<Longrightarrow> print_each (\<lambda>p. p) ps t = (Inr (), t\<lparr>tm_out := tm_out t @ concat (map projr ps)\<rparr>)"
  by (induction ps arbitrary: t) (auto simp: then_io_def pure_def put_out_def)

text \<open>What the client parsed is shown through the members of what the server encoded.\<close>

lemma map_of_reparsed: "map_of (map (\<lambda>(k, v). (k, reparsed v)) m) k = map_option reparsed (map_of m k)"
  by (induction m) auto

lemma reply_members:
  "json_at (reparsed (json_object ms)) k =
     (case map_of (rev ms) k of None \<Rightarrow> json_error ''out_of_range.403'' | Some v \<Rightarrow> Inr (reparsed v))"
  "json_member (reparsed (json_object ms)) k = json_at (reparsed (json_object ms)) k"
  "json_value get (reparsed (json_object ms)) k fallback =
     (case map_of (rev ms) k of None \<Rightarrow> Inr fallback | Some v \<Rightarrow> get (reparsed v))"
  "json_contains (reparsed (json_object ms)) k \<longleftrightarrow> map_of (rev ms) k \<noteq> None"
  using json_object_members[of ms]
  by (cases "json_object ms"; auto simp: json_at_def json_member_def json_value_def json_contains_def map_of_reparsed
      split: option.splits)+

lemmas reply_simps = reply_members display.simps[of dump pretty "reparsed (json_object ms)" for dump pretty ms]
  with_value_def value_text_def string_at_def string_member_def or_unknown_def

text \<open>
  Each kind of value, over what \<open>dump\<close> documents: only a string that is not UTF-8 cannot be printed.
\<close>

definition prints_scalars :: "(Json \<Rightarrow> string result) \<Rightarrow> bool" where
  "prints_scalars dump \<longleftrightarrow> (\<forall>i. \<exists>t. dump (JInteger i) = Inr t) \<and> (\<forall>n. \<exists>t. dump (JUnsigned n) = Inr t) \<and>
     (\<forall>b. \<exists>t. dump (JBool b) = Inr t)"

lemma dump_integer [simp]: "prints_scalars dump \<Longrightarrow> \<exists>t. dump (reparsed (JInteger i)) = Inr t"
  by (simp add: prints_scalars_def)

lemma run_is_shown: "shown (display dump pretty (reparsed (encode_run stamp r)))"
  by (simp add: encode_run_def encode_spec_def encode_resources_def reply_simps status_line_def)

lemma attempt_is_shown:
  "prints_scalars dump \<Longrightarrow> shown (display dump pretty (reparsed (encode_attempt stamp a)))"
  by (simp add: encode_attempt_def encode_allocation_def encode_gpu_def reply_simps status_line_def allocation_text_def
      prints_scalars_def)

lemma worker_is_shown:
  "prints_scalars dump \<Longrightarrow> shown (display dump pretty (reparsed (encode_worker stamp w)))"
  by (simp add: encode_worker_def encode_capacity_def encode_gpu_def reply_simps worker_lines_def device_line_def
      prints_scalars_def split: if_splits)

lemma page_is_shown:
  "(\<And>x. x \<in> set items \<Longrightarrow> shown (display dump pretty (reparsed x))) \<Longrightarrow>
     shown (display dump pretty (reparsed (paged ''next_cursor'' items (JString cursor))))"
  "(\<And>x. x \<in> set items \<Longrightarrow> shown (display dump pretty (reparsed x))) \<Longrightarrow>
     shown (display dump pretty (reparsed (json_object [(''items'', JArray items)])))"
  by (auto simp: paged_def reply_simps page_tail_def)

lemma capacity_is_shown:
  "prints_scalars dump \<Longrightarrow> shown (display dump pretty (reparsed (encode_capacity_page stamp page)))"
  using worker_is_shown[of dump pretty stamp]
  by (simp add: encode_capacity_page_def encode_node_def reply_simps capacity_head_def capacity_tail_def node_line_def
      prints_scalars_def Let_def)

text \<open>
  Whatever the server answers to the listings of capacity, workers, runs and attempts, the client shows it:
  no member that it reads is missing or of another type, so that it prints the whole reply.
\<close>

theorem replies_can_be_shown:
  assumes "prints_scalars dump"
    and "handle_json api e route r db = Inr (reply, db')"
    and "route = GetCapacity \<or> route = GetWorkers \<or> route = GetRuns \<or> (\<exists>rid. route = GetAttempts rid \<or> route = GetRun rid)"
  shows "print_result dump pretty (reparsed reply) False t =
    (Inr (), t\<lparr>tm_out := tm_out t @ concat (map projr (display dump pretty (reparsed reply)))\<rparr>)"
proof -
  have "shown (display dump pretty (reparsed reply))"
    using assms by (auto simp: ok_simps intro!: capacity_is_shown page_is_shown worker_is_shown run_is_shown attempt_is_shown)
  then show ?thesis by (simp add: print_result_def print_shown)
qed

text \<open>A listing of runs has one line for each run, in the order of the page, and says how to go on.\<close>

definition run_line :: "Run \<Rightarrow> string" where
  "run_line r = run_id r @ ''  '' @ to_string (run_status r) @ ''  '' @ spec_name (run_spec r) @
     ''  GPUs='' @ show_int (gpu_count (spec_resources (run_spec r))) @ newline"

lemma run_text:
  assumes "0 \<le> gpu_count (spec_resources (run_spec r))" and "gpu_count (spec_resources (run_spec r)) \<le> INT_MAX"
  shows "concat (map projr (display dump pretty (reparsed (encode_run stamp r)))) = run_line r"
  using assms
  by (simp add: encode_run_def encode_spec_def encode_resources_def reply_simps status_line_def run_line_def
      signed_take_bit_int_eq_self)

theorem runs_are_listed:
  assumes "\<And>r. r \<in> set rs \<Longrightarrow> 0 \<le> gpu_count (spec_resources (run_spec r)) \<and> gpu_count (spec_resources (run_spec r)) \<le> INT_MAX"
  shows "print_result dump pretty (reparsed (paged ''next_cursor'' (map (encode_run stamp) rs) (JString cursor))) False t =
    (Inr (), t\<lparr>tm_out := tm_out t @ (if rs = [] then ''No items.'' @ newline else concat (map run_line rs)) @
      (if cursor = [] then [] else ''Next cursor: '' @ cursor @ newline)\<rparr>)"
proof -
  have lines: "concat (map projr (concat (map (display dump pretty \<circ> (reparsed \<circ> encode_run stamp)) xs))) = concat (map run_line xs)"
    if "set xs \<subseteq> set rs" for xs
    using that by (induction xs) (auto simp: run_text assms)
  have "shown (display dump pretty (reparsed (paged ''next_cursor'' (map (encode_run stamp) rs) (JString cursor))))"
    by (auto intro!: page_is_shown run_is_shown)
  then show ?thesis
    by (auto simp: print_result_def print_shown paged_def reply_simps page_tail_def lines)
qed

end
