(* ===== verification/Client_Commands.thy ===== *)
theory Client_Commands
  imports Client_Display
begin

text \<open>
  \<^verbatim>\<open>src/cli/commands.cpp\<close>: what each command of the client does, after the checks of its settings and of
  the file it submits, and the exit code. Parsing the arguments is left out, and so is what is
  printed on the standard error; the commands for logs, metrics and downloads are those of
  \<open>Client_Workflows\<close>, replies are shown by \<open>Client_Display\<close>.
\<close>

datatype Command =
    SubmitFile string string
  | SweepFile string string
  | ListRuns int string string
  | InspectRun string bool bool
  | InspectSweep string
  | CancelRun string
  | RerunRun string string
  | ListArtifacts string string
  | ShowCapacity int string
  | ListWorkers int string
  | DrainWorker string bool

datatype ApiRequest = GetCall string | PostCall string Json string

text \<open>The settings: the environment's token and profile, and the URL of the coordinator.\<close>

definition check_settings :: "environment \<Rightarrow> string \<Rightarrow> unit result" where
  "check_settings vars url =
     (if env_or vars ''RUNYARD_OWNER_TOKEN'' [] = [] then Inl (StdError ''set RUNYARD_OWNER_TOKEN'')
      else if starts_with url ''http://'' \<and> env_or vars ''RUNYARD_PROFILE'' [] \<noteq> ''development''
      then Inl (StdError ''plaintext HTTP requires RUNYARD_PROFILE=development'')
      else Inr ())"

text \<open>A file is decoded before it is sent, and what is sent is the file's JSON.\<close>

definition checked_spec :: "Json \<Rightarrow> Json result" where
  "checked_spec body = andthen (decode_spec body) (\<lambda>_. Inr body)"

definition checked_sweep :: "Json \<Rightarrow> Json result" where
  "checked_sweep body =
     andthen (decode_sweep body) (\<lambda>spec. andthen (expand_sweep (sweep_base spec) (sweep_grid spec)) (\<lambda>_. Inr body))"

text \<open>\<open>random_id\<close> is what an absent request identity is replaced by.\<close>

definition request_key :: "string \<Rightarrow> string \<Rightarrow> string" where
  "request_key random key = (if key = [] then random else key)"

definition page_query :: "'s Client \<Rightarrow> int \<Rightarrow> string \<Rightarrow> string" where
  "page_query c limit after = ''?limit='' @ show_int limit @ ''&after='' @ ct_escape c after"

fun command_request :: "'s Client \<Rightarrow> (string \<Rightarrow> string result) \<Rightarrow> string \<Rightarrow> Command \<Rightarrow> ApiRequest result" where
  "command_request c read_file random (SubmitFile doc key) =
     andthen (andthen (read_file doc) (ct_parse c)) (\<lambda>body. andthen (checked_spec body) (\<lambda>body.
       Inr (PostCall ''/v1/runs'' body (request_key random key))))"
| "command_request c read_file random (SweepFile doc key) =
     andthen (andthen (read_file doc) (ct_parse c)) (\<lambda>body. andthen (checked_sweep body) (\<lambda>body.
       Inr (PostCall ''/v1/sweeps'' body (request_key random key))))"
| "command_request c read_file random (ListRuns limit after status) =
     Inr (GetCall (''/v1/runs'' @ page_query c limit after @ ''&status='' @ ct_escape c status))"
| "command_request c read_file random (InspectRun run with_attempts with_events) =
     Inr (GetCall (run_path c run @ (if with_attempts then ''/attempts'' else if with_events then ''/events'' else [])))"
| "command_request c read_file random (InspectSweep sweep) = Inr (GetCall (''/v1/sweeps/'' @ ct_escape c sweep))"
| "command_request c read_file random (CancelRun run) = Inr (PostCall (run_path c run @ ''/cancel'') (JObject []) [])"
| "command_request c read_file random (RerunRun run key) =
     Inr (PostCall (run_path c run @ ''/rerun'') (JObject []) (request_key random key))"
| "command_request c read_file random (ListArtifacts run attempt) =
     Inr (GetCall (run_path c run @ ''/artifacts?attempt='' @ ct_escape c attempt))"
| "command_request c read_file random (ShowCapacity limit after) = Inr (GetCall (''/v1/capacity'' @ page_query c limit after))"
| "command_request c read_file random (ListWorkers limit after) = Inr (GetCall (''/v1/workers'' @ page_query c limit after))"
| "command_request c read_file random (DrainWorker worker resume) =
     Inr (PostCall (''/v1/workers/'' @ ct_escape c worker @ ''/drain'') (json_object [(''drained'', JBool (\<not> resume))]) [])"

definition run_command :: "'s Client \<Rightarrow> (string \<Rightarrow> string result) \<Rightarrow> string \<Rightarrow> Command \<Rightarrow> (Json, 's) io" where
  "run_command c read_file random command =
     then_io (pure (command_request c read_file random command)) (\<lambda>request.
       case request of GetCall path \<Rightarrow> client_get c path | PostCall path body key \<Rightarrow> client_post c path body key)"

section \<open>The command line\<close>

datatype Action =
    Request Command
  | ShowLogs string string bool
  | ExportMetrics string string string bool
  | DownloadArtifact string string

text \<open>The arguments: the URL and the output format, what the file system holds and does, and a random identity.\<close>

record 's Invocation =
  iv_variables :: environment
  iv_url :: string
  iv_client :: "'s Client"
  iv_json :: bool
  iv_read :: "string \<Rightarrow> string result"
  iv_random :: string
  iv_digest :: "string \<Rightarrow> byte list"
  iv_fetch :: Fetch
  iv_pretty :: "Json \<Rightarrow> string result"

fun perform :: "nat \<Rightarrow> 's Invocation \<Rightarrow> Action \<Rightarrow> 's Terminal \<times> disk \<Rightarrow> (unit result \<times> 's Terminal \<times> disk) option" where
  "perform fuel iv (Request command) (t, d) =
     (case then_io (on_world (run_command (iv_client iv) (iv_read iv) (iv_random iv) command)) (\<lambda>result.
           print_result (ct_dump (iv_client iv)) (iv_pretty iv) result (iv_json iv)) t of
        (r, t') \<Rightarrow> Some (r, t', d))"
| "perform fuel iv (ShowLogs run attempt follow) (t, d) =
     map_option (\<lambda>(r, t'). (r, t', d)) (show_logs fuel (iv_client iv) run attempt follow (iv_json iv) t)"
| "perform fuel iv (ExportMetrics run attempt name as_csv) (t, d) =
     map_option (\<lambda>(r, t'). (r, t', d)) (export_metrics fuel (iv_client iv) run attempt name as_csv t)"
| "perform fuel iv (DownloadArtifact aid output) (t, d) =
     (case download_artifact (iv_client iv) (iv_digest iv) (iv_fetch iv) aid output (tm_world t, d) of
        (r, w, d') \<Rightarrow> Some (r, t\<lparr>tm_world := w\<rparr>, d'))"

text \<open>The exit code; \<open>None\<close> while logs are followed beyond the fuel.\<close>

definition command_line :: "nat \<Rightarrow> 's Invocation \<Rightarrow> Action \<Rightarrow> 's Terminal \<times> disk \<Rightarrow> (int \<times> 's Terminal \<times> disk) option" where
  "command_line fuel iv action s =
     map_option (\<lambda>(r, s'). (case r of Inl ex \<Rightarrow> 1 | Inr _ \<Rightarrow> 0, s'))
       (case check_settings (iv_variables iv) (iv_url iv) of
          Inl ex \<Rightarrow> Some (Inl ex, s)
        | Inr _ \<Rightarrow> perform fuel iv action s)"

section \<open>Properties\<close>

text \<open>
  Nothing is sent before it is checked. Without a token, over plaintext outside the development profile,
  or when the file of a submission is not a valid specification or its grid cannot be expanded, a command
  exits with 1 and nothing has been sent, printed or written; and every request that can create runs
  carries a key that is not empty.
\<close>

theorem commands_are_checked_before_sending:
  assumes "command_line fuel iv action s = Some (code, s')" and "iv_random iv \<noteq> []"
  shows "(check_settings (iv_variables iv) (iv_url iv) \<noteq> Inr () \<longrightarrow> code = 1 \<and> s' = s) \<and>
    (\<forall>doc key. action = Request (SubmitFile doc key) \<and>
        (\<forall>body spec. andthen (iv_read iv doc) (ct_parse (iv_client iv)) = Inr body \<longrightarrow> decode_spec body \<noteq> Inr spec) \<longrightarrow>
      code = 1 \<and> s' = s) \<and>
    (\<forall>doc key. action = Request (SweepFile doc key) \<and>
        (\<forall>body spec specs. andthen (iv_read iv doc) (ct_parse (iv_client iv)) = Inr body \<longrightarrow> decode_sweep body = Inr spec \<longrightarrow>
          expand_sweep (sweep_base spec) (sweep_grid spec) \<noteq> Inr specs) \<longrightarrow>
      code = 1 \<and> s' = s) \<and>
    (\<forall>command path body key. command_request (iv_client iv) (iv_read iv) (iv_random iv) command = Inr (PostCall path body key) \<longrightarrow>
      path = ''/v1/runs'' \<or> path = ''/v1/sweeps'' \<or> (\<exists>run k. command = RerunRun run k) \<longrightarrow> key \<noteq> [])"
proof -
  obtain t d where s: "s = (t, d)" by (cases s)
  have unsafe: "code = 1 \<and> s' = s" if "check_settings (iv_variables iv) (iv_url iv) \<noteq> Inr ()"
    using assms(1) that by (cases "check_settings (iv_variables iv) (iv_url iv)") (auto simp: command_line_def)
  have fails: "code = 1 \<and> s' = s"
    if "action = Request command" "command_request (iv_client iv) (iv_read iv) (iv_random iv) command = Inl ex" for command ex
    using assms(1) that unsafe
    by (cases "check_settings (iv_variables iv) (iv_url iv)")
      (auto simp: command_line_def run_command_def then_io_def pure_def on_world_def s)
  have bad_spec: "\<exists>ex. command_request (iv_client iv) (iv_read iv) (iv_random iv) (SubmitFile doc key) = Inl ex"
    if "\<forall>body spec. andthen (iv_read iv doc) (ct_parse (iv_client iv)) = Inr body \<longrightarrow> decode_spec body \<noteq> Inr spec" for doc key
    using that by (cases "andthen (iv_read iv doc) (ct_parse (iv_client iv))")
        (auto simp: checked_spec_def andthen_def split: sum.splits)
  have bad_sweep: "\<exists>ex. command_request (iv_client iv) (iv_read iv) (iv_random iv) (SweepFile doc key) = Inl ex"
    if "\<forall>body spec specs. andthen (iv_read iv doc) (ct_parse (iv_client iv)) = Inr body \<longrightarrow> decode_sweep body = Inr spec \<longrightarrow>
          expand_sweep (sweep_base spec) (sweep_grid spec) \<noteq> Inr specs" for doc key
    using that by (cases "andthen (iv_read iv doc) (ct_parse (iv_client iv))")
        (auto simp: checked_sweep_def andthen_def split: sum.splits)
  have keyed: "key \<noteq> []"
    if "command_request (iv_client iv) (iv_read iv) (iv_random iv) command = Inr (PostCall path body key)"
      "path = ''/v1/runs'' \<or> path = ''/v1/sweeps'' \<or> (\<exists>run k. command = RerunRun run k)" for command path body key
    using that assms(2) by (cases command) (auto simp: ok_simps request_key_def run_path_def split: if_splits)
  show ?thesis
  proof (intro conjI allI impI)
    fix doc key
    assume "action = Request (SubmitFile doc key) \<and> (\<forall>body spec.
      andthen (iv_read iv doc) (ct_parse (iv_client iv)) = Inr body \<longrightarrow> decode_spec body \<noteq> Inr spec)"
    then show "code = 1" "s' = s" using bad_spec[of doc key] fails by metis+
  next
    fix doc key
    assume "action = Request (SweepFile doc key) \<and> (\<forall>body spec specs.
      andthen (iv_read iv doc) (ct_parse (iv_client iv)) = Inr body \<longrightarrow> decode_sweep body = Inr spec \<longrightarrow>
      expand_sweep (sweep_base spec) (sweep_grid spec) \<noteq> Inr specs)"
    then show "code = 1" "s' = s" using bad_sweep[of doc key] fails by metis+
  next
    assume "check_settings (iv_variables iv) (iv_url iv) \<noteq> Inr ()"
    then show "code = 1" "s' = s" using unsafe by simp_all
  next
    fix command path body key
    assume "command_request (iv_client iv) (iv_read iv) (iv_random iv) command = Inr (PostCall path body key)"
      "path = ''/v1/runs'' \<or> path = ''/v1/sweeps'' \<or> (\<exists>run k. command = RerunRun run k)"
    then show "key \<noteq> []" by (rule keyed)
  qed
qed

definition demo_invocation :: "unit Invocation" where
  "demo_invocation = \<lparr>iv_variables = Map.empty, iv_url = ''http://h'', iv_client = artifact_client, iv_json = True,
     iv_read = (\<lambda>f. Inr []), iv_random = ''k'', iv_digest = (\<lambda>_. []), iv_fetch = demo_fetch, iv_pretty = (\<lambda>v. Inr [])\<rparr>"

theorem commands_are_checked_before_sending_witness:
  "\<exists>s'. command_line 0 demo_invocation (DownloadArtifact ''f'' ''out'') (demo_terminal, Map.empty) = Some (1, s') \<and>
     s' = (demo_terminal, Map.empty)"
proof -
  have bad: "check_settings (iv_variables demo_invocation) (iv_url demo_invocation) = Inl (StdError ''set RUNYARD_OWNER_TOKEN'')"
    by (simp add: demo_invocation_def check_settings_def env_or_def)
  then obtain code s' where run: "command_line 0 demo_invocation (DownloadArtifact ''f'' ''out'') (demo_terminal, Map.empty) = Some (code, s')"
    by (simp add: command_line_def)
  with commands_are_checked_before_sending[OF run] bad show ?thesis by (simp add: demo_invocation_def)
qed

end
