(* ===== verification/Workload.thy ===== *)
theory Workload
  imports Domain
begin

text \<open>
  \<^verbatim>\<open>src/runner/environment.cpp\<close> and \<^verbatim>\<open>src/runner/process.cpp\<close>: the environment and the executable of a
  workload, and the supervised process: what it reads of its pipes, when it signals the process group,
  and how the end is reported. The kernel's answers are arguments; spawning itself is not modelled.
\<close>

section \<open>Paths\<close>

text \<open>\<open>operator/\<close> of \<open>std::filesystem::path\<close>, and \<open>absolute\<close> with the current directory \<open>cwd\<close>.\<close>

definition is_absolute :: "string \<Rightarrow> bool" where
  "is_absolute p \<longleftrightarrow> starts_with p ''/''"

definition path_join :: "string \<Rightarrow> string \<Rightarrow> string" where
  "path_join base p =
     (if is_absolute p \<or> base = [] then p
      else if last base = CHR ''/'' then base @ p
      else base @ ''/'' @ p)"

definition absolute_in :: "string \<Rightarrow> string \<Rightarrow> string \<Rightarrow> string" where
  "absolute_in cwd directory p =
     (if is_absolute p then p
      else let q = path_join directory p in if is_absolute q then q else path_join cwd q)"

text \<open>The fields between the separators: one more than there are separators.\<close>

fun split_on :: "char \<Rightarrow> string \<Rightarrow> string list" where
  "split_on sep [] = [[]]"
| "split_on sep (c # s) =
     (if c = sep then [] # split_on sep s
      else case split_on sep s of [] \<Rightarrow> [[c]] | f # fs \<Rightarrow> (c # f) # fs)"

section \<open>The environment\<close>

type_synonym Environment = "(string, string) stdmap"

definition allowed_variables :: "string list" where
  "allowed_variables = [''PATH'', ''LD_LIBRARY_PATH'', ''PYTHONPATH'', ''VIRTUAL_ENV'', ''CUDA_HOME'', ''CUDA_PATH'',
     ''CUDA_VISIBLE_DEVICES'', ''NVIDIA_VISIBLE_DEVICES'', ''NVIDIA_DRIVER_CAPABILITIES'']"

definition default_path :: string where
  "default_path = ''/usr/local/bin:/usr/bin:/bin''"

text \<open>A loop that copies the variables that \<open>look\<close> has.\<close>

fun copy_variables :: "(string \<Rightarrow> string option) \<Rightarrow> string list \<Rightarrow> Environment \<Rightarrow> Environment" where
  "copy_variables look [] m = m"
| "copy_variables look (name # names) m =
     copy_variables look names (case look name of None \<Rightarrow> m | Some v \<Rightarrow> map_put name v m)"

definition runtime_environment :: "(string \<Rightarrow> string option) \<Rightarrow> Environment" where
  "runtime_environment getenv = copy_variables getenv allowed_variables []"

fun set_variables :: "(string \<times> string) list \<Rightarrow> Environment \<Rightarrow> Environment" where
  "set_variables [] m = m"
| "set_variables ((name, v) # rest) m = set_variables rest (map_put name v m)"

text \<open>The variables of the runtime: what the specification says of them is dropped.\<close>

fun restore_variables :: "Environment \<Rightarrow> string list \<Rightarrow> Environment \<Rightarrow> Environment" where
  "restore_variables inherited [] m = m"
| "restore_variables inherited (name # names) m =
     restore_variables inherited names
       (case map_of inherited name of None \<Rightarrow> map_erase name m | Some v \<Rightarrow> map_put name v (map_erase name m))"

definition workload_environment :: "RunSpec \<Rightarrow> Environment \<Rightarrow> string \<Rightarrow> string \<Rightarrow> int \<Rightarrow> Environment" where
  "workload_environment spec inherited root rid generation =
     (let e0 = set_variables [(''PATH'', default_path), (''LANG'', ''C.UTF-8'')] [];
          e1 = copy_variables (map_of inherited) allowed_variables e0;
          e2 = set_variables (spec_environment spec) e1;
          e3 = restore_variables inherited [''NVIDIA_VISIBLE_DEVICES'', ''NVIDIA_DRIVER_CAPABILITIES''] e2;
          e4 = (if gpu_count (spec_resources spec) = 0
                then map_erase ''NVIDIA_DRIVER_CAPABILITIES'' (map_put ''NVIDIA_VISIBLE_DEVICES'' ''void'' e3)
                else e3)
      in set_variables [
           (''HOME'', root),
           (''RUNYARD_PARAMETERS_PATH'', path_join root ''parameters.json''),
           (''RUNYARD_METRICS_PATH'', path_join root ''metrics.jsonl''),
           (''RUNYARD_OUTPUT_DIR'', path_join root ''artifacts''),
           (''RUNYARD_RUN_ID'', rid),
           (''RUNYARD_ATTEMPT_NUMBER'', show_int generation)] e4)"

text \<open>The search: \<open>executable\<close> is \<open>is_regular_file\<close> and \<open>access\<close>; a \<open>do\<close> loop over the fields of \<open>PATH\<close>.\<close>

fun search_path :: "(string \<Rightarrow> bool) \<Rightarrow> string \<Rightarrow> string \<Rightarrow> string \<Rightarrow> string list \<Rightarrow> string result" where
  "search_path executable cwd directory command [] =
     throw invalid (''command not executable on workload PATH: '' @ command)"
| "search_path executable cwd directory command (part # parts) =
     (let candidate = absolute_in cwd directory (path_join part command) in
      if executable candidate then Inr candidate else search_path executable cwd directory command parts)"

definition resolve_executable :: "(string \<Rightarrow> bool) \<Rightarrow> string \<Rightarrow> string \<Rightarrow> Environment \<Rightarrow> string \<Rightarrow> string result" where
  "resolve_executable executable cwd command environment directory =
     (if CHR ''/'' \<in> set command then Inr (absolute_in cwd directory command)
      else search_path executable cwd directory command
        (split_on (CHR '':'') (case map_of environment ''PATH'' of None \<Rightarrow> default_path | Some p \<Rightarrow> p)))"

section \<open>The process\<close>

datatype signal = SIGTERM | SIGKILL

text \<open>What \<open>waitpid\<close> reports: nothing yet, an exit code, a signal, or an error (interrupted or not).\<close>

datatype waited = NotYet | Exited int | Signaled int | WaitFailed bool

record PosixProcess =
  pp_status :: "int option"
  pp_kill_at :: "int option"

definition new_PosixProcess :: PosixProcess where
  "new_PosixProcess = \<lparr>pp_status = None, pp_kill_at = None\<rparr>"

text \<open>
  The constructor: an empty command, an executable that is not found, a pipe that cannot be made and
  \<open>posix_spawn\<close>, whose answer \<open>spawn\<close> gives for what it is called with (0, or an error \<open>strerror\<close> names).
\<close>

record SpawnCall =
  sp_executable :: string
  sp_directory :: string
  sp_args :: "string list"
  sp_envp :: "string list"

definition spawn_call :: "string list \<Rightarrow> Environment \<Rightarrow> string \<Rightarrow> string \<Rightarrow> SpawnCall" where
  "spawn_call command environment directory executable =
     \<lparr>sp_executable = executable, sp_directory = directory, sp_args = command,
      sp_envp = map (\<lambda>(key, v). key @ ''='' @ v) environment\<rparr>"

definition start_process ::
    "(string \<Rightarrow> bool) \<Rightarrow> string \<Rightarrow> bool \<Rightarrow> (SpawnCall \<Rightarrow> int) \<Rightarrow> (int \<Rightarrow> string) \<Rightarrow> string list \<Rightarrow> Environment \<Rightarrow> string \<Rightarrow>
     PosixProcess result" where
  "start_process executable cwd piped spawn strerror command environment directory =
     (case command of
        [] \<Rightarrow> throw invalid ''empty process command''
      | name # _ \<Rightarrow>
          andthen (resolve_executable executable cwd name environment directory) (\<lambda>path.
            if \<not> piped then throw unavailable ''cannot create process pipe''
            else let r = spawn (spawn_call command environment directory path) in
              if r \<noteq> 0 then throw invalid (''cannot execute command: '' @ strerror r)
              else Inr new_PosixProcess))"

text \<open>\<open>poll\<close>: its result, the signals it sends to the group, and the new state.\<close>

definition process_poll :: "int \<Rightarrow> waited \<Rightarrow> PosixProcess \<Rightarrow> int option result \<times> signal list \<times> PosixProcess" where
  "process_poll now waited p =
     (if pp_status p \<noteq> None then (Inr (pp_status p), [], p)
      else let due = (case pp_kill_at p of None \<Rightarrow> [] | Some t \<Rightarrow> if now \<ge> t then [SIGKILL] else []) in
        case waited of
          Exited code \<Rightarrow> (Inr (Some code), due @ [SIGKILL], p\<lparr>pp_status := Some code\<rparr>)
        | Signaled n \<Rightarrow> (Inr (Some (128 + n)), due @ [SIGKILL], p\<lparr>pp_status := Some (128 + n)\<rparr>)
        | NotYet \<Rightarrow> (Inr None, due, p)
        | WaitFailed interrupted \<Rightarrow>
            (if interrupted then Inr None else throw unavailable ''cannot reap experiment process'', due, p))"

definition process_stop :: "int \<Rightarrow> int \<Rightarrow> PosixProcess \<Rightarrow> signal list \<times> PosixProcess" where
  "process_stop now grace p =
     (let deadline = now + grace in
      if (case pp_kill_at p of None \<Rightarrow> True | Some t \<Rightarrow> deadline < t)
      then ([SIGTERM], p\<lparr>pp_kill_at := Some deadline\<rparr>) else ([], p))"

text \<open>What \<open>read\<close> returns: bytes, an interruption, or nothing more for now.\<close>

datatype read_result = Bytes string | Interrupted | NoMore

text \<open>One pipe of \<open>drain\<close>, for at most \<open>n\<close> reads: the pieces handed to \<open>consume\<close> and the reads left over.\<close>

fun drain_pipe :: "nat \<Rightarrow> read_result list \<Rightarrow> string list \<times> read_result list" where
  "drain_pipe 0 reads = ([], reads)"
| "drain_pipe (Suc n) [] = ([], [])"
| "drain_pipe (Suc n) (Bytes b # reads) = (case drain_pipe n reads of (pieces, rest) \<Rightarrow> (b # pieces, rest))"
| "drain_pipe (Suc n) (Interrupted # reads) = drain_pipe n reads"
| "drain_pipe (Suc n) (NoMore # reads) = ([], reads)"

definition drain :: "read_result list \<Rightarrow> read_result list \<Rightarrow> (string \<times> string) list \<times> read_result list \<times> read_result list" where
  "drain out err =
     (case drain_pipe 16 out of (pieces, out') \<Rightarrow>
      case drain_pipe 16 err of (pieces', err') \<Rightarrow>
        (map (\<lambda>b. (''stdout'', b)) pieces @ map (\<lambda>b. (''stderr'', b)) pieces', out', err'))"

text \<open>The destructor, when the process was spawned: it is killed unless it has been reaped.\<close>

definition process_end :: "PosixProcess \<Rightarrow> signal list" where
  "process_end p = (if pp_status p = None then [SIGKILL] else [])"

section \<open>What a workload sees\<close>

lemma map_wf_set_variables [simp]: "map_wf m \<Longrightarrow> map_wf (set_variables vs m)"
  by (induction vs m rule: set_variables.induct) auto

lemma map_wf_copy_variables [simp]: "map_wf m \<Longrightarrow> map_wf (copy_variables look names m)"
  by (induction look names m rule: copy_variables.induct) (auto split: option.splits)

lemma map_wf_restore_variables [simp]: "map_wf m \<Longrightarrow> map_wf (restore_variables inherited names m)"
  by (induction inherited names m rule: restore_variables.induct) (auto split: option.splits)

lemma map_of_copy_variables:
  "map_wf m \<Longrightarrow> map_of (copy_variables look names m) k =
     (if k \<in> set names \<and> look k \<noteq> None then look k else map_of m k)"
  by (induction look names m rule: copy_variables.induct) (auto split: option.splits)

lemma map_of_set_variables:
  "map_wf m \<Longrightarrow> distinct (map fst vs) \<Longrightarrow>
   map_of (set_variables vs m) k = (case map_of vs k of None \<Rightarrow> map_of m k | Some v \<Rightarrow> Some v)"
proof (induction vs m rule: set_variables.induct)
  case (2 name v rest m)
  then have "map_of rest name = None" by (simp add: map_of_eq_None_iff)
  with 2 show ?case by (auto split: option.splits)
qed simp

lemma map_of_restore_variables:
  "map_wf m \<Longrightarrow> map_of (restore_variables inherited names m) k =
     (if k \<in> set names then map_of inherited k else map_of m k)"
  by (induction inherited names m rule: restore_variables.induct) (auto split: option.splits)

text \<open>What the runtime sets last, and how the layers below shadow each other.\<close>

definition runtime_variables :: "string \<Rightarrow> string \<Rightarrow> int \<Rightarrow> Environment" where
  "runtime_variables root rid generation = [
     (''HOME'', root),
     (''RUNYARD_PARAMETERS_PATH'', path_join root ''parameters.json''),
     (''RUNYARD_METRICS_PATH'', path_join root ''metrics.jsonl''),
     (''RUNYARD_OUTPUT_DIR'', path_join root ''artifacts''),
     (''RUNYARD_RUN_ID'', rid),
     (''RUNYARD_ATTEMPT_NUMBER'', show_int generation)]"

definition device_variable :: "RunSpec \<Rightarrow> Environment \<Rightarrow> string \<Rightarrow> string option" where
  "device_variable spec inherited name =
     (if gpu_count (spec_resources spec) = 0
      then (if name = ''NVIDIA_VISIBLE_DEVICES'' then Some ''void'' else None)
      else map_of inherited name)"

definition layered_variable :: "RunSpec \<Rightarrow> Environment \<Rightarrow> string \<Rightarrow> string option" where
  "layered_variable spec inherited name =
     (case map_of (spec_environment spec) name of
        Some v \<Rightarrow> Some v
      | None \<Rightarrow> if name \<in> set allowed_variables \<and> map_of inherited name \<noteq> None then map_of inherited name
                else map_of [(''PATH'', default_path), (''LANG'', ''C.UTF-8'')] name)"

text \<open>
  C18. The environment of a workload, variable by variable: what the runtime sets (\<open>HOME\<close> and the
  \<open>RUNYARD_\<close> variables) wins over everything; the NVIDIA variables are those of the container, never those
  of the specification, and without GPUs no device is visible; then the specification wins over what is
  inherited, only the allowed variables are inherited, and the defaults come last.
\<close>

theorem workloads_get_the_runtime_variables:
  assumes "map_wf (spec_environment spec)"
  shows "map_of (workload_environment spec inherited root rid generation) name =
    (case map_of (runtime_variables root rid generation) name of
       Some v \<Rightarrow> Some v
     | None \<Rightarrow> if name = ''NVIDIA_VISIBLE_DEVICES'' \<or> name = ''NVIDIA_DRIVER_CAPABILITIES''
               then device_variable spec inherited name
               else layered_variable spec inherited name)"
proof -
  have d: "distinct (map fst (spec_environment spec))"
    using assms by (simp add: map_wf_def)
  have r: "distinct (map fst (runtime_variables root rid generation))"
    by (simp add: runtime_variables_def)
  define e0 where "e0 = set_variables [(''PATH'', default_path), (''LANG'', ''C.UTF-8'')] []"
  define e3 where "e3 = restore_variables inherited [''NVIDIA_VISIBLE_DEVICES'', ''NVIDIA_DRIVER_CAPABILITIES'']
    (set_variables (spec_environment spec) (copy_variables (map_of inherited) allowed_variables e0))"
  define e4 where "e4 = (if gpu_count (spec_resources spec) = 0
    then map_erase ''NVIDIA_DRIVER_CAPABILITIES'' (map_put ''NVIDIA_VISIBLE_DEVICES'' ''void'' e3) else e3)"
  have w: "workload_environment spec inherited root rid generation = set_variables (runtime_variables root rid generation) e4"
    by (simp only: workload_environment_def runtime_variables_def Let_def e0_def e3_def e4_def)
  have base: "map_of e0 = map_of [(''PATH'', default_path), (''LANG'', ''C.UTF-8'')]" and wf0: "map_wf e0"
    by (auto simp: e0_def fun_eq_iff)
  have wf3: "map_wf e3" and wf4: "map_wf e4"
    using wf0 by (simp_all add: e3_def e4_def del: restore_variables.simps set_variables.simps copy_variables.simps)
  have m3: "map_of e3 name = (if name = ''NVIDIA_VISIBLE_DEVICES'' \<or> name = ''NVIDIA_DRIVER_CAPABILITIES''
      then map_of inherited name else layered_variable spec inherited name)"
    using wf0 by (simp add: e3_def map_of_restore_variables map_of_set_variables[OF _ d] map_of_copy_variables base
        layered_variable_def split: option.split del: restore_variables.simps set_variables.simps copy_variables.simps)
  show ?thesis
    unfolding w map_of_set_variables[OF wf4 r] using m3 wf3
    by (auto simp: e4_def device_variable_def split: option.splits)
qed

text \<open>The search is a search for the first candidate.\<close>

lemma search_path_find:
  "search_path executable cwd directory command parts =
     (case find executable (map (\<lambda>part. absolute_in cwd directory (path_join part command)) parts) of
        Some p \<Rightarrow> Inr p
      | None \<Rightarrow> throw invalid (''command not executable on workload PATH: '' @ command))"
  by (induction parts) (auto simp: Let_def)

lemma is_absolute_join: "is_absolute p \<or> is_absolute base \<Longrightarrow> is_absolute (path_join base p)"
  by (cases base) (auto simp: path_join_def is_absolute_def starts_with_def)

lemma absolute_in_absolute: "is_absolute cwd \<Longrightarrow> is_absolute (absolute_in cwd directory p)"
  by (auto simp: absolute_in_def Let_def intro: is_absolute_join)

lemma split_on_join: "concat (map (\<lambda>f. f @ [sep]) (split_on sep s)) = s @ [sep]"
  by (induction sep s rule: split_on.induct) (auto split: list.splits)

lemma split_on_fields: "f \<in> set (split_on sep s) \<Longrightarrow> sep \<notin> set f"
proof (induction sep s arbitrary: f rule: split_on.induct)
  case (2 sep c s)
  then show ?case
    by (cases "split_on sep s") (auto split: if_splits)
qed simp

text \<open>
  The executable is the command itself, made absolute in the workload's directory, when it has a
  slash; otherwise it is the first candidate over the fields of the workload's own \<open>PATH\<close> that can be
  executed, and a failure blames the command. What is found is always an absolute path.
\<close>

theorem commands_are_found_on_the_path:
  assumes "is_absolute cwd"
  shows "resolve_executable executable cwd command environment directory =
    (if CHR ''/'' \<in> set command then Inr (absolute_in cwd directory command)
     else case find executable (map (\<lambda>part. absolute_in cwd directory (path_join part command))
            (split_on (CHR '':'') (case map_of environment ''PATH'' of None \<Rightarrow> default_path | Some p \<Rightarrow> p))) of
       Some p \<Rightarrow> Inr p
     | None \<Rightarrow> throw invalid (''command not executable on workload PATH: '' @ command)) \<and>
    (\<forall>p. resolve_executable executable cwd command environment directory = Inr p \<longrightarrow> is_absolute p)"
proof -
  have "is_absolute p" if "find executable (map (\<lambda>part. absolute_in cwd directory (path_join part command)) fs) = Some p" for p fs
    using that assms by (auto simp: find_Some_iff intro: absolute_in_absolute)
  then show ?thesis
    using absolute_in_absolute[OF assms]
    by (auto simp: resolve_executable_def search_path_find split: option.splits if_splits)
qed

section \<open>What a process is sent\<close>

datatype process_event = PollAt int waited | StopAt int int

fun process_run :: "process_event list \<Rightarrow> PosixProcess \<Rightarrow> signal list \<times> PosixProcess" where
  "process_run [] p = ([], p)"
| "process_run (PollAt now w # evs) p =
     (case process_poll now w p of (_, sent, p') \<Rightarrow> case process_run evs p' of (sent', p'') \<Rightarrow> (sent @ sent', p''))"
| "process_run (StopAt now grace # evs) p =
     (case process_stop now grace p of (sent, p') \<Rightarrow> case process_run evs p' of (sent', p'') \<Rightarrow> (sent @ sent', p''))"

lemma process_run_append:
  "process_run (evs @ evs') p =
     (case process_run evs p of (sent, p') \<Rightarrow> case process_run evs' p' of (sent', p'') \<Rightarrow> (sent @ sent', p''))"
  by (induction evs p rule: process_run.induct) (auto split: prod.splits)

text \<open>The deadline only moves forward in time; once reaped, the status stays, and the group has been killed.\<close>

definition deadline_by :: "int \<Rightarrow> PosixProcess \<Rightarrow> bool" where
  "deadline_by t p \<longleftrightarrow> (case pp_kill_at p of None \<Rightarrow> False | Some d \<Rightarrow> d \<le> t)"

lemma poll_deadline: "process_poll now w p = (r, sent, p') \<Longrightarrow> pp_kill_at p' = pp_kill_at p"
  by (auto simp: process_poll_def Let_def split: if_splits waited.splits)

lemma poll_status:
  "process_poll now w p = (r, sent, p') \<Longrightarrow>
   (pp_status p \<noteq> None \<longrightarrow> p' = p \<and> sent = []) \<and> (pp_status p = None \<and> pp_status p' \<noteq> None \<longrightarrow> SIGKILL \<in> set sent)"
  by (auto simp: process_poll_def Let_def split: if_splits waited.splits)

lemma poll_due:
  "process_poll now w p = (r, sent, p') \<Longrightarrow> pp_status p = None \<Longrightarrow> deadline_by now p \<Longrightarrow> SIGKILL \<in> set sent"
  by (auto simp: process_poll_def deadline_by_def Let_def split: if_splits waited.splits option.splits)

lemma stop_deadline:
  "process_stop now grace p = (sent, p') \<Longrightarrow>
   pp_status p' = pp_status p \<and> deadline_by (now + grace) p' \<and> (deadline_by t p \<longrightarrow> deadline_by t p')"
  by (auto simp: process_stop_def deadline_by_def Let_def split: if_splits option.splits)

lemma run_deadline: "process_run evs p = (sent, p') \<Longrightarrow> deadline_by t p \<Longrightarrow> deadline_by t p'"
proof (induction evs p arbitrary: sent rule: process_run.induct)
  case (2 now w evs p)
  then show ?case
    by (auto split: prod.splits dest!: poll_deadline simp: deadline_by_def)
next
  case (3 now grace evs p)
  then show ?case
    by (auto split: prod.splits dest!: stop_deadline[where t = t])
qed auto

lemma run_status:
  "process_run evs p = (sent, p') \<Longrightarrow>
   (pp_status p \<noteq> None \<longrightarrow> pp_status p' = pp_status p) \<and>
   (pp_status p = None \<and> pp_status p' \<noteq> None \<longrightarrow> SIGKILL \<in> set sent)"
proof (induction evs p arbitrary: sent rule: process_run.induct)
  case (2 now w evs p)
  then show ?case
    by (fastforce split: prod.splits dest: poll_status)
next
  case (3 now grace evs p)
  then show ?case
    by (fastforce split: prod.splits dest: stop_deadline)
qed auto

text \<open>
  C17. A process that is asked to stop does not outlive its grace period: whatever is polled and asked
  before and in between, at the first poll after the deadline its group has been killed. Later requests
  can only move the deadline forward.
\<close>

theorem stopped_processes_are_killed:
  assumes run: "process_run (before @ StopAt t grace # middle @ [PollAt now w]) new_PosixProcess = (sent, p)"
    and late: "t + grace \<le> now"
  shows "SIGKILL \<in> set sent"
proof -
  obtain s0 p0 where b: "process_run before new_PosixProcess = (s0, p0)" by (metis prod.exhaust)
  obtain s1 p1 where st: "process_stop t grace p0 = (s1, p1)" by (metis prod.exhaust)
  obtain s2 p2 where m: "process_run middle p1 = (s2, p2)" by (metis prod.exhaust)
  obtain r s3 p3 where l: "process_poll now w p2 = (r, s3, p3)" by (metis prod.exhaust)
  have sent: "sent = s0 @ s1 @ s2 @ s3"
    using run b st m l by (simp add: process_run_append)
  have due: "deadline_by now p2"
  proof -
    have "deadline_by (t + grace) p2"
      using stop_deadline[OF st] run_deadline[OF m] by blast
    with late show ?thesis by (auto simp: deadline_by_def split: option.splits)
  qed
  have "pp_status new_PosixProcess = None" by (simp add: new_PosixProcess_def)
  then have "SIGKILL \<in> set s0" if "pp_status p0 \<noteq> None"
    using run_status[OF b] that by simp
  moreover have "SIGKILL \<in> set s2" if "pp_status p0 = None" "pp_status p2 \<noteq> None"
    using run_status[OF m] stop_deadline[OF st] that by simp
  moreover have "SIGKILL \<in> set s3" if "pp_status p2 = None"
    using poll_due[OF l that due] .
  ultimately show ?thesis
    unfolding sent by auto
qed

theorem stopped_processes_are_killed_witness:
  "SIGKILL \<in> set (fst (process_run ([PollAt 0 NotYet] @ StopAt 5 10 # [StopAt 6 20] @ [PollAt 15 NotYet]) new_PosixProcess))"
  using stopped_processes_are_killed[where before = "[PollAt 0 NotYet]" and t = 5 and grace = 10
      and middle = "[StopAt 6 20]" and now = 15 and w = NotYet and sent = "[SIGTERM, SIGKILL]"
      and p = "\<lparr>pp_status = None, pp_kill_at = Some 15\<rparr>"]
  by (simp add: process_poll_def process_stop_def new_PosixProcess_def)

text \<open>What is read of a pipe: at most 16 pieces, and nothing is lost or reordered.\<close>

fun bytes_of :: "read_result list \<Rightarrow> string" where
  "bytes_of [] = []"
| "bytes_of (Bytes b # reads) = b @ bytes_of reads"
| "bytes_of (_ # reads) = bytes_of reads"

lemma drain_pipe_bytes:
  "drain_pipe n reads = (pieces, rest) \<Longrightarrow> bytes_of reads = concat pieces @ bytes_of rest \<and> length pieces \<le> n"
  by (induction n reads arbitrary: pieces rule: drain_pipe.induct) (auto split: prod.splits)

lemma drain_bounded:
  assumes "drain out err = (pieces, out', err')"
  shows "bytes_of out = concat (map snd (filter (\<lambda>q. fst q = ''stdout'') pieces)) @ bytes_of out'"
    and "bytes_of err = concat (map snd (filter (\<lambda>q. fst q = ''stderr'') pieces)) @ bytes_of err'"
    and "length pieces \<le> 32"
proof -
  obtain ps qs where o: "drain_pipe 16 out = (ps, out')" and e: "drain_pipe 16 err = (qs, err')"
    and p: "pieces = map (\<lambda>b. (''stdout'', b)) ps @ map (\<lambda>b. (''stderr'', b)) qs"
    using assms by (auto simp: drain_def split: prod.splits)
  show "bytes_of out = concat (map snd (filter (\<lambda>q. fst q = ''stdout'') pieces)) @ bytes_of out'"
    using drain_pipe_bytes[OF o] by (simp add: p filter_map o_def)
  show "bytes_of err = concat (map snd (filter (\<lambda>q. fst q = ''stderr'') pieces)) @ bytes_of err'"
    using drain_pipe_bytes[OF e] by (simp add: p filter_map o_def)
  show "length pieces \<le> 32"
    using drain_pipe_bytes[OF o] drain_pipe_bytes[OF e] by (simp add: p)
qed

section \<open>A concrete workload\<close>

definition demo_workload :: RunSpec where
  "demo_workload = \<lparr>spec_version = 1, spec_name = ''demo'', spec_image = ''python:3'', spec_command = [''train''],
     spec_parameters = [], spec_environment = [(''HOME'', ''/tmp''), (''PATH'', ''/opt:/bin'')], spec_labels = [],
     spec_resources = \<lparr>cpu_millis = 100, memory_mib = 64, gpu_count = 0\<rparr>,
     spec_retry = \<lparr>max_attempts = 1, retry_exit = False, retry_timeout = False\<rparr>, spec_timeout_seconds = 60,
     spec_priority = 0, spec_source_repository = [], spec_source_revision = []\<rparr>"

theorem workloads_get_the_runtime_variables_witness:
  "map_of (workload_environment demo_workload [(''CUDA_HOME'', ''/cuda'')] ''/w'' ''r1'' 2) ''HOME'' = Some ''/w'' \<and>
   map_wf (spec_environment demo_workload)"
  using workloads_get_the_runtime_variables[of demo_workload "[(''CUDA_HOME'', ''/cuda'')]" "''/w''" "''r1''" 2 "''HOME''"]
  by (simp add: demo_workload_def runtime_variables_def)

theorem commands_are_found_on_the_path_witness:
  "resolve_executable (\<lambda>p. p = ''/bin/train'') ''/srv'' ''train'' [(''PATH'', ''/opt:/bin'')] ''work'' = Inr ''/bin/train'' \<and>
   is_absolute ''/srv''"
  using commands_are_found_on_the_path[of "''/srv''" "\<lambda>p. p = ''/bin/train''" "''train''" "[(''PATH'', ''/opt:/bin'')]" "''work''"]
  by (simp add: is_absolute_def starts_with_def absolute_in_def path_join_def Let_def)

end
