(* ===== verification/Runner_Attempt.thy ===== *)
theory Runner_Attempt
  imports Workload Runner_Engine Http_Client Serialization
begin

text \<open>
  \<open>run_attempt\<close> (\<^verbatim>\<open>src/runner/engine.cpp\<close>) as a whole: claim the attempt, start the process, supervise it,
  and report its end. The calls of the attempt's client are those of an interface and are recorded with
  their results; what the operating system and the clocks answer is an argument. The heartbeat thread
  appears as the lease guard that each step finds; the threads of telemetry are in \<open>Telemetry_Delivery\<close>.
\<close>

section \<open>Supervising a process\<close>

text \<open>One iteration: what stops the workload, the clock in milliseconds, and what \<open>waitpid\<close> answers.\<close>

record iteration =
  it_stop :: bool
  it_guard :: LeaseGuard
  it_now :: int
  it_waited :: waited

definition observed :: "iteration \<Rightarrow> int option \<Rightarrow> observation" where
  "observed it status = \<lparr>ob_stop = it_stop it, ob_guard = it_guard it, ob_now = it_now it, ob_status = status\<rparr>"

text \<open>The loop, with the signals that it sends; \<open>None\<close>: the process has not ended.\<close>

fun supervise_process ::
    "int \<Rightarrow> int \<Rightarrow> string \<Rightarrow> iteration list \<Rightarrow> PosixProcess \<Rightarrow> (int result \<times> string \<times> signal list) option" where
  "supervise_process deadline grace reason [] p = None"
| "supervise_process deadline grace reason (it # its) p =
     (let reason' = (if reason = [] then stop_reason deadline grace (observed it None) else reason);
          (sent, p1) = (if reason = [] \<and> reason' \<noteq> [] then process_stop (it_now it) (grace * 1000) p else ([], p));
          (status, sent', p2) = process_poll (it_now it) (it_waited it) p1
      in case status of
           Inl ex \<Rightarrow> Some (Inl ex, reason', sent @ sent')
         | Inr (Some code) \<Rightarrow> Some (Inr code, reason', sent @ sent')
         | Inr None \<Rightarrow>
             map_option (\<lambda>(r, why, later). (r, why, sent @ sent' @ later)) (supervise_process deadline grace reason' its p2))"

section \<open>The calls of an attempt\<close>

record StartInfo =
  si_specification :: string
  si_lease :: int
  si_termination :: int

record 's AttemptClient =
  rc_start :: "(StartInfo, 's) io"
  rc_begin :: "(unit, 's) io"
  rc_flush :: "(int, 's) io"
  rc_upload :: "string \<Rightarrow> (unit, 's) io"
  rc_complete :: "int \<Rightarrow> string \<Rightarrow> int \<Rightarrow> (unit, 's) io"

datatype runner_event =
    Claimed "StartInfo result"
  | Spawned "PosixProcess result"
  | Finalizing "unit result"
  | Flushed "int result"
  | Uploaded string "unit result"
  | Completed int string int "unit result"

record 's Logged =
  rl_log :: "runner_event list"
  rl_world :: 's

definition noted :: "('a result \<Rightarrow> runner_event) \<Rightarrow> ('a, 's) io \<Rightarrow> ('a, 's Logged) io" where
  "noted entry m s = (case m (rl_world s) of (r, w) \<Rightarrow> (r, s\<lparr>rl_log := rl_log s @ [entry r], rl_world := w\<rparr>))"

section \<open>Running\<close>

text \<open>What the run finds: its environment, the process, and its directory when the process has ended.\<close>

record Execution =
  rx_run_id :: string
  rx_generation :: int
  rx_root :: string
  rx_parse :: "string \<Rightarrow> Json result"
  rx_getenv :: "string \<Rightarrow> string option"
  rx_executable :: "string \<Rightarrow> bool"
  rx_cwd :: string
  rx_piped :: bool
  rx_spawn :: "SpawnCall \<Rightarrow> int"
  rx_strerror :: "int \<Rightarrow> string"
  rx_sent :: int
  rx_guard :: LeaseGuard
  rx_now :: int
  rx_iterations :: "iteration list"
  rx_last_guard :: LeaseGuard
  rx_last_now :: int
  rx_intact :: bool
  rx_entries :: "(string \<times> entry_kind) list"
  rx_regular :: "string \<Rightarrow> bool"

text \<open>\<open>upload_file\<close>, and the loop over the entries of the output directory.\<close>

definition upload_file :: "'s AttemptClient \<Rightarrow> (string \<Rightarrow> bool) \<Rightarrow> string \<Rightarrow> (unit, 's Logged) io" where
  "upload_file c regular relative =
     (if \<not> regular relative then pure (throw invalid ''artifact must be a regular file, not a symlink'')
      else noted (Uploaded relative) (rc_upload c relative))"

fun upload_entries :: "'s AttemptClient \<Rightarrow> (string \<Rightarrow> bool) \<Rightarrow> (string \<times> entry_kind) list \<Rightarrow> (unit, 's Logged) io" where
  "upload_entries c regular [] = pure (Inr ())"
| "upload_entries c regular ((relative, kind) # entries) =
     (if kind = symlink then pure (throw invalid ''artifact symlinks are not supported'')
      else if kind \<noteq> regular_file then upload_entries c regular entries
      else if relative = ''_runyard'' \<or> starts_with relative ''_runyard/''
      then pure (throw invalid ''_runyard artifact namespace is reserved'')
      else then_io (upload_file c regular relative) (\<lambda>_. upload_entries c regular entries))"

text \<open>From the claim to the process.\<close>

definition begin_attempt :: "'s AttemptClient \<Rightarrow> Execution \<Rightarrow> (StartInfo \<times> RunSpec \<times> PosixProcess, 's Logged) io" where
  "begin_attempt c x =
     then_io (noted Claimed (rc_start c)) (\<lambda>st.
     then_io (pure (andthen (rx_parse x (si_specification st)) decode_spec)) (\<lambda>spec.
     if near_expiry (rx_now x) (si_termination st) (rx_guard x)
     then pure (throw stale ''initial lease has insufficient time to launch'')
     else then_io (noted Spawned (pure (start_process (rx_executable x) (rx_cwd x) (rx_piped x) (rx_spawn x) (rx_strerror x)
            (spec_command spec)
            (workload_environment spec (runtime_environment (rx_getenv x)) (rx_root x) (rx_run_id x) (rx_generation x))
            (rx_root x)))) (\<lambda>p. pure (Inr (st, spec, p)))))"

text \<open>From the end of the process to the completion; 1 when the lease was lost meanwhile.\<close>

definition finish_attempt :: "'s AttemptClient \<Rightarrow> Execution \<Rightarrow> int \<Rightarrow> string \<Rightarrow> (int, 's Logged) io" where
  "finish_attempt c x status reason =
     (if lg_revoked (rx_last_guard x) \<or> near_expiry (rx_last_now x) 0 (rx_last_guard x) then pure (Inr 1)
      else then_io (noted Finalizing (rc_begin c)) (\<lambda>_.
           then_io (noted Flushed (rc_flush c)) (\<lambda>sequence.
           if \<not> rx_intact x then pure (throw invalid ''artifact root must remain a directory, not a symlink'')
           else then_io (upload_entries c (rx_regular x) (rx_entries x)) (\<lambda>_.
           then_io (upload_file c (rx_regular x) ''_runyard/stdout.log'') (\<lambda>_.
           then_io (upload_file c (rx_regular x) ''_runyard/stderr.log'') (\<lambda>_.
           then_io (noted (Completed (completion_code status reason) reason sequence)
                     (rc_complete c (completion_code status reason) reason sequence)) (\<lambda>_.
             pure (Inr status))))))))"

definition run_attempt :: "'s AttemptClient \<Rightarrow> Execution \<Rightarrow> 's Logged \<Rightarrow> (int result \<times> 's Logged) option" where
  "run_attempt c x s =
     (case begin_attempt c x s of
        (Inl ex, s') \<Rightarrow> Some (Inl ex, s')
      | (Inr (st, spec, p), s') \<Rightarrow>
        (case supervise_process (rx_sent x + spec_timeout_seconds spec * 1000) (si_termination st) [] (rx_iterations x) p of
           None \<Rightarrow> None
         | Some (Inl ex, reason, sent) \<Rightarrow> Some (Inl ex, s')
         | Some (Inr status, reason, sent) \<Rightarrow> Some (finish_attempt c x status reason s')))"

section \<open>Supervision\<close>

text \<open>The loop with the process decides as the loop over observations does, and kills what it reaps.\<close>

lemma supervise_process_cases:
  assumes "supervise_process deadline grace reason (it # its) p = Some (r, why, sent)"
    and "reason' = (if reason = [] then stop_reason deadline grace (observed it None) else reason)"
  obtains (ended) first p1 later p2 where
      "(first, p1) = (if reason = [] \<and> reason' \<noteq> [] then process_stop (it_now it) (grace * 1000) p else ([], p))"
      "process_poll (it_now it) (it_waited it) p1 = (map_sum (\<lambda>ex. ex) Some r, later, p2)" "why = reason'" "sent = first @ later"
  | (goes_on) first p1 later p2 rest where
      "(first, p1) = (if reason = [] \<and> reason' \<noteq> [] then process_stop (it_now it) (grace * 1000) p else ([], p))"
      "process_poll (it_now it) (it_waited it) p1 = (Inr None, later, p2)"
      "supervise_process deadline grace reason' its p2 = Some (r, why, rest)" "sent = first @ later @ rest"
proof -
  obtain first p1 where f: "(if reason = [] \<and> reason' \<noteq> [] then process_stop (it_now it) (grace * 1000) p else ([], p)) = (first, p1)"
    by (metis prod.exhaust)
  obtain status later p2 where l: "process_poll (it_now it) (it_waited it) p1 = (status, later, p2)" by (metis prod.exhaust)
  have eq: "supervise_process deadline grace reason (it # its) p =
      (case status of
           Inl ex \<Rightarrow> Some (Inl ex, reason', first @ later)
         | Inr (Some code) \<Rightarrow> Some (Inr code, reason', first @ later)
         | Inr None \<Rightarrow> map_option (\<lambda>(r, why, rest). (r, why, first @ later @ rest)) (supervise_process deadline grace reason' its p2))"
    by (simp only: supervise_process.simps Let_def assms(2)[symmetric] f l prod.case)
  show thesis
  proof (cases status)
    case (Inl ex)
    with assms(1) eq have "r = Inl ex" "why = reason'" "sent = first @ later" by simp_all
    with Inl f l show thesis by (intro ended[of first p1 later p2]) simp_all
  next
    case (Inr st)
    show thesis
    proof (cases st)
      case None
      with assms(1) eq Inr obtain rest where "supervise_process deadline grace reason' its p2 = Some (r, why, rest)"
        "sent = first @ later @ rest" by (auto simp only: sum.case option.case map_option_eq_Some prod.case prod.inject)
      with Inr None f l show thesis by (intro goes_on[of first p1 later p2 rest]) simp_all
    next
      case (Some code)
      with assms(1) eq Inr have "r = Inr code" "why = reason'" "sent = first @ later" by simp_all
      with Inr Some f l show thesis by (intro ended[of first p1 later p2]) simp_all
    qed
  qed
qed

lemma observed_status: "ob_status (observed it st) = st"
  by (simp add: observed_def)

lemma observed_reason: "stop_reason deadline grace (observed it (Some st)) = stop_reason deadline grace (observed it None)"
  by (simp add: stop_reason_def observed_def)

lemma supervise_process_supervise:
  "supervise_process deadline grace reason its p = Some (Inr status, why, sent) \<Longrightarrow>
   \<exists>obs stops'. supervise deadline grace reason stops obs = Some (status, why, stops')"
proof (induction its arbitrary: reason p sent stops)
  case (Cons it its)
  define reason' where "reason' = (if reason = [] then stop_reason deadline grace (observed it None) else reason)"
  from Cons.prems reason'_def show ?case
  proof (cases rule: supervise_process_cases)
    case (ended first p1 later p2)
    then show ?thesis
      by (intro exI[of _ "[observed it (Some status)]"]) (auto simp: Let_def observed_reason observed_status reason'_def)
  next
    case (goes_on first p1 later p2 rest)
    define stops1 where "stops1 = (if reason = [] \<and> reason' \<noteq> [] then stops + 1 else stops)"
    from Cons.IH[OF goes_on(3)] obtain obs stops' where "supervise deadline grace reason' stops1 obs = Some (status, why, stops')"
      by blast
    then show ?thesis
      by (intro exI[of _ "observed it None # obs"] exI[of _ stops'])
        (auto simp: Let_def reason'_def stops1_def observed_status)
  qed
qed simp

text \<open>Whoever is reaped has been killed with its group, and who was stopped was asked to stop first.\<close>

lemma supervised_groups_are_killed:
  "supervise_process deadline grace reason its p = Some (Inr status, why, sent) \<Longrightarrow> pp_status p = None \<Longrightarrow>
   SIGKILL \<in> set sent \<and> (reason = [] \<and> why \<noteq> [] \<and> pp_kill_at p = None \<longrightarrow> SIGTERM \<in> set sent)"
proof (induction its arbitrary: reason p sent)
  case (Cons it its)
  define reason' where "reason' = (if reason = [] then stop_reason deadline grace (observed it None) else reason)"
  have stopped: "pp_status p1 = None \<and> (pp_kill_at p = None \<and> reason = [] \<and> reason' \<noteq> [] \<longrightarrow> SIGTERM \<in> set first) \<and>
      (reason' = [] \<longrightarrow> p1 = p)"
    if "(first, p1) = (if reason = [] \<and> reason' \<noteq> [] then process_stop (it_now it) (grace * 1000) p else ([], p))" for first p1
    using that Cons.prems(2) by (auto simp: process_stop_def Let_def reason'_def split: if_splits option.splits)
  from Cons.prems(1) reason'_def show ?case
  proof (cases rule: supervise_process_cases)
    case (ended first p1 later p2)
    with stopped[OF ended(1)] have "SIGKILL \<in> set later"
      by (auto simp: process_poll_def Let_def split: waited.splits if_splits)
    with ended stopped[OF ended(1)] show ?thesis by auto
  next
    case (goes_on first p1 later p2 rest)
    note st = stopped[OF goes_on(1)]
    have p2: "pp_status p2 = None \<and> pp_kill_at p2 = pp_kill_at p1"
      using goes_on(2) st by (auto simp: process_poll_def Let_def split: waited.splits if_splits)
    note ih = Cons.IH[OF goes_on(3) p2[THEN conjunct1]]
    with goes_on(4) st p2 show ?thesis by (cases "reason' = []") (auto simp: reason'_def)
  qed
qed simp

section \<open>Completion\<close>

definition is_completion :: "runner_event \<Rightarrow> bool" where
  "is_completion ev \<longleftrightarrow> (case ev of Completed code reason sequence res \<Rightarrow> True | _ \<Rightarrow> False)"

text \<open>\<open>m\<close> appends no completion.\<close>

definition uncompleted :: "('a, 's Logged) io \<Rightarrow> bool" where
  "uncompleted m \<longleftrightarrow> (\<forall>s. \<exists>es. rl_log (snd (m s)) = rl_log s @ es \<and> \<not> list_ex is_completion es)"

lemma uncompletedD: "uncompleted m \<Longrightarrow> m s = (r, s') \<Longrightarrow> \<exists>es. rl_log s' = rl_log s @ es \<and> \<not> list_ex is_completion es"
  unfolding uncompleted_def by (metis snd_conv)

lemma uncompleted_pure: "uncompleted (pure r)"
  by (simp add: uncompleted_def pure_def)

lemma uncompleted_noted: "(\<And>r. \<not> is_completion (entry r)) \<Longrightarrow> uncompleted (noted entry m)"
  by (auto simp: uncompleted_def noted_def split: prod.split)

lemma uncompleted_then: "uncompleted m \<Longrightarrow> (\<And>v. uncompleted (f v)) \<Longrightarrow> uncompleted (then_io m f)"
  unfolding uncompleted_def
proof
  fix s assume m: "\<forall>s. \<exists>es. rl_log (snd (m s)) = rl_log s @ es \<and> \<not> list_ex is_completion es"
    and f: "\<And>v. \<forall>s. \<exists>es. rl_log (snd (f v s)) = rl_log s @ es \<and> \<not> list_ex is_completion es"
  obtain r s1 where ms: "m s = (r, s1)" by (metis prod.exhaust)
  with m obtain es where es: "rl_log s1 = rl_log s @ es" "\<not> list_ex is_completion es" by (metis snd_conv)
  show "\<exists>es. rl_log (snd (then_io m f s)) = rl_log s @ es \<and> \<not> list_ex is_completion es"
  proof (cases r)
    case (Inr v)
    from f[of v] obtain es' where "rl_log (snd (f v s1)) = rl_log s1 @ es'" "\<not> list_ex is_completion es'" by blast
    with Inr ms es show ?thesis by (intro exI[of _ "es @ es'"]) (simp add: then_io_def)
  qed (use ms es in \<open>auto simp: then_io_def\<close>)
qed

lemma uncompleted_file: "uncompleted (upload_file c regular relative)"
  by (auto simp: upload_file_def is_completion_def intro!: uncompleted_pure uncompleted_noted)

lemma uncompleted_uploads: "uncompleted (upload_entries c regular entries)"
  by (induction c regular entries rule: upload_entries.induct)
    (auto intro!: uncompleted_pure uncompleted_then uncompleted_file)

lemma uncompleted_begin: "uncompleted (begin_attempt c x)"
  unfolding begin_attempt_def
  by (intro uncompleted_then uncompleted_noted uncompleted_pure) (auto simp: is_completion_def intro!: uncompleted_then uncompleted_noted uncompleted_pure)

lemma noted_ok: "noted entry m s = (Inr v, s') \<Longrightarrow> rl_log s' = rl_log s @ [entry (Inr v)]"
  by (auto simp: noted_def split: prod.splits)

lemma upload_file_ok: "upload_file c regular relative s = (Inr u, s') \<Longrightarrow> rl_log s' = rl_log s @ [Uploaded relative (Inr ())]"
  by (auto simp: upload_file_def split: if_splits dest!: noted_ok)

lemma upload_entries_ok:
  "upload_entries c regular entries s = (Inr u, s') \<Longrightarrow>
   \<exists>paths. collect_artifacts entries = Inr paths \<and> rl_log s' = rl_log s @ map (\<lambda>f. Uploaded f (Inr ())) paths"
proof (induction c regular entries arbitrary: s rule: upload_entries.induct)
  case (2 c regular relative kind entries)
  then show ?case
    by (cases kind) (auto simp: then_io_ok split: if_splits dest!: upload_file_ok; fastforce)+
qed simp

lemma started_process: "start_process ex cwd piped spawn strerror argv env dir = Inr p \<Longrightarrow> p = new_PosixProcess"
  by (auto simp: start_process_def ok_simps Let_def split: if_splits list.splits)

lemma noted_pure: "noted entry (pure v) s = (Inr w, s') \<Longrightarrow> v = Inr w \<and> rl_log s' = rl_log s @ [entry (Inr w)]"
  by (auto simp: noted_def pure_def)

lemma begin_attempt_ok:
  assumes "begin_attempt c x s = (Inr (st, spec, p), s')"
  shows "rl_log s' = rl_log s @ [Claimed (Inr st), Spawned (Inr p)]"
    and "andthen (rx_parse x (si_specification st)) decode_spec = Inr spec"
    and "p = new_PosixProcess"
  using assms
  by (auto simp: begin_attempt_def then_io_ok split: if_splits dest!: noted_ok[where m = "rc_start c"] noted_pure started_process)

lemma finish_attempt_cases:
  assumes "finish_attempt c x status reason s = (r, s')"
  obtains (silent) es where "rl_log s' = rl_log s @ es" "\<not> list_ex is_completion es"
  | (reported) paths sequence res where "upload_list (rx_entries x) = Inr paths"
      "rl_log s' = rl_log s @ [Finalizing (Inr ()), Flushed (Inr sequence)] @ map (\<lambda>f. Uploaded f (Inr ())) paths @
        [Completed (completion_code status reason) reason sequence res]"
      "\<not> lg_revoked (rx_last_guard x)" "\<not> near_expiry (rx_last_now x) 0 (rx_last_guard x)"
      "r = map_sum (\<lambda>ex. ex) (\<lambda>_. status) res"
      "\<exists>w. rc_complete c (completion_code status reason) reason sequence w = (res, rl_world s')"
proof (cases "lg_revoked (rx_last_guard x) \<or> near_expiry (rx_last_now x) 0 (rx_last_guard x)")
  case True
  with assms show thesis by (intro silent[of "[]"]) (auto simp: finish_attempt_def)
next
  case False
  define last_call where "last_call sequence = noted (Completed (completion_code status reason) reason sequence)
    (rc_complete c (completion_code status reason) reason sequence)" for sequence :: int
  define uploads where "uploads = then_io (upload_entries c (rx_regular x) (rx_entries x)) (\<lambda>_.
    then_io (upload_file c (rx_regular x) ''_runyard/stdout.log'') (\<lambda>_. upload_file c (rx_regular x) ''_runyard/stderr.log''))"
  obtain r1 s1 where b: "noted Finalizing (rc_begin c) s = (r1, s1)" by (metis prod.exhaust)
  have un: "uncompleted uploads"
    unfolding uploads_def by (intro uncompleted_then uncompleted_uploads uncompleted_file)
  have shape: "finish_attempt c x status reason s =
      then_io (noted Finalizing (rc_begin c)) (\<lambda>_. then_io (noted Flushed (rc_flush c)) (\<lambda>sequence.
        if \<not> rx_intact x then pure (throw invalid ''artifact root must remain a directory, not a symlink'')
        else then_io uploads (\<lambda>_. then_io (last_call sequence) (\<lambda>_. pure (Inr status))))) s"
    using False by (auto simp: finish_attempt_def uploads_def last_call_def then_io_def split: prod.splits sum.splits)
  show thesis
  proof (cases "\<exists>u s1 sequence s2 u' s3. noted Finalizing (rc_begin c) s = (Inr u, s1) \<and> noted Flushed (rc_flush c) s1 = (Inr sequence, s2) \<and>
      rx_intact x \<and> uploads s2 = (Inr u', s3)")
    case True
    then obtain u s1 sequence s2 u' s3 where c: "noted Finalizing (rc_begin c) s = (Inr u, s1)"
      "noted Flushed (rc_flush c) s1 = (Inr sequence, s2)" "rx_intact x" "uploads s2 = (Inr u', s3)" by blast
    obtain res s4 where l: "last_call sequence s3 = (res, s4)" by (metis prod.exhaust)
    from l have log4: "rl_log s4 = rl_log s3 @ [Completed (completion_code status reason) reason sequence res]"
      by (auto simp: last_call_def noted_def split: prod.splits)
    from l have last_world: "rc_complete c (completion_code status reason) reason sequence (rl_world s3) = (res, rl_world s4)"
      by (auto simp: last_call_def noted_def split: prod.splits)
    from c(4) obtain paths where p: "collect_artifacts (rx_entries x) = Inr paths"
      "rl_log s3 = rl_log s2 @ map (\<lambda>f. Uploaded f (Inr ())) (paths @ [''_runyard/stdout.log'', ''_runyard/stderr.log''])"
      by (fastforce simp: uploads_def then_io_ok dest!: upload_entries_ok upload_file_ok)
    have e: "s' = s4" "r = map_sum (\<lambda>ex. ex) (\<lambda>_. status) res"
      using assms c l unfolding shape then_io_def by (auto simp: pure_def split: sum.splits)
    show thesis
      by (rule reported[of "paths @ [''_runyard/stdout.log'', ''_runyard/stderr.log'']" sequence res])
        (use p log4 e last_world False noted_ok[OF c(1)] noted_ok[OF c(2)] in \<open>auto simp: upload_list_def\<close>)
  next
    case no: False
    have "\<exists>es. rl_log s' = rl_log s @ es \<and> \<not> list_ex is_completion es"
    proof -
      define m where "m = then_io (noted Finalizing (rc_begin c)) (\<lambda>_. then_io (noted Flushed (rc_flush c)) (\<lambda>sequence.
        if \<not> rx_intact x then pure (throw invalid ''artifact root must remain a directory, not a symlink'')
        else then_io uploads (\<lambda>_. pure (Inr status))))"
      have "uncompleted m"
        unfolding m_def by (auto simp: is_completion_def intro!: uncompleted_then uncompleted_noted uncompleted_pure un)
      moreover have "m s = (r, s')"
        using assms no unfolding shape m_def then_io_def
        by (auto simp: pure_def split: prod.splits sum.splits if_splits)
      ultimately show ?thesis by (rule uncompletedD)
    qed
    with silent show thesis by blast
  qed
qed

text \<open>A completion is the last thing the run does with the world.\<close>

lemma completed_world:
  assumes run: "run_attempt c x s = Some (r, s')" and "rl_log s' = rl_log s @ evs"
    and "Completed code reason sequence res \<in> set evs"
  shows "\<exists>w. rc_complete c code reason sequence w = (res, rl_world s')"
proof -
  obtain r1 s1 where b: "begin_attempt c x s = (r1, s1)" by (metis prod.exhaust)
  from uncompletedD[OF uncompleted_begin b] obtain es where es: "rl_log s1 = rl_log s @ es" "\<not> list_ex is_completion es" by blast
  have some: "list_ex is_completion evs"
    using assms(3) by (force simp: list_ex_iff is_completion_def)
  with es assms(2) have "s' \<noteq> s1" by auto
  with run b obtain st spec p status why sent where "r1 = Inr (st, spec, p)" and fin: "finish_attempt c x status why s1 = (r, s')"
    by (cases r1) (auto simp: run_attempt_def split: option.splits sum.splits)
  from fin show ?thesis
  proof (cases rule: finish_attempt_cases)
    case (silent es')
    with es some assms(2) show ?thesis by auto
  next
    case (reported paths sequence' res')
    with es(1) assms(2) have "evs = es @ [Finalizing (Inr ()), Flushed (Inr sequence')] @ map (\<lambda>f. Uploaded f (Inr ())) paths @
        [Completed (completion_code status why) why sequence' res']" by simp
    with assms(3) es(2) have "code = completion_code status why \<and> reason = why \<and> sequence = sequence' \<and> res = res'"
      by (force simp: list_ex_iff is_completion_def)
    with reported(6) show ?thesis by simp
  qed
qed

text \<open>
  C13. A completion is the last thing an attempt reports, after everything else has been. When a run of the
  runner reports a completion, it has claimed the attempt, started the process of the claimed specification
  and seen it end, with its whole group killed, begun the finalization, had all telemetry up to the reported
  sequence number acknowledged, and uploaded every regular file of the output directory and both logs, all
  successfully and in this order; its lease was still valid after the process had ended, and the code is
  that of the process, or a failure when the runner had asked it to stop. Every other run reports none.
\<close>

theorem completions_are_reported_last:
  assumes run: "run_attempt c x s = Some (r, s')" and "rl_log s' = rl_log s @ evs"
    and "Completed code reason sequence res \<in> set evs"
  shows "\<exists>st spec paths status sent.
    evs = [Claimed (Inr st), Spawned (Inr new_PosixProcess), Finalizing (Inr ()), Flushed (Inr sequence)] @
      map (\<lambda>f. Uploaded f (Inr ())) paths @ [Completed code reason sequence res] \<and>
    andthen (rx_parse x (si_specification st)) decode_spec = Inr spec \<and>
    upload_list (rx_entries x) = Inr paths \<and> code = completion_code status reason \<and>
    supervise_process (rx_sent x + spec_timeout_seconds spec * 1000) (si_termination st) [] (rx_iterations x) new_PosixProcess =
      Some (Inr status, reason, sent) \<and>
    SIGKILL \<in> set sent \<and> (reason = [] \<or> SIGTERM \<in> set sent) \<and>
    \<not> lg_revoked (rx_last_guard x) \<and> \<not> near_expiry (rx_last_now x) 0 (rx_last_guard x)"
proof -
  have some: "list_ex is_completion evs"
    using assms(3) by (force simp: list_ex_iff is_completion_def)
  obtain r1 s1 where b: "begin_attempt c x s = (r1, s1)" by (metis prod.exhaust)
  from uncompletedD[OF uncompleted_begin b] obtain es where es: "rl_log s1 = rl_log s @ es" "\<not> list_ex is_completion es" by blast
  have not_s1: "s' \<noteq> s1" using es some assms(2) by auto
  then obtain st spec p where r1: "r1 = Inr (st, spec, p)"
    using run b by (cases r1) (auto simp: run_attempt_def)
  note ok = begin_attempt_ok[OF b[unfolded r1]]
  from run b r1 not_s1 obtain status why sent where
    sup: "supervise_process (rx_sent x + spec_timeout_seconds spec * 1000) (si_termination st) [] (rx_iterations x) p = Some (Inr status, why, sent)"
    and fin: "finish_attempt c x status why s1 = (r, s')"
    by (auto simp: run_attempt_def split: option.splits sum.splits)
  have signals: "SIGKILL \<in> set sent" "why = [] \<or> SIGTERM \<in> set sent"
    using supervised_groups_are_killed[OF sup] ok(3) by (auto simp: new_PosixProcess_def)
  from fin show ?thesis
  proof (cases rule: finish_attempt_cases)
    case (silent es')
    with es some assms(2) show ?thesis by auto
  next
    case (reported paths sequence' res')
    then have all: "evs = [Claimed (Inr st), Spawned (Inr new_PosixProcess), Finalizing (Inr ()), Flushed (Inr sequence')] @
        map (\<lambda>f. Uploaded f (Inr ())) paths @ [Completed (completion_code status why) why sequence' res']"
      using ok(1,3) assms(2) by simp
    with assms(3) have same: "code = completion_code status why" "reason = why" "sequence = sequence'" "res = res'" by auto
    show ?thesis
      unfolding same using all ok(2,3) reported(1,3,4) sup signals
      by (intro exI[of _ st] exI[of _ spec] exI[of _ paths] exI[of _ status] exI[of _ sent]) simp
  qed
qed

definition demo_attempt_client :: "nat AttemptClient" where
  "demo_attempt_client = \<lparr>rc_start = pure (Inr \<lparr>si_specification = ''spec'', si_lease = 60, si_termination = 10\<rparr>),
     rc_begin = pure (Inr ()), rc_flush = pure (Inr 2), rc_upload = (\<lambda>relative n. (Inr (), n + 1)),
     rc_complete = (\<lambda>code reason sequence. pure (Inr ()))\<rparr>"

definition demo_execution :: Execution where
  "demo_execution = \<lparr>rx_run_id = ''r'', rx_generation = 1, rx_root = ''/work/a'',
     rx_parse = (\<lambda>t. Inr (reparsed (encode_spec demo_grid_spec))), rx_getenv = (\<lambda>name. None),
     rx_executable = (\<lambda>path. True), rx_cwd = ''/work'', rx_piped = True, rx_spawn = (\<lambda>call. 0), rx_strerror = (\<lambda>n. []),
     rx_sent = 0, rx_guard = new_LeaseGuard 0 60, rx_now = 0,
     rx_iterations = [\<lparr>it_stop = False, it_guard = new_LeaseGuard 0 60, it_now = 20, it_waited = NotYet\<rparr>,
       \<lparr>it_stop = True, it_guard = new_LeaseGuard 0 60, it_now = 40, it_waited = Exited 0\<rparr>],
     rx_last_guard = new_LeaseGuard 0 60, rx_last_now = 60, rx_intact = True,
     rx_entries = [(''model'', regular_file)], rx_regular = (\<lambda>path. True)\<rparr>"

lemma demo_process: "start_process (\<lambda>path. True) cwd True (\<lambda>call. 0) why (spec_command demo_grid_spec) env dir = Inr new_PosixProcess"
proof (cases "split_on (CHR '':'') (case map_of env ''PATH'' of None \<Rightarrow> default_path | Some p \<Rightarrow> p)")
  case (Cons d ds)
  then show ?thesis
    by (simp add: start_process_def demo_grid_spec_def demo_spec_def resolve_executable_def Let_def ok_simps)
next
  case Nil
  have "split_on sep str \<noteq> []" for sep and str :: string by (induction str) (auto split: list.splits)
  with Nil show ?thesis by simp
qed

lemma demo_begin:
  "begin_attempt demo_attempt_client demo_execution \<lparr>rl_log = [], rl_world = 0\<rparr> =
     (Inr (\<lparr>si_specification = ''spec'', si_lease = 60, si_termination = 10\<rparr>, demo_grid_spec, new_PosixProcess),
      \<lparr>rl_log = [Claimed (Inr \<lparr>si_specification = ''spec'', si_lease = 60, si_termination = 10\<rparr>), Spawned (Inr new_PosixProcess)],
       rl_world = 0\<rparr>)"
proof -
  have decoded: "decode_spec (reparsed (encode_spec demo_grid_spec)) = Inr demo_grid_spec"
    using demo_grid_spec_ok by (intro decode_encode_spec) auto
  show ?thesis
    by (simp add: begin_attempt_def demo_attempt_client_def demo_execution_def then_io_def noted_def pure_def decoded
        demo_process near_expiry_def new_LeaseGuard_def)
qed

theorem completions_are_reported_last_witness:
  "\<exists>s' status sent. run_attempt demo_attempt_client demo_execution \<lparr>rl_log = [], rl_world = 0\<rparr> = Some (Inr status, s') \<and>
     length (rl_log s') = 8 \<and> last (rl_log s') = Completed 143 ''STOP_REQUESTED'' 2 (Inr ()) \<and>
     supervise_process 1800000 10 [] (rx_iterations demo_execution) new_PosixProcess = Some (Inr status, ''STOP_REQUESTED'', sent) \<and>
     SIGKILL \<in> set sent \<and> SIGTERM \<in> set sent"
proof -
  have sup: "supervise_process 1800000 10 [] (rx_iterations demo_execution) new_PosixProcess =
      Some (Inr 0, ''STOP_REQUESTED'', [SIGTERM, SIGKILL])"
    by code_simp
  define evs where "evs = [Claimed (Inr \<lparr>si_specification = ''spec'', si_lease = 60, si_termination = 10\<rparr>), Spawned (Inr new_PosixProcess),
      Finalizing (Inr ()), Flushed (Inr 2), Uploaded ''model'' (Inr ()), Uploaded ''_runyard/stdout.log'' (Inr ()),
      Uploaded ''_runyard/stderr.log'' (Inr ()), Completed 143 ''STOP_REQUESTED'' 2 (Inr ())]"
  have limit: "rx_sent demo_execution + spec_timeout_seconds demo_grid_spec * 1000 = 1800000"
    by (simp add: demo_execution_def demo_grid_spec_def demo_spec_def)
  have finished: "finish_attempt demo_attempt_client demo_execution 0 ''STOP_REQUESTED''
      \<lparr>rl_log = take 2 evs, rl_world = 0\<rparr> = (Inr 0, \<lparr>rl_log = evs, rl_world = 3\<rparr>)"
    by (simp add: finish_attempt_def demo_attempt_client_def demo_execution_def then_io_def noted_def pure_def evs_def
        near_expiry_def new_LeaseGuard_def upload_file_def completion_code_def starts_with_def)
  have run: "run_attempt demo_attempt_client demo_execution \<lparr>rl_log = [], rl_world = 0\<rparr> = Some (Inr 0, \<lparr>rl_log = evs, rl_world = 3\<rparr>)"
    using finished by (simp add: run_attempt_def demo_begin limit sup evs_def)
  have "\<exists>spec status sent. andthen (rx_parse demo_execution ''spec'') decode_spec = Inr spec \<and>
      supervise_process (rx_sent demo_execution + spec_timeout_seconds spec * 1000) 10 [] (rx_iterations demo_execution) new_PosixProcess =
        Some (Inr status, ''STOP_REQUESTED'', sent) \<and> SIGKILL \<in> set sent \<and> SIGTERM \<in> set sent"
    using completions_are_reported_last[OF run, of evs 143 "''STOP_REQUESTED''" 2 "Inr ()"] by (auto simp: evs_def)
  moreover have "andthen (rx_parse demo_execution ''spec'') decode_spec = Inr demo_grid_spec"
    using decode_encode_spec[OF demo_grid_spec_ok(1,2)] demo_grid_spec_ok(3) by (auto simp: demo_execution_def)
  ultimately show ?thesis using run sup limit by (auto simp: evs_def)
qed

end
