(* ===== verification/Attempt_Calls.thy ===== *)
theory Attempt_Calls
  imports Runner_Attempt Store_Properties
begin

text \<open>
  The calls of \<^verbatim>\<open>src/runner/client.cpp\<close> against the handlers of \<open>Rpc\<close>, over a network that loses requests
  and answers, and the run of an attempt with this client: what the coordinator has recorded when the
  runner is done.
\<close>

section \<open>Calls over a network\<close>

text \<open>
  A call is lost before the coordinator sees it, or its answer is lost (in time, or after the deadline), or
  it is answered. Before each call other clients may have committed transactions.
\<close>

datatype call_fate = Undelivered bool string | Unanswered bool string | Replied

record Line =
  li_hmac :: "string \<Rightarrow> string \<Rightarrow> byte list"
  li_config :: ServerConfig
  li_fate :: "nat \<Rightarrow> call_fate"
  li_env :: "nat \<Rightarrow> env"
  li_ready :: "nat \<Rightarrow> bool"
  li_cancelled :: "nat \<Rightarrow> bool"
  li_others :: "nat \<Rightarrow> db \<Rightarrow> db"

record Calls =
  ca_db :: db
  ca_made :: nat

definition lost_status :: "bool \<Rightarrow> string \<Rightarrow> status" where
  "lost_status late m = (if late then DEADLINE_EXCEEDED else UNAVAILABLE, m)"

text \<open>\<open>prepare\<close>, the call of the stub, and \<open>check_rpc\<close>.\<close>

definition stub_call :: "Line \<Rightarrow> string \<Rightarrow> AttemptRequest \<Rightarrow> (AttemptReply, Calls) io" where
  "stub_call li token request s =
     (let n = ca_made s; db = li_others li n (ca_db s); s1 = s\<lparr>ca_db := db, ca_made := Suc n\<rparr>;
          ran = attempt_rpc (li_hmac li) (li_config li) (li_env li n)
            \<lparr>sc_authorization = Some (''Bearer '' @ token), sc_cancelled = li_cancelled li n\<rparr> (li_ready li n) request db;
          s2 = s1\<lparr>ca_db := snd (snd ran)\<rparr>
      in case li_fate li n of
           Undelivered late m \<Rightarrow> (andthen (check_rpc (lost_status late m)) (\<lambda>_. Inr Done), s1)
         | Unanswered late m \<Rightarrow> (andthen (check_rpc (lost_status late m)) (\<lambda>_. Inr Done), s2)
         | Replied \<Rightarrow> (andthen (check_rpc (fst ran)) (\<lambda>_. Inr (case fst (snd ran) of None \<Rightarrow> Done | Some reply \<Rightarrow> reply)), s2))"

section \<open>The client\<close>

definition attempt_start :: "Line \<Rightarrow> string \<Rightarrow> Owner \<Rightarrow> (AttemptReply, Calls) io" where
  "attempt_start li token own = retry_transfer (stub_call li token (Start own))"

definition attempt_heartbeat :: "Line \<Rightarrow> string \<Rightarrow> Owner \<Rightarrow> (int, Calls) io" where
  "attempt_heartbeat li token own =
     then_io (stub_call li token (Heartbeat own)) (\<lambda>reply. pure (Inr (case reply of Lease n \<Rightarrow> n | _ \<Rightarrow> 0)))"

definition attempt_begin :: "Line \<Rightarrow> string \<Rightarrow> Owner \<Rightarrow> (unit, Calls) io" where
  "attempt_begin li token own =
     then_io (retry_transfer (stub_call li token (BeginFinalization own))) (\<lambda>_. pure (Inr ()))"

definition attempt_complete :: "Line \<Rightarrow> string \<Rightarrow> Owner \<Rightarrow> int \<Rightarrow> string \<Rightarrow> int \<Rightarrow> (unit, Calls) io" where
  "attempt_complete li token own code reason sequence =
     then_io (retry_transfer (stub_call li token (Complete own code reason sequence))) (\<lambda>_. pure (Inr ()))"

definition attempt_report :: "Line \<Rightarrow> string \<Rightarrow> Owner \<Rightarrow> Telemetry list \<Rightarrow> (int, Calls) io" where
  "attempt_report li token own records =
     then_io (stub_call li token (Report own records)) (\<lambda>reply. pure (Inr (case reply of Ack n \<Rightarrow> n | _ \<Rightarrow> 0)))"

text \<open>
  The client of a run. \<open>print\<close> stands for the text of a specification, \<open>send_rest\<close> for what the reporter's
  threads do with \<open>attempt_report\<close>, and \<open>upload\<close> for the streamed calls of \<open>upload_once\<close>.
\<close>

definition attempt_client ::
    "Line \<Rightarrow> string \<Rightarrow> Owner \<Rightarrow> (RunSpec \<Rightarrow> string) \<Rightarrow> (int, Calls) io \<Rightarrow> (string \<Rightarrow> (unit, Calls) io) \<Rightarrow> Calls AttemptClient" where
  "attempt_client li token own print send_rest upload =
     \<lparr>rc_start = then_io (attempt_start li token own) (\<lambda>reply. pure (Inr
        (case reply of
           StartReply spec lease beat termination finalization \<Rightarrow>
             \<lparr>si_specification = print spec, si_lease = lease, si_termination = termination\<rparr>
         | _ \<Rightarrow> \<lparr>si_specification = [], si_lease = 0, si_termination = 0\<rparr>))),
      rc_begin = attempt_begin li token own, rc_flush = send_rest, rc_upload = upload,
      rc_complete = attempt_complete li token own\<rparr>"

section \<open>What is recorded\<close>

lemma finish_recorded:
  assumes "finish timing e aid g inst code reason fin db = Inr (u, db')"
  shows "\<exists>a. attempt_row db' aid = Some a \<and> a_exit_code a = Some code \<and> text_of (a_instance_id a) = inst \<and>
    (a_status a = ''SUCCEEDED'' \<or> a_status a = ''FAILED'')"
proof (cases "db' = db")
  case True
  from assms obtain la where la: "lock_attempt (clk e 0) aid db = Inr la" by (cases "lock_attempt (clk e 0) aid db") (auto simp: finish_def)
  then obtain a r where a: "attempt_row db aid = Some a" "run_row db (a_run_id a) = Some r" "la = locked (clk e 0) a r"
    by (auto simp: lock_attempt_ok)
  show ?thesis
  proof (cases "text_of (a_instance_id a) = inst \<and> a_exit_code a = Some code \<and> (a_status a = ''SUCCEEDED'' \<or> a_status a = ''FAILED'')")
    case dup: True
    with a True show ?thesis by auto
  next
    case no: False
    have failed: "\<exists>x. events db2 = events db @ [x]" if "fail timing t la' f reason' code' db = Inr db2" for t la' f reason' code' db2
      using that by (auto simp: fail_def event_ok Let_def)
    obtain la' where "owned (clk e 1) aid g inst db = Inr la'"
      using assms la a no by (cases "owned (clk e 1) aid g inst db") (auto simp: finish_def split: if_splits)
    then have "\<exists>x. events db' = events db @ [x]"
      using assms la a no by (auto simp: finish_def event_ok Let_def split: if_splits sum.splits dest: failed)
    with True show ?thesis by simp
  qed
next
  case False
  with assms show ?thesis
  proof (cases rule: finish_cases)
    case (success a r)
    then show ?thesis by (auto simp: event_ok row_simps owns_def)
  next
    case (failure a r f reason')
    with fail_rows[OF failure(1,2,6)] show ?thesis by (auto simp: owns_def)
  qed simp
qed

lemma retry_last: "retry_loop operation n s = (Inr v, s') \<Longrightarrow> \<exists>s1. operation s1 = (Inr v, s')"
proof (induction n arbitrary: s)
  case 0
  then show ?case by (cases "operation s" rule: prod.exhaust) (auto split: sum.splits if_splits)
next
  case (Suc n)
  then show ?case
    by (subst (asm) retry_loop.simps) (auto split: sum.splits if_splits prod.splits)
qed

lemma exception_status_bad: "fst (exception_status ex) \<noteq> OK"
  by (cases ex rule: exception_status.cases; simp) (metis StatusCode.distinct error_status.simps ErrorCode.exhaust)

lemma stub_call_ok:
  assumes "stub_call li token request s = (Inr reply, s')"
  shows "\<exists>e db. attempt_work (li_config li) e request db = Inr (reply, ca_db s')"
  using assms exception_status_bad
  by (auto 0 4 simp: stub_call_def Let_def lost_status_def check_rpc_def attempt_rpc_def protect_def
      split: call_fate.splits sum.splits if_splits)

text \<open>
  C12. What a runner reports is what the coordinator has. When a run of the runner reports its completion and
  the call succeeds, over a network that may have lost any of the requests or answers before, with other
  clients at work, then at this moment the database records this runner's instance with exactly this exit
  code, and the attempt is over: the completion was neither lost, nor taken for that of another runner.
\<close>

theorem reported_completions_are_recorded:
  assumes "run_attempt (attempt_client li token own print send_rest upload) x s = Some (r, s')"
    and "rl_log s' = rl_log s @ evs" and "Completed code reason sequence (Inr ()) \<in> set evs"
  shows "\<exists>a. attempt_row (ca_db (rl_world s')) (ow_attempt_id own) = Some a \<and> a_exit_code a = Some code \<and>
    text_of (a_instance_id a) = ow_instance_id own \<and> (a_status a = ''SUCCEEDED'' \<or> a_status a = ''FAILED'')"
proof -
  from completed_world[OF assms] obtain w where
    "attempt_complete li token own code reason sequence w = (Inr (), rl_world s')" by (auto simp: attempt_client_def)
  then obtain reply where "retry_transfer (stub_call li token (Complete own code reason sequence)) w = (Inr reply, rl_world s')"
    by (auto simp: attempt_complete_def then_io_ok)
  then obtain w1 where "stub_call li token (Complete own code reason sequence) w1 = (Inr reply, rl_world s')"
    unfolding retry_transfer_def by (elim retry_last[THEN exE])
  then obtain e db where "attempt_work (li_config li) e (Complete own code reason sequence) db = Inr (reply, ca_db (rl_world s'))"
    by (auto dest: stub_call_ok)
  then obtain u where "finish (cf_timing (li_config li)) e (ow_attempt_id own) (ow_generation own) (ow_instance_id own) code reason
      sequence db = Inr (u, ca_db (rl_world s'))" by (auto split: sum.splits)
  then show ?thesis by (rule finish_recorded)
qed

section \<open>A run\<close>

text \<open>The answer to the first completion is lost after the deadline.\<close>

definition demo_line :: Line where
  "demo_line = \<lparr>li_hmac = demo_hmac, li_config = demo_config,
     li_fate = (\<lambda>n. if n = 2 then Unanswered True ''Deadline Exceeded'' else Replied),
     li_env = (\<lambda>n. demo_env (500 + 200 * int n) ''-''), li_ready = (\<lambda>n. True), li_cancelled = (\<lambda>n. False),
     li_others = (\<lambda>n db. if n = 0 then demo_assigned else if n = 1 then demo_reported else db)\<rparr>"

abbreviation demo_capability :: string where
  "demo_capability \<equiv> attempt_capability demo_hmac ''key'' ''a'' 1"

definition demo_recorded :: db where
  "demo_recorded = committed (finish default_Timing (demo_env 900 ''-'') ''a'' 1 ''i'' 143 ''STOP_REQUESTED'' 2 demo_collecting) demo_collecting"

lemma demo_served: "attempt_work demo_config (demo_env (500 + 200 * int n) ''-'') request db = Inr (reply, db') \<Longrightarrow>
    request_owner request = demo_owner \<Longrightarrow>
    attempt_rpc demo_hmac demo_config (demo_env (500 + 200 * int n) ''-'')
      \<lparr>sc_authorization = Some (''Bearer '' @ demo_capability), sc_cancelled = False\<rparr> True request db = ((OK, []), Some reply, db')"
proof -
  have "demo_capability \<noteq> []"
    by (simp add: attempt_capability_def sign_def demo_hmac_def attempt_message_def hex_def hex_pair_def)
  then show "attempt_work demo_config (demo_env (500 + 200 * int n) ''-'') request db = Inr (reply, db') \<Longrightarrow>
      request_owner request = demo_owner \<Longrightarrow> ?thesis"
    by (simp add: attempt_rpc_def attempt_authorize_def authenticate_def demo_owner_def demo_config_def protect_def)
qed

lemma demo_work:
  "\<exists>spec. attempt_work demo_config (demo_env 500 ''-'') (Start demo_owner) demo_assigned = Inr (StartReply spec 30 5 10 300, demo_started)"
  "attempt_work demo_config (demo_env 700 ''-'') (BeginFinalization demo_owner) demo_reported = Inr (Done, demo_collecting)"
  "attempt_work demo_config (demo_env 900 ''-'') (Complete demo_owner 143 ''STOP_REQUESTED'' 2) demo_collecting = Inr (Done, demo_recorded)"
  "attempt_work demo_config (demo_env 1100 ''-'') (Complete demo_owner 143 ''STOP_REQUESTED'' 2) demo_recorded = Inr (Done, demo_recorded)"
proof -
  note defs = demo_config_def demo_owner_def Let_def demo_all
  show "\<exists>spec. attempt_work demo_config (demo_env 500 ''-'') (Start demo_owner) demo_assigned = Inr (StartReply spec 30 5 10 300, demo_started)"
    by (simp add: start_def terminal_def node_name_chars_def default_Timing_def defs)
  show "attempt_work demo_config (demo_env 700 ''-'') (BeginFinalization demo_owner) demo_reported = Inr (Done, demo_collecting)"
    by (simp add: begin_finalization_def defs)
  show first: "attempt_work demo_config (demo_env 900 ''-'') (Complete demo_owner 143 ''STOP_REQUESTED'' 2) demo_collecting = Inr (Done, demo_recorded)"
    by (simp add: finish_def fail_def should_retry_def demo_recorded_def committed_def defs)
  show "attempt_work demo_config (demo_env 1100 ''-'') (Complete demo_owner 143 ''STOP_REQUESTED'' 2) demo_recorded = Inr (Done, demo_recorded)"
    by (simp add: finish_def fail_def should_retry_def demo_recorded_def committed_def defs)
qed

definition demo_remote :: "Calls AttemptClient" where
  "demo_remote = attempt_client demo_line demo_capability demo_owner (\<lambda>spec. ''spec'') (pure (Inr 2)) (\<lambda>relative. pure (Inr ()))"

lemma demo_stub:
  "attempt_work demo_config (demo_env (500 + 200 * int n) ''-'') request (li_others demo_line n db) = Inr (reply, db') \<Longrightarrow>
   request_owner request = demo_owner \<Longrightarrow> n \<noteq> 2 \<Longrightarrow>
   stub_call demo_line demo_capability request \<lparr>ca_db = db, ca_made = n\<rparr> = (Inr reply, \<lparr>ca_db = db', ca_made = Suc n\<rparr>)"
  using demo_served[of n request "li_others demo_line n db" reply db']
  by (simp add: stub_call_def demo_line_def check_rpc_def Let_def)

lemma demo_lost:
  "attempt_work demo_config (demo_env 900 ''-'') request db = Inr (reply, db') \<Longrightarrow> request_owner request = demo_owner \<Longrightarrow>
   stub_call demo_line demo_capability request \<lparr>ca_db = db, ca_made = 2\<rparr> =
     (throw unavailable ''Deadline Exceeded'', \<lparr>ca_db = db', ca_made = 3\<rparr>)"
  using demo_served[of 2 request db reply db']
  by (simp add: stub_call_def demo_line_def check_rpc_def lost_status_def Let_def)

lemma demo_remote_calls:
  "rc_start demo_remote \<lparr>ca_db = empty_db, ca_made = 0\<rparr> =
     (Inr \<lparr>si_specification = ''spec'', si_lease = 30, si_termination = 10\<rparr>, \<lparr>ca_db = demo_started, ca_made = 1\<rparr>)"
  "rc_begin demo_remote \<lparr>ca_db = demo_started, ca_made = 1\<rparr> = (Inr (), \<lparr>ca_db = demo_collecting, ca_made = 2\<rparr>)"
  "rc_complete demo_remote 143 ''STOP_REQUESTED'' 2 \<lparr>ca_db = demo_collecting, ca_made = 2\<rparr> = (Inr (), \<lparr>ca_db = demo_recorded, ca_made = 4\<rparr>)"
proof -
  obtain spec where start: "attempt_work demo_config (demo_env 500 ''-'') (Start demo_owner) demo_assigned =
      Inr (StartReply spec 30 5 10 300, demo_started)" using demo_work(1) by blast
  have "stub_call demo_line demo_capability (Start demo_owner) \<lparr>ca_db = empty_db, ca_made = 0\<rparr> =
      (Inr (StartReply spec 30 5 10 300), \<lparr>ca_db = demo_started, ca_made = 1\<rparr>)"
    using demo_stub[of 0 "Start demo_owner" empty_db] start by (simp add: demo_line_def)
  then show "rc_start demo_remote \<lparr>ca_db = empty_db, ca_made = 0\<rparr> =
     (Inr \<lparr>si_specification = ''spec'', si_lease = 30, si_termination = 10\<rparr>, \<lparr>ca_db = demo_started, ca_made = 1\<rparr>)"
    by (simp add: demo_remote_def attempt_client_def attempt_start_def retry_transfer_def then_io_def pure_def)
  have "stub_call demo_line demo_capability (BeginFinalization demo_owner) \<lparr>ca_db = demo_started, ca_made = 1\<rparr> =
      (Inr Done, \<lparr>ca_db = demo_collecting, ca_made = 2\<rparr>)"
    using demo_stub[of 1 "BeginFinalization demo_owner" demo_started] demo_work(2) by (simp add: demo_line_def)
  then show "rc_begin demo_remote \<lparr>ca_db = demo_started, ca_made = 1\<rparr> = (Inr (), \<lparr>ca_db = demo_collecting, ca_made = 2\<rparr>)"
    by (simp add: demo_remote_def attempt_client_def attempt_begin_def retry_transfer_def then_io_def pure_def)
  have one: "stub_call demo_line demo_capability (Complete demo_owner 143 ''STOP_REQUESTED'' 2) \<lparr>ca_db = demo_collecting, ca_made = 2\<rparr> =
      (throw unavailable ''Deadline Exceeded'', \<lparr>ca_db = demo_recorded, ca_made = 3\<rparr>)"
    using demo_lost[OF demo_work(3)] by simp
  have two: "stub_call demo_line demo_capability (Complete demo_owner 143 ''STOP_REQUESTED'' 2) \<lparr>ca_db = demo_recorded, ca_made = 3\<rparr> =
      (Inr Done, \<lparr>ca_db = demo_recorded, ca_made = 4\<rparr>)"
    using demo_stub[of 3 "Complete demo_owner 143 ''STOP_REQUESTED'' 2" demo_recorded] demo_work(4) by (simp add: demo_line_def)
  show "rc_complete demo_remote 143 ''STOP_REQUESTED'' 2 \<lparr>ca_db = demo_collecting, ca_made = 2\<rparr> = (Inr (), \<lparr>ca_db = demo_recorded, ca_made = 4\<rparr>)"
    using one two
    by (simp add: demo_remote_def attempt_client_def attempt_complete_def retry_transfer_def then_io_def pure_def numeral_2_eq_2)
qed

theorem reported_completions_are_recorded_witness:
  "\<exists>s' a. run_attempt demo_remote demo_execution \<lparr>rl_log = [], rl_world = \<lparr>ca_db = empty_db, ca_made = 0\<rparr>\<rparr> = Some (Inr 0, s') \<and>
     ca_made (rl_world s') = 4 \<and>
     attempt_row (ca_db (rl_world s')) ''a'' = Some a \<and> a_exit_code a = Some 143 \<and> text_of (a_instance_id a) = ''i''"
proof -
  let ?start = "\<lparr>si_specification = ''spec'', si_lease = 30, si_termination = 10\<rparr>"
  have decoded: "decode_spec (reparsed (encode_spec demo_grid_spec)) = Inr demo_grid_spec"
    using demo_grid_spec_ok by (intro decode_encode_spec) auto
  have b: "begin_attempt demo_remote demo_execution \<lparr>rl_log = [], rl_world = \<lparr>ca_db = empty_db, ca_made = 0\<rparr>\<rparr> =
      (Inr (?start, demo_grid_spec, new_PosixProcess),
       \<lparr>rl_log = [Claimed (Inr ?start), Spawned (Inr new_PosixProcess)], rl_world = \<lparr>ca_db = demo_started, ca_made = 1\<rparr>\<rparr>)"
    by (simp add: begin_attempt_def demo_remote_calls demo_execution_def then_io_def noted_def pure_def decoded
        demo_process near_expiry_def new_LeaseGuard_def)
  have sup: "supervise_process 1800000 10 [] (rx_iterations demo_execution) new_PosixProcess =
      Some (Inr 0, ''STOP_REQUESTED'', [SIGTERM, SIGKILL])"
    by code_simp
  have limit: "rx_sent demo_execution + spec_timeout_seconds demo_grid_spec * 1000 = 1800000"
    by (simp add: demo_execution_def demo_grid_spec_def demo_spec_def)
  define evs where "evs = [Claimed (Inr ?start), Spawned (Inr new_PosixProcess),
      Finalizing (Inr ()), Flushed (Inr 2), Uploaded ''model'' (Inr ()), Uploaded ''_runyard/stdout.log'' (Inr ()),
      Uploaded ''_runyard/stderr.log'' (Inr ()), Completed 143 ''STOP_REQUESTED'' 2 (Inr ())]"
  have others: "rc_flush demo_remote = pure (Inr 2)" "rc_upload demo_remote relative = pure (Inr ())" for relative
    by (simp_all add: demo_remote_def attempt_client_def)
  have "finish_attempt demo_remote demo_execution 0 ''STOP_REQUESTED''
      \<lparr>rl_log = take 2 evs, rl_world = \<lparr>ca_db = demo_started, ca_made = 1\<rparr>\<rparr> = (Inr 0, \<lparr>rl_log = evs, rl_world = \<lparr>ca_db = demo_recorded, ca_made = 4\<rparr>\<rparr>)"
    by (simp add: finish_attempt_def demo_remote_calls[unfolded One_nat_def] others demo_execution_def then_io_def noted_def pure_def evs_def
        near_expiry_def new_LeaseGuard_def upload_file_def completion_code_def starts_with_def)
  then have run: "run_attempt demo_remote demo_execution \<lparr>rl_log = [], rl_world = \<lparr>ca_db = empty_db, ca_made = 0\<rparr>\<rparr> =
      Some (Inr 0, \<lparr>rl_log = evs, rl_world = \<lparr>ca_db = demo_recorded, ca_made = 4\<rparr>\<rparr>)"
    by (simp add: run_attempt_def b limit sup evs_def)
  have "\<exists>a. attempt_row demo_recorded (ow_attempt_id demo_owner) = Some a \<and> a_exit_code a = Some 143 \<and>
      text_of (a_instance_id a) = ow_instance_id demo_owner"
    using reported_completions_are_recorded[OF run[unfolded demo_remote_def], of evs 143 "''STOP_REQUESTED''" 2]
    by (auto simp: evs_def)
  with run show ?thesis by (auto simp: demo_owner_def)
qed

end
