(* ===== verification/S3_Storage.thy ===== *)
theory S3_Storage
  imports Artifact_Service
begin

text \<open>
  \<^verbatim>\<open>src/storage/s3.cpp\<close>: artifact contents in a bucket of S3. The objects of the bucket stand in the same
  map as the local files, under names that begin with \<open>s3://\<close> and the bucket. What the service and the
  file system answer is an argument. Of the service the model states what it documents: an upload that
  succeeds has stored the whole object, one that fails has stored all of it or nothing, and a download that
  succeeds has written the whole object to the response stream.
\<close>

section \<open>The client\<close>

record S3Config =
  s3_bucket :: string
  s3_region :: string
  s3_endpoint :: string
  s3_development :: bool

record S3Client =
  sk_bucket :: string
  sk_region :: string
  sk_connect_millis :: int
  sk_request_millis :: int
  sk_connections :: int
  sk_endpoint :: "string option"
  sk_virtual_addressing :: bool

definition s3_client :: "S3Config \<Rightarrow> S3Client result" where
  "s3_client config =
     (if s3_bucket config = [] then throw invalid ''S3 bucket is required''
      else if \<not> s3_development config \<and> starts_with (s3_endpoint config) ''http://''
      then throw invalid ''plaintext S3 endpoints require development profile''
      else Inr \<lparr>sk_bucket = s3_bucket config, sk_region = s3_region config, sk_connect_millis = 3000,
        sk_request_millis = 30000, sk_connections = 8,
        sk_endpoint = (if s3_endpoint config \<noteq> [] then Some (s3_endpoint config) else None),
        sk_virtual_addressing = (s3_endpoint config = [])\<rparr>)"

section \<open>Objects\<close>

text \<open>A failed upload has an exception's name, and may have taken effect; a failed download may have written.\<close>

datatype put_answer = Stored | PutFailed string bool

datatype get_answer = Fetched | GetFailed string "string option"

record s3_calls =
  sx_opened :: bool
  sx_no_size :: bool
  sx_put :: put_answer
  sx_no_directory :: bool
  sx_get :: get_answer
  sx_written :: bool
  sx_partial :: string
  sx_no_rename :: bool
  sx_no_cleanup :: bool
  sx_random :: "nat \<Rightarrow> byte"

definition s3_path :: "string \<Rightarrow> string \<Rightarrow> string" where
  "s3_path bucket = object_path (''s3://'' @ bucket)"

definition s3_put :: "string \<Rightarrow> s3_calls \<Rightarrow> string \<Rightarrow> string \<Rightarrow> disk \<Rightarrow> unit result \<times> disk" where
  "s3_put bucket io key source d =
     (case validate_relative_path key of
        Inl ex \<Rightarrow> (Inl ex, d)
      | Inr _ \<Rightarrow>
        (case d source of
           None \<Rightarrow> (throw invalid ''cannot open artifact source'', d)
         | Some content \<Rightarrow>
           (if \<not> sx_opened io then (throw invalid ''cannot open artifact source'', d)
            else if sx_no_size io then (Inl (StdError ''file_size''), d)
            else let stored = d(s3_path bucket key \<mapsto> content) in
              case sx_put io of
                Stored \<Rightarrow> (Inr (), stored)
              | PutFailed name took_effect \<Rightarrow>
                  (throw unavailable (''S3 upload failed: '' @ name), if took_effect then stored else d))))"

definition s3_temporary :: "s3_calls \<Rightarrow> string \<Rightarrow> string" where
  "s3_temporary io destination = destination @ ''.partial-'' @ random_id (sx_random io)"

text \<open>A missing object is answered with \<open>NoSuchKey\<close>.\<close>

definition s3_get :: "string \<Rightarrow> s3_calls \<Rightarrow> string \<Rightarrow> string \<Rightarrow> disk \<Rightarrow> unit result \<times> disk" where
  "s3_get bucket io key destination d =
     (case validate_relative_path key of
        Inl ex \<Rightarrow> (Inl ex, d)
      | Inr _ \<Rightarrow>
        (if CHR ''/'' \<in> set destination \<and> sx_no_directory io then (Inl (StdError ''create_directories''), d)
         else let temporary = s3_temporary io destination;
                  failed = (\<lambda>ex d. (Inl ex, if sx_no_cleanup io then d else d(temporary := None)))
         in case sx_get io of
              GetFailed name written \<Rightarrow>
                failed (Error unavailable (''S3 download failed: '' @ name))
                  (case written of None \<Rightarrow> d | Some c \<Rightarrow> d(temporary \<mapsto> c))
            | Fetched \<Rightarrow>
                (case d (s3_path bucket key) of
                   None \<Rightarrow> failed (Error unavailable (''S3 download failed: NoSuchKey'')) d
                 | Some content \<Rightarrow>
                   (if \<not> sx_written io
                    then failed (Error unavailable ''S3 download write failed'') (d(temporary \<mapsto> sx_partial io))
                    else if sx_no_rename io then failed (StdError ''rename'') (d(temporary \<mapsto> content))
                    else (Inr (), d(temporary := None, destination \<mapsto> content))))))"

section \<open>The interface\<close>

lemma s3_put_cases:
  assumes "s3_put bucket io key source d = (res, d')"
  shows "d' = d \<and> res \<noteq> Inr () \<or> (\<exists>c. d source = Some c \<and> d' = d(s3_path bucket key \<mapsto> c))"
  using assms by (auto simp: s3_put_def Let_def split: sum.splits option.splits if_splits put_answer.splits)

lemma s3_get_frame:
  assumes "s3_get bucket io key destination d = (res, d')"
  shows "p = s3_temporary io destination \<or> d' p = d p \<or> (p = destination \<and> d' p = d (s3_path bucket key))"
  using assms by (auto simp: s3_get_def Let_def split: sum.splits option.splits if_splits get_answer.splits)

lemma s3_get_ok:
  assumes "s3_get bucket io key destination d = (Inr (), d')"
  shows "\<exists>c. d (s3_path bucket key) = Some c \<and> d' destination = Some c"
  using assms by (auto simp: s3_get_def Let_def split: sum.splits option.splits if_splits get_answer.splits)

lemma not_final_partial: "\<not> final_key (s3_temporary io k)"
proof -
  let ?r = "random_id (sx_random io)"
  have "drop (length (s3_temporary io k) - 64) (s3_temporary io k) =
      drop (length (s3_temporary io k) - 64) k @ ''.partial-'' @ ?r"
    by (simp add: s3_temporary_def length_random_id)
  then show ?thesis
    by (simp add: final_key_def is_lower_hex_def is_digit_def char_between_def less_eq_char_def)
qed

definition in_bucket :: "string \<Rightarrow> string \<Rightarrow> bool" where
  "in_bucket bucket = in_objects (''s3://'' @ bucket)"

interpretation s3: blob_store "s3_put bucket" "s3_get bucket" "\<lambda>d k. d (s3_path bucket k)" "\<lambda>p. \<not> in_bucket bucket p" for bucket
proof
  have other: "\<not> in_bucket bucket p \<Longrightarrow> p \<noteq> s3_path bucket k" for p k
    by (auto simp: in_bucket_def in_objects_def s3_path_def)
  have same: "s3_path bucket k = s3_path bucket key \<Longrightarrow> k = key" for k key
    by (simp add: s3_path_def object_path_def)
  fix io key source d d' res k p destination c
  show "\<exists>c. d source = Some c \<and> d' (s3_path bucket key) = Some c" if "s3_put bucket io key source d = (Inr (), d')"
    using s3_put_cases[OF that] by auto
  show "d' (s3_path bucket k) = d (s3_path bucket k) \<or> k = key \<and> d' (s3_path bucket k) = d source"
    if "s3_put bucket io key source d = (res, d')"
    using s3_put_cases[OF that] same[of k key] by (auto split: if_splits)
  show "d' p = d p" if "s3_put bucket io key source d = (res, d')" "\<not> in_bucket bucket p"
    using s3_put_cases[OF that(1)] other[OF that(2)] by auto
  show "\<exists>c. d (s3_path bucket key) = Some c \<and> d' destination = Some c" if "s3_get bucket io key destination d = (Inr (), d')"
    using that by (rule s3_get_ok)
  show "d' (s3_path bucket k) = d (s3_path bucket k)"
    if "s3_get bucket io key destination d = (res, d')" "\<not> in_bucket bucket destination" "final_key k"
    using s3_get_frame[OF that(1), of "s3_path bucket k"] other[OF that(2)] final_object[OF that(3), of "''s3://'' @ bucket"]
      not_final_partial[of io destination]
    by (auto simp: s3_path_def)
  show "d' p = d p" if "s3_get bucket io key destination d = (res, d')" "length p < length destination"
    using s3_get_frame[OF that(1), of p] that(2) by (auto simp: s3_temporary_def)
  show "(d(p := c)) (s3_path bucket k) = d (s3_path bucket k)" if "\<not> in_bucket bucket p"
    using other[OF that, of k] by auto
qed

section \<open>Properties\<close>

abbreviation serving_s3 where
  "serving_s3 digest bucket timing d db \<equiv> reach (artifact_init d db)
     (artifact_step digest (s3_put bucket) (s3_get bucket) (\<lambda>p. \<not> in_bucket bucket p) timing)"

text \<open>
  C23. The service keeps its promises over S3. Whatever uploads, publications and downloads happened, with
  uploads that failed and still took effect, and downloads that broke off: every artifact of the database
  has an object in the bucket with the recorded digest, and every download that succeeds has put a file
  with the recorded digest at the returned path.
\<close>

theorem s3_keeps_published_contents:
  assumes "serving_s3 digest bucket timing d db s" and "artifacts db = []" and "\<And>x. length (digest x) = 32"
  shows "(\<forall>f\<in>set (artifacts (as_db s)). \<exists>c. as_disk s (s3_path bucket (f_storage_key f)) = Some c \<and> sha256 digest c = f_sha256 f) \<and>
    (\<forall>io io' cache aid a path d'. get_artifact aid (as_db s) = Inr a \<longrightarrow>
      download digest (s3_get bucket) io io' cache aid (as_db s) (as_disk s) = (Inr path, d') \<longrightarrow>
      (\<exists>c. d' path = Some c \<and> sha256 digest c = art_sha256 a))"
proof (intro conjI allI impI ballI)
  fix f assume "f \<in> set (artifacts (as_db s))"
  then show "\<exists>c. as_disk s (s3_path bucket (f_storage_key f)) = Some c \<and> sha256 digest c = f_sha256 f"
    using s3.published_kept[OF assms] by (auto simp: artifact_inv_def kept_def)
next
  fix io io' cache aid a path d'
  assume "get_artifact aid (as_db s) = Inr a"
    and "download digest (s3_get bucket) io io' cache aid (as_db s) (as_disk s) = (Inr path, d')"
  with s3.download_verified show "\<exists>c. d' path = Some c \<and> sha256 digest c = art_sha256 a" by blast
qed

definition demo_s3 :: s3_calls where
  "demo_s3 = \<lparr>sx_opened = True, sx_no_size = False, sx_put = Stored, sx_no_directory = False, sx_get = Fetched, sx_written = True,
     sx_partial = [], sx_no_rename = False, sx_no_cleanup = False, sx_random = (\<lambda>_. 0)\<rparr>"

definition demo_bucket :: disk where
  "demo_bucket = demo_disk(s3_path ''b'' demo_key \<mapsto> ''x'')"

lemma demo_s3_serving:
  "serving_s3 demo_digest ''b'' default_Timing demo_disk demo_collecting
     \<lparr>as_disk = demo_bucket, as_db = demo_db, as_pending = [demo_upload]\<rparr>"
proof -
  let ?s = "\<lambda>d db p. \<lparr>as_disk = d, as_db = db, as_pending = p\<rparr>"
  let ?go = "artifact_step demo_digest (s3_put ''b'') (s3_get ''b'') (\<lambda>p. \<not> in_bucket ''b'' p) default_Timing"
  note go = artifact_step.intros[where digest = demo_digest and put = "s3_put ''b''" and get = "s3_get ''b''"
      and outside = "\<lambda>p. \<not> in_bucket ''b'' p" and timing = default_Timing]
  have "verify_owner (demo_env 750 ''-'') ''a'' 1 ''i'' demo_collecting = Inr ((), demo_collecting)"
    by (simp add: verify_owner_def demo_all)
  moreover have "validate_relative_path ''out'' = Inr ()" "validate_relative_path demo_key = Inr ()" by code_simp+
  moreover have "artifact_for demo_digest ''a'' ''out'' zeros 1 = demo_upload"
    by (simp add: artifact_for_def demo_upload_def storage_key_def demo_sha256 demo_key_def)
  moreover have "demo_disk ''in'' = Some ''x''" by (simp add: demo_disk_def)
  moreover have "art_storage_key demo_upload = demo_key" by (simp add: demo_upload_def)
  ultimately have "publish_content demo_digest (s3_put ''b'') (demo_env 750 ''-'') demo_s3 ''a'' 1 ''i'' ''out'' zeros ''in''
      demo_collecting demo_disk = (Inr demo_upload, demo_bucket)"
    by (simp add: publish_content_def sha256_file_def demo_sha256 s3_put_def demo_s3_def demo_bucket_def)
  then have first: "?go (?s demo_disk demo_collecting []) (?s demo_bucket demo_collecting [demo_upload])"
    using go(1)[of _ _ _ _ _ _ _ _ "?s demo_disk demo_collecting []"] by fastforce
  have second: "?go (?s demo_bucket demo_collecting [demo_upload]) (?s demo_bucket demo_db [demo_upload])"
    using go(2)[of demo_upload "?s demo_bucket demo_collecting [demo_upload]"] demo_commit by simp
  note then_step = reach.reach_step[where step = ?go]
  show ?thesis
    unfolding artifact_init_def by (rule then_step[OF then_step[OF reach.reach_init first] second])
qed

theorem s3_keeps_published_contents_witness:
  "\<exists>c. demo_bucket (s3_path ''b'' demo_key) = Some c \<and> sha256 demo_digest c = zeros"
proof -
  have "artifacts demo_collecting = []" by (simp add: demo_all)
  moreover have "new_artifact demo_upload \<in> set (artifacts demo_db)" by (simp add: demo_db_def)
  ultimately show ?thesis
    using s3_keeps_published_contents[OF demo_s3_serving, THEN conjunct1]
    by (auto simp: demo_digest_def new_artifact_def demo_upload_def dest!: bspec)
qed

end
