(* ===== verification/Store_Statistics.thy ===== *)
theory Store_Statistics
  imports Complex_Main Store_Data Json
begin

text \<open>
  \<^verbatim>\<open>src/postgres/statistics.cpp\<close>: the aggregate queries of the metrics page. Values are rational numbers
  where the code has a \<open>double\<close>; \<open>percentile_cont\<close> is PostgreSQL's, which interpolates linearly.
\<close>

type_synonym Statistics = "(string, rat) stdmap"

text \<open>Assignments \<open>values[name] = value\<close>, one after the other.\<close>

definition assign_all :: "(string \<times> 'v) list \<Rightarrow> (string, 'v) stdmap \<Rightarrow> (string, 'v) stdmap" where
  "assign_all entries values = foldl (\<lambda>m (k, v). map_put k v m) values entries"

section \<open>Counts and sums\<close>

text \<open>\<open>std::tolower\<close>: a lower case letter has the bit of value 32, the upper case one has not.\<close>

definition lower_char :: "char \<Rightarrow> char" where
  "lower_char ch =
     (if is_upper ch then (case ch of Char b0 b1 b2 b3 b4 b5 b6 b7 \<Rightarrow> Char b0 b1 b2 b3 b4 True b6 b7) else ch)"

definition lower_text :: "string \<Rightarrow> string" where
  "lower_text = map lower_char"

definition run_key :: "string \<Rightarrow> string" where
  "run_key name = ''runs_'' @ lower_text name"

definition state_names :: "string list" where
  "state_names = [''QUEUED'', ''STARTING'', ''RUNNING'', ''FINALIZING'', ''RETRY_WAIT'', ''SUCCEEDED'', ''FAILED'', ''CANCELLED'']"

definition with_status :: "RunStatus \<Rightarrow> db \<Rightarrow> nat" where
  "with_status st db = length (filter (\<lambda>r. r_status r = st) (runs db))"

definition run_statistics :: "db \<Rightarrow> (string \<times> rat) list" where
  "run_statistics db =
     map (\<lambda>name. (run_key name, 0)) state_names @
     map (\<lambda>st. (run_key (to_string st), of_nat (with_status st db))) (remdups (map r_status (runs db)))"

definition attempt_statistics :: "db \<Rightarrow> (string \<times> rat) list" where
  "attempt_statistics db =
     (let count = (\<lambda>P. of_nat (length (filter P (attempts db)))) in
      [(''attempts'', of_nat (length (attempts db))),
       (''retries'', count (\<lambda>a. 1 < a_generation a)),
       (''failures'', count (\<lambda>a. a_status a = ''FAILED'')),
       (''cleanup_pending'', count (\<lambda>a. a_cleanup_status a = ''PENDING'' \<and>
          a_status a \<in> {''FAILED'', ''CANCELLED'', ''SUCCEEDED''}))])"

definition worker_statistics :: "Timing \<Rightarrow> int \<Rightarrow> db \<Rightarrow> (string \<times> rat) list" where
  "worker_statistics timing now db =
     (let ws = filter (\<lambda>w. \<not> w_drained w \<and> worker_available timing now w) (workers db) in
      [(''workers_available'', of_nat (length ws)),
       (''worker_cpu_millis'', of_int (sum_list (map w_cpu_millis ws))),
       (''worker_memory_mib'', of_int (sum_list (map w_memory_mib ws)))])"

text \<open>The runs joined to the attempts that hold resources of workers.\<close>

definition reserving_runs :: "db \<Rightarrow> runs_row list" where
  "reserving_runs db = List.map_filter (\<lambda>a. run_row db (a_run_id a))
     (filter (\<lambda>a. a_cleanup_status a = ''PENDING'' \<and> a_worker_id a \<noteq> ''@kubernetes'') (attempts db))"

definition reserved_statistics :: "db \<Rightarrow> (string \<times> rat) list" where
  "reserved_statistics db =
     [(''reserved_cpu_millis'', of_int (sum_list (map r_cpu_millis (reserving_runs db)))),
      (''reserved_memory_mib'', of_int (sum_list (map r_memory_mib (reserving_runs db))))]"

section \<open>Ages and delays\<close>

definition epoch :: "int \<Rightarrow> rat" where
  "epoch micros = of_int micros / 1000000"

definition oldest :: "int \<Rightarrow> runs_row list \<Rightarrow> rat" where
  "oldest now rs = (case min_option (map r_available_at rs) of None \<Rightarrow> 0 | Some t \<Rightarrow> epoch (now - t))"

definition queue_statistics :: "int \<Rightarrow> int \<Rightarrow> db \<Rightarrow> (string \<times> rat) list" where
  "queue_statistics now now' db =
     (let waiting = filter (\<lambda>r. r_status r = queued) (runs db); gpu = filter (\<lambda>r. 0 < r_gpu_count r) waiting in
      [(''queue_oldest_seconds'', oldest now waiting),
       (''gpu_queued_runs'', of_nat (length gpu)),
       (''gpu_queue_oldest_seconds'', oldest now' gpu)])"

text \<open>\<open>percentile_cont(f) WITHIN GROUP (ORDER BY ...)\<close> without the NULLs, \<open>COALESCE\<close>d with 0.\<close>

definition interpolate :: "rat list \<Rightarrow> rat \<Rightarrow> rat" where
  "interpolate ys x = (let lo = ys ! nat \<lfloor>x\<rfloor>; hi = ys ! nat \<lceil>x\<rceil> in lo + (hi - lo) * (x - of_int \<lfloor>x\<rfloor>))"

definition percentile :: "rat \<Rightarrow> rat list \<Rightarrow> rat" where
  "percentile f xs = (if xs = [] then 0 else interpolate (sort xs) (f * of_nat (length xs - 1)))"

text \<open>The first attempts of the last hour, with their runs.\<close>

definition first_attempts :: "int \<Rightarrow> db \<Rightarrow> (attempts_row \<times> runs_row) list" where
  "first_attempts now db =
     List.map_filter (\<lambda>a. map_option (\<lambda>r. (a, r)) (run_row db (a_run_id a)))
       (filter (\<lambda>a. a_generation a = 1 \<and> a_created_at a > now - seconds 3600) (attempts db))"

definition delay_statistics :: "string \<Rightarrow> rat list \<Rightarrow> (string \<times> rat) list" where
  "delay_statistics name xs =
     [(name @ ''_p50_seconds'', percentile (1 / 2) xs), (name @ ''_p95_seconds'', percentile (19 / 20) xs),
      (name @ ''_p99_seconds'', percentile (99 / 100) xs)]"

definition queue_delays :: "int \<Rightarrow> db \<Rightarrow> rat list" where
  "queue_delays now db = map (\<lambda>(a, r). epoch (a_created_at a - r_created_at r)) (first_attempts now db)"

definition dispatch_delays :: "int \<Rightarrow> db \<Rightarrow> rat list" where
  "dispatch_delays now db =
     List.map_filter (\<lambda>(a, r). map_option (\<lambda>t. epoch (t - a_created_at a)) (a_started_at a)) (first_attempts now db)"

text \<open>The two delays come from a \<open>std::map\<close>, in the order of their names.\<close>

definition statistics :: "Timing \<Rightarrow> env \<Rightarrow> db \<Rightarrow> Statistics" where
  "statistics timing e db =
     assign_all (run_statistics db @ attempt_statistics db @ worker_statistics timing (clk e 0) db @
       reserved_statistics db @ queue_statistics (clk e 1) (clk e 2) db @
       delay_statistics ''dispatch_delay'' (dispatch_delays (clk e 3) db) @
       delay_statistics ''queue_delay'' (queue_delays (clk e 4) db)) []"

section \<open>Percentiles\<close>

lemma interpolate_between:
  assumes "sorted ys" and "0 \<le> x" and "nat \<lceil>x\<rceil> < length ys"
  shows "ys ! nat \<lfloor>x\<rfloor> \<le> interpolate ys x" "interpolate ys x \<le> ys ! nat \<lceil>x\<rceil>"
proof -
  let ?lo = "ys ! nat \<lfloor>x\<rfloor>" and ?hi = "ys ! nat \<lceil>x\<rceil>" and ?t = "x - of_int \<lfloor>x\<rfloor>"
  have "nat \<lfloor>x\<rfloor> \<le> nat \<lceil>x\<rceil>" by (rule nat_mono[OF floor_le_ceiling])
  with assms have le: "?lo \<le> ?hi" by (intro sorted_nth_mono) auto
  have t: "0 \<le> ?t" "?t \<le> 1" by linarith+
  from le t show "?lo \<le> interpolate ys x" by (simp add: interpolate_def Let_def)
  from le t have "(?hi - ?lo) * ?t \<le> (?hi - ?lo) * 1" by (intro mult_left_mono) auto
  then show "interpolate ys x \<le> ?hi" by (simp add: interpolate_def Let_def)
qed

lemma interpolate_mono:
  assumes "sorted ys" and "0 \<le> x" and "x \<le> y" and "nat \<lceil>y\<rceil> < length ys"
  shows "interpolate ys x \<le> interpolate ys y"
proof (cases "\<lfloor>x\<rfloor> = \<lfloor>y\<rfloor>")
  case True
  have x: "nat \<lceil>x\<rceil> < length ys" using assms(3,4) by (meson ceiling_mono le_less_trans nat_mono)
  show ?thesis
  proof (cases "x = of_int \<lfloor>x\<rfloor>")
    case at: True
    then have "interpolate ys x = ys ! nat \<lfloor>y\<rfloor>" using True by (simp add: interpolate_def Let_def)
    also have "\<dots> \<le> interpolate ys y" using assms interpolate_between(1)[of ys y] by simp
    finally show ?thesis .
  next
    case False
    then have "\<lceil>x\<rceil> = \<lfloor>x\<rfloor> + 1" by (simp add: ceiling_altdef)
    moreover have "\<lceil>y\<rceil> = \<lfloor>y\<rfloor> + 1" using False True assms(3) by (simp add: ceiling_altdef) (metis floor_correct order_antisym)
    ultimately have c: "\<lceil>x\<rceil> = \<lceil>y\<rceil>" using True by simp
    let ?lo = "ys ! nat \<lfloor>y\<rfloor>" and ?hi = "ys ! nat \<lceil>y\<rceil>"
    have "nat \<lfloor>y\<rfloor> \<le> nat \<lceil>y\<rceil>" by (rule nat_mono[OF floor_le_ceiling])
    then have "0 \<le> ?hi - ?lo" using assms(1,4) by (simp add: sorted_nth_mono)
    then have "(?hi - ?lo) * (x - of_int \<lfloor>y\<rfloor>) \<le> (?hi - ?lo) * (y - of_int \<lfloor>y\<rfloor>)"
      using assms(3) by (intro mult_left_mono) auto
    then show ?thesis using c True by (simp add: interpolate_def Let_def)
  qed
next
  case False
  with assms(3) have "\<lfloor>x\<rfloor> < \<lfloor>y\<rfloor>" by (simp add: floor_mono order_le_neq_trans)
  then have c: "\<lceil>x\<rceil> \<le> \<lfloor>y\<rfloor>" by linarith
  have fy: "nat \<lfloor>y\<rfloor> \<le> nat \<lceil>y\<rceil>" by (rule nat_mono[OF floor_le_ceiling])
  have x: "nat \<lceil>x\<rceil> < length ys" using nat_mono[OF c] fy assms(4) by linarith
  have "interpolate ys x \<le> ys ! nat \<lceil>x\<rceil>"
    using assms(1,2) x by (rule interpolate_between(2))
  also have "\<dots> \<le> ys ! nat \<lfloor>y\<rfloor>" using assms(1,4) nat_mono[OF c] fy by (intro sorted_nth_mono) auto
  also have "\<dots> \<le> interpolate ys y" using assms interpolate_between(1)[of ys y] by simp
  finally show ?thesis .
qed

lemma percentile_mono:
  assumes "0 \<le> f" and "f \<le> g" and "g \<le> 1"
  shows "percentile f xs \<le> percentile g xs"
proof (cases "xs = []")
  case False
  let ?n = "of_nat (length xs - 1) :: rat"
  have "g * ?n \<le> 1 * ?n" using assms(3) by (intro mult_right_mono) auto
  then have "\<lceil>g * ?n\<rceil> \<le> int (length xs - 1)" by (simp add: ceiling_le_iff)
  then have "nat \<lceil>g * ?n\<rceil> < length (sort xs)" using False by (cases xs) auto
  then have "interpolate (sort xs) (f * ?n) \<le> interpolate (sort xs) (g * ?n)"
    using assms by (intro interpolate_mono) (auto intro: mult_right_mono simp del: of_nat_diff of_nat_Suc)
  with False show ?thesis by (simp add: percentile_def)
qed (simp add: percentile_def)

section \<open>The values\<close>

definition stat :: "Statistics \<Rightarrow> string \<Rightarrow> rat" where
  "stat values name = (case map_of values name of None \<Rightarrow> 0 | Some v \<Rightarrow> v)"

definition fixed_names :: "string list" where
  "fixed_names =
     [''attempts'', ''retries'', ''failures'', ''cleanup_pending'', ''workers_available'', ''worker_cpu_millis'', ''worker_memory_mib'',
      ''reserved_cpu_millis'', ''reserved_memory_mib'', ''queue_oldest_seconds'', ''gpu_queued_runs'', ''gpu_queue_oldest_seconds'',
      ''dispatch_delay_p50_seconds'', ''dispatch_delay_p95_seconds'', ''dispatch_delay_p99_seconds'',
      ''queue_delay_p50_seconds'', ''queue_delay_p95_seconds'', ''queue_delay_p99_seconds'']"

definition statistic_names :: "string list" where
  "statistic_names = map run_key state_names @ fixed_names"

lemma lower_names:
  "lower_text ''QUEUED'' = ''queued''" "lower_text ''STARTING'' = ''starting''" "lower_text ''RUNNING'' = ''running''"
  "lower_text ''FINALIZING'' = ''finalizing''" "lower_text ''RETRY_WAIT'' = ''retry_wait''"
  "lower_text ''SUCCEEDED'' = ''succeeded''" "lower_text ''FAILED'' = ''failed''" "lower_text ''CANCELLED'' = ''cancelled''"
  by (simp_all add: lower_text_def lower_char_def is_upper_def char_between_def less_eq_char_def)

lemma run_key_inject: "run_key (to_string st) = run_key (to_string st') \<longleftrightarrow> st = st'"
  by (cases st; cases st'; simp add: run_key_def lower_names)

lemma status_named: "to_string st \<in> set state_names"
  by (cases st) (simp_all add: state_names_def)

lemma state_names_statuses: "state_names = map to_string run_statuses"
  by (simp add: state_names_def run_statuses_def)

lemma map_of_named: "(\<And>y y'. g y = g y' \<Longrightarrow> y = y') \<Longrightarrow>
    map_of (map (\<lambda>y. (g y, h y)) ys) (g z) = (if z \<in> set ys then Some (h z) else None)"
  by (induction ys) auto

lemma statistics_lookup: "map_of (statistics timing e db) = map_of (rev (run_statistics db @ attempt_statistics db @
    worker_statistics timing (clk e 0) db @ reserved_statistics db @ queue_statistics (clk e 1) (clk e 2) db @
    delay_statistics ''dispatch_delay'' (dispatch_delays (clk e 3) db) @
    delay_statistics ''queue_delay'' (queue_delays (clk e 4) db)))"
  by (simp only: statistics_def assign_all_def map_of_foldl_put map_wf_Nil map_of.simps empty_map_add)

lemma stat_status: "stat (statistics timing e db) (run_key (to_string st)) = of_nat (with_status st db)"
proof -
  let ?k = "run_key (to_string st)"
  let ?counted = "map (\<lambda>st. (run_key (to_string st), of_nat (with_status st db) :: rat))"
  have counted: "map_of (rev (?counted sts)) ?k = (if st \<in> set sts then Some (of_nat (with_status st db)) else None)" for sts
    using map_of_named[where g = "\<lambda>st. run_key (to_string st)" and ys = "rev sts" and z = st
        and h = "\<lambda>st. of_nat (with_status st db) :: rat"]
    by (simp add: run_key_inject rev_map)
  have zero: "map_of (rev (map (\<lambda>name. (run_key name, 0 :: rat)) state_names)) ?k = Some 0"
    using map_of_named[where g = "\<lambda>st. run_key (to_string st)" and ys = "rev run_statuses" and z = st
        and h = "\<lambda>st. 0 :: rat"]
    by (cases st) (simp_all add: run_key_inject rev_map state_names_statuses run_statuses_def)
  have none: "st \<notin> set (remdups (map r_status (runs db))) \<Longrightarrow> with_status st db = 0"
    by (auto simp: with_status_def filter_empty_conv)
  show ?thesis
    unfolding stat_def statistics_lookup run_statistics_def rev_append map_of_append map_add_def
    using zero counted[of "remdups (map r_status (runs db))"] none
    by (simp add: attempt_statistics_def worker_statistics_def reserved_statistics_def queue_statistics_def
        delay_statistics_def Let_def run_key_def)
qed

lemma statuses_cover: "sum_list (map (\<lambda>st. length (filter (\<lambda>r. r_status r = st) rs)) run_statuses) = length rs"
proof (induction rs)
  case (Cons r rs)
  then show ?case by (cases "r_status r") (simp_all add: run_statuses_def)
qed (simp add: run_statuses_def)

lemma statistic_names_all: "fst ` set (statistics timing e db) = set statistic_names"
proof -
  have "fst ` set (run_statistics db) = run_key ` set state_names \<union> (\<lambda>r. run_key (to_string (r_status r))) ` set (runs db)"
    by (simp add: run_statistics_def image_Un image_image)
  then have runs_names: "fst ` set (run_statistics db) = run_key ` set state_names"
    using status_named by blast
  define rest where "rest = attempt_statistics db @ worker_statistics timing (clk e 0) db @ reserved_statistics db @
      queue_statistics (clk e 1) (clk e 2) db @ delay_statistics ''dispatch_delay'' (dispatch_delays (clk e 3) db) @
      delay_statistics ''queue_delay'' (queue_delays (clk e 4) db)"
  have "map fst rest = fixed_names"
    by (simp add: rest_def attempt_statistics_def worker_statistics_def reserved_statistics_def queue_statistics_def
        delay_statistics_def Let_def fixed_names_def)
  then have rest: "fst ` set rest = set fixed_names" by (metis set_map)
  show ?thesis
    unfolding statistics_def assign_all_def keys_foldl_put rest_def[symmetric] set_append image_Un runs_names rest
    by (simp add: statistic_names_def)
qed

lemma gpu_unnamed: "''gpu_available_estimate'' \<notin> set statistic_names" "''gpu_inventory_fresh'' \<notin> set statistic_names"
  by (auto simp: statistic_names_def fixed_names_def run_key_def)

text \<open>
  The page of the coordinator is complete, bounded and consistent. Whatever the database holds, the
  statistics have the same 26 names, none of which comes from a run, a worker or a user; the counts of the
  states add up to the number of runs; and the percentiles of each delay are ordered.
\<close>

theorem statistics_are_consistent:
  "fst ` set (statistics timing e db) = set statistic_names \<and> length statistic_names = 26 \<and>
   sum_list (map (\<lambda>name. stat (statistics timing e db) (run_key name)) state_names) = of_nat (length (runs db)) \<and>
   list_all (\<lambda>name. stat (statistics timing e db) (name @ ''_p50_seconds'') \<le> stat (statistics timing e db) (name @ ''_p95_seconds'') \<and>
      stat (statistics timing e db) (name @ ''_p95_seconds'') \<le> stat (statistics timing e db) (name @ ''_p99_seconds''))
     [''queue_delay'', ''dispatch_delay'']"
proof (intro conjI)
  show "fst ` set (statistics timing e db) = set statistic_names" by (rule statistic_names_all)
  show "length statistic_names = 26" by (simp add: statistic_names_def state_names_def fixed_names_def)
  have "sum_list (map (\<lambda>name. stat (statistics timing e db) (run_key name)) state_names) =
      sum_list (map (\<lambda>st. of_nat (with_status st db)) run_statuses)"
    by (simp add: state_names_statuses stat_status o_def)
  also have "\<dots> = of_nat (sum_list (map (\<lambda>st. with_status st db) run_statuses))"
    by (simp add: run_statuses_def)
  finally show "sum_list (map (\<lambda>name. stat (statistics timing e db) (run_key name)) state_names) =
      of_nat (length (runs db))"
    using statuses_cover[of "runs db"] by (simp add: with_status_def)
  have q: "stat (statistics timing e db) ''queue_delay_p50_seconds'' = percentile (1 / 2) (queue_delays (clk e 4) db)"
    "stat (statistics timing e db) ''queue_delay_p95_seconds'' = percentile (19 / 20) (queue_delays (clk e 4) db)"
    "stat (statistics timing e db) ''queue_delay_p99_seconds'' = percentile (99 / 100) (queue_delays (clk e 4) db)"
    "stat (statistics timing e db) ''dispatch_delay_p50_seconds'' = percentile (1 / 2) (dispatch_delays (clk e 3) db)"
    "stat (statistics timing e db) ''dispatch_delay_p95_seconds'' = percentile (19 / 20) (dispatch_delays (clk e 3) db)"
    "stat (statistics timing e db) ''dispatch_delay_p99_seconds'' = percentile (99 / 100) (dispatch_delays (clk e 3) db)"
    unfolding stat_def statistics_lookup rev_append map_of_append map_add_def by (simp_all add: delay_statistics_def)
  show "list_all (\<lambda>name. stat (statistics timing e db) (name @ ''_p50_seconds'') \<le> stat (statistics timing e db) (name @ ''_p95_seconds'') \<and>
      stat (statistics timing e db) (name @ ''_p95_seconds'') \<le> stat (statistics timing e db) (name @ ''_p99_seconds''))
     [''queue_delay'', ''dispatch_delay'']"
    by (simp add: q percentile_mono)
qed

end
