(* ===== verification/Metrics_Page.thy ===== *)
theory Metrics_Page
  imports Store_Statistics Database_Access Run_Service
begin

text \<open>
  \<^verbatim>\<open>src/observability/metrics.cpp\<close> and the part of the monitor in \<^verbatim>\<open>apps/server.cpp\<close> that fills the metrics
  page. The registry is the map of the gauges by their names, the counters of the calls and the observed
  durations; \<open>None\<close> is the value NaN. The text of the page is Prometheus's.
\<close>

section \<open>The registry\<close>

type_synonym gauge = "rat option"

record Metrics =
  mt_gauges :: "(string, gauge) stdmap"
  mt_durations :: "(string, rat list) stdmap"
  mt_requests :: "string \<times> string \<Rightarrow> nat"

definition new_Metrics :: Metrics where
  "new_Metrics = \<lparr>mt_gauges = [], mt_durations = [], mt_requests = (\<lambda>key. 0)\<rparr>"

definition metrics_update :: "(string \<times> gauge) list \<Rightarrow> Metrics \<Rightarrow> Metrics" where
  "metrics_update values m = m\<lparr>mt_gauges := assign_all values (mt_gauges m)\<rparr>"

definition truth :: "bool \<Rightarrow> gauge" where
  "truth b = Some (if b then 1 else 0)"

definition gpu_gauges :: "GpuCapacityTotals \<Rightarrow> (string \<times> gauge) list" where
  "gpu_gauges g =
     [(''gpu_capacity'', Some (of_int (gc_capacity g))),
      (''gpu_allocatable'', Some (of_int (gc_allocatable g))),
      (''gpu_reserved'', Some (of_int (gc_reserved g))),
      (''gpu_available_estimate'', if gc_fresh g then Some (of_int (gc_available g)) else None),
      (''gpu_pending'', Some (of_int (gc_pending g))),
      (''gpu_inventory_fresh'', truth (gc_fresh g)),
      (''gpu_inventory_age_seconds'', map_option of_int (gc_age_seconds g))]"

definition metrics_gpus :: "GpuCapacityTotals \<Rightarrow> Metrics \<Rightarrow> Metrics" where
  "metrics_gpus g = metrics_update (gpu_gauges g)"

text \<open>A finished call: its duration by method, and a count by method and status.\<close>

definition metrics_rpc :: "string \<Rightarrow> int \<Rightarrow> rat \<Rightarrow> Metrics \<Rightarrow> Metrics" where
  "metrics_rpc m status duration metrics =
     (let key = (m, show_int status);
          observed = (case map_of (mt_durations metrics) m of None \<Rightarrow> [] | Some ds \<Rightarrow> ds)
      in metrics\<lparr>mt_durations := map_put m (observed @ [duration]) (mt_durations metrics),
                 mt_requests := (mt_requests metrics)(key := mt_requests metrics key + 1)\<rparr>)"

section \<open>The monitor's page\<close>

definition pool_statistics :: "'c ConnectionPool \<Rightarrow> (string \<times> rat) list" where
  "pool_statistics p =
     [(''database_pool_capacity'', of_nat (cp_capacity p)),
      (''database_pool_in_use'', of_nat (cp_capacity p - length (cp_connections p))),
      (''database_pool_waiting'', of_nat (cp_waiting p)),
      (''database_pool_timeouts'', of_nat (cp_timeouts p))]"

text \<open>\<open>std::map::insert\<close> of a range keeps what is there.\<close>

definition insert_all :: "(string \<times> 'v) list \<Rightarrow> (string, 'v) stdmap \<Rightarrow> (string, 'v) stdmap" where
  "insert_all entries values = foldl (\<lambda>m (k, v). if map_contains m k then m else map_put k v m) values entries"

record Usage =
  us_user :: "int \<times> int"
  us_system :: "int \<times> int"
  us_maxrss :: int

definition usage_statistics :: "Usage \<Rightarrow> (string \<times> rat) list" where
  "usage_statistics u =
     [(''process_cpu_seconds'', of_int (fst (us_user u)) + of_int (snd (us_user u)) / 1000000 +
        of_int (fst (us_system u)) + of_int (snd (us_system u)) / 1000000),
      (''process_max_rss_bytes'', of_int (us_maxrss u) * 1024)]"

text \<open>
  What a turn finds: leadership at its three reads, whether the recovery, the statistics and the capacity
  query return, the database at the two queries, the pool, the process, and the cluster in Kubernetes mode.
\<close>

record 'c Turn =
  tn_refreshed :: bool
  tn_ready :: bool
  tn_recovered :: bool
  tn_counted :: bool
  tn_env :: env
  tn_db :: db
  tn_pool :: "'c ConnectionPool"
  tn_still_ready :: bool
  tn_usage :: Usage
  tn_cluster :: "ClusterGpuSnapshot option"
  tn_measured :: bool
  tn_later_env :: env
  tn_later_db :: db

definition snapshot_of :: "Timing \<Rightarrow> 'c Turn \<Rightarrow> Statistics" where
  "snapshot_of timing t =
     assign_all ((''ready'', if tn_still_ready t then 1 else 0) # usage_statistics (tn_usage t))
       (insert_all (pool_statistics (tn_pool t)) (statistics timing (tn_env t) (tn_db t)))"

definition monitor_page :: "Timing \<Rightarrow> 'c Turn \<Rightarrow> Metrics \<Rightarrow> Metrics" where
  "monitor_page timing t m =
     (let m1 = metrics_update [(''ready'', truth (tn_refreshed t))] m in
      if \<not> tn_ready t \<or> \<not> tn_recovered t \<or> \<not> tn_counted t then m1
      else let m2 = metrics_update (map (\<lambda>(k, v). (k, Some v)) (snapshot_of timing t)) m1 in
        case tn_cluster t of
          Some snapshot \<Rightarrow> metrics_gpus (summarize snapshot) m2
        | None \<Rightarrow> if tn_measured t then metrics_gpus (gpu_capacity timing (tn_later_env t) (tn_later_db t)) m2 else m2)"

text \<open>The page at the start, and after the turns.\<close>

definition started_page :: "bool \<Rightarrow> Metrics" where
  "started_page kubernetes = metrics_update [(''kubernetes_mode'', truth kubernetes)] new_Metrics"

fun monitor_pages :: "Timing \<Rightarrow> 'c Turn list \<Rightarrow> Metrics \<Rightarrow> Metrics" where
  "monitor_pages timing [] m = m"
| "monitor_pages timing (t # ts) m = monitor_pages timing ts (monitor_page timing t m)"

section \<open>Properties\<close>

definition gpu_names :: "string list" where
  "gpu_names = [''gpu_capacity'', ''gpu_allocatable'', ''gpu_reserved'', ''gpu_available_estimate'', ''gpu_pending'',
     ''gpu_inventory_fresh'', ''gpu_inventory_age_seconds'']"

definition process_names :: "string list" where
  "process_names = [''ready'', ''process_cpu_seconds'', ''process_max_rss_bytes'']"

definition pool_names :: "string list" where
  "pool_names = [''database_pool_capacity'', ''database_pool_in_use'', ''database_pool_waiting'', ''database_pool_timeouts'']"

definition page_names :: "string list" where
  "page_names = ''kubernetes_mode'' # process_names @ pool_names @ gpu_names @ statistic_names"

text \<open>The names are known, and an unknown number of free GPUs is NaN exactly when the inventory is not fresh.\<close>

definition page_ok :: "Metrics \<Rightarrow> bool" where
  "page_ok m \<longleftrightarrow> map_wf (mt_gauges m) \<and> fst ` set (mt_gauges m) \<subseteq> set page_names \<and>
     (map_of (mt_gauges m) ''gpu_available_estimate'' = Some None) = (map_of (mt_gauges m) ''gpu_inventory_fresh'' = Some (Some 0))"

lemma gauges_of [simp]:
  "map_wf (mt_gauges m) \<Longrightarrow> map_wf (mt_gauges (metrics_update vs m))"
  "fst ` set (mt_gauges (metrics_update vs m)) = fst ` set (mt_gauges m) \<union> fst ` set vs"
  "map_wf (mt_gauges m) \<Longrightarrow> map_of (mt_gauges (metrics_update vs m)) = map_of (mt_gauges m) ++ map_of (rev vs)"
  using foldl_put_wf[of "mt_gauges m" "\<lambda>v. v" vs]
  by (simp_all add: metrics_update_def assign_all_def keys_foldl_put map_of_foldl_put)

lemma page_ok_update:
  assumes "page_ok m" and "fst ` set vs \<subseteq> set page_names" and "''gpu_available_estimate'' \<notin> fst ` set vs"
    and "''gpu_inventory_fresh'' \<notin> fst ` set vs"
  shows "page_ok (metrics_update vs m)"
proof -
  have "map_of (rev vs) ''gpu_available_estimate'' = None" "map_of (rev vs) ''gpu_inventory_fresh'' = None"
    using assms(3,4) by (simp_all add: map_of_eq_None_iff)
  with assms(1,2) show ?thesis by (simp add: page_ok_def map_add_def)
qed

lemma page_ok_gpus:
  assumes "page_ok m"
  shows "page_ok (metrics_gpus g m)"
proof -
  have names: "map fst (gpu_gauges g) = gpu_names" by (simp add: gpu_gauges_def gpu_names_def)
  have found: "map_of (rev (gpu_gauges g)) ''gpu_available_estimate'' = Some (if gc_fresh g then Some (of_int (gc_available g)) else None)"
    "map_of (rev (gpu_gauges g)) ''gpu_inventory_fresh'' = Some (truth (gc_fresh g))"
    by (simp_all add: gpu_gauges_def)
  have "set (map fst (gpu_gauges g)) \<subseteq> set page_names" unfolding names by (auto simp: page_names_def)
  with assms found show ?thesis by (simp add: page_ok_def metrics_gpus_def truth_def)
qed

lemma insert_all_names: "fst ` set (insert_all entries values) = fst ` set values \<union> fst ` set entries"
  unfolding insert_all_def
proof (induction entries arbitrary: "values")
  case (Cons p entries)
  obtain k v where "p = (k, v)" by (cases p)
  then show ?case using Cons by (auto simp: map_contains_def map_of_eq_None_iff simp del: set_map)
qed simp

lemma snapshot_names: "fst ` set (snapshot_of timing t) = set statistic_names \<union> set pool_names \<union> set process_names"
proof -
  let ?process = "(''ready'', if tn_still_ready t then 1 else 0) # usage_statistics (tn_usage t)"
  have "map fst ?process = process_names" "map fst (pool_statistics (tn_pool t)) = pool_names"
    by (simp_all add: usage_statistics_def process_names_def pool_statistics_def pool_names_def)
  then have "fst ` set ?process = set process_names" "fst ` set (pool_statistics (tn_pool t)) = set pool_names"
    by (metis set_map)+
  then show ?thesis
    unfolding snapshot_of_def assign_all_def keys_foldl_put insert_all_names statistic_names_all by simp
qed

lemma gpu_names_apart:
  "''gpu_available_estimate'' \<notin> fst ` set (snapshot_of timing t)" "''gpu_inventory_fresh'' \<notin> fst ` set (snapshot_of timing t)"
  unfolding snapshot_names using gpu_unnamed by (simp_all add: pool_names_def process_names_def)

lemma page_ok_turn:
  assumes "page_ok m"
  shows "page_ok (monitor_page timing t m)"
proof -
  define m1 where "m1 = metrics_update [(''ready'', truth (tn_refreshed t))] m"
  have m1: "page_ok m1"
    unfolding m1_def by (rule page_ok_update[OF assms]) (simp_all add: page_names_def process_names_def)
  define m2 where "m2 = metrics_update (map (\<lambda>(k, v). (k, Some v)) (snapshot_of timing t)) m1"
  have keys: "fst ` set (map (\<lambda>(k, v). (k, Some v)) (snapshot_of timing t)) = fst ` set (snapshot_of timing t)"
    by (simp add: image_image case_prod_beta)
  have "page_ok m2"
    unfolding m2_def
  proof (rule page_ok_update[OF m1], unfold keys)
    show "fst ` set (snapshot_of timing t) \<subseteq> set page_names"
      unfolding snapshot_names by (auto simp: page_names_def)
  qed (rule gpu_names_apart)+
  with m1 show ?thesis
    by (simp add: monitor_page_def m1_def[symmetric] m2_def[symmetric] page_ok_gpus Let_def split: option.split)
qed

text \<open>
  The metrics page stays bounded and honest. Whatever the turns of the monitor find, with failures at
  any of their steps, the gauges of the page keep to a fixed list of names, so that nothing a user submits
  can add one, and at every moment the estimate of free GPUs is unknown (not zero, and not a stale number)
  exactly when the inventory is reported as not fresh.
\<close>

theorem the_page_is_bounded_and_honest:
  "fst ` set (mt_gauges (monitor_pages timing turns (started_page kubernetes))) \<subseteq> set page_names \<and>
   (map_of (mt_gauges (monitor_pages timing turns (started_page kubernetes))) ''gpu_available_estimate'' = Some None) =
     (map_of (mt_gauges (monitor_pages timing turns (started_page kubernetes))) ''gpu_inventory_fresh'' = Some (Some 0))"
proof -
  have "page_ok m \<Longrightarrow> page_ok (monitor_pages timing turns m)" for m
    by (induction timing turns m rule: monitor_pages.induct) (simp_all add: page_ok_turn)
  moreover have "page_ok (started_page kubernetes)"
    by (simp add: page_ok_def started_page_def metrics_update_def assign_all_def new_Metrics_def page_names_def)
  ultimately show ?thesis by (simp add: page_ok_def)
qed

end
