(* ===== verification/Http_Requests.thy ===== *)
theory Http_Requests
  imports Client_Calls Docker_Backend Kubernetes_Backend
begin

text \<open>
  \<open>HttpClient::request\<close> of \<^verbatim>\<open>src/support/http_client.cpp\<close> and the three clients that are made of it: the command
  line client, the Docker backend and the Kubernetes backend. libcurl is a parameter that performs a
  transfer with the options set on its handle; a log beside the state keeps what was sent.
\<close>

section \<open>One request\<close>

record HttpOptions =
  ho_unix_socket :: string
  ho_ca_file :: string
  ho_bearer :: string
  ho_timeout_seconds :: int
  ho_max_response_bytes :: nat

definition default_HttpOptions :: HttpOptions where
  "default_HttpOptions = \<lparr>ho_unix_socket = [], ho_ca_file = [], ho_bearer = [], ho_timeout_seconds = 30,
     ho_max_response_bytes = 16 * 1024 * 1024\<rparr>"

text \<open>The options of a handle; what is not set is \<open>None\<close>. A C string ends at its first NUL.\<close>

definition c_str :: "string \<Rightarrow> string" where
  "c_str s = takeWhile (\<lambda>c. c \<noteq> CHR 0x00) s"

lemma c_str_append: "CHR 0x00 \<notin> set p \<Longrightarrow> c_str (p @ s) = p @ c_str s"
  unfolding c_str_def by (rule takeWhile_append2) auto

record Transfer =
  tf_url :: string
  tf_method :: string
  tf_connect_timeout :: int
  tf_timeout :: int
  tf_unix_socket :: "string option"
  tf_ca_file :: "string option"
  tf_body :: "string option"
  tf_headers :: "string list"

definition set_unless_empty :: "string \<Rightarrow> string option" where
  "set_unless_empty v = (if v = [] then None else Some (c_str v))"

definition request_headers :: "HttpOptions \<Rightarrow> (string, string) stdmap \<Rightarrow> string list" where
  "request_headers options headers =
     [''Content-Type: application/json''] @
     (if ho_bearer options = [] then [] else [c_str (''Authorization: Bearer '' @ ho_bearer options)]) @
     map (\<lambda>(key, v). c_str (key @ '': '' @ v)) headers"

definition request_transfer :: "HttpOptions \<Rightarrow> string \<Rightarrow> string \<Rightarrow> string \<Rightarrow> (string, string) stdmap \<Rightarrow> Transfer" where
  "request_transfer options verb url body headers =
     \<lparr>tf_url = c_str url, tf_method = c_str verb, tf_connect_timeout = 5, tf_timeout = ho_timeout_seconds options,
      tf_unix_socket = set_unless_empty (ho_unix_socket options), tf_ca_file = set_unless_empty (ho_ca_file options),
      tf_body = (if verb = ''POST'' \<or> verb = ''PUT'' \<or> body \<noteq> [] then Some body else None),
      tf_headers = request_headers options headers\<rparr>"

text \<open>libcurl: whether it can be initialised and gives a handle, and what a transfer delivers.\<close>

record 's Curl =
  cu_initialized :: bool
  cu_handle :: "'s \<Rightarrow> bool"
  cu_perform :: "Transfer \<Rightarrow> 's \<Rightarrow> (string list \<times> bool \<times> string \<times> int) \<times> 's"

type_synonym 's sent = "Transfer list \<times> 's"

definition http_request ::
    "'s Curl \<Rightarrow> HttpOptions \<Rightarrow> string \<Rightarrow> string \<Rightarrow> string \<Rightarrow> (string, string) stdmap \<Rightarrow> (HttpResult, 's sent) io" where
  "http_request curl options verb url body headers w =
     (case w of (log, s) \<Rightarrow>
       if \<not> cu_initialized curl then (throw unavailable ''HTTP initialization failed'', w)
       else if \<not> cu_handle curl s then (throw unavailable ''HTTP allocation failed'', w)
       else let t = request_transfer options verb url body headers in
         case cu_perform curl t s of ((pieces, performed, message, status), s') \<Rightarrow>
           (request_result (ho_max_response_bytes options) pieces performed message status, (log @ [t], s')))"

section \<open>The clients\<close>

text \<open>\<open>Client::Client\<close>; the JSON library's parser and printer and \<open>curl_easy_escape\<close> are arguments.\<close>

definition new_Client ::
    "'s Curl \<Rightarrow> (string \<Rightarrow> Json result) \<Rightarrow> (Json \<Rightarrow> string result) \<Rightarrow> (string \<Rightarrow> string) \<Rightarrow> string \<Rightarrow> string \<Rightarrow> string \<Rightarrow>
     's sent Client" where
  "new_Client curl parse dump escape url token ca =
     \<lparr>ct_url = client_url url,
      ct_http = http_request curl (default_HttpOptions\<lparr>ho_ca_file := ca, ho_bearer := token\<rparr>),
      ct_parse = parse, ct_dump = dump, ct_escape = escape\<rparr>"

definition docker_services ::
    "'s Curl \<Rightarrow> (string \<Rightarrow> Json result) \<Rightarrow> (Json \<Rightarrow> string result) \<Rightarrow> (string \<Rightarrow> string) \<Rightarrow> DockerConfig \<Rightarrow> 's sent Services" where
  "docker_services curl parse dump escape config =
     \<lparr>sv_http = (\<lambda>verb url body. http_request curl
        (default_HttpOptions\<lparr>ho_unix_socket := dc_socket config, ho_timeout_seconds := 300\<rparr>) verb url body []),
      sv_escape = escape, sv_parse = parse, sv_dump = dump\<rparr>"

definition kubernetes_services ::
    "'s Curl \<Rightarrow> (string \<Rightarrow> Json result) \<Rightarrow> (Json \<Rightarrow> string result) \<Rightarrow> (string \<Rightarrow> string) \<Rightarrow> KubernetesConfig \<Rightarrow> string \<Rightarrow>
     's sent Services" where
  "kubernetes_services curl parse dump escape config token =
     \<lparr>sv_http = (\<lambda>verb url body. http_request curl
        (default_HttpOptions\<lparr>ho_ca_file := kc_api_ca config, ho_bearer := token, ho_timeout_seconds := 10\<rparr>) verb url body []),
      sv_escape = escape, sv_parse = parse, sv_dump = dump\<rparr>"

section \<open>What is sent\<close>

lemma request_result_bounded:
  "request_result limit pieces performed m status = Inr v \<Longrightarrow> length (ht_body v) \<le> limit"
  using transfers_keep_to_size by blast

lemma http_request_sends:
  assumes "http_request curl options verb url body headers (log, s) = (r, log', s')"
  shows "log' = log \<and> (\<exists>m. r = throw unavailable m) \<or>
    log' = log @ [request_transfer options verb url body headers] \<and>
      (\<forall>v. r = Inr v \<longrightarrow> length (ht_body v) \<le> ho_max_response_bytes options)"
  using assms by (auto simp: http_request_def Let_def request_result_bounded split: if_splits prod.splits)

lemma retry_loop_sends:
  assumes once: "\<And>log s r log' s'. operation (log, s) = (r, log', s') \<Longrightarrow> log' = log \<and> (\<exists>m. r = throw unavailable m) \<or> log' = log @ [t]"
    and "retry_loop operation left (log, s) = (r, log', s')"
  shows "\<exists>n. log' = log @ replicate n t \<and> n \<le> Suc left \<and> (\<forall>v. r = Inr v \<longrightarrow> 0 < n)"
  using assms(2)
proof (induction left arbitrary: log s)
  case 0
  then show ?case using once[of log s] by (cases "operation (log, s)") (auto split: sum.splits if_splits intro: exI[of _ 1] exI[of _ 0])
next
  case (Suc left)
  obtain r1 log1 s1 where op: "operation (log, s) = (r1, log1, s1)" by (cases "operation (log, s)")
  from once[OF op] obtain k where k: "log1 = log @ replicate k t" "k \<le> 1" "\<forall>v. r1 = Inr v \<longrightarrow> 0 < k"
    by (elim disjE) (auto intro: that[of 0] that[of 1])
  show ?case
  proof (cases "retry_loop operation left (log1, s1) = (r, log', s') \<and> (\<exists>ex. r1 = Inl ex)")
    case True
    with Suc.IH obtain n where "log' = log1 @ replicate n t" "n \<le> Suc left" "\<forall>v. r = Inr v \<longrightarrow> 0 < n" by blast
    with k show ?thesis by (intro exI[of _ "k + n"]) (auto simp: replicate_add)
  next
    case False
    with Suc.prems op k show ?thesis by (auto split: sum.splits if_splits)
  qed
qed

text \<open>
  Retries are verbatim. Whatever libcurl does, a call of the client sends at most three times the same
  request, with the owner's token, the certificates to check the coordinator with, and the key that
  makes the coordinator recognise it; when the call succeeds, it was sent.
\<close>

theorem retries_are_verbatim:
  fixes curl parse dump escape url token ca
  defines "c \<equiv> new_Client curl parse dump escape url token ca"
  assumes "client_call c verb path body key (log, s) = (r, log', s')" and "c_str token = token" and "token \<noteq> []"
    and "c_str key = key" and "key \<noteq> []"
  shows "\<exists>n t. log' = log @ replicate n t \<and> n \<le> 3 \<and> (\<forall>v. r = Inr v \<longrightarrow> 0 < n) \<and>
    tf_url t = c_str (client_url url @ path) \<and> tf_method t = c_str verb \<and> tf_unix_socket t = None \<and>
    tf_ca_file t = set_unless_empty ca \<and>
    tf_headers t = [''Content-Type: application/json'', ''Authorization: Bearer '' @ token, ''Idempotency-Key: '' @ key] \<and>
    (verb = ''POST'' \<longrightarrow> tf_body t = Some body)"
proof -
  define t where "t = request_transfer (default_HttpOptions\<lparr>ho_ca_file := ca, ho_bearer := token\<rparr>) verb (client_url url @ path) body
    (call_headers key)"
  have once: "log' = log \<and> (\<exists>m. r = throw unavailable m) \<or> log' = log @ [t]"
    if "call_once c verb path body key (log, s) = (r, log', s')" for log s r log' s'
    using that unfolding call_once_def
    by (elim then_io_result) (auto simp: c_def new_Client_def t_def dest!: http_request_sends)
  have "\<exists>n. log' = log @ replicate n t \<and> n \<le> Suc 2 \<and> (\<forall>v. r = Inr v \<longrightarrow> 0 < n)"
    by (rule retry_loop_sends[OF once]) (use assms(2) in \<open>simp_all add: client_call_def\<close>)
  then obtain n where "log' = log @ replicate n t" "n \<le> 3" "\<forall>v. r = Inr v \<longrightarrow> 0 < n" by auto
  moreover have "tf_headers t = [''Content-Type: application/json'', ''Authorization: Bearer '' @ token, ''Idempotency-Key: '' @ key]"
    using assms(3-6) c_str_append[of "''Authorization: Bearer ''" token] c_str_append[of "''Idempotency-Key: ''" key]
    by (simp add: t_def request_transfer_def request_headers_def call_headers_def)
  moreover have "tf_url t = c_str (client_url url @ path)" "tf_method t = c_str verb" "tf_unix_socket t = None"
    "tf_ca_file t = set_unless_empty ca" "verb = ''POST'' \<longrightarrow> tf_body t = Some body"
    by (simp_all add: t_def request_transfer_def set_unless_empty_def default_HttpOptions_def)
  ultimately show ?thesis by blast
qed

theorem retries_are_verbatim_witness:
  "\<exists>r log' s'. client_call (new_Client \<lparr>cu_initialized = True, cu_handle = (\<lambda>s. True),
       cu_perform = (\<lambda>t n. (([''{}''], n = (1::nat), [], 200), Suc n))\<rparr> (\<lambda>_. Inr (JObject [])) (\<lambda>_. Inr []) (\<lambda>v. v) ''https://h/'' ''token'' [])
       ''POST'' ''/v1/runs'' ''{}'' ''key'' ([], 0) = (r, log', s') \<and> length log' \<le> 3 \<and> length log' = 2 \<and> s' = 2 \<and> r = Inr (JObject [])"
proof -
  let ?c = "new_Client \<lparr>cu_initialized = True, cu_handle = (\<lambda>s. True),
       cu_perform = (\<lambda>t n. (([''{}''], n = (1::nat), [], 200), Suc n))\<rparr> (\<lambda>_. Inr (JObject [])) (\<lambda>_. Inr []) (\<lambda>v. v) ''https://h/'' ''token'' []"
  obtain r log' s' where run: "client_call ?c ''POST'' ''/v1/runs'' ''{}'' ''key'' ([], 0) = (r, log', s')"
    by (cases "client_call ?c ''POST'' ''/v1/runs'' ''{}'' ''key'' ([], 0)") auto
  from retries_are_verbatim[OF run] have "length log' \<le> 3" by (auto simp: c_str_def)
  moreover from run have "length log' = 2 \<and> s' = 2 \<and> r = Inr (JObject [])"
    by (auto simp: client_call_def retry_loop.simps[of _ 2] retry_loop.simps[of _ 1] call_once_def then_io_def pure_def call_result_def
        new_Client_def http_request_def Let_def request_result_def append_piece_def default_HttpOptions_def numeral_2_eq_2)
  ultimately show ?thesis using run by blast
qed

text \<open>
  A request of the backends is one transfer at most: to the Docker engine through its socket, to the
  Kubernetes API with its certificate authority and the token of the service account. Without the token's
  file nothing is sent, and no answer is longer than 16 MiB.
\<close>

theorem backends_send_one_transfer:
  "(sv_http (docker_services curl parse dump escape dc) verb url body (log, s) = (r, log', s') \<longrightarrow> dc_socket dc \<noteq> [] \<longrightarrow>
     log' = log \<or> (\<exists>t. log' = log @ [t] \<and> tf_unix_socket t = Some (c_str (dc_socket dc)) \<and> tf_url t = c_str url \<and>
       (\<forall>v. r = Inr v \<longrightarrow> length (ht_body v) \<le> 16 * 1024 * 1024))) \<and>
   (kubernetes_request (kubernetes_services curl parse dump escape kc) kc verb path j (log, s) = (r, log', s') \<longrightarrow>
     log' = log \<or> (\<exists>t content. log' = log @ [t] \<and> kc_token_file kc = Some content \<and>
       tf_url t = c_str (kc_api kc @ path) \<and> tf_ca_file t = set_unless_empty (kc_api_ca kc) \<and> tf_unix_socket t = None \<and>
       (trimmed content \<noteq> [] \<longrightarrow> c_str (''Authorization: Bearer '' @ trimmed content) \<in> set (tf_headers t)) \<and>
       (\<forall>v. r = Inr v \<longrightarrow> length (ht_body v) \<le> 16 * 1024 * 1024)))"
proof (intro conjI impI)
  assume "sv_http (docker_services curl parse dump escape dc) verb url body (log, s) = (r, log', s')" and "dc_socket dc \<noteq> []"
  then show "log' = log \<or> (\<exists>t. log' = log @ [t] \<and> tf_unix_socket t = Some (c_str (dc_socket dc)) \<and> tf_url t = c_str url \<and>
       (\<forall>v. r = Inr v \<longrightarrow> length (ht_body v) \<le> 16 * 1024 * 1024))"
    by (auto simp: docker_services_def request_transfer_def set_unless_empty_def default_HttpOptions_def
        dest!: http_request_sends)
next
  assume k: "kubernetes_request (kubernetes_services curl parse dump escape kc) kc verb path j (log, s) = (r, log', s')"
  show "log' = log \<or> (\<exists>t content. log' = log @ [t] \<and> kc_token_file kc = Some content \<and>
       tf_url t = c_str (kc_api kc @ path) \<and> tf_ca_file t = set_unless_empty (kc_api_ca kc) \<and> tf_unix_socket t = None \<and>
       (trimmed content \<noteq> [] \<longrightarrow> c_str (''Authorization: Bearer '' @ trimmed content) \<in> set (tf_headers t)) \<and>
       (\<forall>v. r = Inr v \<longrightarrow> length (ht_body v) \<le> 16 * 1024 * 1024))"
  proof (cases "kc_token_file kc")
    case (Some content)
    let ?o = "default_HttpOptions\<lparr>ho_ca_file := kc_api_ca kc, ho_bearer := trimmed content, ho_timeout_seconds := 10\<rparr>"
    from k Some consider "log' = log"
      | printed r1 where "http_request curl ?o verb (kc_api kc @ path) printed [] (log, s) = (r1, log', s')"
        "\<forall>v. r = Inr v \<longrightarrow> r1 = Inr v"
      by (auto simp: kubernetes_request_def Let_def kubernetes_services_def elim!: then_io_result split: if_splits)
    then show ?thesis
    proof cases
      case 2
      from http_request_sends[OF 2(1)] 2(2) Some show ?thesis
        by (auto simp: request_transfer_def request_headers_def set_unless_empty_def default_HttpOptions_def)
    qed simp
  qed (use k in \<open>simp add: kubernetes_request_def\<close>)
qed

end
