(* ===== verification/Log_Lines.thy ===== *)
theory Log_Lines
  imports Json
begin

text \<open>
  \<^verbatim>\<open>src/observability/logging.cpp\<close>: one line of JSON for each log message. \<open>parse\<close> is the parser without
  exceptions, \<open>None\<close> its discarded value, and \<open>dump\<close> the printer that replaces what is not UTF-8.
\<close>

definition log_value :: "(string \<Rightarrow> Json option) \<Rightarrow> string \<Rightarrow> string \<Rightarrow> int \<Rightarrow> Json" where
  "log_value parse message level timestamp_ms =
     (let found = (case parse message of
                     Some (JObject m) \<Rightarrow> m
                   | _ \<Rightarrow> [(''message'', JString message)])
      in JObject (map_put ''timestamp_ms'' (JInteger timestamp_ms) (map_put ''level'' (JString level) found)))"

definition format_record :: "(string \<Rightarrow> Json option) \<Rightarrow> (Json \<Rightarrow> string) \<Rightarrow> string \<Rightarrow> string \<Rightarrow> int \<Rightarrow> string" where
  "format_record parse dump message level timestamp_ms = dump (log_value parse message level timestamp_ms) @ [CHR 0x0A]"

text \<open>
  A message cannot forge what the logger says about it: whatever it contains, the level and the time are
  the logger's; the other members are the message's own, or the message itself.
\<close>

theorem log_lines_are_attributed:
  assumes "\<And>m. parse message = Some (JObject m) \<Longrightarrow> map_wf m"
  shows "json_at (log_value parse message level t) ''level'' = Inr (JString level)"
    and "json_at (log_value parse message level t) ''timestamp_ms'' = Inr (JInteger t)"
    and "k \<noteq> ''level'' \<Longrightarrow> k \<noteq> ''timestamp_ms'' \<Longrightarrow> map_of (members (log_value parse message level t)) k =
      (case parse message of Some (JObject m) \<Rightarrow> map_of m k
       | _ \<Rightarrow> if k = ''message'' then Some (JString message) else None)"
proof -
  define found where "found = (case parse message of Some (JObject m) \<Rightarrow> m | _ \<Rightarrow> [(''message'', JString message)])"
  have wf: "map_wf found" using assms by (auto simp: found_def split: option.splits Json.splits)
  have v: "log_value parse message level t =
      JObject (map_put ''timestamp_ms'' (JInteger t) (map_put ''level'' (JString level) found))"
    by (simp add: log_value_def found_def Let_def)
  show "json_at (log_value parse message level t) ''level'' = Inr (JString level)"
    and "json_at (log_value parse message level t) ''timestamp_ms'' = Inr (JInteger t)"
    and "k \<noteq> ''level'' \<Longrightarrow> k \<noteq> ''timestamp_ms'' \<Longrightarrow> map_of (members (log_value parse message level t)) k =
      (case parse message of Some (JObject m) \<Rightarrow> map_of m k
       | _ \<Rightarrow> if k = ''message'' then Some (JString message) else None)"
    using wf by (auto simp: v json_at_def found_def split: option.splits Json.splits)
qed

end
