(* ===== verification/Transport_Security.thy ===== *)
theory Transport_Security
  imports Processes Client_Commands
begin

text \<open>
  The connections between the processes: \<open>make_channel\<close> and \<open>start_grpc\<close> of \<^verbatim>\<open>src/grpc/services.cpp\<close>, the
  HTTP listener of \<^verbatim>\<open>apps/server.cpp\<close> and the check of the client's URL. Files are read by the argument
  \<open>read\<close>; whether the library can start the server is an argument too.
\<close>

section \<open>Credentials\<close>

text \<open>A client checks the server with the given roots, or with the system's.\<close>

datatype ChannelCredentials = InsecureChannel | SslChannel "string option"

record Channel =
  ch_address :: string
  ch_credentials :: ChannelCredentials

definition make_channel :: "(string \<Rightarrow> string result) \<Rightarrow> string \<Rightarrow> string \<Rightarrow> bool \<Rightarrow> Channel result" where
  "make_channel read address ca_file development =
     andthen
       (if development \<and> ca_file = [] then Inr InsecureChannel
        else if ca_file = [] then Inr (SslChannel None)
        else andthen (read ca_file) (\<lambda>roots. Inr (SslChannel (Some roots))))
       (\<lambda>credentials. Inr \<lparr>ch_address = address, ch_credentials = credentials\<rparr>)"

datatype ServerCredentials = InsecureServer | SslServer string string

record GrpcServer =
  gs_address :: string
  gs_credentials :: ServerCredentials
  gs_max_receive_bytes :: int
  gs_max_threads :: int

definition start_grpc :: "(string \<Rightarrow> string result) \<Rightarrow> (GrpcServer \<Rightarrow> bool) \<Rightarrow> ServerConfig \<Rightarrow> GrpcServer result" where
  "start_grpc read starts config =
     andthen
       (if cf_development config \<and> cf_certificate config = [] then Inr InsecureServer
        else andthen (read (cf_private_key config)) (\<lambda>key.
             andthen (read (cf_certificate config)) (\<lambda>certificate. Inr (SslServer key certificate))))
       (\<lambda>credentials.
          let server = \<lparr>gs_address = cf_host config @ '':'' @ show_int (cf_grpc_port config), gs_credentials = credentials,
                        gs_max_receive_bytes = 1024 * 1024, gs_max_threads = 32\<rparr>
          in if starts server then Inr server else throw unavailable ''cannot start gRPC listener'')"

record HttpListener =
  hl_host :: string
  hl_port :: int
  hl_ssl :: bool
  hl_certificate :: string
  hl_private_key :: string

definition http_listener :: "ServerConfig \<Rightarrow> HttpListener" where
  "http_listener config = \<lparr>hl_host = cf_host config, hl_port = cf_http_port config, hl_ssl = (cf_certificate config \<noteq> []),
     hl_certificate = cf_certificate config, hl_private_key = cf_private_key config\<rparr>"

definition runner_channel :: "(string \<Rightarrow> string result) \<Rightarrow> RunnerConfig \<Rightarrow> Channel result" where
  "runner_channel read rc = make_channel read (rn_endpoint rc) (rn_ca_file rc) (rn_development rc)"

definition agent_channel :: "(string \<Rightarrow> string result) \<Rightarrow> AgentConfig \<Rightarrow> Channel result" where
  "agent_channel read ac = make_channel read (ac_endpoint ac) (ac_ca_file ac) (ac_development ac)"

section \<open>Outside development\<close>

lemma production_config_has_tls:
  assumes "load_config vars = Inr c" and "env_or vars ''RUNYARD_PROFILE'' [] \<noteq> ''development''"
  shows "\<not> cf_development c \<and> cf_certificate c \<noteq> [] \<and> cf_private_key c \<noteq> []"
proof -
  have "cf_development c = (env_or vars ''RUNYARD_PROFILE'' [] = ''development'')"
    using assms(1) by (auto simp: load_config_def Let_def split: if_splits sum.splits)
  with assms(2) load_config_ok(1)[OF assms(1)] show ?thesis by (auto simp: check_config_ok)
qed

text \<open>
  Outside the development profile no process listens or connects in plaintext: both listeners of the
  coordinator have a certificate and its key, the channels of agents and runners check the server, and
  the client refuses a URL that says \<open>http://\<close>.
\<close>

theorem production_traffic_is_encrypted:
  assumes "env_or vars ''RUNYARD_PROFILE'' [] \<noteq> ''development''"
  shows "load_config vars = Inr c \<Longrightarrow> start_grpc read starts c = Inr server \<Longrightarrow>
      \<exists>key certificate. read (cf_private_key c) = Inr key \<and> read (cf_certificate c) = Inr certificate \<and>
        gs_credentials server = SslServer key certificate"
    and "load_config vars = Inr c \<Longrightarrow> hl_ssl (http_listener c) \<and> hl_private_key (http_listener c) \<noteq> []"
    and "runner_config vars = Inr rc \<Longrightarrow> runner_channel read rc = Inr channel \<Longrightarrow> ch_credentials channel \<noteq> InsecureChannel"
    and "agent_config vars = Inr ac \<Longrightarrow> agent_channel read ac = Inr channel \<Longrightarrow> ch_credentials channel \<noteq> InsecureChannel"
    and "check_settings vars url = Inr () \<Longrightarrow> \<not> starts_with url ''http://''"
proof -
  show "load_config vars = Inr c \<Longrightarrow> start_grpc read starts c = Inr server \<Longrightarrow>
      \<exists>key certificate. read (cf_private_key c) = Inr key \<and> read (cf_certificate c) = Inr certificate \<and>
        gs_credentials server = SslServer key certificate"
    using production_config_has_tls[OF _ assms] by (auto simp: start_grpc_def Let_def ok_simps split: if_splits)
  show "load_config vars = Inr c \<Longrightarrow> hl_ssl (http_listener c) \<and> hl_private_key (http_listener c) \<noteq> []"
    using production_config_has_tls[OF _ assms] by (simp add: http_listener_def)
  show "runner_config vars = Inr rc \<Longrightarrow> runner_channel read rc = Inr channel \<Longrightarrow> ch_credentials channel \<noteq> InsecureChannel"
    using assms by (auto simp: runner_config_def runner_channel_def make_channel_def Let_def ok_simps split: if_splits)
  show "agent_config vars = Inr ac \<Longrightarrow> agent_channel read ac = Inr channel \<Longrightarrow> ch_credentials channel \<noteq> InsecureChannel"
    using assms by (auto simp: agent_config_def agent_channel_def make_channel_def Let_def ok_simps split: if_splits)
  show "check_settings vars url = Inr () \<Longrightarrow> \<not> starts_with url ''http://''"
    using assms by (auto simp: check_settings_def split: if_splits)
qed

text \<open>
  The client's check goes by the first letters of the URL only. A URL without a scheme, or with one in
  capital letters, is accepted in every profile; libcurl takes both for \<open>http\<close>.
\<close>

theorem plaintext_urls_pass_the_check:
  assumes "env_or vars ''RUNYARD_OWNER_TOKEN'' [] \<noteq> []"
  shows "check_settings vars ''coordinator:8080'' = Inr () \<and> check_settings vars ''HTTP://coordinator:8080'' = Inr ()"
  using assms by (simp add: check_settings_def starts_with_def)

end
