(* ===== verification/Spec2Isabelle.thy ===== *)
theory Spec2Isabelle
  imports Run_Service Runner_Engine Http_Api Database_Access Docker_Backend Kubernetes_Backend Kubernetes_Capacity
    Kubernetes_Controller Agent Processes Coordinator Client_Commands Attempt_Calls S3_Storage Metrics_Page
    Http_Requests Log_Lines Transport_Security
begin

text \<open>
  Runyard.
\<close>

end
